(* ===== verification/Eip712.thy ===== *)
theory Eip712
  imports Prelude
begin

text \<open>
  \<open>cpp/src/pmm/crypto/eip712_v2.cpp\<close> and its header: Keccak-256 (the permutation on 25
  64-bit lanes, the sponge with rate 136 and Ethereum padding), the conversions from
  integers, decimal and hexadecimal strings to 32-byte and 20-byte big-endian words, and
  the EIP-712 digest of a CTF Exchange V2 order.  Everything is executable; the lanes are
  read from bytes in little-endian order, as the reinterpreted array is on the deployment
  targets (x86-64, arm64).
\<close>

section \<open>Keccak-f[1600]\<close>

definition Rotl64 :: "u64 \<Rightarrow> nat \<Rightarrow> u64" where
  "Rotl64 x n = (push_bit n x) OR (drop_bit (64 - n) x)"

definition RC :: "u64 list" where
  "RC = [0x0000000000000001, 0x0000000000008082, 0x800000000000808a, 0x8000000080008000,
         0x000000000000808b, 0x0000000080000001, 0x8000000080008081, 0x8000000000008009,
         0x000000000000008a, 0x0000000000000088, 0x0000000080008009, 0x000000008000000a,
         0x000000008000808b, 0x800000000000008b, 0x8000000000008089, 0x8000000000008003,
         0x8000000000008002, 0x8000000000000080, 0x000000000000800a, 0x800000008000000a,
         0x8000000080008081, 0x8000000000008080, 0x0000000080000001, 0x8000000080008008]"

definition ROT :: "nat list" where
  "ROT = [1, 3, 6, 10, 15, 21, 28, 36, 45, 55, 2, 14, 27, 41, 56, 8, 25, 43, 62, 18, 39, 61, 20, 44]"

definition PIL :: "nat list" where
  "PIL = [10, 7, 11, 17, 18, 3, 5, 16, 8, 21, 24, 4, 15, 23, 19, 13, 12, 2, 20, 14, 22, 9, 6, 1]"

definition keccak_theta :: "u64 list \<Rightarrow> u64 list" where
  "keccak_theta st =
     (let bc = map (\<lambda>i. st ! i XOR st ! (i + 5) XOR st ! (i + 10) XOR st ! (i + 15) XOR st ! (i + 20)) [0..<5];
          t = map (\<lambda>i. bc ! ((i + 4) mod 5) XOR Rotl64 (bc ! ((i + 1) mod 5)) 1) [0..<5]
      in map (\<lambda>k. st ! k XOR t ! (k mod 5)) [0..<25])"

fun keccak_rho_pi :: "(nat \<times> nat) list \<Rightarrow> u64 \<Rightarrow> u64 list \<Rightarrow> u64 list" where
  "keccak_rho_pi [] t st = st"
| "keccak_rho_pi ((j, r) # js) t st = keccak_rho_pi js (st ! j) (st[j := Rotl64 t r])"

definition keccak_chi :: "u64 list \<Rightarrow> u64 list" where
  "keccak_chi st =
     map (\<lambda>k. let j = 5 * (k div 5); i = k mod 5
              in st ! k XOR (NOT (st ! (j + (i + 1) mod 5)) AND st ! (j + (i + 2) mod 5))) [0..<25]"

definition keccak_round :: "u64 \<Rightarrow> u64 list \<Rightarrow> u64 list" where
  "keccak_round rc st =
     (let s1 = keccak_theta st;
          s2 = keccak_rho_pi (zip PIL ROT) (s1 ! 1) s1;
          s3 = keccak_chi s2
      in s3[0 := s3 ! 0 XOR rc])"

definition KeccakF :: "u64 list \<Rightarrow> u64 list" where
  "KeccakF st = foldl (\<lambda>s rc. keccak_round rc s) st RC"

section \<open>The sponge\<close>

definition kRate :: nat where
  "kRate = 136"

fun lane_of :: "bytes \<Rightarrow> u64" where
  "lane_of [] = 0"
| "lane_of (b # bs) = ucast b OR push_bit 8 (lane_of bs)"

definition lane_bytes :: "u64 \<Rightarrow> bytes" where
  "lane_bytes w = map (\<lambda>i. ucast (drop_bit (8 * i) w)) [0..<8]"

definition xor_block :: "bytes \<Rightarrow> u64 list \<Rightarrow> u64 list" where
  "xor_block blk st = map (\<lambda>k. if 8 * k < length blk then st ! k XOR lane_of (take 8 (drop (8 * k) blk))
                               else st ! k) [0..<25]"

definition pad_block :: "bytes \<Rightarrow> bytes" where
  "pad_block rest =
     (let tmp = rest @ replicate (kRate - length rest) 0;
          tmp1 = tmp[length rest := tmp ! length rest XOR 0x01]
      in tmp1[kRate - 1 := tmp1 ! (kRate - 1) XOR 0x80])"

function absorb :: "u64 list \<Rightarrow> bytes \<Rightarrow> u64 list" where
  "absorb st data =
     (if kRate \<le> length data
      then absorb (KeccakF (xor_block (take kRate data) st)) (drop kRate data)
      else KeccakF (xor_block (pad_block data) st))"
  by pat_completeness auto
termination
  by (relation "measure (\<lambda>(st, data). length data)") (auto simp: kRate_def)

declare absorb.simps [simp del]

definition Keccak256 :: "bytes \<Rightarrow> bytes" where
  "Keccak256 data = take 32 (concat (map lane_bytes (take 4 (absorb (replicate 25 0) data))))"

section \<open>Hexadecimal and integer conversions\<close>

type_synonym Bytes32 = bytes
type_synonym Address = bytes

definition HexVal :: "char \<Rightarrow> int" where
  "HexVal c =
     (if in_range (CHR ''0'') c (CHR ''9'') then int (char_code c) - 48
      else if in_range (CHR ''a'') c (CHR ''f'') then int (char_code c) - 97 + 10
      else if in_range (CHR ''A'') c (CHR ''F'') then int (char_code c) - 65 + 10
      else -1)"

definition StripZx :: "string \<Rightarrow> string" where
  "StripZx h =
     (if 2 \<le> length h \<and> h ! 0 = CHR ''0'' \<and> (h ! 1 = CHR ''x'' \<or> h ! 1 = CHR ''X'')
      then drop 2 h else h)"

fun hex_pairs :: "string \<Rightarrow> bytes option" where
  "hex_pairs [] = Some []"
| "hex_pairs [c] = None"
| "hex_pairs (c # d # s) =
     (let hi = HexVal c; lo = HexVal d in
      if hi < 0 \<or> lo < 0 then None
      else case hex_pairs s of
             None \<Rightarrow> None
           | Some bs \<Rightarrow> Some ((push_bit 4 (of_int hi) OR of_int lo) # bs))"

definition HexToBytes :: "string \<Rightarrow> nat \<Rightarrow> bytes option" where
  "HexToBytes hex n =
     (let h = StripZx hex in if length h \<noteq> n * 2 then None else hex_pairs h)"

definition AddressFromHex :: "string \<Rightarrow> Address option" where
  "AddressFromHex hex = HexToBytes hex 20"

definition Bytes32FromHex :: "string \<Rightarrow> Bytes32 option" where
  "Bytes32FromHex hex = HexToBytes hex 32"

definition AddrTo32 :: "Address \<Rightarrow> Bytes32" where
  "AddrTo32 a = replicate 12 0 @ a"

definition U256FromU64 :: "u64 \<Rightarrow> Bytes32" where
  "U256FromU64 v = replicate 24 0 @ rev (map (\<lambda>i. ucast (drop_bit (8 * i) v)) [0..<8])"

text \<open>One decimal digit: \<open>out = out * 10 + carry\<close> over the bytes from the last to the first.\<close>

fun u256_mul10 :: "bytes \<Rightarrow> nat \<Rightarrow> bytes \<times> nat" where
  "u256_mul10 [] carry = ([], carry)"
| "u256_mul10 (b # bs) carry =
     (let x = unat b * 10 + carry;
          (bs', c') = u256_mul10 bs (x div 256)
      in (of_nat (x mod 256) # bs', c'))"

fun u256_digits :: "string \<Rightarrow> bytes \<Rightarrow> bytes option" where
  "u256_digits [] out = Some out"
| "u256_digits (c # cs) out =
     (if \<not> is_digit c then None
      else case u256_mul10 (rev out) (digit_val c) of
             (le, carry) \<Rightarrow> if carry \<noteq> 0 then None else u256_digits cs (rev le))"

definition U256FromDecimal :: "string \<Rightarrow> Bytes32 option" where
  "U256FromDecimal dec = (if dec = [] then None else u256_digits dec (replicate 32 0))"

section \<open>The order digest\<close>

definition str_bytes :: "string \<Rightarrow> bytes" where
  "str_bytes s = map (\<lambda>c. of_nat (char_code c)) s"

record Eip712Domain =
  dom_name :: string
  dom_version :: string
  dom_chain_id :: u64
  dom_contract :: Address

record OrderV2 =
  ov_salt :: Bytes32
  ov_maker :: Address
  ov_signer :: Address
  ov_token_id :: Bytes32
  ov_maker_amount :: u64
  ov_taker_amount :: u64
  ov_side :: byte
  ov_signature_type :: byte
  ov_timestamp_ms :: u64
  ov_metadata :: Bytes32
  ov_builder :: Bytes32

definition CtfExchangeV2Domain :: "bool \<Rightarrow> Eip712Domain" where
  "CtfExchangeV2Domain neg_risk =
     \<lparr> dom_name = ''Polymarket CTF Exchange'', dom_version = ''2'', dom_chain_id = 137,
       dom_contract =
         (case AddressFromHex (if neg_risk then ''0xe2222d279d744050d28e00520010520000310F59''
                               else ''0xE111180000d2663C0091e4f400237545B87B996B'') of
            Some a \<Rightarrow> a | None \<Rightarrow> replicate 20 0) \<rparr>"

definition kOrderType :: string where
  "kOrderType =
     ''Order(uint256 salt,address maker,address signer,uint256 tokenId,uint256 makerAmount,'' @
     ''uint256 takerAmount,uint8 side,uint8 signatureType,uint256 timestamp,'' @
     ''bytes32 metadata,bytes32 builder)''"

definition order_fields :: "OrderV2 \<Rightarrow> bytes" where
  "order_fields o1 =
     ov_salt o1 @ AddrTo32 (ov_maker o1) @ AddrTo32 (ov_signer o1) @ ov_token_id o1 @
     U256FromU64 (ov_maker_amount o1) @ U256FromU64 (ov_taker_amount o1) @
     U256FromU64 (ucast (ov_side o1)) @ U256FromU64 (ucast (ov_signature_type o1)) @
     U256FromU64 (ov_timestamp_ms o1) @ ov_metadata o1 @ ov_builder o1"

definition order_struct_buf :: "OrderV2 \<Rightarrow> bytes" where
  "order_struct_buf o1 = Keccak256 (str_bytes kOrderType) @ order_fields o1"

definition kDomainType :: string where
  "kDomainType = ''EIP712Domain(string name,string version,uint256 chainId,address verifyingContract)''"

definition domain_buf :: "Eip712Domain \<Rightarrow> bytes" where
  "domain_buf d =
     Keccak256 (str_bytes kDomainType) @ Keccak256 (str_bytes (dom_name d)) @
     Keccak256 (str_bytes (dom_version d)) @ U256FromU64 (dom_chain_id d) @
     AddrTo32 (dom_contract d)"

definition eip712_preimage :: "Bytes32 \<Rightarrow> Bytes32 \<Rightarrow> bytes" where
  "eip712_preimage domain_sep struct_hash = [0x19, 0x01] @ domain_sep @ struct_hash"

definition ComputeOrderV2Digest :: "OrderV2 \<Rightarrow> Eip712Domain \<Rightarrow> Bytes32" where
  "ComputeOrderV2Digest o1 d =
     (let struct_hash = Keccak256 (order_struct_buf o1);
          domain_sep = Keccak256 (domain_buf d)
      in Keccak256 (eip712_preimage domain_sep struct_hash))"

definition order_wf :: "OrderV2 \<Rightarrow> bool" where
  "order_wf o1 \<longleftrightarrow> length (ov_salt o1) = 32 \<and> length (ov_maker o1) = 20 \<and> length (ov_signer o1) = 20 \<and>
     length (ov_token_id o1) = 32 \<and> length (ov_metadata o1) = 32 \<and> length (ov_builder o1) = 32"

section \<open>Lengths\<close>

lemma length_theta [simp]: "length (keccak_theta st) = 25"
  by (simp add: keccak_theta_def Let_def)

lemma length_rho_pi [simp]: "length (keccak_rho_pi js t st) = length st"
  by (induction js t st rule: keccak_rho_pi.induct) auto

lemma length_chi [simp]: "length (keccak_chi st) = 25"
  by (simp add: keccak_chi_def)

lemma length_round [simp]: "length (keccak_round rc st) = 25"
  by (simp add: keccak_round_def Let_def)

lemma length_foldl_round: "rcs \<noteq> [] \<Longrightarrow> length (foldl (\<lambda>s rc. keccak_round rc s) st rcs) = 25"
  by (induction rcs arbitrary: st rule: rev_induct) auto

lemma length_KeccakF [simp]: "length (KeccakF st) = 25"
  by (simp add: KeccakF_def RC_def)

lemma length_absorb [simp]: "length (absorb st data) = 25"
proof (induction st data rule: absorb.induct)
  case (1 st data)
  then show ?case by (subst absorb.simps) simp
qed

lemma length_lane_bytes [simp]: "length (lane_bytes w) = 8"
  by (simp add: lane_bytes_def)

lemma length_concat_lanes [simp]: "length (concat (map lane_bytes ws)) = 8 * length ws"
  by (induction ws) auto

lemma length_Keccak256 [simp]: "length (Keccak256 data) = 32"
  by (simp add: Keccak256_def)

lemma length_U256FromU64 [simp]: "length (U256FromU64 v) = 32"
  by (simp add: U256FromU64_def)

lemma length_AddrTo32 [simp]: "length a = 20 \<Longrightarrow> length (AddrTo32 a) = 32"
  by (simp add: AddrTo32_def)

lemma length_order_fields: "order_wf o1 \<Longrightarrow> length (order_fields o1) = 32 * 11"
  by (simp add: order_fields_def order_wf_def)

section \<open>Values\<close>

lemma le_val_digits: "le_val (map (\<lambda>i. of_nat (n div 256 ^ i) :: byte) [0..<k]) = n mod 256 ^ k"
proof (induction k arbitrary: n)
  case (Suc k)
  have "map (\<lambda>i. of_nat (n div 256 ^ i) :: byte) [0..<Suc k] =
        of_nat n # map (\<lambda>i. of_nat ((n div 256) div 256 ^ i)) [0..<k]"
    by (simp add: map_upt_Suc div_mult2_eq del: upt_Suc)
  then have "le_val (map (\<lambda>i. of_nat (n div 256 ^ i) :: byte) [0..<Suc k]) =
      n mod 256 + 256 * ((n div 256) mod 256 ^ k)"
    using Suc[of "n div 256"] by (simp add: unsigned_of_nat take_bit_eq_mod del: upt_Suc)
  also have "\<dots> = n mod 256 ^ Suc k"
    by (simp add: mod_mult2_eq)
  finally show ?case .
qed simp

lemma drop_byte: "ucast (drop_bit (8 * i) (v::u64)) = (of_nat (unat v div 256 ^ i) :: byte)"
proof -
  have "unat (drop_bit (8 * i) v) = unat v div 2 ^ (8 * i)"
    by (metis unat_drop_bit_eq drop_bit_eq_div)
  also have "\<dots> = unat v div 256 ^ i" by (simp add: power_mult)
  finally have "unat (drop_bit (8 * i) v) = unat v div 256 ^ i" .
  then have "unat (ucast (drop_bit (8 * i) v) :: byte) = unat (of_nat (unat v div 256 ^ i) :: byte)"
    by (simp only: unsigned_ucast_eq unsigned_of_nat of_nat_id)
  then show ?thesis by (rule unsigned_word_eqI)
qed

lemma le_val_lane_bytes: "le_val (lane_bytes w) = unat w"
proof -
  have "le_val (lane_bytes w) = unat w mod 256 ^ 8"
    unfolding lane_bytes_def drop_byte by (rule le_val_digits)
  also have "\<dots> = unat w"
  proof -
    have "unat w < 2 ^ LENGTH(64)" by (rule unsigned_less)
    then show ?thesis by simp
  qed
  finally show ?thesis .
qed

lemma U256FromU64_lane: "U256FromU64 v = replicate 24 0 @ rev (lane_bytes v)"
  by (simp add: U256FromU64_def lane_bytes_def)

lemma be_val_U256FromU64 [simp]: "be_val (U256FromU64 v) = unat v"
  by (simp add: U256FromU64_lane be_val_rev le_val_lane_bytes)

lemma U256FromU64_inj [simp]: "U256FromU64 v = U256FromU64 w \<longleftrightarrow> v = w"
  by (metis be_val_U256FromU64 unsigned_word_eqI)

lemma AddrTo32_inj [simp]: "AddrTo32 a = AddrTo32 b \<longleftrightarrow> a = b"
  by (simp add: AddrTo32_def)

lemma unat_ucast_byte [simp]: "unat (ucast (a::byte) :: u64) = unat a"
proof -
  have "unat (ucast a :: u64) = take_bit 64 (unat a)" by (simp only: unsigned_ucast_eq) simp
  also have "\<dots> = unat a" using unat_byte_less[of a] by (simp add: take_bit_eq_mod del: unat_byte_less)
  finally show ?thesis .
qed

lemma ucast_byte_u64_inj [simp]: "(ucast (a::byte) :: u64) = ucast b \<longleftrightarrow> a = b"
  by (metis unat_ucast_byte unsigned_word_eqI)

lemma u256_mul10_spec:
  "u256_mul10 bs c = (bs', c') \<Longrightarrow>
     length bs' = length bs \<and> le_val bs' + 256 ^ length bs * c' = 10 * le_val bs + c"
proof (induction bs c arbitrary: bs' c' rule: u256_mul10.induct)
  case (2 b bs c)
  let ?x = "unat b * 10 + c"
  obtain bs1 c1 where r: "u256_mul10 bs (?x div 256) = (bs1, c1)" by fastforce
  have IH: "length bs1 = length bs" "le_val bs1 + 256 ^ length bs * c1 = 10 * le_val bs + ?x div 256"
    using "2.IH"[OF refl r] by auto
  have out: "bs' = of_nat (?x mod 256) # bs1" "c' = c1"
    using "2.prems" r by (auto simp: Let_def)
  have u: "unat (of_nat (?x mod 256) :: byte) = ?x mod 256"
    by (simp add: unsigned_of_nat take_bit_eq_mod)
  have "le_val bs' + 256 ^ length (b # bs) * c' =
        ?x mod 256 + 256 * (le_val bs1 + 256 ^ length bs * c1)"
    by (simp add: out u del: u) (simp add: u distrib_left)
  also have "\<dots> = (?x mod 256 + 256 * (?x div 256)) + 10 * (256 * le_val bs)"
    by (simp add: IH distrib_left)
  also have "?x mod 256 + 256 * (?x div 256) = ?x" by (rule mod_mult_div_eq)
  finally show ?case using IH out by simp
qed auto

lemma dec_acc: "foldl (\<lambda>a c. 10 * a + digit_val c) k s = 10 ^ length s * k + dec_val s"
proof (induction s arbitrary: k)
  case (Cons c s)
  show ?case using Cons[of "10 * k + digit_val c"] Cons[of "digit_val c"]
    by (simp add: dec_val_def algebra_simps)
qed (simp add: dec_val_def)

lemma dec_val_Cons: "dec_val (c # s) = 10 ^ length s * digit_val c + dec_val s"
  using dec_acc[of "digit_val c" s] by (simp add: dec_val_def)

text \<open>The digit loop against the value of the whole string.\<close>

lemma u256_digits_iff:
  assumes "length out = 32"
  shows "u256_digits s out = Some r \<longleftrightarrow>
    (\<forall>c \<in> set s. is_digit c) \<and> length r = 32 \<and> be_val r = 10 ^ length s * be_val out + dec_val s"
  using assms
proof (induction s arbitrary: out)
  case Nil
  then show ?case using be_val_inj[of r out] by (auto simp: dec_val_def)
next
  case (Cons c s)
  obtain le carry where m: "u256_mul10 (rev out) (digit_val c) = (le, carry)" by fastforce
  have len: "length le = 32" and v: "le_val le + 256 ^ 32 * carry = 10 * be_val out + digit_val c"
    using u256_mul10_spec[OF m] Cons.prems be_val_rev[of "rev out"] by auto
  have rhs: "10 ^ length (c # s) * be_val out + dec_val (c # s) =
             10 ^ length s * (le_val le + 256 ^ 32 * carry) + dec_val s"
    unfolding v by (simp add: dec_val_Cons algebra_simps)
  show ?case
  proof (cases "carry = 0")
    case True
    have "u256_digits s (rev le) = Some r \<longleftrightarrow>
       (\<forall>c \<in> set s. is_digit c) \<and> length r = 32 \<and> be_val r = 10 ^ length s * le_val le + dec_val s"
      using Cons.IH[of "rev le"] len by (simp add: be_val_rev)
    then show ?thesis using True rhs by (simp add: m)
  next
    case False
    have "(256::nat) ^ 32 \<le> 256 ^ 32 * carry" using False by simp
    also have "\<dots> \<le> le_val le + 256 ^ 32 * carry" by simp
    also have "\<dots> \<le> 10 ^ length s * (le_val le + 256 ^ 32 * carry)" by simp
    also have "\<dots> \<le> 10 ^ length (c # s) * be_val out + dec_val (c # s)" unfolding rhs by simp
    finally have "be_val r < 10 ^ length (c # s) * be_val out + dec_val (c # s)" if "length r = 32"
      using be_val_less[of r] that by simp
    then show ?thesis using False by (auto simp: m)
  qed
qed

text \<open>Hexadecimal text and its inverse.\<close>

lemma HexVal_range: "- 1 \<le> HexVal c \<and> HexVal c < 16"
  by (auto simp: HexVal_def in_range_def char_code_def)

lemma hex_pairs_length: "hex_pairs s = Some bs \<Longrightarrow> length s = 2 * length bs"
  by (induction s arbitrary: bs rule: hex_pairs.induct) (auto simp: Let_def split: if_splits option.splits)

lemma HexToBytes_length: "HexToBytes s n = Some bs \<Longrightarrow> length bs = n"
  by (auto simp: HexToBytes_def Let_def split: if_splits dest: hex_pairs_length)

definition hex_digit :: "byte \<Rightarrow> char" where
  "hex_digit d = ''0123456789abcdef'' ! unat d"

text \<open>\<open>to_hex\<close> of \<open>chain/merge_flatten.cpp\<close> and \<open>chain/polygon_rpc.cpp\<close>\<close>

definition to_hex :: "bytes \<Rightarrow> string" where
  "to_hex bs = ''0x'' @ concat (map (\<lambda>b. [hex_digit (drop_bit 4 b), hex_digit (b AND 0x0f)]) bs)"

lemma HexVal_nth: "n < 16 \<Longrightarrow> HexVal (''0123456789abcdef'' ! n) = int n"
proof -
  have "\<forall>n \<in> {..<16}. HexVal (''0123456789abcdef'' ! n) = int n" by code_simp
  then show "n < 16 \<Longrightarrow> HexVal (''0123456789abcdef'' ! n) = int n" by simp
qed

lemma mask4: "(0x0f :: byte) = mask 4"
  by (simp add: mask_eq_exp_minus_1)

lemma nibble_less: "unat (drop_bit 4 (b::byte)) < 16" "unat (b AND 0x0f) < 16"
proof -
  have "unat (drop_bit 4 b) = unat b div 16" 
    using drop_bit_eq_div[of 4 "unat b"] by (simp add: unat_drop_bit_eq)
  then show "unat (drop_bit 4 (b::byte)) < 16" using less_mult_imp_div_less[of "unat b" 16 16] by simp
  show "unat (b AND 0x0f) < 16"  unfolding mask4
    using take_bit_nat_less_exp[of 4 "unat b"] by (simp flip: take_bit_eq_mask add: unsigned_take_bit_eq)
qed

lemma nibble_join: "push_bit 4 (drop_bit 4 b) OR (b AND 0x0f) = (b::byte)"
  unfolding mask4 by (rule bit_word_eqI) (auto simp: bit_simps)

lemma HexVal_digit: "unat (d::byte) < 16 \<Longrightarrow> HexVal (hex_digit d) = uint d"
  by (simp add: hex_digit_def HexVal_nth)

lemma hex_pairs_to_hex:
  "hex_pairs (concat (map (\<lambda>b. [hex_digit (drop_bit 4 b), hex_digit (b AND 0x0f)]) bs)) = Some bs"
  by (induction bs) (simp_all add: Let_def HexVal_digit nibble_less nibble_join not_less del: One_nat_def)

text \<open>
  Printing bytes as \<open>0x\<close> hexadecimal and reading them back with the code's own parser
  (\<open>HexToBytes\<close>, behind \<open>AddressFromHex\<close> and \<open>Bytes32FromHex\<close>) returns exactly those bytes.
\<close>

theorem hex_roundtrip: "HexToBytes (to_hex bs) (length bs) = Some bs"
proof -
  let ?h = "concat (map (\<lambda>b. [hex_digit (drop_bit 4 b), hex_digit (b AND 0x0f)]) bs)"
  have "length ?h = length bs * 2" by (induction bs) auto
  moreover have "StripZx (to_hex bs) = ?h" by (simp add: StripZx_def to_hex_def)
  ultimately show ?thesis by (simp add: HexToBytes_def hex_pairs_to_hex)
qed

text \<open>
  \<open>U256FromDecimal\<close> accepts exactly the non-empty strings of decimal digits whose value
  fits in 256 bits, and the 32 bytes it returns are that value in big-endian order; every
  other string (empty, a foreign character, an overflow at any digit) is refused.
\<close>

theorem U256FromDecimal_iff:
  "U256FromDecimal s = Some r \<longleftrightarrow>
     s \<noteq> [] \<and> list_all is_digit s \<and> length r = 32 \<and> be_val r = dec_val s"
proof -
  have "be_val (replicate 32 (0::byte)) = 0" using be_val_replicate0[of 32 "[]"] by simp
  then show ?thesis by (auto simp: U256FromDecimal_def u256_digits_iff list_all_iff)
qed

text \<open>
  Two well-formed orders with the same encoded field buffer are the same order, so the
  struct hash of an order commits to every one of its eleven fields.
\<close>

theorem order_fields_inj:
  assumes "order_wf a" and "order_wf b" and "a \<noteq> b"
  shows "order_fields a \<noteq> order_fields b"
proof
  assume "order_fields a = order_fields b"
  with assms(1,2) have "(a::OrderV2) = b"
    by (auto simp: order_fields_def order_wf_def append_eq_append_conv intro!: OrderV2.equality)
  with assms(3) show False by contradiction
qed

definition sample_order :: OrderV2 where
  "sample_order =
     \<lparr> ov_salt = replicate 32 1, ov_maker = replicate 20 2, ov_signer = replicate 20 3,
       ov_token_id = replicate 32 4, ov_maker_amount = 5, ov_taker_amount = 6, ov_side = 0,
       ov_signature_type = 1, ov_timestamp_ms = 7, ov_metadata = replicate 32 0,
       ov_builder = replicate 32 0 \<rparr>"

theorem order_fields_inj_witness:
  "order_fields sample_order \<noteq> order_fields (sample_order\<lparr>ov_side := 1\<rparr>)"
  by (rule order_fields_inj) (simp_all add: order_wf_def sample_order_def)

end
