(* ===== verification/Rlp.thy ===== *)
theory Rlp
  imports Eip712
begin

text \<open>
  \<open>cpp/src/pmm/chain/rlp.cpp\<close>: the Recursive Length Prefix encoder used to build
  transactions, with a decoder as its specification.  The decoder takes the first item off
  a byte string (its kind, its payload and what follows), so an encoder that it inverts is
  prefix free; the locale \<open>prefix_codec\<close> draws the consequences for sequences of items and
  is interpreted on the encoders of strings and of lists.
\<close>

section \<open>The encoder\<close>

function MinBE :: "u64 \<Rightarrow> bytes" where
  "MinBE n = (if n \<noteq> 0 then MinBE (drop_bit 8 n) @ [ucast (n AND 0xff)] else [])"
  by pat_completeness auto
termination
proof (relation "measure unat")
  fix n :: u64
  assume "n \<noteq> 0"
  then have "unat n \<noteq> 0" by (simp add: unsigned_eq_0_iff)
  moreover have "unat (drop_bit 8 n) = unat n div 256"
    using drop_bit_eq_div[of 8 "unat n"] by (simp add: unat_drop_bit_eq)
  ultimately show "(drop_bit 8 n, n) \<in> measure unat" by simp
qed simp

declare MinBE.simps [simp del]

definition AppendLenPrefix :: "bytes \<Rightarrow> nat \<Rightarrow> byte \<Rightarrow> byte \<Rightarrow> bytes" where
  "AppendLenPrefix out len short_tag long_tag =
     (if len \<le> 55 then out @ [short_tag + of_nat len]
      else let be = MinBE (of_nat len) in (out @ [long_tag + of_nat (length be)]) @ be)"

definition EncodeBytes :: "bytes \<Rightarrow> bytes" where
  "EncodeBytes data =
     (if length data = 1 \<and> data ! 0 < 0x80 then [data ! 0]
      else AppendLenPrefix [] (length data) 0x80 0xb7 @ data)"

definition EncodeUint :: "u64 \<Rightarrow> bytes" where
  "EncodeUint v = EncodeBytes (MinBE v)"

definition EncodeUintBE :: "bytes \<Rightarrow> bytes" where
  "EncodeUintBE be = EncodeBytes (dropWhile (\<lambda>b. b = 0) be)"

definition EncodeList :: "bytes list \<Rightarrow> bytes" where
  "EncodeList items =
     (let payload = concat items in AppendLenPrefix [] (length payload) 0xc0 0xf7 @ payload)"

section \<open>Minimal big-endian lengths\<close>

lemma unat_byte_split: "unat (drop_bit 8 (n::u64)) = unat n div 256" "unat (ucast (n AND 0xff) :: byte) = unat n mod 256"
proof -
  show "unat (drop_bit 8 (n::u64)) = unat n div 256"
    using drop_bit_eq_div[of 8 "unat n"] by (simp add: unat_drop_bit_eq)
  have m: "(0xff :: u64) = mask 8" by (simp add: mask_eq_exp_minus_1)
  show "unat (ucast (n AND 0xff) :: byte) = unat n mod 256"
  proof -
    have "unat (ucast (n AND mask 8) :: byte) = take_bit 8 (take_bit 8 (unat n))"
      by (simp only: unsigned_ucast_eq unsigned_take_bit_eq flip: take_bit_eq_mask) simp
    also have "\<dots> = unat n mod 256" by (simp only: take_bit_eq_mod) simp
    finally show ?thesis unfolding m .
  qed
qed

lemma be_val_MinBE [simp]: "be_val (MinBE n) = unat n"
proof (induction n rule: MinBE.induct)
  case (1 n)
  show ?case
  proof (cases "n = 0")
    case True
    then show ?thesis by (subst MinBE.simps) simp
  next
    case False
    with 1 have "be_val (MinBE (drop_bit 8 n)) = unat n div 256" by (simp add: unat_byte_split)
    with False show ?thesis
      by (subst MinBE.simps) (simp add: be_val_append unat_byte_split)
  qed
qed

lemma MinBE_0 [simp]: "MinBE 0 = []"
  by (subst MinBE.simps) simp

lemma MinBE_Nil_iff [simp]: "MinBE n = [] \<longleftrightarrow> n = 0"
  by (subst MinBE.simps) simp

text \<open>No leading zero: the encoding of a number is the shortest one.\<close>

lemma MinBE_hd: "n \<noteq> 0 \<Longrightarrow> hd (MinBE n) \<noteq> 0"
proof (induction n rule: MinBE.induct)
  case (1 n)
  show ?case
  proof (cases "drop_bit 8 n = 0")
    case True
    then have d: "unat n div 256 = 0" by (simp flip: unat_byte_split(1))
    have "unat n \<noteq> 0" using "1.prems" by (simp add: unsigned_eq_0_iff)
    with d have "unat n mod 256 \<noteq> 0" by auto
    then have "ucast (n AND 0xff) \<noteq> (0::byte)" by (metis unat_byte_split(2) unsigned_0)
    with True "1.prems" show ?thesis by (subst MinBE.simps) simp
  next
    case False
    with 1 have "hd (MinBE (drop_bit 8 n)) \<noteq> 0" by simp
    with False "1.prems" show ?thesis by (subst MinBE.simps) (simp add: hd_append)
  qed
qed

lemma be_val_ge: "bs \<noteq> [] \<Longrightarrow> hd bs \<noteq> 0 \<Longrightarrow> 256 ^ (length bs - 1) \<le> be_val bs"
proof (cases bs)
  case (Cons b bs')
  assume "hd bs \<noteq> 0"
  with Cons have "unat b \<noteq> 0" by (simp add: unsigned_eq_0_iff)
  then have "1 \<le> unat b" by simp
  then have "256 ^ length bs' * 1 \<le> 256 ^ length bs' * unat b" by (rule mult_le_mono2)
  then have "256 ^ length bs' \<le> 256 ^ length bs' * unat b + be_val bs'" by linarith
  then show ?thesis using Cons by simp
qed simp

lemma length_MinBE: "length (MinBE n) \<le> 8"
proof (cases "n = 0")
  case False
  have "256 ^ (length (MinBE n) - 1) \<le> unat n"
    using be_val_ge[of "MinBE n"] False MinBE_hd[OF False] by simp
  also have "\<dots> < 256 ^ 8"
  proof -
    have "unat n < 2 ^ LENGTH(64)" by (rule unsigned_less)
    then show ?thesis by simp
  qed
  finally have lt: "(256::nat) ^ (length (MinBE n) - 1) < 256 ^ 8" .
  have "length (MinBE n) - 1 < 8" by (rule power_less_imp_less_exp[OF _ lt]) simp
  then show ?thesis by simp
qed simp

section \<open>The decoder\<close>

definition split_at :: "nat \<Rightarrow> bytes \<Rightarrow> (bytes \<times> bytes) option" where
  "split_at n bs = (if n \<le> length bs then Some (take n bs, drop n bs) else None)"

definition long_item :: "bool \<Rightarrow> nat \<Rightarrow> bytes \<Rightarrow> (bool \<times> bytes \<times> bytes) option" where
  "long_item lst n rest =
     (case split_at n rest of None \<Rightarrow> None
      | Some (be, r) \<Rightarrow> map_option (\<lambda>(p, r'). (lst, p, r')) (split_at (be_val be) r))"

fun rlp_head :: "bytes \<Rightarrow> (bool \<times> bytes \<times> bytes) option" where
  "rlp_head [] = None"
| "rlp_head (b # rest) =
     (let t = unat b in
      if t < 0x80 then Some (False, [b], rest)
      else if t \<le> 0xb7 then map_option (\<lambda>(p, r). (False, p, r)) (split_at (t - 0x80) rest)
      else if t \<le> 0xbf then long_item False (t - 0xb7) rest
      else if t \<le> 0xf7 then map_option (\<lambda>(p, r). (True, p, r)) (split_at (t - 0xc0) rest)
      else long_item True (t - 0xf7) rest)"

lemma split_at_append [simp]: "split_at (length xs) (xs @ ys) = Some (xs, ys)"
  by (simp add: split_at_def)

lemma unat_tag: "unat (t::byte) + n < 256 \<Longrightarrow> unat (t + of_nat n) = unat t + n"
  by (simp add: unat_word_ariths unsigned_of_nat take_bit_eq_mod mod_add_right_eq)

text \<open>A length prefix read back: the tag byte, then the payload it announces.\<close>

lemma rlp_head_prefix:
  assumes "length p < 2 ^ 64" and "unat s = (if lst then 0xc0 else 0x80)" and "unat l = (if lst then 0xf7 else 0xb7)"
  shows "rlp_head (AppendLenPrefix [] (length p) s l @ p @ rest) = Some (lst, p, rest)"
proof (cases "length p \<le> 55")
  case True
  have "unat (s + of_nat (length p)) = unat s + length p" using True assms(2) by (intro unat_tag) auto
  then show ?thesis using True assms(2) by (auto simp: AppendLenPrefix_def)
next
  case False
  let ?n = "of_nat (length p) :: u64"
  have un: "unat ?n = length p" using assms(1) by (simp add: unsigned_of_nat take_bit_eq_mod)
  have n0: "?n \<noteq> 0" using un False by auto
  have len: "length (MinBE ?n) \<le> 8" by (rule length_MinBE)
  have pos: "1 \<le> length (MinBE ?n)" using n0 by (simp add: Suc_le_eq)
  have tag: "unat (l + of_nat (length (MinBE ?n))) = unat l + length (MinBE ?n)"
    using len assms(3) by (intro unat_tag) auto
  have li: "long_item lst (length (MinBE ?n)) (MinBE ?n @ p @ rest) = Some (lst, p, rest)"
    by (simp add: long_item_def un)
  show ?thesis using False tag li assms(3) pos len
    by (auto simp: AppendLenPrefix_def Let_def split del: if_split)
       (auto split: if_splits)
qed

lemma rlp_head_bytes: "length d < 2 ^ 64 \<Longrightarrow> rlp_head (EncodeBytes d @ rest) = Some (False, d, rest)"
proof (cases "length d = 1 \<and> d ! 0 < 0x80")
  case True
  assume "length d < 2 ^ 64"
  from True obtain b where "d = [b]" by (metis One_nat_def length_0_conv length_Suc_conv)
  with True have "d = [b]" "unat b < 128" by (simp_all add: word_less_nat_alt)
  then show ?thesis by (simp add: EncodeBytes_def word_less_nat_alt)
next
  case False
  assume "length d < 2 ^ 64"
  then have "rlp_head (AppendLenPrefix [] (length d) 0x80 0xb7 @ d @ rest) = Some (False, d, rest)"
    by (rule rlp_head_prefix) simp_all
  moreover have "EncodeBytes d = AppendLenPrefix [] (length d) 0x80 0xb7 @ d"
    using False by (simp only: EncodeBytes_def if_False)
  ultimately show ?thesis by simp
qed

lemma rlp_head_list:
  "length (concat items) < 2 ^ 64 \<Longrightarrow> rlp_head (EncodeList items @ rest) = Some (True, concat items, rest)"
  using rlp_head_prefix[of "concat items" "0xc0" True "0xf7" rest] by (simp add: EncodeList_def Let_def)

section \<open>Prefix codecs\<close>

fun dec_seq :: "(bytes \<Rightarrow> ('a \<times> bytes) option) \<Rightarrow> nat \<Rightarrow> bytes \<Rightarrow> ('a list \<times> bytes) option" where
  "dec_seq dec 0 bs = Some ([], bs)"
| "dec_seq dec (Suc n) bs =
     (case dec bs of None \<Rightarrow> None
      | Some (x, r) \<Rightarrow> (case dec_seq dec n r of None \<Rightarrow> None | Some (xs, r') \<Rightarrow> Some (x # xs, r')))"

locale prefix_codec =
  fixes enc :: "'a \<Rightarrow> bytes" and dec :: "bytes \<Rightarrow> ('a \<times> bytes) option" and valid :: "'a \<Rightarrow> bool"
  assumes dec_enc: "valid x \<Longrightarrow> dec (enc x @ rest) = Some (x, rest)"
begin

lemma dec_enc_exact: "valid x \<Longrightarrow> dec (enc x) = Some (x, [])"
  using dec_enc[of x "[]"] by simp

lemma enc_prefix_free:
  assumes "valid x" and "valid y" and "enc x @ r = enc y @ s"
  shows "x = y \<and> r = s"
proof -
  have "dec (enc x @ r) = dec (enc y @ s)" by (simp only: assms(3))
  then have "Some (x, r) = Some (y, s)"
    by (simp only: dec_enc[OF assms(1)] dec_enc[OF assms(2)])
  then show ?thesis by simp
qed

lemma dec_seq_enc:
  "list_all valid xs \<Longrightarrow> dec_seq dec (length xs) (concat (map enc xs) @ rest) = Some (xs, rest)"
  by (induction xs) (auto simp: dec_enc)

lemma concat_inj:
  assumes "list_all valid xs" and "list_all valid ys" and "length xs = length ys"
    and "concat (map enc xs) @ r = concat (map enc ys) @ s"
  shows "xs = ys \<and> r = s"
proof -
  have "dec_seq dec (length xs) (concat (map enc xs) @ r) = dec_seq dec (length ys) (concat (map enc ys) @ s)"
    by (simp only: assms(3,4))
  then have "Some (xs, r) = Some (ys, s)"
    by (simp only: dec_seq_enc[OF assms(1)] dec_seq_enc[OF assms(2)])
  then show ?thesis by simp
qed

end

definition rlp_string :: "bytes \<Rightarrow> (bytes \<times> bytes) option" where
  "rlp_string bs = (case rlp_head bs of Some (False, p, r) \<Rightarrow> Some (p, r) | _ \<Rightarrow> None)"

definition rlp_list :: "bytes \<Rightarrow> (bytes \<times> bytes) option" where
  "rlp_list bs = (case rlp_head bs of Some (True, p, r) \<Rightarrow> Some (p, r) | _ \<Rightarrow> None)"

definition fits64 :: "bytes \<Rightarrow> bool" where
  "fits64 d \<longleftrightarrow> length d < 2 ^ 64"

lemma rlp_string_head: "rlp_head bs = Some (False, p, r) \<Longrightarrow> rlp_string bs = Some (p, r)"
  and rlp_list_head: "rlp_head bs = Some (True, p, r) \<Longrightarrow> rlp_list bs = Some (p, r)"
  by (simp_all add: rlp_string_def rlp_list_def)

lemma rlp_head_list1: "fits64 p \<Longrightarrow> rlp_head (EncodeList [p] @ rest) = Some (True, p, rest)"
  using rlp_head_list[of "[p]" rest] unfolding fits64_def by simp

interpretation rlp_str: prefix_codec EncodeBytes rlp_string fits64
  by unfold_locales (rule rlp_string_head, rule rlp_head_bytes, unfold fits64_def)

interpretation rlp_lst: prefix_codec "\<lambda>p. EncodeList [p]" rlp_list fits64
  by unfold_locales (rule rlp_list_head, rule rlp_head_list1)

lemma EncodeList_payload: "EncodeList items = EncodeList [concat items]"
  by (simp add: EncodeList_def)

lemma fits64_MinBE [simp]: "fits64 (MinBE n)"
  using length_MinBE[of n] by (simp add: fits64_def)

lemma be_val_dropWhile [simp]: "be_val (dropWhile (\<lambda>b. b = 0) bs) = be_val bs"
  by (induction bs) auto

text \<open>
  An RLP string item is self-delimiting: whatever bytes follow it, the decoder takes back
  exactly the encoded bytes and leaves the rest untouched.
\<close>

theorem rlp_bytes_roundtrip:
  "length d < 2 ^ 64 \<Longrightarrow> rlp_string (EncodeBytes d @ rest) = Some (d, rest)"
  using rlp_str.dec_enc[of d rest] by (simp add: fits64_def)

theorem rlp_bytes_roundtrip_witness:
  "rlp_string (EncodeBytes (replicate 60 7) @ [1, 2]) = Some (replicate 60 7, [1, 2])"
  by (rule rlp_bytes_roundtrip) simp

text \<open>
  The integer encodings are canonical: the decoded payload of \<open>EncodeUint v\<close> has the value
  \<open>v\<close>, no leading zero byte and at most eight bytes; in particular 0 is the empty string.
\<close>

theorem EncodeUint_canonical:
  "\<exists>p. rlp_string (EncodeUint v) = Some (p, []) \<and> be_val p = unat v \<and> length p \<le> 8 \<and>
       (p = [] \<longleftrightarrow> v = 0) \<and> \<not> (v \<noteq> 0 \<and> hd p = 0)"
  using rlp_str.dec_enc_exact[of "MinBE v"] MinBE_hd[of v] length_MinBE[of v]
  by (auto simp: EncodeUint_def)

end
