(* ===== verification/Eip1559.thy ===== *)
theory Eip1559
  imports Rlp
begin

text \<open>
  \<open>cpp/src/pmm/crypto/secp256k1_signer.cpp\<close> and \<open>cpp/src/pmm/chain/eip1559.cpp\<close>: signing,
  address recovery and derivation over the secp256k1 library, and the construction and
  signing of a type-2 transaction.  The three library calls are the fields of the record
  \<open>secp256k1\<close>, a parameter of every definition that uses them; nothing is assumed of them.
\<close>

section \<open>The signer\<close>

record secp256k1 =
  sign_recoverable :: "Bytes32 \<Rightarrow> Bytes32 \<Rightarrow> (bytes \<times> nat) option"
  ec_recover :: "bytes \<Rightarrow> nat \<Rightarrow> Bytes32 \<Rightarrow> bytes option"
  ec_pubkey_create :: "Bytes32 \<Rightarrow> bytes option"

definition PubkeyToAddress :: "bytes \<Rightarrow> Address" where
  "PubkeyToAddress pub65 = take 20 (drop 12 (Keccak256 (take 64 (drop 1 pub65))))"

definition SignDigest :: "secp256k1 \<Rightarrow> Bytes32 \<Rightarrow> Bytes32 \<Rightarrow> bytes option" where
  "SignDigest lib digest private_key =
     (case sign_recoverable lib digest private_key of None \<Rightarrow> None
      | Some (sig64, recid) \<Rightarrow> Some (take 64 sig64 @ [of_nat (recid + 27)]))"

definition RecoverAddress :: "secp256k1 \<Rightarrow> Bytes32 \<Rightarrow> bytes \<Rightarrow> Address option" where
  "RecoverAddress lib digest sig =
     (let recid = int (unat (sig ! 64)) - 27 in
      if recid < 0 \<or> 3 < recid then None
      else map_option PubkeyToAddress (ec_recover lib (take 64 sig) (nat recid) digest))"

definition DeriveAddress :: "secp256k1 \<Rightarrow> Bytes32 \<Rightarrow> Address option" where
  "DeriveAddress lib private_key = map_option PubkeyToAddress (ec_pubkey_create lib private_key)"

section \<open>Transactions\<close>

record Eip1559Tx =
  tx_chain_id :: u64
  tx_nonce :: u64
  tx_max_priority_fee :: u64
  tx_max_fee :: u64
  tx_gas_limit :: u64
  tx_to :: Address
  tx_value :: u64
  tx_data :: bytes

definition UnsignedItems :: "Eip1559Tx \<Rightarrow> bytes list" where
  "UnsignedItems tx =
     [EncodeUint (tx_chain_id tx), EncodeUint (tx_nonce tx), EncodeUint (tx_max_priority_fee tx),
      EncodeUint (tx_max_fee tx), EncodeUint (tx_gas_limit tx), EncodeBytes (tx_to tx),
      EncodeUint (tx_value tx), EncodeBytes (tx_data tx), EncodeList []]"

definition EncodeUnsigned :: "Eip1559Tx \<Rightarrow> bytes" where
  "EncodeUnsigned tx = [0x02] @ EncodeList (UnsignedItems tx)"

definition SigningHash :: "Eip1559Tx \<Rightarrow> Bytes32" where
  "SigningHash tx = Keccak256 (EncodeUnsigned tx)"

record SignedTx =
  raw :: bytes
  tx_hash :: Bytes32
  y_parity :: byte

definition SignTx :: "secp256k1 \<Rightarrow> Eip1559Tx \<Rightarrow> Bytes32 \<Rightarrow> SignedTx option" where
  "SignTx lib tx private_key =
     (let digest = SigningHash tx in
      case SignDigest lib digest private_key of None \<Rightarrow> None
      | Some sig \<Rightarrow>
     (case RecoverAddress lib digest sig of None \<Rightarrow> None
      | Some recovered \<Rightarrow>
     (case DeriveAddress lib private_key of None \<Rightarrow> None
      | Some derived \<Rightarrow>
      if recovered \<noteq> derived then None
      else
        let yp = sig ! 64 - 27;
            items = UnsignedItems tx @
                    [EncodeUint (ucast yp), EncodeUintBE (take 32 sig), EncodeUintBE (take 32 (drop 32 sig))];
            rw = [0x02] @ EncodeList items
        in Some \<lparr> raw = rw, tx_hash = Keccak256 rw, y_parity = yp \<rparr>)))"

section \<open>The decoder of a transaction\<close>

definition word_of :: "bytes \<Rightarrow> u64" where
  "word_of be = of_nat (be_val be)"

definition decode_fields :: "bytes \<Rightarrow> (Eip1559Tx \<times> bytes) option" where
  "decode_fields payload =
     (case dec_seq rlp_string 8 payload of
        Some ([c, n, p, m, g, t, v, d], r) \<Rightarrow>
          (case rlp_list r of
             Some ([], r') \<Rightarrow>
               Some (\<lparr> tx_chain_id = word_of c, tx_nonce = word_of n, tx_max_priority_fee = word_of p,
                       tx_max_fee = word_of m, tx_gas_limit = word_of g, tx_to = t,
                       tx_value = word_of v, tx_data = d \<rparr>, r')
           | _ \<Rightarrow> None)
      | _ \<Rightarrow> None)"

definition decode_unsigned :: "bytes \<Rightarrow> Eip1559Tx option" where
  "decode_unsigned bs =
     (case bs of [] \<Rightarrow> None
      | ty # body \<Rightarrow>
          if ty \<noteq> 0x02 then None
          else case rlp_list body of
                 Some (payload, []) \<Rightarrow>
                   (case decode_fields payload of Some (tx, []) \<Rightarrow> Some tx | _ \<Rightarrow> None)
               | _ \<Rightarrow> None)"

text \<open>The signed form: the nine fields, then the parity and the two signature integers.\<close>

definition decode_signed :: "bytes \<Rightarrow> (Eip1559Tx \<times> nat \<times> nat \<times> nat) option" where
  "decode_signed bs =
     (case bs of [] \<Rightarrow> None
      | ty # body \<Rightarrow>
          if ty \<noteq> 0x02 then None
          else case rlp_list body of
                 Some (payload, []) \<Rightarrow>
                   (case decode_fields payload of
                      Some (tx, r) \<Rightarrow>
                        (case dec_seq rlp_string 3 r of
                           Some ([yp, rr, ss], []) \<Rightarrow> Some (tx, be_val yp, be_val rr, be_val ss)
                         | _ \<Rightarrow> None)
                    | None \<Rightarrow> None)
               | _ \<Rightarrow> None)"

definition tx_strings :: "Eip1559Tx \<Rightarrow> bytes list" where
  "tx_strings tx =
     [MinBE (tx_chain_id tx), MinBE (tx_nonce tx), MinBE (tx_max_priority_fee tx), MinBE (tx_max_fee tx),
      MinBE (tx_gas_limit tx), tx_to tx, MinBE (tx_value tx), tx_data tx]"

definition tx_wf :: "Eip1559Tx \<Rightarrow> bool" where
  "tx_wf tx \<longleftrightarrow> length (tx_to tx) = 20 \<and> length (tx_data tx) < 2 ^ 32"

lemma word_of_MinBE [simp]: "word_of (MinBE v) = v"
  by (simp add: word_of_def)

lemma UnsignedItems_strings:
  "concat (UnsignedItems tx) = concat (map EncodeBytes (tx_strings tx)) @ EncodeList [[]]"
  by (simp add: UnsignedItems_def tx_strings_def EncodeUint_def EncodeList_payload[of "[]"])

lemma tx_strings_fit: "tx_wf tx \<Longrightarrow> list_all fits64 (tx_strings tx)"
  by (simp add: tx_wf_def tx_strings_def) (simp add: fits64_def)

lemma decode_fields_items:
  assumes "tx_wf tx"
  shows "decode_fields (concat (UnsignedItems tx) @ rest) = Some (tx, rest)"
proof -
  have "dec_seq rlp_string (length (tx_strings tx))
          (concat (map EncodeBytes (tx_strings tx)) @ EncodeList [[]] @ rest) = Some (tx_strings tx, EncodeList [[]] @ rest)"
    by (rule rlp_str.dec_seq_enc[OF tx_strings_fit[OF assms]])
  moreover have "length (tx_strings tx) = 8" by (simp add: tx_strings_def)
  moreover have "rlp_list (EncodeList [[]] @ rest) = Some ([], rest)"
    by (rule rlp_lst.dec_enc) (simp add: fits64_def)
  ultimately show ?thesis
    by (simp add: decode_fields_def UnsignedItems_strings) (simp add: tx_strings_def)
qed

lemma length_AppendLenPrefix: "length (AppendLenPrefix [] n s l) \<le> 9"
  using length_MinBE[of "of_nat n"] by (simp add: AppendLenPrefix_def Let_def)

lemma length_EncodeBytes: "length (EncodeBytes d) \<le> 9 + length d"
  using length_AppendLenPrefix[of "length d" "0x80" "0xb7"] by (simp add: EncodeBytes_def)

lemma length_EncodeUint: "length (EncodeUint v) \<le> 17"
  using length_EncodeBytes[of "MinBE v"] length_MinBE[of v] by (simp add: EncodeUint_def)

lemma length_items: "tx_wf tx \<Longrightarrow> length (concat (UnsignedItems tx)) < 2 ^ 32 + 200"
  using length_EncodeUint[of "tx_chain_id tx"] length_EncodeUint[of "tx_nonce tx"]
    length_EncodeUint[of "tx_max_priority_fee tx"] length_EncodeUint[of "tx_max_fee tx"]
    length_EncodeUint[of "tx_gas_limit tx"] length_EncodeUint[of "tx_value tx"]
    length_EncodeBytes[of "tx_to tx"] length_EncodeBytes[of "tx_data tx"]
    length_AppendLenPrefix[of 0 "0xc0" "0xf7"]
  by (simp add: UnsignedItems_def tx_wf_def EncodeList_def Let_def)

text \<open>
  The unsigned preimage is unambiguous: the decoder recovers the whole transaction from
  \<open>EncodeUnsigned\<close>, so the hash that is signed commits to every field of it.
\<close>

theorem EncodeUnsigned_roundtrip:
  assumes "tx_wf tx"
  shows "decode_unsigned (EncodeUnsigned tx) = Some tx"
proof -
  have "fits64 (concat (UnsignedItems tx))" using length_items[OF assms] by (simp add: fits64_def)
  then have "rlp_list (EncodeList (UnsignedItems tx)) = Some (concat (UnsignedItems tx), [])"
    using rlp_lst.dec_enc_exact by (subst EncodeList_payload) blast
  moreover have "decode_fields (concat (UnsignedItems tx)) = Some (tx, [])"
    using decode_fields_items[OF assms, of "[]"] by simp
  ultimately show ?thesis by (simp add: decode_unsigned_def EncodeUnsigned_def)
qed

definition sample_tx :: Eip1559Tx where
  "sample_tx = \<lparr> tx_chain_id = 137, tx_nonce = 7, tx_max_priority_fee = 30000000000,
     tx_max_fee = 90000000000, tx_gas_limit = 240000, tx_to = replicate 20 0xAB, tx_value = 0,
     tx_data = replicate 100 1 \<rparr>"

theorem EncodeUnsigned_roundtrip_witness: "decode_unsigned (EncodeUnsigned sample_tx) = Some sample_tx"
  by (rule EncodeUnsigned_roundtrip) (simp add: tx_wf_def sample_tx_def)

lemma SignTx_decodes:
  assumes "SignTx lib tx key = Some st" and "tx_wf tx"
  shows "\<exists>sig. SignDigest lib (SigningHash tx) key = Some sig \<and>
           RecoverAddress lib (SigningHash tx) sig = DeriveAddress lib key \<and>
           decode_signed (raw st) =
             Some (tx, unat (y_parity st), be_val (take 32 sig), be_val (take 32 (drop 32 sig))) \<and>
           tx_hash st = Keccak256 (raw st)"
proof -
  obtain sig a where sig: "SignDigest lib (SigningHash tx) key = Some sig"
    and ra: "RecoverAddress lib (SigningHash tx) sig = Some a" "DeriveAddress lib key = Some a"
    and st: "st = (let yp = sig ! 64 - 27;
            items = UnsignedItems tx @
                    [EncodeUint (ucast yp), EncodeUintBE (take 32 sig), EncodeUintBE (take 32 (drop 32 sig))];
            rw = [0x02] @ EncodeList items
        in \<lparr> raw = rw, tx_hash = Keccak256 rw, y_parity = yp \<rparr>)"
    using assms(1) by (auto simp: SignTx_def Let_def split: option.splits if_splits)
  define strip where "strip bs = dropWhile (\<lambda>b. b = (0::byte)) bs" for bs
  let ?yp = "sig ! 64 - 27 :: byte"
  let ?tl = "[MinBE (ucast ?yp), strip (take 32 sig), strip (take 32 (drop 32 sig))]"
  have sl: "length (strip bs) \<le> length bs" for bs by (simp add: strip_def length_dropWhile_le)
  have fit: "list_all fits64 ?tl"
    using sl[of "take 32 sig"] sl[of "take 32 (drop 32 sig)"] by (simp add: fits64_MinBE) (simp add: fits64_def)
  have tl: "concat [EncodeUint (ucast ?yp), EncodeUintBE (take 32 sig), EncodeUintBE (take 32 (drop 32 sig))] =
            concat (map EncodeBytes ?tl)"
    by (simp add: EncodeUint_def EncodeUintBE_def strip_def)
  let ?p = "concat (UnsignedItems tx) @ concat (map EncodeBytes ?tl)"
  have "length (concat (map EncodeBytes ?tl)) \<le> 200"
    using length_EncodeBytes[of "MinBE (ucast ?yp)"] length_MinBE[of "ucast ?yp"]
      length_EncodeBytes[of "strip (take 32 sig)"] sl[of "take 32 sig"]
      length_EncodeBytes[of "strip (take 32 (drop 32 sig))"] sl[of "take 32 (drop 32 sig)"] by simp
  then have "fits64 ?p" using length_items[OF assms(2)] by (simp add: fits64_def)
  then have "rlp_list (EncodeList [?p]) = Some (?p, [])" by (rule rlp_lst.dec_enc_exact)
  moreover have "raw st = 0x02 # EncodeList [?p]"
    unfolding st Let_def by (subst EncodeList_payload) (simp add: tl del: concat.simps list.map)
  moreover have "dec_seq rlp_string 3 (concat (map EncodeBytes ?tl)) = Some (?tl, [])"
  proof -
    have "length ?tl = 3" by simp
    then show ?thesis using rlp_str.dec_seq_enc[OF fit, of "[]"] by (simp only: append_Nil2)
  qed
  ultimately have "decode_signed (raw st) =
      Some (tx, be_val (MinBE (ucast ?yp)), be_val (strip (take 32 sig)), be_val (strip (take 32 (drop 32 sig))))"
    using decode_fields_items[OF assms(2)] by (simp add: decode_signed_def)
  moreover have "unat (ucast ?yp :: u64) = unat ?yp"
    by (rule unat_ucast_byte)
  ultimately show ?thesis using sig ra by (auto simp: st Let_def strip_def)
qed


text \<open>A library instance for the witness: one fixed signature and one fixed key pair.\<close>

definition demo_lib :: secp256k1 where
  "demo_lib = \<lparr> sign_recoverable = (\<lambda>_ _. Some (replicate 64 9, 1)),
     ec_recover = (\<lambda>_ _ _. Some (replicate 65 4)), ec_pubkey_create = (\<lambda>_. Some (replicate 65 4)) \<rparr>"


end
