(* ===== verification/AbiCalldata.thy ===== *)
theory AbiCalldata
  imports Eip712
begin

text \<open>
  \<open>cpp/src/pmm/chain/ctf.cpp\<close> and \<open>cpp/src/pmm/chain/proxy_exec.cpp\<close>: the ABI calldata of
  \<open>mergePositions\<close> and of the proxy wallet factory call that wraps it.  The decoders below
  read the calldata as a contract does, by following the offsets stored in it; they are the
  specification of the encoders.
\<close>

section \<open>CTF merge\<close>

definition Addr32 :: "Address \<Rightarrow> Bytes32" where
  "Addr32 a = replicate 12 0 @ a"

definition MergeSelector :: "bytes" where
  "MergeSelector = take 4 (Keccak256 (str_bytes ''mergePositions(address,bytes32,bytes32,uint256[],uint256)''))"

definition EncodeMergePositions ::
  "Address \<Rightarrow> Bytes32 \<Rightarrow> Bytes32 \<Rightarrow> Bytes32 list \<Rightarrow> Bytes32 \<Rightarrow> bytes" where
  "EncodeMergePositions collateral parent_collection_id condition_id parts amount =
     MergeSelector @ Addr32 collateral @ parent_collection_id @ condition_id @
     U256FromU64 (5 * 32) @ amount @
     U256FromU64 (of_nat (length parts)) @ concat parts"

definition EncodeMergePositionsBinary :: "Address \<Rightarrow> Bytes32 \<Rightarrow> u64 \<Rightarrow> bytes" where
  "EncodeMergePositionsBinary collateral condition_id amount =
     EncodeMergePositions collateral (replicate 32 0) condition_id [U256FromU64 1, U256FromU64 2]
       (U256FromU64 amount)"

section \<open>Proxy exec\<close>

datatype CallType = kInvalid | kCall | kDelegateCall

fun call_type_code :: "CallType \<Rightarrow> u64" where
  "call_type_code kInvalid = 0"
| "call_type_code kCall = 1"
| "call_type_code kDelegateCall = 2"

record ProxyCall =
  pc_type_code :: CallType
  pc_to :: Address
  pc_value :: Bytes32
  pc_data :: bytes

definition ProxySelector :: "bytes" where
  "ProxySelector = take 4 (Keccak256 (str_bytes ''proxy((uint8,address,uint256,bytes)[])''))"

definition pad32 :: "bytes \<Rightarrow> bytes" where
  "pad32 d = (let rem = length d mod 32 in if rem \<noteq> 0 then replicate (32 - rem) 0 else [])"

definition proxy_elem :: "ProxyCall \<Rightarrow> bytes" where
  "proxy_elem c =
     U256FromU64 (call_type_code (pc_type_code c)) @ Addr32 (pc_to c) @ pc_value c @ U256FromU64 0x80 @
     U256FromU64 (of_nat (length (pc_data c))) @ pc_data c @ pad32 (pc_data c)"

fun proxy_heads :: "u64 \<Rightarrow> bytes list \<Rightarrow> bytes" where
  "proxy_heads offset [] = []"
| "proxy_heads offset (e # es) = U256FromU64 offset @ proxy_heads (offset + of_nat (length e)) es"

definition EncodeProxy :: "ProxyCall list \<Rightarrow> bytes" where
  "EncodeProxy calls =
     (let n = of_nat (length calls) :: u64; elems = map proxy_elem calls in
      ProxySelector @ U256FromU64 0x20 @ U256FromU64 n @ proxy_heads (n * 32) elems @ concat elems)"

definition EncodeProxyExec :: "Address \<Rightarrow> bytes \<Rightarrow> bytes" where
  "EncodeProxyExec dest inner =
     EncodeProxy [\<lparr> pc_type_code = kCall, pc_to = dest, pc_value = replicate 32 0, pc_data = inner \<rparr>]"

section \<open>Reading calldata\<close>

definition word_at :: "bytes \<Rightarrow> nat \<Rightarrow> bytes" where
  "word_at bs i = take 32 (drop i bs)"

definition num_at :: "bytes \<Rightarrow> nat \<Rightarrow> nat" where
  "num_at bs i = be_val (word_at bs i)"

definition decode_merge :: "bytes \<Rightarrow> Address \<times> Bytes32 \<times> Bytes32 \<times> Bytes32 list \<times> Bytes32" where
  "decode_merge bs =
     (let args = drop 4 bs; tail = drop (num_at args 96) args in
      (drop 12 (word_at args 0), word_at args 32, word_at args 64,
       map (\<lambda>i. word_at tail (32 + 32 * i)) [0..<num_at tail 0], word_at args 128))"

definition decode_call :: "bytes \<Rightarrow> nat \<times> Address \<times> Bytes32 \<times> bytes" where
  "decode_call e =
     (let d = drop (num_at e 96) e in
      (num_at e 0, drop 12 (word_at e 32), word_at e 64, take (num_at d 0) (drop 32 d)))"

definition decode_proxy :: "bytes \<Rightarrow> (nat \<times> Address \<times> Bytes32 \<times> bytes) list" where
  "decode_proxy bs =
     (let args = drop 4 bs; arr = drop (num_at args 0) args; body = drop 32 arr in
      map (\<lambda>i. decode_call (drop (num_at body (32 * i)) body)) [0..<num_at arr 0])"

definition call_fields :: "ProxyCall \<Rightarrow> nat \<times> Address \<times> Bytes32 \<times> bytes" where
  "call_fields c = (unat (call_type_code (pc_type_code c)), pc_to c, pc_value c, pc_data c)"

lemma length_Addr32 [simp]: "length a = 20 \<Longrightarrow> length (Addr32 a) = 32"
  by (simp add: Addr32_def)

lemma drop_Addr32 [simp]: "drop 12 (Addr32 a) = a"
  by (simp add: Addr32_def)

lemma length_selectors [simp]: "length MergeSelector = 4" "length ProxySelector = 4"
  by (simp_all add: MergeSelector_def ProxySelector_def)

lemma word_at_0: "length w = 32 \<Longrightarrow> word_at (w @ r) 0 = w"
  by (simp add: word_at_def)

lemma word_at_skip: "length w = 32 \<Longrightarrow> 32 \<le> i \<Longrightarrow> word_at (w @ r) i = word_at r (i - 32)"
  by (simp add: word_at_def)

lemma drop_skip: "length w = 32 \<Longrightarrow> 32 \<le> i \<Longrightarrow> drop i (w @ r) = drop (i - 32) r"
  by simp

lemma num_at_word [simp]: "num_at (U256FromU64 v @ r) 0 = unat v"
  by (simp add: num_at_def word_at_0)

lemma unat_of_nat64 [simp]: "n < 2 ^ 64 \<Longrightarrow> unat (of_nat n :: u64) = n"
  by (simp add: unsigned_of_nat take_bit_eq_mod)

lemma words_concat:
  "list_all (\<lambda>w. length w = 32) ws \<Longrightarrow> map (\<lambda>i. word_at (concat ws) (32 * i)) [0..<length ws] = ws"
proof (induction ws)
  case (Cons w ws)
  have "map (\<lambda>i. word_at (concat (w # ws)) (32 * i)) [0..<length (w # ws)] =
        word_at (w @ concat ws) 0 # map (\<lambda>i. word_at (w @ concat ws) (32 + 32 * i)) [0..<length ws]"
    by (simp add: map_upt_Suc del: upt_Suc)
  then show ?case using Cons by (simp add: word_at_0 word_at_skip del: upt_Suc)
qed simp


definition merge_wf :: "Address \<Rightarrow> Bytes32 \<Rightarrow> Bytes32 \<Rightarrow> Bytes32 list \<Rightarrow> Bytes32 \<Rightarrow> bool" where
  "merge_wf collateral parent condition parts amount \<longleftrightarrow>
     length collateral = 20 \<and> length parent = 32 \<and> length condition = 32 \<and> length amount = 32 \<and>
     list_all (\<lambda>p. length p = 32) parts \<and> length parts < 2 ^ 64"

text \<open>
  Reading the \<open>mergePositions\<close> calldata the way the contract does (following the stored
  offset to the dynamic array) returns the collateral, the parent collection, the condition,
  the whole partition in order and the amount that were encoded.
\<close>

theorem EncodeMergePositions_decode:
  assumes "merge_wf collateral parent condition parts amount"
  shows "decode_merge (EncodeMergePositions collateral parent condition parts amount) =
         (collateral, parent, condition, parts, amount)"
proof -
  let ?T = "U256FromU64 (of_nat (length parts)) @ concat parts"
  let ?A = "Addr32 collateral @ parent @ condition @ U256FromU64 (5 * 32) @ amount @ ?T"
  have L: "length (Addr32 collateral) = 32" "length parent = 32" "length condition = 32"
    "length amount = 32" using assms by (simp_all add: merge_wf_def)
  have args: "drop 4 (EncodeMergePositions collateral parent condition parts amount) = ?A"
    by (simp add: EncodeMergePositions_def)
  have off: "num_at ?A 96 = 160" using L by (simp add: num_at_def word_at_skip word_at_0)
  have tail: "drop 160 ?A = ?T" using L by (simp add: drop_skip)
  have n: "num_at ?T 0 = length parts" using assms by (simp add: merge_wf_def)
  have elems: "map (\<lambda>i. word_at ?T (32 + 32 * i)) [0..<length parts] = parts"
    using assms words_concat[of parts] by (simp add: merge_wf_def word_at_skip)
  have head: "word_at ?A 0 = Addr32 collateral" "word_at ?A 32 = parent" "word_at ?A 64 = condition"
    "word_at ?A 128 = amount" using L by (simp_all add: word_at_skip word_at_0)
  show ?thesis unfolding decode_merge_def Let_def args off tail n elems head by simp
qed

theorem EncodeMergePositions_decode_witness:
  "decode_merge (EncodeMergePositionsBinary (replicate 20 0x27) (replicate 32 0xcd) 1000000) =
     (replicate 20 0x27, replicate 32 0, replicate 32 0xcd, [U256FromU64 1, U256FromU64 2], U256FromU64 1000000)"
  unfolding EncodeMergePositionsBinary_def
  by (rule EncodeMergePositions_decode) (simp add: merge_wf_def)

section \<open>The factory call\<close>

definition call_wf :: "ProxyCall \<Rightarrow> bool" where
  "call_wf c \<longleftrightarrow> length (pc_to c) = 20 \<and> length (pc_value c) = 32 \<and> length (pc_data c) < 2 ^ 64"

lemma decode_call_elem:
  assumes "call_wf c"
  shows "decode_call (proxy_elem c @ rest) = call_fields c"
proof -
  let ?t = "U256FromU64 (call_type_code (pc_type_code c))"
  let ?D = "U256FromU64 (of_nat (length (pc_data c))) @ pc_data c @ pad32 (pc_data c) @ rest"
  let ?E = "?t @ Addr32 (pc_to c) @ pc_value c @ U256FromU64 0x80 @ ?D"
  have L: "length (Addr32 (pc_to c)) = 32" "length (pc_value c) = 32"
    using assms by (simp_all add: call_wf_def)
  have e: "proxy_elem c @ rest = ?E" by (simp add: proxy_elem_def)
  have off: "num_at ?E 96 = 128" using L by (simp add: num_at_def word_at_skip word_at_0)
  have d: "drop 128 ?E = ?D" using L by (simp add: drop_skip)
  have n: "num_at ?D 0 = length (pc_data c)" using assms by (simp add: call_wf_def)
  have dat: "take (length (pc_data c)) (drop 32 ?D) = pc_data c" by simp
  have ty: "num_at ?E 0 = unat (call_type_code (pc_type_code c))" by (rule num_at_word)
  have w: "word_at ?E 32 = Addr32 (pc_to c)" "word_at ?E 64 = pc_value c"
    using L by (simp_all add: word_at_skip word_at_0)
  show ?thesis
    unfolding decode_call_def Let_def e off d n dat ty w call_fields_def drop_Addr32 ..
qed

lemma length_proxy_heads [simp]: "length (proxy_heads off es) = 32 * length es"
  by (induction off es rule: proxy_heads.induct) auto

text \<open>The offset stored for an element is the sum of the sizes of the elements before it.\<close>

lemma num_at_heads:
  assumes "i < length es" and "unat off + length (concat es) < 2 ^ 64"
  shows "num_at (proxy_heads off es @ r) (32 * i) = unat off + length (concat (take i es))"
  using assms
proof (induction off es arbitrary: i rule: proxy_heads.induct)
  case (2 off e es)
  have u: "unat (off + of_nat (length e)) = unat off + length e"
    using "2.prems"(2) by (simp add: unat_word_ariths)
  show ?case
  proof (cases i)
    case 0
    then show ?thesis by simp
  next
    case (Suc j)
    have "num_at (proxy_heads (off + of_nat (length e)) es @ r) (32 * j) =
          unat off + length e + length (concat (take j es))"
      using "2.IH"[of j] "2.prems" Suc u by simp
    then show ?thesis using Suc by (simp add: num_at_def word_at_skip)
  qed
qed simp

lemma drop_concat_take: "i < length es \<Longrightarrow> drop (length (concat (take i es))) (concat es) = concat (drop i es)"
  by (metis append_eq_conv_conj append_take_drop_id concat_append)

text \<open>
  C37: a contract that follows the offsets of the \<open>proxy(...)\<close> calldata finds every call of the
  list, in order, with its type code, target, value and exact data (the padding to 32 bytes
  is never read as data).
\<close>

theorem EncodeProxy_decode:
  assumes "list_all call_wf calls"
    and "32 * length calls + length (concat (map proxy_elem calls)) < 2 ^ 64"
  shows "decode_proxy (EncodeProxy calls) = map call_fields calls"
proof -
  let ?n = "length calls" and ?es = "map proxy_elem calls"
  let ?off = "of_nat ?n * 32 :: u64"
  let ?B = "proxy_heads ?off ?es @ concat ?es"
  let ?A = "U256FromU64 0x20 @ U256FromU64 (of_nat ?n) @ ?B"
  have args: "drop 4 (EncodeProxy calls) = ?A" by (simp add: EncodeProxy_def Let_def)
  have uoff: "unat ?off = 32 * ?n"
    using assms(2) by (simp add: unat_word_ariths unsigned_of_nat take_bit_eq_mod)
  have n: "num_at (U256FromU64 (of_nat ?n) @ ?B) 0 = ?n" using assms(2) by simp
  have elem: "decode_call (drop (num_at ?B (32 * i)) ?B) = call_fields (calls ! i)" if "i < ?n" for i
  proof -
    have "num_at ?B (32 * i) = 32 * ?n + length (concat (take i ?es))"
      using num_at_heads[of i ?es ?off "concat ?es"] that assms(2) uoff by simp
    then have "drop (num_at ?B (32 * i)) ?B = drop (length (concat (take i ?es))) (concat ?es)"
      by simp
    also have "\<dots> = concat (drop i ?es)" using that by (intro drop_concat_take) simp
    also have "\<dots> = proxy_elem (calls ! i) @ concat (drop (Suc i) ?es)"
      using that by (simp flip: Cons_nth_drop_Suc)
    finally show ?thesis
      using decode_call_elem[of "calls ! i"] assms(1) that by (simp add: list_all_length)
  qed
  have "num_at ?A 0 = 32" "drop 32 ?A = U256FromU64 (of_nat ?n) @ ?B" by simp_all
  moreover have "drop 32 (U256FromU64 (of_nat ?n) @ ?B) = ?B" by simp
  moreover have "map (\<lambda>i. decode_call (drop (num_at ?B (32 * i)) ?B)) [0..<?n] = map call_fields calls"
    by (rule nth_equalityI) (simp_all add: elem del: drop_append)
  ultimately show ?thesis unfolding decode_proxy_def Let_def args by (simp only: n)
qed

theorem EncodeProxy_decode_witness:
  "decode_proxy (EncodeProxyExec (replicate 20 0x4D) (replicate 37 1)) =
     [(1, replicate 20 0x4D, replicate 32 0, replicate 37 1)]"
proof -
  let ?c = "\<lparr> pc_type_code = kCall, pc_to = replicate 20 0x4D, pc_value = replicate 32 0,
              pc_data = replicate 37 1 \<rparr>"
  have "list_all call_wf [?c]" by (simp add: call_wf_def)
  moreover have "32 * length [?c] + length (concat (map proxy_elem [?c])) < 2 ^ 64"
    by (simp add: proxy_elem_def pad32_def)
  ultimately have "decode_proxy (EncodeProxy [?c]) = map call_fields [?c]"
    by (rule EncodeProxy_decode)
  then show ?thesis by (simp add: EncodeProxyExec_def call_fields_def)
qed

end
