(* ===== verification/Double.thy ===== *)
theory Double
  imports Prelude "HOL-Library.Log_Nat"
begin

text \<open>
  The C++ \<open>double\<close> (IEEE 754 binary64, round to nearest even) as the code uses it: finite
  values are the rationals they denote, with the two infinities and NaN; every arithmetic
  operation rounds its exact result with \<open>rnd\<close> (53 significant bits, smallest exponent
  \<open>-1074\<close>) and overflows to an infinity.  The two zeros are one value (the code never
  divides by a negative zero and never prints one that a theorem mentions).  Comparisons
  are false on NaN, and \<open>cmax\<close>/\<open>cmin\<close> are \<open>std::max\<close>/\<open>std::min\<close>, which keep their first
  argument when the comparison fails.  All of it computes, so a closed term is evaluated
  by the kernel.

  The locale \<open>rounding\<close> states what the proofs need of a rounding function (monotone,
  idempotent, odd, fixing 0 and 1); it is interpreted on \<open>rnd\<close> and on rounding to an
  integer (\<open>std::nearbyint\<close>).
\<close>

section \<open>Rounding\<close>

definition ilog2 :: "rat \<Rightarrow> int" where
  "ilog2 x = (case quotient_of x of (n, d) \<Rightarrow>
     let k = bitlen n - bitlen d in
     if (if 0 \<le> k then 2 ^ nat k * d \<le> n else d \<le> n * 2 ^ nat (- k)) then k else k - 1)"

definition rne :: "rat \<Rightarrow> int" where
  "rne x = (let f = \<lfloor>x\<rfloor>; r = x - of_int f in
     if r < 1 / 2 then f else if 1 / 2 < r then f + 1 else if even f then f else f + 1)"

definition expo :: "rat \<Rightarrow> int" where
  "expo x = max (ilog2 \<bar>x\<bar>) (- 1022)"

definition ulp :: "rat \<Rightarrow> rat" where
  "ulp x = 2 powi (expo x - 52)"

definition rnd :: "rat \<Rightarrow> rat" where
  "rnd x = (if x = 0 then 0 else of_int (rne (x / ulp x)) * ulp x)"

lemma bitlen_nat_bounds:
  assumes "0 < (n::int)"
  shows "2 ^ nat (bitlen n - 1) \<le> n" and "n < 2 ^ nat (bitlen n)"
  using bitlen_bounds[OF assms] by auto

lemma powi_of_int: "0 \<le> k \<Longrightarrow> (2::rat) powi k = of_int (2 ^ nat k)"
  by (simp add: power_int_def)

lemma ilog2_bounds:
  assumes "0 < (x::rat)"
  shows "2 powi ilog2 x \<le> x" and "x < 2 powi (ilog2 x + 1)"
proof -
  obtain n d where q: "quotient_of x = (n, d)" by (cases "quotient_of x")
  have d: "0 < d" using q by (simp add: quotient_of_denom_pos)
  have x: "x = of_int n / of_int d" using q by (simp add: quotient_of_div)
  have n: "0 < n" using assms d unfolding x by (simp add: zero_less_divide_iff)
  define a where "a = bitlen n"
  define b where "b = bitlen d"
  have a1: "1 \<le> a" and b1: "1 \<le> b"
    using n d bitlen_eq_zero_iff[of n] bitlen_nonneg[of n] bitlen_eq_zero_iff[of d] bitlen_nonneg[of d]
    unfolding a_def b_def by auto
  have nb: "2 ^ nat (a - 1) \<le> n" "n < 2 ^ nat a"
    using bitlen_nat_bounds[OF n] unfolding a_def by auto
  have db: "2 ^ nat (b - 1) \<le> d" "d < 2 ^ nat b"
    using bitlen_nat_bounds[OF d] unfolding b_def by auto
  have N: "(2::rat) powi (a - 1) \<le> of_int n" "of_int n < (2::rat) powi a"
    using nb a1 by (simp_all add: powi_of_int)
  have D: "(2::rat) powi (b - 1) \<le> of_int d" "of_int d < (2::rat) powi b"
    using db b1 by (simp_all add: powi_of_int)
  have dpos: "0 < (of_int d :: rat)" using d by simp
  have up: "x < 2 powi (a - b + 1)"
  proof -
    have "of_int n < (2::rat) powi a" by (rule N)
    also have "\<dots> = 2 powi (a - b + 1) * 2 powi (b - 1)" by (simp flip: power_int_add)
    also have "\<dots> \<le> 2 powi (a - b + 1) * of_int d" by (rule mult_left_mono[OF D(1)]) simp
    finally show ?thesis unfolding x using dpos by (simp add: divide_less_eq)
  qed
  have lo: "2 powi (a - b - 1) \<le> x"
  proof -
    have "2 powi (a - b - 1) * of_int d \<le> (2::rat) powi (a - b - 1) * 2 powi b"
      by (rule mult_left_mono[OF less_imp_le[OF D(2)]]) simp
    also have "\<dots> = 2 powi (a - 1)" by (simp flip: power_int_add)
    also have "\<dots> \<le> of_int n" by (rule N)
    finally show ?thesis unfolding x using dpos by (simp add: le_divide_eq)
  qed
  define k where "k = a - b"
  have test: "(if 0 \<le> k then 2 ^ nat k * d \<le> n else d \<le> n * 2 ^ nat (- k)) \<longleftrightarrow> 2 powi k \<le> x"
  proof (cases "0 \<le> k")
    case True
    have "(2 ^ nat k * d \<le> n) \<longleftrightarrow> of_int (2 ^ nat k * d) \<le> (of_int n :: rat)"
      by (simp only: of_int_le_iff)
    then have "(2 ^ nat k * d \<le> n) \<longleftrightarrow> (2::rat) ^ nat k * of_int d \<le> of_int n"
      by (simp only: of_int_mult of_int_power of_int_numeral)
    then show ?thesis using True dpos unfolding x by (simp add: power_int_def le_divide_eq)
  next
    case False
    have "(d \<le> n * 2 ^ nat (- k)) \<longleftrightarrow> (of_int d :: rat) \<le> of_int (n * 2 ^ nat (- k))"
      by (simp only: of_int_le_iff)
    then have "(d \<le> n * 2 ^ nat (- k)) \<longleftrightarrow> (of_int d :: rat) \<le> of_int n * 2 ^ nat (- k)"
      by (simp only: of_int_mult of_int_power of_int_numeral)
    then show ?thesis using False dpos unfolding x
      by (simp add: power_int_def le_divide_eq field_simps)
  qed
  have il: "ilog2 x = (if 2 powi k \<le> x then k else k - 1)"
    by (simp only: ilog2_def q prod.case Let_def test flip: a_def b_def k_def)
  show "2 powi ilog2 x \<le> x" using lo unfolding il k_def by simp
  show "x < 2 powi (ilog2 x + 1)" using up unfolding il k_def by (auto simp: not_le)
qed

lemma rne_of_int [simp]: "rne (of_int n) = n"
  by (simp add: rne_def)

lemma rne_numeral [simp]: "rne 0 = 0" "rne 1 = 1" "rne (numeral k) = numeral k"
  using rne_of_int[of 0] rne_of_int[of 1] rne_of_int[of "numeral k"] by simp_all

lemma rne_cases: "rne x = \<lfloor>x\<rfloor> \<or> rne x = \<lfloor>x\<rfloor> + 1"
  by (simp add: rne_def Let_def)

lemma rne_near: "\<bar>of_int (rne x) - x\<bar> \<le> 1 / 2"
  unfolding rne_def Let_def
  using of_int_floor_le[of x] floor_correct[of x] by (auto simp: abs_le_iff)

lemma rne_mono: "x \<le> y \<Longrightarrow> rne x \<le> rne y"
proof -
  assume xy: "x \<le> y"
  then have f: "\<lfloor>x\<rfloor> \<le> \<lfloor>y\<rfloor>" by (rule floor_mono)
  show ?thesis
  proof (cases "\<lfloor>x\<rfloor> = \<lfloor>y\<rfloor>")
    case True
    then show ?thesis using xy unfolding rne_def Let_def by auto
  next
    case False
    with f have "\<lfloor>x\<rfloor> + 1 \<le> \<lfloor>y\<rfloor>" by simp
    then show ?thesis using rne_cases[of x] rne_cases[of y] by auto
  qed
qed

lemma rne_unique:
  assumes "\<bar>of_int n - x\<bar> < 1 / 2" shows "rne x = n"
proof -
  have "\<bar>of_int (rne x) - x\<bar> \<le> 1 / 2" by (rule rne_near)
  with assms have "\<bar>of_int (rne x) - of_int n :: rat\<bar> < 1" by linarith
  then have "\<bar>rne x - n\<bar> < 1" by (metis of_int_abs of_int_diff of_int_less_1_iff)
  then show ?thesis by simp
qed

lemma rne_uminus: "rne (- x) = - rne x"
proof (cases "x = of_int \<lfloor>x\<rfloor>")
  case True
  then obtain n where "x = of_int n" by blast
  then show ?thesis using rne_of_int[of "- n"] by simp
next
  case False
  let ?f = "\<lfloor>x\<rfloor>" and ?r = "x - of_int \<lfloor>x\<rfloor>"
  have r0: "0 < ?r" using False of_int_floor_le[of x] by linarith
  have r1: "?r < 1" using floor_correct[of x] by linarith
  have "\<lfloor>- x\<rfloor> = - ?f - 1" using r0 r1 by (intro floor_unique) auto
  then show ?thesis unfolding rne_def Let_def using r0 r1 by auto
qed

lemma ulp_pos [simp]: "0 < ulp x"
  by (simp add: ulp_def)

lemma ulp_uminus [simp]: "ulp (- x) = ulp x"
  by (simp add: ulp_def expo_def)

lemma rnd_0 [simp]: "rnd 0 = 0"
  by (simp add: rnd_def)

lemma rnd_uminus [simp]: "rnd (- x) = - rnd x"
  by (simp add: rnd_def rne_uminus)

lemma expo_upper: "0 < x \<Longrightarrow> x < 2 powi (expo x + 1)"
proof -
  assume "0 < x"
  then have "x < 2 powi (ilog2 x + 1)" by (rule ilog2_bounds)
  also have "\<dots> \<le> 2 powi (expo x + 1)"
    using \<open>0 < x\<close> by (intro power_int_increasing) (auto simp: expo_def)
  finally show ?thesis .
qed

lemma expo_lower: "0 < x \<Longrightarrow> -1022 < expo x \<Longrightarrow> 2 powi expo x \<le> x"
  using ilog2_bounds(1)[of x] by (auto simp: expo_def max_def split: if_splits)

lemma expo_mono: "0 < x \<Longrightarrow> x \<le> y \<Longrightarrow> expo x \<le> expo y"
proof (rule ccontr)
  assume x: "0 < x" and xy: "x \<le> y" and "\<not> expo x \<le> expo y"
  then have lt: "expo y + 1 \<le> expo x" and gt: "-1022 < expo x"
    by (auto simp: expo_def)
  have "y < 2 powi (expo y + 1)" using x xy by (intro expo_upper) simp
  also have "\<dots> \<le> 2 powi expo x" using lt by (intro power_int_increasing) auto
  also have "\<dots> \<le> x" using x gt by (rule expo_lower)
  finally show False using xy by simp
qed

lemma powi_split: "(2::rat) powi (k + 53) = 2 ^ 53 * 2 powi k" "(2::rat) powi (k + 52) = 2 ^ 52 * 2 powi k"
  by (simp_all add: power_int_add)

lemma ulp_powi: "2 powi (expo x + 1) = 2 ^ 53 * ulp x" "2 powi expo x = 2 ^ 52 * ulp x"
  using powi_split(1)[of "expo x - 52"] powi_split(2)[of "expo x - 52"]
  by (simp_all add: ulp_def add.commute)

lemma rnd_pos: "0 \<le> x \<Longrightarrow> 0 \<le> rnd x"
proof (cases "x = 0")
  case False
  assume "0 \<le> x"
  then have "rne 0 \<le> rne (x / ulp x)" by (intro rne_mono) (simp add: less_imp_le)
  then show ?thesis by (simp add: rnd_def less_imp_le)
qed simp

text \<open>A rounded number stays at or below the power of two above it, and at or above the one below.\<close>

lemma rnd_upper_pow: "0 < x \<Longrightarrow> rnd x \<le> 2 powi (expo x + 1)"
proof -
  assume x: "0 < x"
  have P: "2 powi (expo x + 1) = 2 ^ 53 * ulp x"
    by (rule ulp_powi)
  have "x / ulp x \<le> of_int (2 ^ 53)"
    using expo_upper[OF x] by (simp add: divide_le_eq P)
  then have "rne (x / ulp x) \<le> 2 ^ 53" using rne_mono[of _ "of_int (2 ^ 53)"] by simp
  then have "of_int (rne (x / ulp x)) \<le> (of_int (2 ^ 53) :: rat)" by (simp only: of_int_le_iff)
  then show ?thesis using x by (simp add: rnd_def P)
qed

lemma rnd_lower_pow: "0 < x \<Longrightarrow> -1022 < expo x \<Longrightarrow> 2 powi expo x \<le> rnd x"
proof -
  assume x: "0 < x" and e: "-1022 < expo x"
  have P: "2 powi expo x = 2 ^ 52 * ulp x"
    by (rule ulp_powi)
  have "of_int (2 ^ 52) \<le> x / ulp x"
    using expo_lower[OF x e] by (simp add: le_divide_eq P)
  then have "2 ^ 52 \<le> rne (x / ulp x)" using rne_mono[of "of_int (2 ^ 52)"] by simp
  then have "(of_int (2 ^ 52) :: rat) \<le> of_int (rne (x / ulp x))" by (simp only: of_int_le_iff)
  then show ?thesis using x by (simp add: rnd_def P)
qed

lemma rnd_mono_pos: "0 < x \<Longrightarrow> x \<le> y \<Longrightarrow> rnd x \<le> rnd y"
proof -
  assume x: "0 < x" and xy: "x \<le> y"
  have y: "0 < y" using x xy by simp
  show ?thesis
  proof (cases "expo x = expo y")
    case True
    then have u: "ulp x = ulp y" by (simp add: ulp_def)
    have "rne (x / ulp y) \<le> rne (y / ulp y)"
      using xy by (intro rne_mono divide_right_mono) (simp_all add: less_imp_le)
    then show ?thesis using x y by (simp add: rnd_def u)
  next
    case False
    with expo_mono[OF x xy] have lt: "expo x + 1 \<le> expo y" by simp
    have "rnd x \<le> 2 powi (expo x + 1)" by (rule rnd_upper_pow[OF x])
    also have "\<dots> \<le> 2 powi expo y" using lt by (intro power_int_increasing) auto
    also have "\<dots> \<le> rnd y"
      using lt by (intro rnd_lower_pow[OF y]) (simp add: expo_def)
    finally show ?thesis .
  qed
qed

lemma rnd_mono: "x \<le> y \<Longrightarrow> rnd x \<le> rnd y"
proof -
  assume xy: "x \<le> y"
  consider "0 < x" | "x \<le> 0" "0 \<le> y" | "y < 0" by linarith
  then show ?thesis
  proof cases
    case 1 then show ?thesis using xy by (rule rnd_mono_pos)
  next
    case 2
    then have "rnd x \<le> 0" using rnd_pos[of "- x"] by simp
    also have "0 \<le> rnd y" using 2 by (intro rnd_pos)
    finally show ?thesis .
  next
    case 3
    then have "rnd (- y) \<le> rnd (- x)" using xy by (intro rnd_mono_pos) auto
    then show ?thesis by simp
  qed
qed

lemma rnd_exact_lt:
  assumes "\<bar>m\<bar> < 2 ^ 53" and "-1074 \<le> k"
  shows "rnd (of_int m * 2 powi k) = of_int m * 2 powi k"
proof (cases "m = 0")
  case False
  let ?x = "of_int m * (2::rat) powi k"
  have ax: "\<bar>?x\<bar> = of_int \<bar>m\<bar> * 2 powi k" by (simp add: abs_mult)
  have pos: "0 < \<bar>?x\<bar>" using False by simp
  have e: "expo ?x - 52 \<le> k"
  proof (cases "-1022 < expo ?x")
    case True
    then have e': "expo ?x = ilog2 \<bar>?x\<bar>" by (simp add: expo_def)
    have "2 powi expo ?x \<le> \<bar>?x\<bar>" unfolding e' by (rule ilog2_bounds(1)[OF pos])
    also have "\<dots> < of_int (2 ^ 53) * 2 powi k"
      unfolding ax using assms(1) by (intro mult_strict_right_mono) (simp only: of_int_less_iff, simp)
    also have "\<dots> = 2 powi (k + 53)" by (simp add: powi_split)
    finally have "expo ?x < k + 53" using power_int_increasing[of "k + 53" "expo ?x" "2::rat"]
      by (auto simp: not_le[symmetric])
    then show ?thesis by simp
  next
    case False
    then show ?thesis using assms(2) by (simp add: expo_def)
  qed
  have "?x / ulp ?x = of_int m * 2 powi (k - (expo ?x - 52))"
    by (simp add: ulp_def power_int_diff)
  also have "\<dots> = of_int (m * 2 ^ nat (k - (expo ?x - 52)))"
    using e by (simp add: powi_of_int)
  finally have q: "?x / ulp ?x = of_int (m * 2 ^ nat (k - (expo ?x - 52)))" .
  have "rnd ?x = of_int (rne (?x / ulp ?x)) * ulp ?x"
    using False by (simp add: rnd_def)
  also have "\<dots> = ?x / ulp ?x * ulp ?x"
    by (simp only: q rne_of_int)
  finally show ?thesis by (simp add: less_imp_neq[OF ulp_pos, symmetric])
qed simp

lemma rnd_exact:
  assumes "\<bar>m\<bar> \<le> 2 ^ 53" and "-1074 \<le> k"
  shows "rnd (of_int m * 2 powi k) = of_int m * 2 powi k"
proof (cases "\<bar>m\<bar> = 2 ^ 53")
  case True
  then have m: "m = sgn m * 2 ^ 53" by (metis mult.commute abs_mult_sgn)
  have s: "of_int m * (2::rat) powi k = of_int (sgn m) * 2 powi (k + 53)"
    by (subst m) (simp add: powi_split)
  show ?thesis unfolding s using assms(2)
    by (intro rnd_exact_lt) (auto simp: sgn_if)
next
  case False
  then show ?thesis using assms by (intro rnd_exact_lt) auto
qed

lemma rnd_of_int [simp]: "\<bar>n\<bar> \<le> 2 ^ 53 \<Longrightarrow> rnd (of_int n) = of_int n"
  using rnd_exact[of n 0] by simp

lemma rnd_numeral: "(numeral n :: int) \<le> 2 ^ 53 \<Longrightarrow> rnd (numeral n) = numeral n"
  using rnd_of_int[of "numeral n"] by simp

lemma rnd_1 [simp]: "rnd 1 = 1"
  using rnd_of_int[of 1] by simp

lemma rnd_rnd [simp]: "rnd (rnd x) = rnd x"
proof (cases "x = 0")
  case False
  let ?m = "rne (x / ulp x)"
  have "0 < \<bar>x\<bar>" using False by simp
  then have "\<bar>x\<bar> < 2 powi (expo \<bar>x\<bar> + 1)" by (rule expo_upper)
  also have "\<dots> = 2 ^ 53 * ulp x"
    using ulp_powi(1)[of x] by (simp add: expo_def)
  finally have "\<bar>x / ulp x\<bar> \<le> 2 ^ 53"
    by (simp add: abs_divide divide_le_eq less_imp_le abs_of_pos)
  then have "x / ulp x \<le> of_int (2 ^ 53)" "of_int (- (2 ^ 53)) \<le> x / ulp x"
    by (simp_all add: abs_le_iff del: abs_divide)
  then have "?m \<le> 2 ^ 53" "- (2 ^ 53) \<le> ?m"
    using rne_mono[of "x / ulp x" "of_int (2 ^ 53)"] rne_mono[of "of_int (- (2 ^ 53))" "x / ulp x"]
    by (simp_all only: rne_of_int)
  then have "\<bar>?m\<bar> \<le> 2 ^ 53" by simp
  moreover have "-1074 \<le> expo x - 52" by (simp add: expo_def)
  ultimately have "rnd (of_int ?m * ulp x) = of_int ?m * ulp x"
    unfolding ulp_def by (rule rnd_exact)
  then show ?thesis using False by (simp add: rnd_def)
qed simp

section \<open>The rounding contract\<close>

locale rounding =
  fixes r :: "rat \<Rightarrow> rat"
  assumes r_mono: "x \<le> y \<Longrightarrow> r x \<le> r y"
    and r_idem: "r (r x) = r x"
    and r_zero: "r 0 = 0"
    and r_one: "r 1 = 1"
    and r_minus: "r (- x) = - r x"
begin

lemma nonneg: "0 \<le> x \<Longrightarrow> 0 \<le> r x"
  using r_mono[of 0 x] by (simp add: r_zero)

lemma nonpos: "x \<le> 0 \<Longrightarrow> r x \<le> 0"
  using r_mono[of x 0] by (simp add: r_zero)

lemma ge_fixed: "r a = a \<Longrightarrow> a \<le> x \<Longrightarrow> a \<le> r x"
  using r_mono[of a x] by simp

lemma le_fixed: "r a = a \<Longrightarrow> x \<le> a \<Longrightarrow> r x \<le> a"
  using r_mono[of x a] by simp

lemma add_ge: "r a = a \<Longrightarrow> 0 \<le> y \<Longrightarrow> a \<le> r (a + y)"
  by (rule ge_fixed) auto

lemma sub_le: "r a = a \<Longrightarrow> 0 \<le> y \<Longrightarrow> r (a - y) \<le> a"
  by (rule le_fixed) auto

lemma mult_le: "r a = a \<Longrightarrow> 0 \<le> a \<Longrightarrow> w \<le> 1 \<Longrightarrow> r (a * w) \<le> a"
  by (rule le_fixed) (auto simp: mult_left_le)

lemma div_le_one: "0 \<le> a \<Longrightarrow> a \<le> b \<Longrightarrow> r (a / b) \<le> 1"
  by (rule le_fixed) (auto simp: r_one divide_le_eq_1)

lemma below_iff: "r a = a \<Longrightarrow> a < r x \<Longrightarrow> a < x"
  using r_mono[of x a] by (auto simp: not_le[symmetric])

lemma above_iff: "r a = a \<Longrightarrow> r x < a \<Longrightarrow> x < a"
  using r_mono[of a x] by (auto simp: not_le[symmetric])

end

interpretation rnd: rounding rnd
  by unfold_locales (auto intro: rnd_mono)

interpretation grid: rounding "\<lambda>x. of_int (rne x)"
  by unfold_locales (auto simp: rne_uminus intro: rne_mono)

section \<open>Values and operations\<close>

datatype double = Fin rat | PInf | NInf | NaN

definition fl :: "rat \<Rightarrow> double" where
  "fl x = (let r = rnd x in
     if 2 ^ 1024 \<le> r then PInf else if r \<le> - (2 ^ 1024) then NInf else Fin r)"

definition sinf :: "rat \<Rightarrow> double" where
  "sinf s = (if 0 < s then PInf else if s < 0 then NInf else NaN)"

fun sgnD :: "double \<Rightarrow> rat" where
  "sgnD (Fin a) = sgn a"
| "sgnD PInf = 1"
| "sgnD NInf = - 1"
| "sgnD NaN = 0"

instantiation double :: "{zero, one, plus, minus, uminus, times, inverse, ord}"
begin

definition "0 = Fin 0"
definition "1 = Fin 1"

fun uminus_double :: "double \<Rightarrow> double" where
  "- (Fin a) = Fin (- a)"
| "- PInf = NInf"
| "- NInf = PInf"
| "- NaN = NaN"

definition plus_double :: "double \<Rightarrow> double \<Rightarrow> double" where
  "x + y = (case x of
     Fin a \<Rightarrow> (case y of Fin b \<Rightarrow> fl (a + b) | _ \<Rightarrow> y)
   | PInf \<Rightarrow> (case y of NInf \<Rightarrow> NaN | NaN \<Rightarrow> NaN | _ \<Rightarrow> PInf)
   | NInf \<Rightarrow> (case y of PInf \<Rightarrow> NaN | NaN \<Rightarrow> NaN | _ \<Rightarrow> NInf)
   | NaN \<Rightarrow> NaN)"

definition minus_double :: "double \<Rightarrow> double \<Rightarrow> double" where
  "x - y = x + (- y :: double)"

definition times_double :: "double \<Rightarrow> double \<Rightarrow> double" where
  "x * y = (case x of
     NaN \<Rightarrow> NaN
   | Fin a \<Rightarrow> (case y of Fin b \<Rightarrow> fl (a * b) | NaN \<Rightarrow> NaN | _ \<Rightarrow> sinf (sgn a * sgnD y))
   | _ \<Rightarrow> (case y of NaN \<Rightarrow> NaN | _ \<Rightarrow> sinf (sgnD x * sgnD y)))"

definition divide_double :: "double \<Rightarrow> double \<Rightarrow> double" where
  "x div y = (case x of
     NaN \<Rightarrow> NaN
   | Fin a \<Rightarrow> (case y of Fin b \<Rightarrow> if b = 0 then sinf a else fl (a / b)
                        | NaN \<Rightarrow> NaN | _ \<Rightarrow> Fin 0)
   | _ \<Rightarrow> (case y of Fin b \<Rightarrow> sinf (sgnD x * (if b < 0 then - 1 else 1)) | _ \<Rightarrow> NaN))"

definition inverse_double :: "double \<Rightarrow> double" where
  "inverse x = 1 div (x::double)"

fun less_eq_double :: "double \<Rightarrow> double \<Rightarrow> bool" where
  "Fin a \<le> Fin b \<longleftrightarrow> a \<le> b"
| "NaN \<le> y \<longleftrightarrow> False"
| "x \<le> NaN \<longleftrightarrow> False"
| "NInf \<le> y \<longleftrightarrow> True"
| "x \<le> PInf \<longleftrightarrow> True"
| "x \<le> NInf \<longleftrightarrow> False"
| "PInf \<le> y \<longleftrightarrow> False"

definition less_double :: "double \<Rightarrow> double \<Rightarrow> bool" where
  "x < y \<longleftrightarrow> x \<le> y \<and> \<not> y \<le> (x::double)"

instance ..

end

definition deq :: "double \<Rightarrow> double \<Rightarrow> bool" where
  "deq x y \<longleftrightarrow> x \<le> y \<and> y \<le> x"

definition cmax :: "double \<Rightarrow> double \<Rightarrow> double" where
  "cmax a b = (if a < b then b else a)"

definition cmin :: "double \<Rightarrow> double \<Rightarrow> double" where
  "cmin a b = (if b < a then b else a)"

fun dabs :: "double \<Rightarrow> double" where
  "dabs (Fin a) = Fin \<bar>a\<bar>"
| "dabs PInf = PInf"
| "dabs NInf = PInf"
| "dabs NaN = NaN"

fun on_fin :: "(rat \<Rightarrow> rat) \<Rightarrow> double \<Rightarrow> double" where
  "on_fin f (Fin a) = Fin (f a)"
| "on_fin f x = x"

definition dfloor :: "double \<Rightarrow> double" where
  "dfloor = on_fin (\<lambda>a. of_int \<lfloor>a\<rfloor>)"

definition nearbyint :: "double \<Rightarrow> double" where
  "nearbyint = on_fin (\<lambda>a. of_int (rne a))"

definition dround :: "double \<Rightarrow> double" where
  "dround = on_fin (\<lambda>a. of_int (if 0 \<le> a then \<lfloor>a + 1 / 2\<rfloor> else - \<lfloor>1 / 2 - a\<rfloor>))"

definition lit :: "rat \<Rightarrow> double" where
  "lit q = fl q"

definition of_i :: "int \<Rightarrow> double" where
  "of_i n = fl (of_int n)"

lemma divide_double_eq: "(x::double) / y = x div y"
  by simp

section \<open>Laws\<close>

named_theorems dbl_simps

fun isD :: "double \<Rightarrow> bool" where
  "isD (Fin q) \<longleftrightarrow> rnd q = q \<and> \<bar>q\<bar> < 2 ^ 1024"
| "isD _ \<longleftrightarrow> True"

text \<open>Evaluation: rounding by integer division, and the small range first, where no power of two has to be compared.\<close>

lemma pow1024: "(9007199254740992::rat) \<le> 2 ^ 1024"
  by simp

definition rnd_div :: "int \<Rightarrow> int \<Rightarrow> int" where
  "rnd_div a b = (let q = a div b; r = 2 * (a mod b) in
     if r < b then q else if b < r then q + 1 else if even q then q else q + 1)"

lemma rne_div: "0 < b \<Longrightarrow> rne (of_int a / of_int b) = rnd_div a b"
proof -
  assume b: "0 < b"
  have f: "\<lfloor>of_int a / of_int b :: rat\<rfloor> = a div b" by (simp add: floor_divide_of_int_eq)
  have "of_int a = of_int (a div b) * of_int b + (of_int (a mod b) :: rat)"
    by (simp flip: of_int_mult of_int_add)
  then have r: "of_int a / of_int b - of_int (a div b) = (of_int (a mod b) / of_int b :: rat)"
    using b by (simp add: field_simps)
  have p: "(0::rat) < of_int b" using b by simp
  have i: "(of_int (2 * (a mod b)) < (of_int b :: rat)) = (2 * (a mod b) < b)"
    "((of_int b :: rat) < of_int (2 * (a mod b))) = (b < 2 * (a mod b))" by (simp_all only: of_int_less_iff)
  have c: "of_int (a mod b) / of_int b < (1 / 2 :: rat) \<longleftrightarrow> 2 * (a mod b) < b"
    "(1 / 2 :: rat) < of_int (a mod b) / of_int b \<longleftrightarrow> b < 2 * (a mod b)"
    unfolding i[symmetric] using p by (simp_all add: divide_less_eq less_divide_eq mult.commute)
  show ?thesis unfolding rne_def rnd_div_def Let_def f r c ..
qed

lemma rnd_code [code]:
  "rnd x = (case quotient_of x of (n, d) \<Rightarrow>
     if n = 0 then 0
     else let e = expo x - 52 in
       if 0 \<le> e then of_int (rnd_div n (d * 2 ^ nat e) * 2 ^ nat e)
       else Fract (rnd_div (n * 2 ^ nat (- e)) d) (2 ^ nat (- e)))"
proof -
  obtain n d where q: "quotient_of x = (n, d)" by fastforce
  have d: "0 < d" and x: "x = of_int n / of_int d" using q quotient_of_denom_pos quotient_of_div by auto
  define e where "e = expo x - 52"
  show ?thesis
  proof (cases "n = 0")
    case False
    then have x0: "x \<noteq> 0" using x d by simp
    show ?thesis
    proof (cases "0 \<le> e")
      case True
      then have u: "ulp x = of_int (2 ^ nat e)" by (simp add: ulp_def e_def power_int_def)
      have "x / ulp x = of_int n / of_int (d * 2 ^ nat e)" unfolding u by (simp add: x)
      then have "rne (x / ulp x) = rnd_div n (d * 2 ^ nat e)" using rne_div[of "d * 2 ^ nat e" n] d by simp
      then have "rnd x = of_int (rnd_div n (d * 2 ^ nat e)) * of_int (2 ^ nat e)"
        using x0 u by (simp only: rnd_def if_False)
      then show ?thesis using True False by (simp add: q Let_def flip: e_def)
    next
      case n0: False
      then have u: "ulp x = 1 / of_int (2 ^ nat (- e))" by (simp add: ulp_def e_def power_int_def power_one_over)
      have "x / ulp x = of_int (n * 2 ^ nat (- e)) / of_int d" unfolding u by (simp add: x)
      then have "rne (x / ulp x) = rnd_div (n * 2 ^ nat (- e)) d" using d by (simp only: rne_div)
      then have "rnd x = of_int (rnd_div (n * 2 ^ nat (- e)) d) * (1 / of_int (2 ^ nat (- e)))"
        using x0 u by (simp only: rnd_def if_False)
      then show ?thesis using n0 False by (simp add: q Let_def Fract_of_int_quotient flip: e_def)
    qed
  qed (use x q in simp)
qed

lemma fl_code [code]:
  "fl x = (let r = rnd x in
     if - 9007199254740992 < r \<and> r < 9007199254740992 then Fin r
     else if 2 ^ 1024 \<le> r then PInf else if r \<le> - (2 ^ 1024) then NInf else Fin r)"
  using pow1024 by (simp add: fl_def Let_def del: power_numeral) linarith?

lemma isD_code [code]:
  "isD x = (case x of Fin q \<Rightarrow> rnd q = q \<and> (if \<bar>q\<bar> < 9007199254740992 then True else \<bar>q\<bar> < 2 ^ 1024)
            | _ \<Rightarrow> True)"
  using pow1024 by (cases x) (auto simp del: power_numeral)

fun finite_d :: "double \<Rightarrow> bool" where
  "finite_d (Fin q) \<longleftrightarrow> True"
| "finite_d _ \<longleftrightarrow> False"

lemma finite_dE: "finite_d x \<Longrightarrow> (\<And>q. x = Fin q \<Longrightarrow> P) \<Longrightarrow> P"
  by (cases x) auto

lemma isD_fl [simp]: "isD (fl q)"
  by (simp add: fl_def Let_def abs_less_iff)

lemma isD_lit [simp]: "isD (lit q)" and isD_of_i [simp]: "isD (of_i n)"
  by (simp_all add: lit_def of_i_def)

lemma isD_const [simp]: "isD 0" "isD 1"
  by (simp_all add: zero_double_def one_double_def)

lemma isD_uminus [simp]: "isD (- x) \<longleftrightarrow> isD x"
  by (cases x) auto

lemma isD_sinf [simp]: "isD (sinf s)"
  by (simp add: sinf_def)

lemma isD_plus [simp]: "isD x \<Longrightarrow> isD y \<Longrightarrow> isD (x + y)"
  by (cases x; cases y) (auto simp: plus_double_def)

lemma isD_minus [simp]: "isD x \<Longrightarrow> isD y \<Longrightarrow> isD (x - y)"
  by (simp add: minus_double_def)

lemma isD_times [simp]: "isD (x * y)"
  by (cases x; cases y) (auto simp: times_double_def)

lemma isD_divide [simp]: "isD (x / y)"
  by (cases x; cases y) (auto simp: divide_double_def)

lemma isD_cmax [simp]: "isD x \<Longrightarrow> isD y \<Longrightarrow> isD (cmax x y)"
  and isD_cmin [simp]: "isD x \<Longrightarrow> isD y \<Longrightarrow> isD (cmin x y)"
  by (simp_all add: cmax_def cmin_def)

lemma isD_dabs [simp]: "isD x \<Longrightarrow> isD (dabs x)"
  by (cases x) (auto simp: abs_if)

lemma fl_fixed: "isD (Fin q) \<Longrightarrow> fl q = Fin q"
  by (auto simp: fl_def Let_def abs_less_iff)

lemma le_trans_d: "(x::double) \<le> y \<Longrightarrow> y \<le> z \<Longrightarrow> x \<le> z"
  by (cases x; cases y; cases z) auto

lemma le_antisym_d: "(x::double) \<le> y \<Longrightarrow> y \<le> x \<Longrightarrow> x = y"
  by (cases x; cases y) auto

lemma le_refl_d [simp]: "(x::double) \<le> x \<longleftrightarrow> x \<noteq> NaN"
  by (cases x) auto

lemma le_total_d: "x \<noteq> NaN \<Longrightarrow> y \<noteq> NaN \<Longrightarrow> (x::double) \<le> y \<or> y \<le> x"
  by (cases x; cases y) auto

lemma less_le_d: "(x::double) < y \<Longrightarrow> x \<le> y"
  by (simp add: less_double_def)

lemma not_less_d: "x \<noteq> NaN \<Longrightarrow> y \<noteq> NaN \<Longrightarrow> \<not> x < y \<longleftrightarrow> (y::double) \<le> x"
  by (cases x; cases y) (auto simp: less_double_def)

lemma not_le_d: "x \<noteq> NaN \<Longrightarrow> y \<noteq> NaN \<Longrightarrow> \<not> x \<le> y \<longleftrightarrow> (y::double) < x"
  by (cases x; cases y) (auto simp: less_double_def)

lemma less_le_trans_d: "(x::double) < y \<Longrightarrow> y \<le> z \<Longrightarrow> x < z"
  by (cases x; cases y; cases z) (auto simp: less_double_def)

lemma le_less_trans_d: "(x::double) \<le> y \<Longrightarrow> y < z \<Longrightarrow> x < z"
  by (cases x; cases y; cases z) (auto simp: less_double_def)

lemma less_trans_d: "(x::double) < y \<Longrightarrow> y < z \<Longrightarrow> x < z"
  using less_le_trans_d less_le_d by blast

lemma less_irrefl_d [simp]: "\<not> (x::double) < x"
  by (simp add: less_double_def)

lemma nan_not_le [simp]: "\<not> x \<le> NaN" "\<not> NaN \<le> (x::double)" "\<not> x < NaN" "\<not> NaN < (x::double)"
  by (cases x; simp add: less_double_def)+

lemma Fin_less [simp]: "Fin a < Fin b \<longleftrightarrow> a < b"
  by (auto simp: less_double_def)

lemma le_not_nan: "(x::double) \<le> y \<Longrightarrow> x \<noteq> NaN \<and> y \<noteq> NaN"
  by auto

lemma fl_mono: "x \<le> y \<Longrightarrow> fl x \<le> fl y"
  using rnd_mono[of x y] by (auto simp: fl_def Let_def)

lemma fl_not_nan [simp]: "fl x \<noteq> NaN"
  by (simp add: fl_def Let_def)

lemma fl_ge: "isD (Fin a) \<Longrightarrow> a \<le> x \<Longrightarrow> Fin a \<le> fl x"
  using fl_mono[of a x] by (simp add: fl_fixed)

lemma fl_le: "isD (Fin a) \<Longrightarrow> x \<le> a \<Longrightarrow> fl x \<le> Fin a"
  using fl_mono[of x a] by (simp add: fl_fixed)

lemma add_nonneg_d: "0 \<le> x \<Longrightarrow> 0 \<le> y \<Longrightarrow> (0::double) \<le> x + y"
  by (cases x; cases y) (auto simp: plus_double_def zero_double_def intro!: fl_ge)

lemma mult_nonneg_d: "0 \<le> x \<Longrightarrow> 0 \<le> y \<Longrightarrow> finite_d x \<Longrightarrow> finite_d y \<Longrightarrow> (0::double) \<le> x * y"
  by (cases x; cases y) (auto simp: times_double_def zero_double_def intro!: fl_ge)

lemma div_nonneg_d: "0 \<le> x \<Longrightarrow> 0 < y \<Longrightarrow> finite_d x \<Longrightarrow> (0::double) \<le> x / y"
  by (cases x; cases y) (auto simp: divide_double_def zero_double_def intro!: fl_ge)

lemma add_ge_d: "isD x \<Longrightarrow> x \<noteq> NaN \<Longrightarrow> x \<noteq> NInf \<Longrightarrow> 0 \<le> y \<Longrightarrow> x \<le> x + (y::double)"
  by (cases x; cases y) (auto simp: plus_double_def zero_double_def intro!: fl_ge)

lemma add_ge2_d: "isD y \<Longrightarrow> y \<noteq> NaN \<Longrightarrow> y \<noteq> NInf \<Longrightarrow> 0 \<le> x \<Longrightarrow> y \<le> x + (y::double)"
  by (cases x; cases y) (auto simp: plus_double_def zero_double_def intro!: fl_ge)

lemma sub_le_d: "isD x \<Longrightarrow> finite_d x \<Longrightarrow> 0 \<le> y \<Longrightarrow> x - y \<le> (x::double)"
  by (cases x; cases y) (auto simp: minus_double_def plus_double_def zero_double_def intro!: fl_le)

lemma sub_nonneg_d: "x \<le> y \<Longrightarrow> finite_d x \<Longrightarrow> (0::double) \<le> y - x"
  by (cases x; cases y) (auto simp: minus_double_def plus_double_def zero_double_def intro!: fl_ge)

lemma mult_le_d: "isD x \<Longrightarrow> finite_d x \<Longrightarrow> 0 \<le> x \<Longrightarrow> 0 \<le> w \<Longrightarrow> w \<le> 1 \<Longrightarrow> x * w \<le> (x::double)"
  by (cases x; cases w) (auto simp: times_double_def zero_double_def one_double_def mult_left_le intro!: fl_le)

lemma div_le_one_d: "0 \<le> x \<Longrightarrow> x \<le> y \<Longrightarrow> 0 < y \<Longrightarrow> finite_d x \<Longrightarrow> x / y \<le> (1::double)"
  by (cases x; cases y) (auto simp: divide_double_def zero_double_def one_double_def intro!: fl_le)

lemma add_mono_d: "x \<le> y \<Longrightarrow> finite_d z \<Longrightarrow> x + z \<le> y + (z::double)"
  by (cases x; cases y; cases z) (auto simp: plus_double_def intro!: fl_mono, (simp add: fl_def Let_def)+)

lemma cmax_ge: "a \<noteq> NaN \<Longrightarrow> a \<le> cmax a b" "a \<noteq> NaN \<Longrightarrow> b \<noteq> NaN \<Longrightarrow> b \<le> cmax a b"
  by (auto simp: cmax_def not_less_d less_le_d)

lemma cmin_le: "a \<noteq> NaN \<Longrightarrow> cmin a b \<le> a" "a \<noteq> NaN \<Longrightarrow> b \<noteq> NaN \<Longrightarrow> cmin a b \<le> b"
  by (auto simp: cmin_def not_less_d less_le_d)

lemma on_fin_not_nan [simp]: "on_fin f x = NaN \<longleftrightarrow> x = NaN"
  by (cases x) auto

lemma nearbyint_mono: "x \<le> y \<Longrightarrow> nearbyint x \<le> nearbyint y"
  by (cases x; cases y) (auto simp: nearbyint_def rne_mono)

section \<open>Rounding errors and decimal grids\<close>

lemma rnd_error: "2 powi (- 1022) \<le> \<bar>x\<bar> \<Longrightarrow> \<bar>rnd x - x\<bar> \<le> \<bar>x\<bar> / 2 ^ 53"
proof (cases "x = 0")
  case False
  assume n: "2 powi (- 1022) \<le> \<bar>x\<bar>"
  have p: "0 < \<bar>x\<bar>" using False by simp
  have "\<bar>of_int (rne (x / ulp x)) - x / ulp x\<bar> \<le> 1 / 2" by (rule rne_near)
  then have "\<bar>(of_int (rne (x / ulp x)) - x / ulp x) * ulp x\<bar> \<le> 1 / 2 * ulp x"
    by (simp add: abs_mult abs_of_pos)
  then have e: "\<bar>rnd x - x\<bar> \<le> ulp x / 2"
    using False by (simp add: rnd_def left_diff_distrib less_imp_neq[OF ulp_pos, symmetric])
  have "2 powi expo x \<le> \<bar>x\<bar>"
    using n ilog2_bounds(1)[OF p] by (auto simp: expo_def max_def)
  then have "ulp x \<le> \<bar>x\<bar> / 2 ^ 52" unfolding ulp_powi by (simp add: le_divide_eq mult.commute)
  then show ?thesis using e by simp
qed simp

lemma mult_mono_c: "x \<le> y \<Longrightarrow> 0 < c \<Longrightarrow> x * Fin c \<le> y * Fin c"
  by (cases x; cases y) (auto simp: times_double_def sinf_def sgn_if intro!: fl_mono mult_right_mono, (simp add: fl_def Let_def)+)

lemma div_mono_c: "x \<le> y \<Longrightarrow> 0 < c \<Longrightarrow> x / Fin c \<le> y / Fin c"
  by (cases x; cases y) (auto simp: divide_double_def sinf_def sgn_if intro!: fl_mono divide_right_mono, (simp add: fl_def Let_def)+)

lemma fl_small: "\<bar>x\<bar> \<le> 2 ^ 53 \<Longrightarrow> fl x = Fin (rnd x)"
proof -
  assume x: "\<bar>x\<bar> \<le> 2 ^ 53"
  have e: "rnd (of_int (2 ^ 53)) = of_int (2 ^ 53)" by (rule rnd_of_int) simp
  have "rnd x \<le> 2 ^ 53" "- rnd x \<le> 2 ^ 53"
    using x rnd_mono[of x "of_int (2 ^ 53)"] rnd_mono[of "- x" "of_int (2 ^ 53)"] unfolding e by auto
  moreover have "(2::rat) ^ 53 < 2 ^ 1024" by (rule power_strict_increasing) simp_all
  ultimately have "rnd x < 2 ^ 1024" "- (2 ^ 1024) < rnd x" by linarith+
  then show ?thesis by (simp add: fl_def Let_def not_le del: power_numeral)
qed

lemma rne_stable:
  assumes "\<bar>k\<bar> \<le> 2 ^ 50" "\<bar>y - of_int k\<bar> \<le> 1 / 4"
  shows "rne (rnd y) = k"
proof -
  have e: "rnd (of_int (4 * k + j) * 2 powi (- 2)) = of_int (4 * k + j) * 2 powi (- 2)" if "\<bar>j\<bar> \<le> 1" for j
    using assms(1) that by (intro rnd_exact) auto
  have q: "of_int (4 * k + j) * 2 powi (- 2) = of_int k + of_int j / (4::rat)" for j
    by (simp add: power_int_minus field_simps)
  have "rnd (of_int k + 1 / 4) = of_int k + 1 / 4" "rnd (of_int k - 1 / 4) = of_int k - (1 / 4 :: rat)"
    using e[of 1] e[of "-1"] unfolding q by simp_all
  moreover have "of_int k - 1 / 4 \<le> y" "y \<le> of_int k + 1 / 4" using assms(2) by linarith+
  ultimately have "of_int k - 1 / 4 \<le> rnd y" "rnd y \<le> of_int k + 1 / 4"
    using rnd_mono[of "of_int k - 1 / 4" y] rnd_mono[of y "of_int k + 1 / 4"] by simp_all
  then have "\<bar>of_int k - rnd y\<bar> \<le> 1 / 4" by linarith
  then show ?thesis by (intro rne_unique) linarith
qed


lemma nearbyint_grid:
  assumes "\<bar>k\<bar> \<le> 2 ^ 44" "0 < c" "c \<le> 2 ^ 20"
  shows "nearbyint (fl (of_int k / of_int c) * Fin (of_int c)) = Fin (of_int k)"
proof (cases "k = 0")
  case False
  let ?z = "of_int k / (of_int c :: rat)"
  define A where "A = (of_int \<bar>k\<bar> :: rat)"
  define C where "C = (of_int c :: rat)"
  have c: "1 \<le> C" "C \<le> 2 ^ 20" unfolding C_def using assms(2,3)
    by (metis of_int_1 of_int_le_iff int_one_le_iff_zero_less, metis of_int_le_iff of_int_numeral of_int_power)
  have k: "1 \<le> A" "A \<le> 2 ^ 44" unfolding A_def using False assms(1)
    by (metis abs_ge_zero int_one_le_iff_zero_less of_int_1 of_int_le_iff zero_less_abs_iff,
        metis of_int_le_iff of_int_numeral of_int_power)
  have az: "\<bar>?z\<bar> = A / C" using c(1) by (simp add: A_def C_def)
  have "A / C \<le> A / 1" using c k by (intro divide_left_mono) auto
  then have zu: "\<bar>?z\<bar> \<le> 2 ^ 44" using k az by simp
  have "1 / 2 ^ 20 \<le> 1 / C" using c by (intro divide_left_mono) auto
  also have "\<dots> \<le> A / C" using c k by (intro divide_right_mono) auto
  finally have zl: "1 / 2 ^ 20 \<le> \<bar>?z\<bar>" using az by simp
  have "(2::rat) powi (- 1022) \<le> 2 powi (- 20)" by (rule power_int_increasing) auto
  also have "\<dots> = 1 / 2 ^ 20" by (simp add: power_int_def power_divide)
  finally have n: "2 powi (- 1022) \<le> \<bar>?z\<bar>" using zl by (rule order_trans)
  have er: "\<bar>rnd ?z - ?z\<bar> \<le> \<bar>?z\<bar> / 2 ^ 53" by (rule rnd_error[OF n])
  have "(rnd ?z - ?z) * C = rnd ?z * C - of_int k"
    using c(1) by (simp add: C_def left_diff_distrib)
  then have "\<bar>rnd ?z * C - of_int k\<bar> = \<bar>rnd ?z - ?z\<bar> * C"
    using c(1) abs_mult[of "rnd ?z - ?z" C] by simp
  also have "\<dots> \<le> \<bar>?z\<bar> / 2 ^ 53 * C" using er c(1) by (intro mult_right_mono) auto
  also have "\<dots> = A / 2 ^ 53" using az c(1) by simp
  also have "\<dots> \<le> 1 / 4" using k(2) by simp
  finally have close: "\<bar>rnd ?z * C - of_int k\<bar> \<le> 1 / 4" .
  have "rne (rnd (rnd ?z * C)) = k" using assms(1) by (intro rne_stable close) auto
  moreover have "fl ?z = Fin (rnd ?z)" using zu by (intro fl_small) simp
  moreover have "fl (rnd ?z * C) = Fin (rnd (rnd ?z * C))"
  proof (rule fl_small)
    have "\<bar>rnd ?z * C\<bar> \<le> A + 1 / 4" using close unfolding A_def of_int_abs by linarith
    also have "\<dots> \<le> 2 ^ 53" using k(2) by simp
    finally show "\<bar>rnd ?z * C\<bar> \<le> 2 ^ 53" .
  qed
  ultimately show ?thesis by (simp add: times_double_def nearbyint_def C_def)
qed (simp add: fl_def times_double_def nearbyint_def)

section \<open>Magnitudes\<close>

text \<open>\<open>mag k x\<close>: \<open>x\<close> is finite and at most \<open>2 ^ k\<close> in absolute value; no sum or product of such values overflows.\<close>

definition mag :: "nat \<Rightarrow> double \<Rightarrow> bool" where
  "mag k x \<longleftrightarrow> (\<exists>q. x = Fin q \<and> \<bar>q\<bar> \<le> 2 ^ k)"

lemma mag_Fin [simp]: "mag k (Fin q) \<longleftrightarrow> \<bar>q\<bar> \<le> 2 ^ k"
  by (simp add: mag_def)

named_theorems mag_intros

lemma mag_fl:
  assumes "\<bar>q\<bar> \<le> 2 ^ k" "k \<le> 53" shows "mag k (fl q)"
proof -
  have p: "(2::rat) ^ k \<le> 2 ^ 53" using assms(2) by (intro power_increasing) auto
  have "(2::int) ^ k \<le> 2 ^ 53" using assms(2) by (intro power_increasing) auto
  then have "rnd (of_int (2 ^ k)) = of_int (2 ^ k)" by (intro rnd_of_int) simp
  then have r: "rnd (2 ^ k) = 2 ^ k" by simp
  have "rnd q \<le> rnd (2 ^ k)" "rnd (- (2 ^ k)) \<le> rnd q" using assms(1) by (intro rnd_mono; linarith)+
  then have "\<bar>rnd q\<bar> \<le> 2 ^ k" unfolding rnd_uminus r by linarith
  then show ?thesis using fl_small[of q] assms(1) p by (auto simp: mag_def)
qed

lemma mag_mono:
  assumes "mag j x" "j \<le> k" shows "mag k x"
proof -
  obtain q where q: "x = Fin q" "\<bar>q\<bar> \<le> 2 ^ j" using assms(1) by (auto simp: mag_def)
  have "(2::rat) ^ j \<le> 2 ^ k" by (rule power_increasing[OF assms(2)]) simp
  with q(2) have "\<bar>q\<bar> \<le> 2 ^ k" by (rule order_trans)
  then show ?thesis using q(1) by (simp add: mag_def)
qed

lemma mag_uminus [mag_intros]: "mag k x \<Longrightarrow> mag k (- x)"
  by (auto simp: mag_def)

lemma mag_plus [mag_intros]: "mag k x \<Longrightarrow> mag k y \<Longrightarrow> k < 53 \<Longrightarrow> mag (Suc k) (x + y)"
proof -
  assume "mag k x" "mag k y" "k < 53"
  then obtain p q where "x = Fin p" "y = Fin q" "\<bar>p\<bar> \<le> 2 ^ k" "\<bar>q\<bar> \<le> 2 ^ k" by (auto simp: mag_def)
  then show ?thesis using \<open>k < 53\<close> mag_fl[of "p + q" "Suc k"] by (auto simp: plus_double_def)
qed

lemma mag_minus [mag_intros]: "mag k x \<Longrightarrow> mag k y \<Longrightarrow> k < 53 \<Longrightarrow> mag (Suc k) (x - y)"
  unfolding minus_double_def by (intro mag_intros)

lemma mag_times [mag_intros]: "mag j x \<Longrightarrow> mag k y \<Longrightarrow> j + k \<le> 53 \<Longrightarrow> mag (j + k) (x * y)"
proof -
  assume "mag j x" "mag k y" "j + k \<le> 53"
  then obtain p q where *: "x = Fin p" "y = Fin q" "\<bar>p\<bar> \<le> 2 ^ j" "\<bar>q\<bar> \<le> 2 ^ k" by (auto simp: mag_def)
  then have "\<bar>p * q\<bar> \<le> 2 ^ (j + k)" by (auto simp: abs_mult power_add intro: mult_mono)
  then show ?thesis using * \<open>j + k \<le> 53\<close> mag_fl[of "p * q"] by (auto simp: times_double_def)
qed

lemma mag_shrink: "mag k x \<Longrightarrow> k \<le> 53 \<Longrightarrow> \<bar>c\<bar> \<le> 1 \<Longrightarrow> mag k (Fin c * x)"
proof -
  assume "mag k x" "k \<le> 53" "\<bar>c\<bar> \<le> 1"
  then obtain p where *: "x = Fin p" "\<bar>p\<bar> \<le> 2 ^ k" by (auto simp: mag_def)
  have "\<bar>c * p\<bar> \<le> 1 * 2 ^ k" unfolding abs_mult using * \<open>\<bar>c\<bar> \<le> 1\<close> by (intro mult_mono) auto
  then show ?thesis using * \<open>k \<le> 53\<close> mag_fl[of "c * p"] by (auto simp: times_double_def)
qed

lemma mag_divide: "mag k x \<Longrightarrow> k \<le> 53 \<Longrightarrow> 1 \<le> c \<Longrightarrow> mag k (x / Fin c)"
proof -
  assume "mag k x" "k \<le> 53" "1 \<le> c"
  then obtain p where *: "x = Fin p" "\<bar>p\<bar> \<le> 2 ^ k" by (auto simp: mag_def)
  have "\<bar>p\<bar> / c \<le> \<bar>p\<bar> / 1" using \<open>1 \<le> c\<close> by (intro divide_left_mono) auto
  then have "\<bar>p / c\<bar> \<le> 2 ^ k" using *(2) \<open>1 \<le> c\<close> by (simp add: abs_divide)
  then show ?thesis using * \<open>k \<le> 53\<close> \<open>1 \<le> c\<close> mag_fl[of "p / c"] by (auto simp: divide_double_def)
qed

lemma mag_choice [mag_intros]: "mag k x \<Longrightarrow> mag k y \<Longrightarrow> mag k (cmax x y)" "mag k x \<Longrightarrow> mag k y \<Longrightarrow> mag k (cmin x y)"
  by (simp_all add: cmax_def cmin_def)

lemma mag_finite: "mag k x \<Longrightarrow> finite_d x" and mag_not_nan: "mag k x \<Longrightarrow> x \<noteq> NaN"
  by (auto simp: mag_def)

end
