(* ===== verification/Support.thy ===== *)
theory Support
  imports Double
begin

text \<open>
  The header-only helpers \<open>env.hpp\<close>, \<open>strutil.hpp\<close>, \<open>jsonutil.hpp\<close> and \<open>app/dotenv.hpp\<close>:
  reading configuration from the process environment, cutting UTF-8 text, tolerant access to
  JSON values and loading a \<open>.env\<close> file.  \<open>std::stod\<close> is modelled as the C library defines
  it (decimal and hexadecimal forms, \<open>inf\<close> and \<open>nan\<close>, range errors as \<open>None\<close>).  The JSON
  library is a parameter: \<open>dump\<close> prints a value and \<open>parse\<close> reads one.
\<close>

section \<open>Numbers in text\<close>

definition isspace :: "char \<Rightarrow> bool" where
  "isspace c \<longleftrightarrow> c = CHR '' '' \<or> (9 \<le> char_code c \<and> char_code c \<le> 13)"

definition strip :: "string \<Rightarrow> string" where
  "strip s = rev (dropWhile isspace (rev (dropWhile isspace s)))"

definition take_sign :: "string \<Rightarrow> bool \<times> string" where
  "take_sign s = (case s of [] \<Rightarrow> (False, [])
     | c # r \<Rightarrow> if c = CHR ''-'' then (True, r) else if c = CHR ''+'' then (False, r) else (False, s))"

definition is_hex :: "char \<Rightarrow> bool" where
  "is_hex c \<longleftrightarrow> is_digit c \<or> in_range (CHR ''a'') (lower_char c) (CHR ''f'')"

definition hex_digit_val :: "char \<Rightarrow> nat" where
  "hex_digit_val c = (if is_digit c then digit_val c else char_code (lower_char c) - 87)"

definition hex_val :: "string \<Rightarrow> nat" where
  "hex_val s = foldl (\<lambda>a c. 16 * a + hex_digit_val c) 0 s"

text \<open>Digits, an optional point and digits; \<open>None\<close> when there is no digit at all.\<close>

definition mantissa :: "(char \<Rightarrow> bool) \<Rightarrow> string \<Rightarrow> (string \<times> nat \<times> string) option" where
  "mantissa dig s =
     (let ip = takeWhile dig s; r = dropWhile dig s;
          (fp, r2) = (case r of [] \<Rightarrow> ([], r)
             | c # r' \<Rightarrow> if c = CHR ''.'' then (takeWhile dig r', dropWhile dig r') else ([], r))
      in if ip = [] \<and> fp = [] then None else Some (ip @ fp, length fp, r2))"

definition exponent :: "char \<Rightarrow> string \<Rightarrow> int \<times> string" where
  "exponent e s = (case s of [] \<Rightarrow> (0, s)
     | c # r \<Rightarrow> if lower_char c \<noteq> e then (0, s)
         else let (neg, r') = take_sign r; ds = takeWhile is_digit r' in
           if ds = [] then (0, s)
           else (if neg then - int (dec_val ds) else int (dec_val ds), dropWhile is_digit r'))"

definition dec_number :: "string \<Rightarrow> (rat \<times> string) option" where
  "dec_number s = (case mantissa is_digit s of None \<Rightarrow> None
     | Some (ds, k, r) \<Rightarrow> (case exponent (CHR ''e'') r of
         (e, r') \<Rightarrow> Some (of_nat (dec_val ds) * 10 powi (e - int k), r')))"

definition hex_number :: "string \<Rightarrow> (rat \<times> string) option" where
  "hex_number s = (case mantissa is_hex s of None \<Rightarrow> None
     | Some (ds, k, r) \<Rightarrow> (case exponent (CHR ''p'') r of
         (e, r') \<Rightarrow> Some (of_nat (hex_val ds) * 2 powi (e - 4 * int k), r')))"

definition has_prefix_ci :: "string \<Rightarrow> string \<Rightarrow> bool" where
  "has_prefix_ci p s \<longleftrightarrow> to_lower (take (length p) s) = p"

text \<open>\<open>strtod\<close>: sign, value and unread rest; \<open>None\<close> when nothing converts.\<close>

datatype scanned = ScanInf | ScanNan | ScanRat rat

definition scan_number :: "string \<Rightarrow> (bool \<times> scanned \<times> string) option" where
  "scan_number s =
     (let (neg, r) = take_sign (dropWhile isspace s)
      in if has_prefix_ci ''infinity'' r then Some (neg, ScanInf, drop 8 r)
         else if has_prefix_ci ''inf'' r then Some (neg, ScanInf, drop 3 r)
         else if has_prefix_ci ''nan'' r then Some (neg, ScanNan, drop 3 r)
         else case (if has_prefix_ci ''0x'' r then hex_number (drop 2 r) else None) of
                Some (q, r') \<Rightarrow> Some (neg, ScanRat q, r')
              | None \<Rightarrow> map_option (\<lambda>(q, r'). (neg, ScanRat q, r')) (dec_number r))"

definition with_sign :: "bool \<Rightarrow> double \<Rightarrow> double" where
  "with_sign neg d = (if neg then - d else d)"

text \<open>A nonzero value that overflows, or that is subnormal and inexact, sets \<open>ERANGE\<close>.\<close>

fun in_erange :: "rat \<Rightarrow> double \<Rightarrow> bool" where
  "in_erange q (Fin r) \<longleftrightarrow> \<bar>r\<bar> < 2 powi (- 1022) \<and> r \<noteq> q"
| "in_erange q d \<longleftrightarrow> True"

text \<open>\<open>std::stod\<close>: the value and the unread rest; \<open>None\<close> is a thrown exception.\<close>

definition stod :: "string \<Rightarrow> (double \<times> string) option" where
  "stod s = (case scan_number s of None \<Rightarrow> None
     | Some (neg, ScanInf, r) \<Rightarrow> Some (with_sign neg PInf, r)
     | Some (neg, ScanNan, r) \<Rightarrow> Some (NaN, r)
     | Some (neg, ScanRat q, r) \<Rightarrow> if in_erange q (fl q) then None else Some (with_sign neg (fl q), r))"

definition atof :: "string \<Rightarrow> double" where
  "atof s = (case scan_number s of None \<Rightarrow> 0
     | Some (neg, ScanInf, r) \<Rightarrow> with_sign neg PInf
     | Some (neg, ScanNan, r) \<Rightarrow> NaN
     | Some (neg, ScanRat q, r) \<Rightarrow> with_sign neg (fl q))"

text \<open>\<open>std::to_string(double)\<close>, the \<open>%f\<close> format: six decimals of the exact value.\<close>

definition zero_pad :: "nat \<Rightarrow> string \<Rightarrow> string" where
  "zero_pad n s = replicate (n - length s) (CHR ''0'') @ s"

definition fixed_str :: "nat \<Rightarrow> rat \<Rightarrow> string" where
  "fixed_str k q =
     (let n = nat (rne (\<bar>q\<bar> * 10 ^ k)) in
      (if q < 0 then ''-'' else []) @ nat_str (n div 10 ^ k) @ ''.'' @ zero_pad k (nat_str (n mod 10 ^ k)))"

fun double_str :: "double \<Rightarrow> string" where
  "double_str (Fin q) = fixed_str 6 q"
| "double_str PInf = ''inf''"
| "double_str NInf = ''-inf''"
| "double_str NaN = ''nan''"

text \<open>\<open>sscanf\<close> with \<open>%d\<close> and literal separators, and \<open>timegm\<close>.\<close>

definition scan_int :: "string \<Rightarrow> (int \<times> string) option" where
  "scan_int s =
     (let (neg, r) = take_sign (dropWhile isspace s); ds = takeWhile is_digit r
      in if ds = [] then None
         else Some (if neg then - int (dec_val ds) else int (dec_val ds), dropWhile is_digit r))"

fun scan_fields :: "char list \<Rightarrow> string \<Rightarrow> int list option" where
  "scan_fields [] s = map_option (\<lambda>(v, r). [v]) (scan_int s)"
| "scan_fields (sep # seps) s =
     (case scan_int s of None \<Rightarrow> None
      | Some (v, r) \<Rightarrow> if r \<noteq> [] \<and> hd r = sep then map_option ((#) v) (scan_fields seps (tl r)) else None)"

definition days_from_civil :: "int \<Rightarrow> int \<Rightarrow> int \<Rightarrow> int" where
  "days_from_civil y m d =
     (let y' = (if m \<le> 2 then y - 1 else y); era = y' div 400; yoe = y' mod 400;
          doy = (153 * (if 2 < m then m - 3 else m + 9) + 2) div 5 + d - 1;
          doe = yoe * 365 + yoe div 4 - yoe div 100 + doy
      in era * 146097 + doe - 719468)"

definition timegm :: "int \<Rightarrow> int \<Rightarrow> int \<Rightarrow> int \<Rightarrow> int \<Rightarrow> int \<Rightarrow> int" where
  "timegm year mon day h mi sec =
     (let y = year + mon div 12; m = mon mod 12
      in ((days_from_civil y (m + 1) 1 + day - 1) * 24 + h) * 3600 + mi * 60 + sec)"

section \<open>The environment (\<open>env.hpp\<close>)\<close>

type_synonym environ = "string \<Rightarrow> string option"

definition env_str :: "environ \<Rightarrow> string \<Rightarrow> string \<Rightarrow> string" where
  "env_str ev name def = (case ev name of Some v \<Rightarrow> v | None \<Rightarrow> def)"

definition parse_full :: "string \<Rightarrow> double option" where
  "parse_full v =
     (let s = strip v in
      if s = [] then None
      else case stod s of None \<Rightarrow> None | Some (d, rest) \<Rightarrow> if rest \<noteq> [] then None else Some d)"

definition env_f :: "environ \<Rightarrow> string \<Rightarrow> double \<Rightarrow> double" where
  "env_f ev name def =
     (case ev name of None \<Rightarrow> def
      | Some v \<Rightarrow> (case parse_full v of Some d \<Rightarrow> d | None \<Rightarrow> def))"

definition int_max :: int where "int_max = 2147483647"
definition int_min :: int where "int_min = - 2147483648"

text \<open>
  \<open>static_cast<int>\<close> of a double in range truncates; for NaN, which the two range tests let
  through, the language leaves the result undefined and the value here is the one the x86-64
  conversion instruction gives.
\<close>

fun trunc_int :: "double \<Rightarrow> int" where
  "trunc_int (Fin q) = (if 0 \<le> q then \<lfloor>q\<rfloor> else \<lceil>q\<rceil>)"
| "trunc_int _ = int_min"

definition env_i :: "environ \<Rightarrow> string \<Rightarrow> int \<Rightarrow> int" where
  "env_i ev name def =
     (case ev name of None \<Rightarrow> def
      | Some v \<Rightarrow> (case parse_full v of None \<Rightarrow> def
        | Some d \<Rightarrow>
            if of_i int_max \<le> d then int_max
            else if d \<le> of_i int_min then int_min
            else trunc_int d))"

definition flag_eq :: "environ \<Rightarrow> string \<Rightarrow> string \<Rightarrow> string \<Rightarrow> bool" where
  "flag_eq ev name want def \<longleftrightarrow> strip (env_str ev name def) = want"

definition flag_ne :: "environ \<Rightarrow> string \<Rightarrow> string \<Rightarrow> string \<Rightarrow> bool" where
  "flag_ne ev name nope def \<longleftrightarrow> strip (env_str ev name def) \<noteq> nope"

section \<open>UTF-8 prefixes (\<open>strutil.hpp\<close>)\<close>

definition utf8_len :: "char \<Rightarrow> nat" where
  "utf8_len c = (if 0xF0 \<le> char_code c then 4 else if 0xE0 \<le> char_code c then 3
                 else if 0xC0 \<le> char_code c then 2 else 1)"

text \<open>The loop's final \<open>i\<close>, from the text still unread and the code points still allowed.\<close>

fun utf8_scan :: "string \<Rightarrow> nat \<Rightarrow> nat" where
  "utf8_scan s 0 = 0"
| "utf8_scan s (Suc k) =
     (case s of [] \<Rightarrow> 0 | c # cs \<Rightarrow> utf8_len c + utf8_scan (drop (utf8_len c) s) k)"

definition utf8_prefix :: "string \<Rightarrow> nat \<Rightarrow> string" where
  "utf8_prefix s max_cp = (let i = utf8_scan s max_cp in
     take (if length s < i then length s else i) s)"

section \<open>JSON values (\<open>jsonutil.hpp\<close>)\<close>

datatype json = JNull | JBool bool | JInt int | JFloat double | JStr string
  | JArr "json list" | JObj "(string \<times> json) list"

fun to_double :: "json \<Rightarrow> double" where
  "to_double (JInt i) = of_i i"
| "to_double (JFloat d) = d"
| "to_double (JStr s) = (case stod s of Some (d, _) \<Rightarrow> d | None \<Rightarrow> 0)"
| "to_double _ = 0"

fun to_str :: "(json \<Rightarrow> string) \<Rightarrow> json \<Rightarrow> string" where
  "to_str dump (JStr s) = s"
| "to_str dump JNull = []"
| "to_str dump v = dump v"

fun py_bool :: "json \<Rightarrow> bool" where
  "py_bool (JBool b) = b"
| "py_bool (JStr s) = (s \<noteq> [])"
| "py_bool (JInt i) = (\<not> deq (of_i i) 0)"
| "py_bool (JFloat d) = (\<not> deq d 0)"
| "py_bool (JArr xs) = (xs \<noteq> [])"
| "py_bool (JObj kvs) = (kvs \<noteq> [])"
| "py_bool JNull = False"

definition str_bool :: "json \<Rightarrow> bool" where
  "str_bool v = (case v of JStr s \<Rightarrow> to_lower s = ''true'' | _ \<Rightarrow> py_bool v)"

text \<open>\<open>j.value(key, def)\<close> for a string default; \<open>None\<close> is the library's type error.\<close>

definition jvalue_str :: "json \<Rightarrow> string \<Rightarrow> string \<Rightarrow> string option" where
  "jvalue_str j key def = (case j of JObj kvs \<Rightarrow>
       (case map_of kvs key of None \<Rightarrow> Some def | Some (JStr s) \<Rightarrow> Some s | Some _ \<Rightarrow> None)
     | _ \<Rightarrow> None)"

definition jget :: "json \<Rightarrow> string \<Rightarrow> json option" where
  "jget j key = (case j of JObj kvs \<Rightarrow> map_of kvs key | _ \<Rightarrow> None)"

definition not_null :: "json \<Rightarrow> json option" where
  "not_null v = (case v of JNull \<Rightarrow> None | _ \<Rightarrow> Some v)"

text \<open>\<open>find(j, a, b)\<close>; a null primary key does not fall back to the second one.\<close>

definition jfind2 :: "json \<Rightarrow> string \<Rightarrow> string option \<Rightarrow> json option" where
  "jfind2 j a b = (case j of JObj kvs \<Rightarrow>
       (case map_of kvs a of Some v \<Rightarrow> not_null v
        | None \<Rightarrow> (case b of None \<Rightarrow> None
            | Some k \<Rightarrow> (case map_of kvs k of Some v \<Rightarrow> not_null v | None \<Rightarrow> None)))
     | _ \<Rightarrow> None)"

definition jfind :: "json \<Rightarrow> string \<Rightarrow> json option" where
  "jfind j a = jfind2 j a None"

definition as_container :: "(string \<Rightarrow> json option) \<Rightarrow> json \<Rightarrow> json" where
  "as_container parse v = (case v of
       JStr s \<Rightarrow> (case parse s of Some j \<Rightarrow> j | None \<Rightarrow> JArr [])
     | JArr _ \<Rightarrow> v
     | JObj _ \<Rightarrow> v
     | _ \<Rightarrow> JArr [])"

section \<open>The \<open>.env\<close> file (\<open>app/dotenv.hpp\<close>)\<close>

definition env_ws :: "char \<Rightarrow> bool" where
  "env_ws c \<longleftrightarrow> c = CHR '' '' \<or> c = CHR 0x09 \<or> c = CHR 0x0D \<or> c = CHR 0x0A"

definition env_trim :: "string \<Rightarrow> string" where
  "env_trim s = rev (dropWhile env_ws (rev (dropWhile env_ws s)))"

definition unquote :: "string \<Rightarrow> string" where
  "unquote v =
     (if 2 \<le> length v \<and> (hd v = CHR 0x22 \<or> hd v = CHR 0x27) \<and> last v = hd v
      then take (length v - 2) (drop 1 v) else v)"

text \<open>One line: the key and value it assigns, when it assigns any.\<close>

definition env_line :: "string \<Rightarrow> (string \<times> string) option" where
  "env_line raw0 =
     (let l0 = env_trim raw0 in
      if l0 = [] \<or> hd l0 = CHR ''#'' then None
      else let l = (if starts_with ''export '' l0 then drop 7 l0 else l0);
               k0 = takeWhile (\<lambda>c. c \<noteq> CHR ''='') l; r = dropWhile (\<lambda>c. c \<noteq> CHR ''='') l in
        if r = [] \<or> k0 = [] then None
        else let key = env_trim k0; v = env_trim (drop 1 r) in
          if key = [] then None else Some (key, unquote v))"

fun env_load :: "string list \<Rightarrow> bool \<Rightarrow> environ \<Rightarrow> environ \<times> string list" where
  "env_load [] live ev = (ev, [])"
| "env_load (row # rows) live ev =
     (case env_line row of None \<Rightarrow> env_load rows live ev
      | Some (key, v) \<Rightarrow>
          if live \<and> key = ''PAPER_MODE'' then env_load rows live ev
          else if ev key \<noteq> None then env_load rows live ev
          else let (ev', ks) = env_load rows live (ev(key \<mapsto> v)) in (ev', key # ks))"

definition LoadDotEnv :: "string list option \<Rightarrow> bool \<Rightarrow> environ \<Rightarrow> environ \<times> string list" where
  "LoadDotEnv content live_mode ev =
     (case content of None \<Rightarrow> (ev, []) | Some rows \<Rightarrow> env_load rows live_mode ev)"

section \<open>Properties\<close>

lemma env_load_fst: "fst (env_load (row # rows) live ev) =
    (case env_line row of None \<Rightarrow> fst (env_load rows live ev)
     | Some (key, v) \<Rightarrow> if live \<and> key = ''PAPER_MODE'' \<or> ev key \<noteq> None then fst (env_load rows live ev)
         else fst (env_load rows live (ev(key \<mapsto> v))))"
  by (simp split: option.split prod.split)

lemma env_load_snd: "snd (env_load (row # rows) live ev) =
    (case env_line row of None \<Rightarrow> snd (env_load rows live ev)
     | Some (key, v) \<Rightarrow> if live \<and> key = ''PAPER_MODE'' \<or> ev key \<noteq> None then snd (env_load rows live ev)
         else key # snd (env_load rows live (ev(key \<mapsto> v))))"
  by (simp split: option.split prod.split)

lemma env_load_keeps: "ev k = Some v \<Longrightarrow> fst (env_load rows live ev) k = Some v"
proof (induction rows arbitrary: ev)
  case (Cons row rows)
  have "k \<noteq> a" if "ev a = None" for a using Cons.prems that by auto
  then show ?case using Cons by (auto simp: env_load_fst simp del: env_load.simps split: option.split)
qed simp

lemma env_load_names: "k \<in> set (snd (env_load rows live ev)) \<longleftrightarrow> ev k = None \<and> fst (env_load rows live ev) k \<noteq> None"
proof (induction rows arbitrary: ev)
  case (Cons row rows)
  have new: "fst (env_load rows live (ev(key \<mapsto> v))) key = Some v" for key v
    by (rule env_load_keeps) simp
  show ?case using Cons new
    by (auto simp: env_load_fst env_load_snd simp del: env_load.simps split: option.split)
qed auto

lemma env_load_paper: "fst (env_load rows True ev) ''PAPER_MODE'' = ev ''PAPER_MODE''"
proof (induction rows arbitrary: ev)
  case (Cons row rows)
  then show ?case by (auto simp: env_load_fst simp del: env_load.simps split: option.split)
qed simp

text \<open>
  Loading a \<open>.env\<close> file never overrides the process environment, never injects
  \<open>PAPER_MODE\<close> in live mode, and reports exactly the variables it added.
\<close>

theorem LoadDotEnv_conservative:
  assumes "LoadDotEnv content live ev = (ev', added)"
  shows "(ev k = Some v \<longrightarrow> ev' k = Some v) \<and> (live \<longrightarrow> ev' ''PAPER_MODE'' = ev ''PAPER_MODE'') \<and>
    (k \<in> set added \<longleftrightarrow> ev k = None \<and> ev' k \<noteq> None)"
proof (cases content)
  case None
  then show ?thesis using assms by (auto simp: LoadDotEnv_def)
next
  case (Some rows)
  then have e: "ev' = fst (env_load rows live ev)" "added = snd (env_load rows live ev)"
    using assms by (auto simp: LoadDotEnv_def)
  show ?thesis unfolding e using env_load_names env_load_keeps env_load_paper by (cases live) auto
qed

theorem LoadDotEnv_conservative_witness:
  "fst (LoadDotEnv (Some [''export A=1'', ''PAPER_MODE=1'', ''B=2'']) True [''B'' \<mapsto> ''7'']) ''B'' = Some ''7''"
proof -
  obtain ev' ks where e: "LoadDotEnv (Some [''export A=1'', ''PAPER_MODE=1'', ''B=2'']) True [''B'' \<mapsto> ''7''] = (ev', ks)"
    by (cases "LoadDotEnv (Some [''export A=1'', ''PAPER_MODE=1'', ''B=2'']) True [''B'' \<mapsto> ''7'']")
  show ?thesis using LoadDotEnv_conservative[OF e, of "''B''" "''7''"] e by simp
qed

text \<open>A well-formed UTF-8 sequence: a lead byte and the number of bytes it announces.\<close>

definition code_point :: "string \<Rightarrow> bool" where
  "code_point p \<longleftrightarrow> p \<noteq> [] \<and> length p = utf8_len (hd p)"

lemma utf8_scan_concat:
  "list_all code_point ps \<Longrightarrow> utf8_scan (concat ps) n = length (concat (take n ps))"
proof (induction ps arbitrary: n)
  case Nil
  then show ?case by (cases n) auto
next
  case (Cons p ps)
  show ?case
  proof (cases n)
    case (Suc k)
    obtain c cs where p: "p = c # cs" using Cons.prems by (cases p) (auto simp: code_point_def)
    then have l: "utf8_len c = length p" using Cons.prems by (simp add: code_point_def)
    have "utf8_scan (concat (p # ps)) n = length p + utf8_scan (drop (length p) (concat (p # ps))) k"
      by (simp add: Suc p l[unfolded p])
    then show ?thesis using Cons by (simp add: Suc)
  qed simp
qed

text \<open>
  On well-formed UTF-8 text \<open>utf8_prefix\<close> returns exactly the first \<open>n\<close> code points, so
  it never cuts one in two.
\<close>

theorem utf8_prefix_code_points:
  assumes "list_all code_point ps"
  shows "utf8_prefix (concat ps) n = concat (take n ps)"
proof -
  have "concat ps = concat (take n ps) @ concat (drop n ps)"
    by (metis append_take_drop_id concat_append)
  then show ?thesis using utf8_scan_concat[OF assms, of n]
    by (simp add: utf8_prefix_def Let_def)
qed

theorem utf8_prefix_code_points_witness:
  "utf8_prefix (concat [''a'', [CHR 0xC3, CHR 0xA9], ''b'']) 2 = [CHR ''a'', CHR 0xC3, CHR 0xA9]"
  by (subst utf8_prefix_code_points) (auto simp: code_point_def utf8_len_def char_code_def)

end
