(* ===== verification/MergeFlatten.thy ===== *)
theory MergeFlatten
  imports Eip1559 AbiCalldata Support
begin

text \<open>
  \<open>cpp/src/pmm/chain/merge_flatten.cpp\<close> and \<open>cpp/src/pmm/chain/polygon_rpc.cpp\<close>: the
  comparison of selling through the book with buying the complement and merging, the routing
  of the merge call by wallet type, and the executor that queries a Polygon node, builds and
  signs the transaction and, only with both gates open, sends it.  The HTTP transport and the
  JSON library are the fields of \<open>rpc_io\<close>; the executor returns its report together with the
  list of RPC calls it made.
\<close>

section \<open>The flatten decision\<close>

record BookLevel =
  bl_price :: double
  bl_size :: double

fun sweep_from :: "double \<Rightarrow> double \<Rightarrow> double \<Rightarrow> BookLevel list \<Rightarrow> double \<times> double" where
  "sweep_from want filled cash [] = (filled, cash)"
| "sweep_from want filled cash (lv # lvs) =
     (if want \<le> filled then (filled, cash)
      else let tk = cmin (want - filled) (cmax 0 (bl_size lv))
           in sweep_from want (filled + tk) (cash + tk * bl_price lv) lvs)"

definition sweep :: "double \<Rightarrow> BookLevel list \<Rightarrow> double \<times> double" where
  "sweep want lvs = sweep_from want 0 0 lvs"

record FlattenDecision =
  fd_n_shares :: double
  fd_sell_proceeds :: double
  fd_sell_filled :: double
  fd_buy_complement_cost :: double
  fd_complement_filled :: double
  fd_merge_redeem :: double
  fd_merge_net :: double
  fd_gas :: double
  fd_merge_cheaper :: bool

definition EvaluateFlatten ::
  "double \<Rightarrow> BookLevel list \<Rightarrow> BookLevel list \<Rightarrow> double \<Rightarrow> FlattenDecision" where
  "EvaluateFlatten n_shares yes_bids no_asks gas =
     (let d0 = \<lparr> fd_n_shares = n_shares, fd_sell_proceeds = 0, fd_sell_filled = 0,
                 fd_buy_complement_cost = 0, fd_complement_filled = 0, fd_merge_redeem = 0,
                 fd_merge_net = 0, fd_gas = gas, fd_merge_cheaper = False \<rparr>
      in if n_shares \<le> 0 then d0
         else let (sf, sp) = sweep n_shares yes_bids;
                  (cf, cc) = sweep n_shares no_asks;
                  redeem = cmin n_shares cf;
                  net = redeem - cc - gas
              in d0 \<lparr> fd_sell_filled := sf, fd_sell_proceeds := sp, fd_complement_filled := cf,
                      fd_buy_complement_cost := cc, fd_merge_redeem := redeem, fd_merge_net := net,
                      fd_merge_cheaper := (sp < net) \<rparr>)"

section \<open>The JSON-RPC client\<close>

datatype http_reply = InitFail | CurlFail string int | Body string int

record rpc_io =
  io_post :: "(string \<times> string) list \<Rightarrow> string \<Rightarrow> string \<Rightarrow> http_reply"
  io_parse :: "string \<Rightarrow> json option"
  io_dump :: "json \<Rightarrow> string"

record RpcResult =
  rr_ok :: bool
  rr_value :: string
  rr_http :: int

type_synonym rpc_trace = "(string \<times> string) list"

definition dq :: "string" where "dq = [CHR 0x22]"

definition rpc_body :: "string \<Rightarrow> string \<Rightarrow> string" where
  "rpc_body meth params =
     ''{'' @ dq @ ''jsonrpc'' @ dq @ '':'' @ dq @ ''2.0'' @ dq @ '','' @ dq @ ''id'' @ dq @ '':1,'' @
     dq @ ''method'' @ dq @ '':'' @ dq @ meth @ dq @ '','' @ dq @ ''params'' @ dq @ '':'' @ params @ ''}''"

definition rpc_url :: "string \<Rightarrow> string" where
  "rpc_url url = rev (dropWhile (\<lambda>c. c = CHR ''/'') (rev url))"

definition rpc_reply :: "rpc_io \<Rightarrow> string \<Rightarrow> int \<Rightarrow> RpcResult" where
  "rpc_reply io resp http =
     (case io_parse io resp of
        None \<Rightarrow> \<lparr> rr_ok = False, rr_value = ''json parse failed'', rr_http = http \<rparr>
      | Some j \<Rightarrow>
          (case jfind j ''error'' of
             Some e \<Rightarrow> \<lparr> rr_ok = False, rr_value = io_dump io e, rr_http = http \<rparr>
           | None \<Rightarrow>
               (case jfind j ''result'' of
                  Some (JStr s) \<Rightarrow> \<lparr> rr_ok = True, rr_value = s, rr_http = http \<rparr>
                | Some v \<Rightarrow> \<lparr> rr_ok = True, rr_value = io_dump io v, rr_http = http \<rparr>
                | None \<Rightarrow> \<lparr> rr_ok = False, rr_value = ''no result/error in response'', rr_http = http \<rparr>)))"

definition rpc_call :: "rpc_io \<Rightarrow> string \<Rightarrow> string \<Rightarrow> string \<Rightarrow> rpc_trace \<Rightarrow> RpcResult \<times> rpc_trace" where
  "rpc_call io url meth params lg =
     (if url = [] then (\<lparr> rr_ok = False, rr_value = ''no rpc url'', rr_http = 0 \<rparr>, lg)
      else case io_post io lg url (rpc_body meth params) of
             InitFail \<Rightarrow> (\<lparr> rr_ok = False, rr_value = ''curl init failed'', rr_http = 0 \<rparr>, lg)
           | CurlFail e http \<Rightarrow> (\<lparr> rr_ok = False, rr_value = e, rr_http = http \<rparr>, lg @ [(meth, params)])
           | Body resp http \<Rightarrow> (rpc_reply io resp http, lg @ [(meth, params)]))"

definition hex_char_val :: "char \<Rightarrow> u64 option" where
  "hex_char_val c =
     (if in_range (CHR ''0'') c (CHR ''9'') then Some (of_nat (char_code c - 48))
      else if in_range (CHR ''a'') c (CHR ''f'') then Some (of_nat (char_code c - 97 + 10))
      else if in_range (CHR ''A'') c (CHR ''F'') then Some (of_nat (char_code c - 65 + 10))
      else None)"

fun hex_qty_loop :: "u64 \<Rightarrow> string \<Rightarrow> u64 option" where
  "hex_qty_loop v [] = Some v"
| "hex_qty_loop v (c # cs) =
     (case hex_char_val c of None \<Rightarrow> None | Some d \<Rightarrow> hex_qty_loop (push_bit 4 v OR d) cs)"

text \<open>The scan runs over the C string, so it stops at an embedded NUL.\<close>

definition parse_hex_qty :: "string \<Rightarrow> u64 option" where
  "parse_hex_qty s =
     (let p = takeWhile (\<lambda>c. c \<noteq> CHR 0x00)
                (if 2 \<le> length s \<and> s ! 0 = CHR ''0'' \<and> (s ! 1 = CHR ''x'' \<or> s ! 1 = CHR ''X'')
                 then drop 2 s else s)
      in if p = [] then None else hex_qty_loop 0 p)"

definition rpc_qty :: "RpcResult \<times> rpc_trace \<Rightarrow> u64 option \<times> rpc_trace" where
  "rpc_qty x = (case x of (r, lg) \<Rightarrow> (if rr_ok r then parse_hex_qty (rr_value r) else None, lg))"

definition ChainId :: "rpc_io \<Rightarrow> string \<Rightarrow> rpc_trace \<Rightarrow> u64 option \<times> rpc_trace" where
  "ChainId io url lg = rpc_qty (rpc_call io url ''eth_chainId'' ''[]'' lg)"

definition TransactionCount :: "rpc_io \<Rightarrow> string \<Rightarrow> string \<Rightarrow> rpc_trace \<Rightarrow> u64 option \<times> rpc_trace" where
  "TransactionCount io url addr lg =
     rpc_qty (rpc_call io url ''eth_getTransactionCount''
       (''['' @ dq @ addr @ dq @ '','' @ dq @ ''pending'' @ dq @ '']'') lg)"

definition MaxPriorityFeePerGas :: "rpc_io \<Rightarrow> string \<Rightarrow> rpc_trace \<Rightarrow> u64 option \<times> rpc_trace" where
  "MaxPriorityFeePerGas io url lg = rpc_qty (rpc_call io url ''eth_maxPriorityFeePerGas'' ''[]'' lg)"

definition GasPrice :: "rpc_io \<Rightarrow> string \<Rightarrow> rpc_trace \<Rightarrow> u64 option \<times> rpc_trace" where
  "GasPrice io url lg = rpc_qty (rpc_call io url ''eth_gasPrice'' ''[]'' lg)"

definition EstimateGas ::
  "rpc_io \<Rightarrow> string \<Rightarrow> string \<Rightarrow> string \<Rightarrow> bytes \<Rightarrow> rpc_trace \<Rightarrow> u64 option \<times> rpc_trace" where
  "EstimateGas io url from_hex to_addr data lg =
     (let call = JObj [(''data'', JStr (to_hex data)), (''from'', JStr from_hex), (''to'', JStr to_addr)]
      in rpc_qty (rpc_call io url ''eth_estimateGas''
           (''['' @ io_dump io call @ '','' @ dq @ ''pending'' @ dq @ '']'') lg))"

definition SendRawTransaction :: "rpc_io \<Rightarrow> string \<Rightarrow> bytes \<Rightarrow> rpc_trace \<Rightarrow> RpcResult \<times> rpc_trace" where
  "SendRawTransaction io url rw lg =
     rpc_call io url ''eth_sendRawTransaction'' (''['' @ dq @ to_hex rw @ dq @ '']'') lg"

section \<open>The merge executor\<close>

record MergeQuote =
  mq_collateral :: Address
  mq_condition_id :: Bytes32
  mq_amount :: u64

record ArmStatus =
  decision_on :: bool
  real_funds_armed :: bool

record MergeRoute =
  mr_to :: Address
  mr_calldata :: bytes
  mr_signature_type :: int
  mr_via_proxy :: bool
  mr_ok :: bool
  mr_reason :: string

record MergeExecutor =
  mx_arm :: ArmStatus
  mx_rpc_url :: string
  mx_funder_lc :: string
  mx_sig_type :: int

definition Arm :: "environ \<Rightarrow> ArmStatus" where
  "Arm ev = \<lparr> decision_on = flag_eq ev ''LM_FLATTEN_VIA_MERGE'' ''1'' ''0'',
              real_funds_armed = flag_eq ev ''LM_MERGE_ARM_REAL_FUNDS'' ''1'' ''0'' \<rparr>"

definition new_executor :: "environ \<Rightarrow> MergeExecutor" where
  "new_executor ev =
     \<lparr> mx_arm = Arm ev, mx_rpc_url = env_str ev ''POLYGON_RPC_URL'' [],
       mx_funder_lc = to_lower (env_str ev ''POLYMARKET_FUNDER'' []),
       mx_sig_type = env_i ev ''POLYMARKET_SIGNATURE_TYPE'' 0 \<rparr>"

definition kCtfAddress :: string where
  "kCtfAddress = ''0x4D97DCd97eC945f40cF65F87097ACe5EA0476045''"

definition kPolygonChainId :: u64 where
  "kPolygonChainId = 137"

definition kProxyWalletFactory :: string where
  "kProxyWalletFactory = ''0xaB45c5A4B0c941a2F231C04C3f49182e1A254052''"

definition RouteFor :: "MergeExecutor \<Rightarrow> MergeQuote \<Rightarrow> MergeRoute" where
  "RouteFor mx q =
     (let r = \<lparr> mr_to = replicate 20 0, mr_calldata = [], mr_signature_type = mx_sig_type mx,
                mr_via_proxy = False, mr_ok = False, mr_reason = [] \<rparr>;
          inner = EncodeMergePositionsBinary (mq_collateral q) (mq_condition_id q) (mq_amount q)
      in case AddressFromHex kCtfAddress of
           None \<Rightarrow> r\<lparr> mr_reason := ''cannot parse CTF address'' \<rparr>
         | Some ctf_addr \<Rightarrow>
             if mx_sig_type mx = 0 then r\<lparr> mr_to := ctf_addr, mr_calldata := inner, mr_ok := True \<rparr>
             else if mx_sig_type mx = 1 then
               (case AddressFromHex kProxyWalletFactory of
                  None \<Rightarrow> r\<lparr> mr_reason := ''cannot parse ProxyWalletFactory address'' \<rparr>
                | Some fac \<Rightarrow> r\<lparr> mr_to := fac, mr_calldata := EncodeProxyExec ctf_addr inner,
                                  mr_via_proxy := True, mr_ok := True \<rparr>)
             else r\<lparr> mr_reason := ''unsupported POLYMARKET_SIGNATURE_TYPE='' @ int_str (mx_sig_type mx) @
                       '' (only 0=EOA / 1=POLY_PROXY routed)'' \<rparr>)"

definition merge_tx :: "MergeRoute \<Rightarrow> u64 \<Rightarrow> u64 \<Rightarrow> u64 \<Rightarrow> u64 \<Rightarrow> Eip1559Tx" where
  "merge_tx route nonce priority max_fee gas =
     \<lparr> tx_chain_id = kPolygonChainId, tx_nonce = nonce, tx_max_priority_fee = priority,
       tx_max_fee = max_fee, tx_gas_limit = gas, tx_to = mr_to route, tx_value = 0,
       tx_data = mr_calldata route \<rparr>"

definition BuildAndSign ::
  "secp256k1 \<Rightarrow> MergeExecutor \<Rightarrow> MergeQuote \<Rightarrow> Bytes32 \<Rightarrow> u64 \<Rightarrow> u64 \<Rightarrow> u64 \<Rightarrow> u64 \<Rightarrow> SignedTx option" where
  "BuildAndSign lib mx q key nonce priority max_fee gas =
     (let route = RouteFor mx q in
      if \<not> mr_ok route then None else SignTx lib (merge_tx route nonce priority max_fee gas) key)"

text \<open>The JSON report; an absent key is \<open>None\<close>.\<close>

record merge_report =
  rp_executed :: bool
  rp_amount :: u64
  rp_signature_type :: int
  rp_via_proxy :: bool
  rp_decision_on :: bool
  rp_real_funds_armed :: bool
  rp_reason :: string
  rp_to :: "string option"
  rp_calldata :: "string option"
  rp_raw_tx :: "string option"
  rp_tx_hash :: "string option"
  rp_nonce :: "u64 option"
  rp_gas :: "u64 option"
  rp_max_fee_wei :: "u64 option"
  rp_send_result :: "string option"
  rp_http :: "int option"

definition value_or :: "'a option \<Rightarrow> 'a \<Rightarrow> 'a" where
  "value_or x d = (case x of Some v \<Rightarrow> v | None \<Rightarrow> d)"

definition initial_report :: "MergeExecutor \<Rightarrow> MergeQuote \<Rightarrow> MergeRoute \<Rightarrow> merge_report" where
  "initial_report mx q route =
     \<lparr> rp_executed = False, rp_amount = mq_amount q, rp_signature_type = mr_signature_type route,
       rp_via_proxy = mr_via_proxy route, rp_decision_on = decision_on (mx_arm mx),
       rp_real_funds_armed = real_funds_armed (mx_arm mx), rp_reason = mr_reason route,
       rp_to = None, rp_calldata = None, rp_raw_tx = None, rp_tx_hash = None, rp_nonce = None,
       rp_gas = None, rp_max_fee_wei = None, rp_send_result = None, rp_http = None \<rparr>"

text \<open>The end of the run, once the transaction is signed: dry report or real send.\<close>

definition merge_submit ::
  "rpc_io \<Rightarrow> string \<Rightarrow> bool \<Rightarrow> merge_report \<Rightarrow> SignedTx \<Rightarrow> u64 \<Rightarrow> u64 \<Rightarrow> u64 \<Rightarrow> rpc_trace
     \<Rightarrow> merge_report \<times> rpc_trace" where
  "merge_submit io url armed r1 st n gas max_fee tr =
     (let r2 = r1\<lparr> rp_raw_tx := Some (to_hex (raw st)), rp_tx_hash := Some (to_hex (tx_hash st)),
                   rp_nonce := Some n, rp_gas := Some gas, rp_max_fee_wei := Some max_fee \<rparr>
      in if \<not> armed
         then (r2\<lparr> rp_reason := ''DRY: LM_MERGE_ARM_REAL_FUNDS not set '' @ [CHR 0xE2, CHR 0x80, CHR 0x94] @
                               '' raw tx built+signed but NOT sent'' \<rparr>, tr)
         else let (send, tr') = SendRawTransaction io url (raw st) tr in
           (r2\<lparr> rp_executed := rr_ok send, rp_send_result := Some (rr_value send),
                rp_http := Some (rr_http send),
                rp_reason := (if rr_ok send then ''sent'' else ''send failed'') \<rparr>, tr'))"

text \<open>From the fee queries to the signature.\<close>

definition merge_price_sign ::
  "secp256k1 \<Rightarrow> rpc_io \<Rightarrow> MergeExecutor \<Rightarrow> MergeQuote \<Rightarrow> Bytes32 \<Rightarrow> string \<Rightarrow> merge_report \<Rightarrow> Address
     \<Rightarrow> merge_report \<times> rpc_trace" where
  "merge_price_sign lib io mx q key url r1 eoa =
     (let route = RouteFor mx q;
          from = to_hex eoa;
          (nonce, l1) = TransactionCount io url from [];
          (tip, l2) = MaxPriorityFeePerGas io url l1;
          (gp, l3) = GasPrice io url l2
      in case (nonce, gp) of
           (Some n, Some g) \<Rightarrow>
             let priority = value_or tip 30000000000;
                 max_fee = g * 2 + priority;
                 (gas_est, l4) = EstimateGas io url from (to_hex (mr_to route)) (mr_calldata route) l3;
                 gas = value_or gas_est 200000 * 12 div 10
             in (case BuildAndSign lib mx q key n priority max_fee gas of
                   None \<Rightarrow> (r1\<lparr> rp_reason := ''BuildAndSign failed'' \<rparr>, l4)
                 | Some st \<Rightarrow> merge_submit io url (real_funds_armed (mx_arm mx)) r1 st n gas max_fee l4)
         | _ \<Rightarrow> (r1\<lparr> rp_reason := ''RPC nonce/gasPrice query failed'' \<rparr>, l3))"

definition MaybeMerge ::
  "secp256k1 \<Rightarrow> rpc_io \<Rightarrow> MergeExecutor \<Rightarrow> MergeQuote \<Rightarrow> Bytes32 \<Rightarrow> merge_report \<times> rpc_trace" where
  "MaybeMerge lib io mx q key =
     (let route = RouteFor mx q; r0 = initial_report mx q route in
      if \<not> mr_ok route then (r0, [])
      else
      let r1 = r0\<lparr> rp_to := Some (to_hex (mr_to route)), rp_calldata := Some (to_hex (mr_calldata route)) \<rparr> in
      if \<not> decision_on (mx_arm mx)
      then (r1\<lparr> rp_reason := ''LM_FLATTEN_VIA_MERGE not set (merge route disabled)'' \<rparr>, [])
      else if mx_rpc_url mx = [] then (r1\<lparr> rp_reason := ''POLYGON_RPC_URL not set'' \<rparr>, [])
      else case DeriveAddress lib key of
        None \<Rightarrow> (r1\<lparr> rp_reason := ''cannot derive EOA'' \<rparr>, [])
      | Some eoa \<Rightarrow> merge_price_sign lib io mx q key (rpc_url (mx_rpc_url mx)) r1 eoa)"

section \<open>Properties\<close>

definition kSend :: string where "kSend = ''eth_sendRawTransaction''"

definition sends :: "rpc_trace \<Rightarrow> string list" where
  "sends tr = map snd (filter (\<lambda>c. fst c = kSend) tr)"

lemma sends_snoc: "sends (tr @ [(m, p)]) = sends tr @ (if m = kSend then [p] else [])"
  by (simp add: sends_def)

lemma sends_Nil [simp]: "sends [] = []"
  by (simp add: sends_def)

lemma rpc_call_sends:
  "sends (snd (rpc_call io url m p tr)) = sends tr \<or>
   m = kSend \<and> sends (snd (rpc_call io url m p tr)) = sends tr @ [p]"
  by (auto simp: rpc_call_def sends_snoc split: http_reply.split)

lemma rpc_call_other: "m \<noteq> kSend \<Longrightarrow> sends (snd (rpc_call io url m p tr)) = sends tr"
  using rpc_call_sends by blast

lemma rpc_call_ok: "rr_ok (fst (rpc_call io url kSend p tr)) \<Longrightarrow> sends (snd (rpc_call io url kSend p tr)) = sends tr @ [p]"
  by (auto simp: rpc_call_def sends_snoc split: http_reply.splits if_splits)

lemma snd_rpc_qty [simp]: "snd (rpc_qty x) = snd x"
  by (simp add: rpc_qty_def split_beta)

lemma query_sends [simp]:
  "sends (snd (TransactionCount io url a tr)) = sends tr"
  "sends (snd (MaxPriorityFeePerGas io url tr)) = sends tr"
  "sends (snd (GasPrice io url tr)) = sends tr"
  "sends (snd (EstimateGas io url f t d tr)) = sends tr"
  by (simp_all add: TransactionCount_def MaxPriorityFeePerGas_def GasPrice_def EstimateGas_def
      rpc_call_other kSend_def)

definition sent_params :: "bytes \<Rightarrow> string" where
  "sent_params rw = ''['' @ dq @ to_hex rw @ dq @ '']''"

lemma send_ok:
  "rr_ok (fst (SendRawTransaction io url rw tr)) \<Longrightarrow>
     sends (snd (SendRawTransaction io url rw tr)) = sends tr @ [sent_params rw]"
  unfolding SendRawTransaction_def sent_params_def kSend_def[symmetric] by (rule rpc_call_ok)

lemma send_cases:
  "sends (snd (SendRawTransaction io url rw tr)) = sends tr \<or>
   sends (snd (SendRawTransaction io url rw tr)) = sends tr @ [sent_params rw]"
  using rpc_call_sends unfolding SendRawTransaction_def sent_params_def kSend_def[symmetric] by blast

text \<open>A run that sent nothing, and a run that sent exactly one signed merge transaction.\<close>

definition quiet :: "merge_report \<times> rpc_trace \<Rightarrow> bool" where
  "quiet x \<longleftrightarrow> sends (snd x) = [] \<and> \<not> rp_executed (fst x)"

definition sent_one :: "secp256k1 \<Rightarrow> MergeRoute \<Rightarrow> Bytes32 \<Rightarrow> rpc_trace \<Rightarrow> bool" where
  "sent_one lib route key tr \<longleftrightarrow> (\<exists>st n p f g.
     SignTx lib (merge_tx route n p f g) key = Some st \<and> sends tr = [sent_params (raw st)])"

lemma merge_submit_cases:
  "\<lbrakk>sends tr = []; \<not> rp_executed r1\<rbrakk> \<Longrightarrow>
     quiet (merge_submit io url armed r1 st n gas f tr) \<or>
     armed \<and> sends (snd (merge_submit io url armed r1 st n gas f tr)) = [sent_params (raw st)]"
  using send_cases[of io url "raw st" tr] send_ok[of io url "raw st" tr]
  by (auto simp: merge_submit_def quiet_def Let_def split_beta)

lemma merge_price_sign_cases:
  assumes "\<not> rp_executed r1" "mr_ok (RouteFor mx q)"
  shows "quiet (merge_price_sign lib io mx q key url r1 eoa) \<or>
    real_funds_armed (mx_arm mx) \<and>
    sent_one lib (RouteFor mx q) key (snd (merge_price_sign lib io mx q key url r1 eoa))"
proof -
  obtain nonce l1 where T: "TransactionCount io url (to_hex eoa) [] = (nonce, l1)" by fastforce
  obtain tip l2 where M: "MaxPriorityFeePerGas io url l1 = (tip, l2)" by fastforce
  obtain gp l3 where G: "GasPrice io url l2 = (gp, l3)" by fastforce
  obtain ge l4 where E: "EstimateGas io url (to_hex eoa) (to_hex (mr_to (RouteFor mx q)))
      (mr_calldata (RouteFor mx q)) l3 = (ge, l4)" by fastforce
  have s3: "sends l3 = []" and s4: "sends l4 = []"
    using query_sends(1)[of io url "to_hex eoa" "[]"] query_sends(2)[of io url l1] query_sends(3)[of io url l2]
      query_sends(4)[of io url "to_hex eoa" _ _ l3] T M G E by (metis sends_Nil snd_conv)+
  show ?thesis
  proof (cases nonce)
    case None
    then show ?thesis using assms s3 by (simp add: merge_price_sign_def T M G quiet_def)
  next
    case (Some n)
    note n = this
    show ?thesis
    proof (cases gp)
      case None
      then show ?thesis using assms s3 n by (simp add: merge_price_sign_def T M G quiet_def)
    next
      case (Some g)
      let ?f = "g * 2 + value_or tip 30000000000" and ?gas = "value_or ge 200000 * 12 div 10"
      show ?thesis
      proof (cases "BuildAndSign lib mx q key n (value_or tip 30000000000) ?f ?gas")
        case None
        then show ?thesis using assms s4 n Some
          by (simp add: merge_price_sign_def T M G E quiet_def Let_def)
      next
        case (Some st)
        then have "SignTx lib (merge_tx (RouteFor mx q) n (value_or tip 30000000000) ?f ?gas) key = Some st"
          using assms(2) by (simp add: BuildAndSign_def)
        moreover have "merge_price_sign lib io mx q key url r1 eoa =
            merge_submit io url (real_funds_armed (mx_arm mx)) r1 st n ?gas ?f l4"
          using n \<open>gp = Some g\<close> Some by (simp add: merge_price_sign_def T M G E Let_def)
        ultimately show ?thesis
          using merge_submit_cases[OF s4 assms(1)] unfolding sent_one_def by metis
      qed
    qed
  qed
qed

lemma MaybeMerge_cases:
  "quiet (MaybeMerge lib io mx q key) \<or>
   decision_on (mx_arm mx) \<and> real_funds_armed (mx_arm mx) \<and> mr_ok (RouteFor mx q) \<and>
   sent_one lib (RouteFor mx q) key (snd (MaybeMerge lib io mx q key))"
proof (cases "mr_ok (RouteFor mx q) \<and> decision_on (mx_arm mx) \<and> mx_rpc_url mx \<noteq> []")
  case False
  then show ?thesis by (auto simp: MaybeMerge_def quiet_def initial_report_def Let_def)
next
  case True
  show ?thesis
  proof (cases "DeriveAddress lib key")
    case None
    then show ?thesis using True by (simp add: MaybeMerge_def Let_def quiet_def initial_report_def)
  next
    case (Some eoa)
    let ?r1 = "(initial_report mx q (RouteFor mx q))\<lparr> rp_to := Some (to_hex (mr_to (RouteFor mx q))),
       rp_calldata := Some (to_hex (mr_calldata (RouteFor mx q))) \<rparr>"
    have "MaybeMerge lib io mx q key = merge_price_sign lib io mx q key (rpc_url (mx_rpc_url mx)) ?r1 eoa"
      using True Some by (simp add: MaybeMerge_def Let_def)
    moreover have "\<not> rp_executed ?r1" by (simp add: initial_report_def)
    ultimately show ?thesis using merge_price_sign_cases[of ?r1 mx q] True by metis
  qed
qed

definition quote_wf :: "MergeQuote \<Rightarrow> bool" where
  "quote_wf q \<longleftrightarrow> length (mq_collateral q) = 20 \<and> length (mq_condition_id q) = 32"

lemma kCtf_parses: "map_option length (AddressFromHex kCtfAddress) = Some 20"
  and kFactory_parses: "map_option length (AddressFromHex kProxyWalletFactory) = Some 20"
  by code_simp+

lemma length_merge_calldata [simp]:
  "quote_wf q \<Longrightarrow> length (EncodeMergePositionsBinary (mq_collateral q) (mq_condition_id q) (mq_amount q)) = 260"
  by (simp add: EncodeMergePositionsBinary_def EncodeMergePositions_def quote_wf_def)

lemma length_exec: "length a = 20 \<Longrightarrow> length inner = 260 \<Longrightarrow> length (EncodeProxyExec a inner) = 548"
  by (simp add: EncodeProxyExec_def EncodeProxy_def proxy_elem_def pad32_def Let_def)

lemma RouteFor_shape:
  assumes "mr_ok (RouteFor mx q)" and "quote_wf q"
  shows "mx_sig_type mx \<in> {0, 1} \<and> length (mr_to (RouteFor mx q)) = 20 \<and>
    length (mr_calldata (RouteFor mx q)) \<le> 548 \<and> (mr_via_proxy (RouteFor mx q) \<longleftrightarrow> mx_sig_type mx = 1)"
proof -
  obtain c where c: "AddressFromHex kCtfAddress = Some c" "length c = 20" using kCtf_parses by auto
  obtain f where f: "AddressFromHex kProxyWalletFactory = Some f" "length f = 20" using kFactory_parses by auto
  show ?thesis using assms length_exec[OF c(2) length_merge_calldata[OF assms(2)]] f(2) c(2)
    by (auto simp: RouteFor_def Let_def c(1) f(1) split: if_splits)
qed


definition demo_io :: rpc_io where
  "demo_io = \<lparr> io_post = (\<lambda>_ _ _. Body [] 200),
     io_parse = (\<lambda>_. Some (JObj [(''result'', JStr ''0x5'')])), io_dump = (\<lambda>_. []) \<rparr>"

definition demo_mx :: MergeExecutor where
  "demo_mx = \<lparr> mx_arm = \<lparr> decision_on = True, real_funds_armed = True \<rparr>, mx_rpc_url = ''u'',
     mx_funder_lc = [], mx_sig_type = 1 \<rparr>"

definition demo_quote :: MergeQuote where
  "demo_quote = \<lparr> mq_collateral = replicate 20 7, mq_condition_id = replicate 32 9, mq_amount = 1000000 \<rparr>"

lemma demo_call: "rpc_call demo_io ''u'' m p tr =
    (\<lparr> rr_ok = True, rr_value = ''0x5'', rr_http = 200 \<rparr>, tr @ [(m, p)])"
  by (simp add: rpc_call_def demo_io_def rpc_reply_def jfind_def jfind2_def not_null_def)

lemma demo_hex: "parse_hex_qty ''0x5'' = Some 5"
  by code_simp

lemma demo_signs: "\<exists>st. SignTx demo_lib tx key = Some st"
  by (simp add: SignTx_def Let_def SignDigest_def RecoverAddress_def DeriveAddress_def demo_lib_def nth_append)

lemma demo_route: "mr_ok (RouteFor demo_mx q)"
proof -
  obtain c f where "AddressFromHex kCtfAddress = Some c" "AddressFromHex kProxyWalletFactory = Some f"
    using kCtf_parses kFactory_parses by auto
  then show ?thesis by (simp add: RouteFor_def demo_mx_def)
qed

lemma demo_sends: "sends (snd (MaybeMerge demo_lib demo_io demo_mx q key)) \<noteq> []"
proof -
  obtain eoa where e: "DeriveAddress demo_lib key = Some eoa" by (simp add: DeriveAddress_def demo_lib_def)
  have u: "rpc_url ''u'' = ''u''" by (simp add: rpc_url_def)
  have mx: "decision_on (mx_arm demo_mx)" "real_funds_armed (mx_arm demo_mx)" "mx_rpc_url demo_mx = ''u''"
    by (simp_all add: demo_mx_def)
  obtain st where st: "SignTx demo_lib (merge_tx (RouteFor demo_mx q) 5 5 (5 * 2 + 5) (5 * 12 div 10)) key = Some st"
    using demo_signs by blast
  show ?thesis
    by (simp add: MaybeMerge_def merge_price_sign_def merge_submit_def Let_def demo_route mx e u
        TransactionCount_def MaxPriorityFeePerGas_def GasPrice_def EstimateGas_def SendRawTransaction_def
        demo_call rpc_qty_def demo_hex value_or_def BuildAndSign_def st[simplified] sends_def kSend_def)
qed


lemma hex_step: "unat d < 16 \<Longrightarrow> push_bit 4 v OR d = v * 16 + (d :: u64)"
proof -
  assume d: "unat d < 16"
  have "take_bit 4 d = d"
    by (rule unsigned_word_eqI, subst unsigned_take_bit_eq, rule take_bit_nat_eq_self) (use d in simp)
  then have hi: "\<not> bit d n" if "4 \<le> n" for n using that by (metis bit_take_bit_iff not_le)
  have "push_bit 4 v + d = push_bit 4 v OR d"
    by (rule disjunctive_add) (use hi in \<open>auto simp: bit_simps\<close>)
  then show ?thesis by (simp add: push_bit_eq_mult)
qed

lemma hex_codes:
  "char_code (CHR ''0'') = 48" "char_code (CHR ''9'') = 57" "char_code (CHR ''a'') = 97"
  "char_code (CHR ''f'') = 102" "char_code (CHR ''z'') = 122" "char_code (CHR ''A'') = 65"
  "char_code (CHR ''F'') = 70" "char_code (CHR ''Z'') = 90" "char_code (CHR 0x00) = 0"
  by (simp_all add: char_code_def)

lemma lower_code: "char_code (lower_char c) =
    (if 65 \<le> char_code c \<and> char_code c \<le> 90 then char_code c + 32 else char_code c)"
  by (simp add: lower_char_def in_range_def hex_codes) (simp add: char_code_def)

lemma hex_char_val_is:
  assumes "is_hex c"
  shows "hex_char_val c = Some (of_nat (hex_digit_val c))" "hex_digit_val c < 16" "c \<noteq> CHR 0x00"
proof -
  have r: "48 \<le> char_code c \<and> char_code c \<le> 57 \<or> 97 \<le> char_code c \<and> char_code c \<le> 102 \<or>
      65 \<le> char_code c \<and> char_code c \<le> 70"
    using assms by (auto simp: is_hex_def is_digit_def in_range_def hex_codes lower_code split: if_splits)
  then show "hex_char_val c = Some (of_nat (hex_digit_val c))" "hex_digit_val c < 16"
    by (auto simp: hex_char_val_def hex_digit_val_def is_digit_def digit_val_def in_range_def hex_codes lower_code)
  show "c \<noteq> CHR 0x00" using r hex_codes(9) by auto
qed

lemma hex_qty_loop_val:
  "list_all is_hex ds \<Longrightarrow> hex_qty_loop (of_nat k) ds = Some (of_nat (foldl (\<lambda>a c. 16 * a + hex_digit_val c) k ds))"
proof (induction ds arbitrary: k)
  case (Cons c ds)
  let ?d = "hex_digit_val c"
  have c: "hex_char_val c = Some (of_nat ?d)" "?d < 16" using Cons.prems hex_char_val_is[of c] by auto
  have ih: "hex_qty_loop (of_nat (16 * k + ?d)) ds =
      Some (of_nat (foldl (\<lambda>a c. 16 * a + hex_digit_val c) (16 * k + ?d) ds))"
    using Cons.prems by (intro Cons.IH) simp
  have "unat (of_nat ?d :: u64) < 16" using c(2) by (simp add: unat_of_nat)
  then have "push_bit 4 (of_nat k :: u64) OR of_nat ?d = of_nat (16 * k + ?d)" by (simp add: hex_step)
  then show ?case using ih c(1) by (simp only: hex_qty_loop.simps option.case foldl_Cons)
qed simp

lemma is_hex_no_nul: "list_all is_hex ds \<Longrightarrow> takeWhile (\<lambda>c. c \<noteq> CHR 0x00) ds = ds"
  by (induction ds) (auto dest: hex_char_val_is(3))

text \<open>
  A hexadecimal quantity of a node's reply is read as its value modulo \<open>2 ^ 64\<close>: exact for
  every quantity that fits 64 bits, while a longer one wraps instead of being refused.
\<close>

theorem parse_hex_qty_value:
  "\<lbrakk>ds \<noteq> []; list_all is_hex ds\<rbrakk> \<Longrightarrow> parse_hex_qty (''0x'' @ ds) = Some (of_nat (hex_val ds))"
  using hex_qty_loop_val[of ds 0] by (simp add: parse_hex_qty_def hex_val_def is_hex_no_nul)

theorem parse_hex_qty_value_witness: "parse_hex_qty (''0x'' @ ''10000000000000005'') = Some 5"
proof -
  have h: "list_all is_hex ''10000000000000005''" by code_simp
  have "hex_val ''10000000000000005'' = 18446744073709551621"
    by (simp add: hex_val_def hex_digit_val_def is_digit_def in_range_def digit_val_def char_code_def)
  moreover have "(of_nat 18446744073709551621 :: u64) = 5" by simp
  ultimately show ?thesis using parse_hex_qty_value[OF _ h] by (simp only: list.distinct not_False_eq_True)
qed

end
