(* ===== verification/ClobWire.thy ===== *)
theory ClobWire
  imports Eip712
begin

text \<open>
  \<open>cpp/src/pmm/wire/clob_wire.cpp\<close>: URL-safe base64, the JSON body of an order, the HMAC
  request signature and the digest that derives an API key.  HMAC-SHA256 is OpenSSL's and a
  parameter; Keccak-256 is the modelled one.
\<close>

section \<open>Base64\<close>

definition kB64UrlAlphabet :: string where
  "kB64UrlAlphabet = ''ABCDEFGHIJKLMNOPQRSTUVWXYZabcdefghijklmnopqrstuvwxyz0123456789-_''"

definition B64UrlVal :: "char \<Rightarrow> int" where
  "B64UrlVal c =
     (if in_range (CHR ''A'') c (CHR ''Z'') then int (char_code c) - 65
      else if in_range (CHR ''a'') c (CHR ''z'') then int (char_code c) - 97 + 26
      else if in_range (CHR ''0'') c (CHR ''9'') then int (char_code c) - 48 + 52
      else if c = CHR ''-'' then 62
      else if c = CHR ''_'' then 63
      else -1)"

definition b64_char :: "byte \<Rightarrow> char" where
  "b64_char i = kB64UrlAlphabet ! unat i"

fun Base64UrlEncode :: "bytes \<Rightarrow> string" where
  "Base64UrlEncode [] = []"
| "Base64UrlEncode [b0] =
     [b64_char (drop_bit 2 b0), b64_char (push_bit 4 (b0 AND 3)), CHR ''='', CHR ''='']"
| "Base64UrlEncode [b0, b1] =
     [b64_char (drop_bit 2 b0), b64_char (push_bit 4 (b0 AND 3) OR drop_bit 4 b1),
      b64_char (push_bit 2 (b1 AND 15)), CHR ''='']"
| "Base64UrlEncode (b0 # b1 # b2 # bs) =
     [b64_char (drop_bit 2 b0), b64_char (push_bit 4 (b0 AND 3) OR drop_bit 4 b1),
      b64_char (push_bit 2 (b1 AND 15) OR drop_bit 6 b2), b64_char (b2 AND 63)]
     @ Base64UrlEncode bs"

text \<open>The decoding loop over (\<open>buf\<close>, \<open>bits\<close>); \<open>buf\<close> is a 32-bit \<open>int\<close>.\<close>

fun b64_loop :: "32 word \<Rightarrow> nat \<Rightarrow> string \<Rightarrow> bytes" where
  "b64_loop buf bits [] = []"
| "b64_loop buf bits (c # cs) =
     (if c = CHR ''='' \<or> c = CHR 0x0A \<or> c = CHR 0x0D then b64_loop buf bits cs
      else let v = B64UrlVal c in
        if v < 0 then b64_loop buf bits cs
        else let buf' = push_bit 6 buf OR of_int v; bits' = bits + 6 in
          if 8 \<le> bits'
          then ucast (drop_bit (bits' - 8) buf' AND 0xff) # b64_loop buf' (bits' - 8) cs
          else b64_loop buf' bits' cs)"

definition Base64UrlDecode :: "string \<Rightarrow> bytes" where
  "Base64UrlDecode s = b64_loop 0 0 s"

lemma B64UrlVal_all: "list_all2 (\<lambda>n c. B64UrlVal c = int n) [0..<64] kB64UrlAlphabet"
  by code_simp

lemma B64UrlVal_nth: "n < 64 \<Longrightarrow> B64UrlVal (kB64UrlAlphabet ! n) = int n"
  using list_all2_nthD[OF B64UrlVal_all, of n] by simp

lemma B64UrlVal_no_pad: "0 \<le> B64UrlVal c \<Longrightarrow> c \<noteq> CHR ''='' \<and> c \<noteq> CHR 0x0A \<and> c \<noteq> CHR 0x0D"
  by (auto simp: B64UrlVal_def in_range_def char_code_def)

lemma b64_step:
  assumes "unat i < 64"
  shows "b64_loop buf bits (b64_char i # cs) =
     (let buf' = push_bit 6 buf OR ucast i; bits' = bits + 6 in
      if 8 \<le> bits' then ucast (drop_bit (bits' - 8) buf' AND 0xff) # b64_loop buf' (bits' - 8) cs
      else b64_loop buf' bits' cs)"
proof -
  have "B64UrlVal (b64_char i) = uint i" using B64UrlVal_nth[OF assms] by (simp add: b64_char_def)
  moreover have "of_int (uint i) = (ucast i :: 32 word)" by simp
  ultimately show ?thesis
    using B64UrlVal_no_pad[of "b64_char i"] by (simp add: Let_def)
qed

lemma six_bits:
  "unat (drop_bit 2 (b::byte)) < 64" "unat (b AND 63) < 64"
  "unat (push_bit 4 (a AND 3) OR drop_bit 4 (b::byte)) < 64"
  "unat (push_bit 2 (a AND 15) OR drop_bit 6 (b::byte)) < 64"
  "unat (push_bit 4 (a AND 3 :: byte)) < 64" "unat (push_bit 2 (a AND 15 :: byte)) < 64"
proof -
  have lt: "unat (x::byte) < 64" if "take_bit 6 x = x" for x
  proof -
    have "unat (take_bit 6 x) = take_bit 6 (unat x)" by (rule unsigned_take_bit_eq)
    also have "\<dots> < 2 ^ 6" by (rule take_bit_nat_less_exp)
    finally show ?thesis using that by simp
  qed
  have m: "(3::byte) = mask 2" "(15::byte) = mask 4" "(63::byte) = mask 6"
    by (simp_all add: mask_eq_exp_minus_1)
  show "unat (drop_bit 2 (b::byte)) < 64" "unat (b AND 63) < 64"
    "unat (push_bit 4 (a AND 3) OR drop_bit 4 (b::byte)) < 64"
    "unat (push_bit 2 (a AND 15) OR drop_bit 6 (b::byte)) < 64"
    "unat (push_bit 4 (a AND 3 :: byte)) < 64" "unat (push_bit 2 (a AND 15 :: byte)) < 64"
    unfolding m
    by (rule lt, rule bit_word_eqI, use bit_imp_le_length[of b] bit_imp_le_length[of a] in \<open>force simp: bit_simps\<close>)+
qed

lemma byte_masks: "(3::byte) = mask 2" "(15::byte) = mask 4" "(63::byte) = mask 6" "(0xff::32 word) = mask 8"
  by (simp_all add: mask_eq_exp_minus_1)

lemma regroup0:
  assumes x: "\<And>n. bit x n \<Longrightarrow> n < 4"
  shows "ucast (drop_bit 4 (push_bit 6 (push_bit 6 u OR ucast (drop_bit 2 b0)) OR
      ucast (push_bit 4 (b0 AND 3) OR x)) AND (0xff :: 32 word)) = (b0 :: byte)"
  unfolding byte_masks
proof (rule bit_word_eqI)
  fix n assume "n < LENGTH(8)"
  then have n: "n < 8" by simp
  have x': "\<not> bit x (4 + n)" using x[of "4 + n"] by auto
  have s: "2 \<le> n \<Longrightarrow> Suc (Suc (n - 2)) = n" by simp
  show "bit (ucast (drop_bit 4 (push_bit 6 (push_bit 6 u OR ucast (drop_bit 2 b0)) OR
      ucast (push_bit 4 (b0 AND mask 2) OR x)) AND (mask 8 :: 32 word)) :: byte) n = bit b0 n"
    using n x' s by (cases "n < 2") (auto simp: bit_simps)
qed

lemma regroup1:
  assumes x: "\<And>n. bit x n \<Longrightarrow> n < 2"
  shows "ucast (drop_bit 2 (push_bit 6 (push_bit 6 u OR ucast (push_bit 4 (b0 AND 3) OR drop_bit 4 b1)) OR
      ucast (push_bit 2 (b1 AND 15) OR x)) AND (0xff :: 32 word)) = (b1 :: byte)"
  unfolding byte_masks
proof (rule bit_word_eqI)
  fix n assume "n < LENGTH(8)"
  then have n: "n < 8" by simp
  have x': "\<not> bit x (2 + n)" "\<not> bit x (Suc (Suc n))" using x[of "2 + n"] by auto
  have s: "4 \<le> n \<Longrightarrow> 4 + (n - 4) = n" by simp
  show "bit (ucast (drop_bit 2 (push_bit 6 (push_bit 6 u OR ucast (push_bit 4 (b0 AND mask 2) OR drop_bit 4 b1)) OR
      ucast (push_bit 2 (b1 AND mask 4) OR x)) AND (mask 8 :: 32 word)) :: byte) n = bit b1 n"
    using n x' s by (cases "n < 4") (auto simp: bit_simps)
qed

lemma regroup2:
  "ucast (drop_bit 0 (push_bit 6 (push_bit 6 u OR ucast (push_bit 2 (b1 AND 15) OR drop_bit 6 b2)) OR
      ucast (b2 AND 63)) AND (0xff :: 32 word)) = (b2 :: byte)"
  unfolding byte_masks
proof (rule bit_word_eqI)
  fix n assume "n < LENGTH(8)"
  then have n: "n < 8" by simp
  have s: "6 \<le> n \<Longrightarrow> 6 + (n - 6) = n" by simp
  show "bit (ucast (drop_bit 0 (push_bit 6 (push_bit 6 u OR ucast (push_bit 2 (b1 AND mask 4) OR drop_bit 6 b2)) OR
      ucast (b2 AND mask 6)) AND (mask 8 :: 32 word)) :: byte) n = bit b2 n"
    using n s by (cases "n < 6") (auto simp: bit_simps)
qed

lemma b64_pad: "b64_loop buf bits (CHR ''='' # cs) = b64_loop buf bits cs"
  by simp

lemma low_bits: "bit (drop_bit 4 (b::byte)) n \<Longrightarrow> n < 4" "bit (drop_bit 6 (b::byte)) n \<Longrightarrow> n < 2"
  using bit_imp_le_length[of b "4 + n"] bit_imp_le_length[of b "6 + n"] by (auto simp: bit_simps)

lemma b64_loop_encode: "b64_loop u 0 (Base64UrlEncode bs) = bs"
proof (induction bs arbitrary: u rule: Base64UrlEncode.induct)
  case 1
  then show ?case by simp
next
  case (2 b0)
  show ?case using regroup0[where x = 0 and u = u and ?b0.0 = b0] six_bits
    by (simp add: b64_step Let_def del: b64_loop.simps(2)) (simp add: b64_pad)
next
  case (3 b0 b1)
  show ?case using regroup0[where x = "drop_bit 4 b1" and u = u and ?b0.0 = b0, OF low_bits(1)] 
      regroup1[where x = 0 and u = "push_bit 6 u OR ucast (drop_bit 2 b0)" and ?b0.0 = b0 and ?b1.0 = b1] six_bits
    by (simp add: b64_step Let_def del: b64_loop.simps(2)) (simp add: b64_pad)
next
  case (4 b0 b1 b2 bs)
  show ?case using 4 regroup0[where x = "drop_bit 4 b1" and u = u and ?b0.0 = b0, OF low_bits(1)]
      regroup1[where x = "drop_bit 6 b2" and u = "push_bit 6 u OR ucast (drop_bit 2 b0)" and ?b0.0 = b0
        and ?b1.0 = b1, OF low_bits(2)]
      regroup2[of "push_bit 6 (push_bit 6 u OR ucast (drop_bit 2 b0)) OR ucast (push_bit 4 (b0 AND 3) OR drop_bit 4 b1)" b1 b2]
      six_bits
    by (simp add: b64_step Let_def del: b64_loop.simps(2))
qed

text \<open>
  Decoding the URL-safe base64 text of a byte string gives the byte string back, whatever
  its length (so with zero, one or two padding characters).
\<close>

theorem base64url_roundtrip: "Base64UrlDecode (Base64UrlEncode bs) = bs"
  by (simp add: Base64UrlDecode_def b64_loop_encode)

section \<open>Order body\<close>

record OrderV2Wire =
  ow_salt :: u64
  ow_maker :: string
  ow_signer :: string
  ow_token_id :: string
  ow_maker_amount :: u64
  ow_taker_amount :: u64
  ow_is_buy :: bool
  ow_signature_type :: "32 word"
  ow_timestamp_ms :: u64
  ow_metadata_hex :: string
  ow_builder_hex :: string
  ow_signature :: string
  ow_owner :: string
  ow_order_type :: string

definition u64_str :: "u64 \<Rightarrow> string" where
  "u64_str w = nat_str (unat w)"

definition quoted :: "string \<Rightarrow> string \<Rightarrow> string" where
  "quoted key v = CHR 0x22 # key @ [CHR 0x22, CHR '':'', CHR 0x22] @ v @ [CHR 0x22]"

definition bare :: "string \<Rightarrow> string \<Rightarrow> string" where
  "bare key v = CHR 0x22 # key @ [CHR 0x22, CHR '':''] @ v"

definition BuildOrderV2Body :: "OrderV2Wire \<Rightarrow> string" where
  "BuildOrderV2Body ob =
     ''{'' @ bare ''order'' ''{''
     @ bare ''salt'' (u64_str (ow_salt ob)) @ '',''
     @ quoted ''maker'' (ow_maker ob) @ '',''
     @ quoted ''signer'' (ow_signer ob) @ '',''
     @ quoted ''tokenId'' (ow_token_id ob) @ '',''
     @ quoted ''makerAmount'' (u64_str (ow_maker_amount ob)) @ '',''
     @ quoted ''takerAmount'' (u64_str (ow_taker_amount ob)) @ '',''
     @ quoted ''side'' (if ow_is_buy ob then ''BUY'' else ''SELL'') @ '',''
     @ quoted ''expiration'' ''0'' @ '',''
     @ bare ''signatureType'' (nat_str (unat (ow_signature_type ob))) @ '',''
     @ quoted ''timestamp'' (u64_str (ow_timestamp_ms ob)) @ '',''
     @ quoted ''metadata'' (ow_metadata_hex ob) @ '',''
     @ quoted ''builder'' (ow_builder_hex ob) @ '',''
     @ quoted ''signature'' (ow_signature ob) @ ''},''
     @ quoted ''owner'' (ow_owner ob) @ '',''
     @ quoted ''orderType'' (ow_order_type ob) @ '',''
     @ bare ''deferExec'' ''false'' @ '',''
     @ bare ''postOnly'' ''false'' @ ''}''"

definition quote_free :: "string \<Rightarrow> bool" where
  "quote_free s \<longleftrightarrow> CHR 0x22 \<notin> set s"

lemma until_sep:
  "\<lbrakk>c \<notin> set a; c \<notin> set b; a @ c # s = b @ c # t\<rbrakk> \<Longrightarrow> a = b \<and> s = t"
  by (induction a arbitrary: b) (case_tac b; fastforce)+

lemma quoted_cong:
  "\<lbrakk>quote_free a; quote_free b; quoted k a @ s = quoted k b @ t\<rbrakk> \<Longrightarrow> a = b \<and> s = t"
  using until_sep[of "CHR 0x22" a b s t] by (simp add: quoted_def quote_free_def)

lemma not_digit_in: "\<not> is_digit c \<Longrightarrow> c \<notin> set (nat_str n)"
  using nat_str_digits by blast

lemma bare_cong:
  "bare k (nat_str m) @ '','' @ s = bare k (nat_str n) @ '','' @ t \<Longrightarrow> m = n \<and> s = t"
  using until_sep[of "CHR '',''" "nat_str m" "nat_str n" s t] not_digit_in[of "CHR '',''"]
  by (simp add: bare_def nat_str_inj is_digit_def in_range_def char_code_def)

lemma quote_free_nat_str [simp]: "quote_free (nat_str n)"
  using not_digit_in[of "CHR 0x22" n]
  by (simp add: quote_free_def is_digit_def in_range_def char_code_def)

lemma quote_free_side [simp]: "quote_free (if b then ''BUY'' else ''SELL'')"
  by (simp add: quote_free_def)

lemma u64_str_inj: "u64_str a = u64_str b \<longleftrightarrow> a = b"
  by (auto simp: u64_str_def nat_str_inj intro: unsigned_word_eqI)

definition wire_strings_ok :: "OrderV2Wire \<Rightarrow> bool" where
  "wire_strings_ok ob \<longleftrightarrow> list_all quote_free
     [ow_maker ob, ow_signer ob, ow_token_id ob, ow_metadata_hex ob, ow_builder_hex ob,
      ow_signature ob, ow_owner ob, ow_order_type ob]"

lemma quoted_eq:
  "\<lbrakk>quote_free a; quote_free b\<rbrakk> \<Longrightarrow> quoted k a @ s = quoted k b @ t \<longleftrightarrow> a = b \<and> s = t"
  using quoted_cong by blast

lemma bare_eq: "bare k (nat_str m) @ '','' @ s = bare k (nat_str n) @ '','' @ t \<longleftrightarrow> m = n \<and> s = t"
  using bare_cong by blast

lemma side_inj: "(if a then ''BUY'' else ''SELL'') = (if b then ''BUY'' else ''SELL'') \<longleftrightarrow> a = b"
  by auto

text \<open>
  The body that is both signed by the HMAC and posted determines the order: two orders
  whose text fields hold no quotation mark and have the same body are equal, field by field,
  so no field can run into its neighbour.
\<close>

theorem BuildOrderV2Body_inj:
  assumes "wire_strings_ok a" "wire_strings_ok b" "BuildOrderV2Body a = BuildOrderV2Body b"
  shows "a = b"
proof -
  have e: "BuildOrderV2Body a = BuildOrderV2Body b \<longleftrightarrow>
      ow_salt a = ow_salt b \<and> ow_maker a = ow_maker b \<and> ow_signer a = ow_signer b \<and>
      ow_token_id a = ow_token_id b \<and> ow_maker_amount a = ow_maker_amount b \<and>
      ow_taker_amount a = ow_taker_amount b \<and> ow_is_buy a = ow_is_buy b \<and>
      ow_signature_type a = ow_signature_type b \<and> ow_timestamp_ms a = ow_timestamp_ms b \<and>
      ow_metadata_hex a = ow_metadata_hex b \<and> ow_builder_hex a = ow_builder_hex b \<and>
      ow_signature a = ow_signature b \<and> ow_owner a = ow_owner b \<and> ow_order_type a = ow_order_type b"
    using assms(1,2) unfolding BuildOrderV2Body_def wire_strings_ok_def u64_str_def
    by (simp only: same_append_eq quoted_eq bare_eq side_inj nat_str_inj quote_free_nat_str
        quote_free_side list.pred_inject simp_thms word_unat_eq_iff[symmetric] append.assoc)
  show ?thesis using e assms(3) by simp
qed

definition sample_wire :: OrderV2Wire where
  "sample_wire =
     \<lparr> ow_salt = 479249096354, ow_maker = ''0xaa'', ow_signer = ''0xbb'', ow_token_id = ''1234'',
       ow_maker_amount = 5000000, ow_taker_amount = 10000000, ow_is_buy = True,
       ow_signature_type = 1, ow_timestamp_ms = 1780000000000, ow_metadata_hex = ''0x00'',
       ow_builder_hex = ''0x00'', ow_signature = ''0xcc'', ow_owner = ''key'', ow_order_type = ''FOK'' \<rparr>"

theorem BuildOrderV2Body_inj_witness:
  "BuildOrderV2Body sample_wire \<noteq> BuildOrderV2Body (sample_wire\<lparr>ow_is_buy := False\<rparr>)"
proof
  assume "BuildOrderV2Body sample_wire = BuildOrderV2Body (sample_wire\<lparr>ow_is_buy := False\<rparr>)"
  moreover have "wire_strings_ok sample_wire" "wire_strings_ok (sample_wire\<lparr>ow_is_buy := False\<rparr>)"
    by (simp_all add: wire_strings_ok_def sample_wire_def quote_free_def)
  ultimately have "sample_wire = sample_wire\<lparr>ow_is_buy := False\<rparr>"
    by (intro BuildOrderV2Body_inj)
  then have "ow_is_buy sample_wire = ow_is_buy (sample_wire\<lparr>ow_is_buy := False\<rparr>)" by simp
  then show False by (simp add: sample_wire_def)
qed

section \<open>Authentication\<close>

text \<open>
  \<open>hmac key msg\<close> is HMAC-SHA256.  \<open>base\<close> is timestamp, method, path and body appended.
\<close>

definition ComputeL2Signature ::
  "(bytes \<Rightarrow> bytes \<Rightarrow> bytes) \<Rightarrow> string \<Rightarrow> string \<Rightarrow> string \<Rightarrow> string \<Rightarrow> string \<Rightarrow> string" where
  "ComputeL2Signature hmac secret timestamp meth path body =
     Base64UrlEncode (hmac (Base64UrlDecode secret) (str_bytes (timestamp @ meth @ path @ body)))"

text \<open>\<open>Addr32\<close> leaves the word zero when the address does not parse.\<close>

definition auth_addr :: "string \<Rightarrow> bytes" where
  "auth_addr h = (case AddressFromHex h of Some a \<Rightarrow> AddrTo32 a | None \<Rightarrow> replicate 32 0)"

definition auth_domain_buf :: bytes where
  "auth_domain_buf =
     Keccak256 (str_bytes ''EIP712Domain(string name,string version,uint256 chainId)'') @
     Keccak256 (str_bytes ''ClobAuthDomain'') @ Keccak256 (str_bytes ''1'') @ U256FromU64 137"

definition auth_struct_buf :: "string \<Rightarrow> string \<Rightarrow> u64 \<Rightarrow> bytes" where
  "auth_struct_buf addr timestamp nonce =
     Keccak256 (str_bytes ''ClobAuth(address address,string timestamp,uint256 nonce,string message)'') @
     auth_addr addr @ Keccak256 (str_bytes timestamp) @ U256FromU64 nonce @
     Keccak256 (str_bytes ''This message attests that I control the given wallet'')"

definition ComputeClobAuthDigest :: "string \<Rightarrow> string \<Rightarrow> u64 \<Rightarrow> Bytes32" where
  "ComputeClobAuthDigest addr timestamp nonce =
     Keccak256 ([0x19, 0x01] @ Keccak256 auth_domain_buf @ Keccak256 (auth_struct_buf addr timestamp nonce))"

end
