(* ===== verification/TailVendor.thy ===== *)
theory TailVendor
  imports Support
begin

text \<open>
  \<open>cpp/src/pmm/tail_vendor.cpp\<close>: the decision core of the up-tail seller.  \<open>parse_candidate\<close>
  reads a market row, \<open>decide\<close> prices and sizes one order under the caps, \<open>should_pull\<close> and
  \<open>plan\<close> decide a whole round (cancels, then new orders), and \<open>validate_sheet\<close> checks a manual
  list.  A thrown exception is \<open>Inl\<close> of the error sum; the parser of nested JSON text is a
  parameter.
\<close>

record Candidate =
  c_cond :: string
  c_slug :: string
  c_yes_token :: string
  c_no_token :: string
  c_coin :: string
  c_yes_bid :: double
  c_yes_ask :: double
  c_days_left :: double
  c_band_clamp :: bool
  c_is_touch :: bool
  c_wl_collateral :: double
  c_wl_fair :: double

record Config =
  cf_yes_min :: double
  cf_yes_max :: double
  cf_yes_exit :: double
  cf_floor_yes :: double
  cf_min_edge :: double
  cf_days_min :: double
  cf_days_max :: double
  cf_per_order_usd :: double
  cf_per_coin_usd :: double
  cf_per_coin_alt_usd :: double
  cf_per_market_usd :: double
  cf_total_usd :: double
  cf_max_orders :: int
  cf_min_shares :: double
  cf_tick :: double
  cf_touch_per_order_usd :: double
  cf_touch_per_market_usd :: double
  cf_touch_per_coin_usd :: double
  cf_touch_total_usd :: double
  cf_touch_max_orders :: int

definition default_config :: Config where
  "default_config =
     \<lparr> cf_yes_min = lit (2 / 100), cf_yes_max = lit (7 / 100), cf_yes_exit = lit (1 / 10),
       cf_floor_yes = lit (2 / 100), cf_min_edge = lit (8 / 1000), cf_days_min = 1, cf_days_max = lit 6,
       cf_per_order_usd = lit 20, cf_per_coin_usd = lit 60, cf_per_coin_alt_usd = 0,
       cf_per_market_usd = lit 25, cf_total_usd = lit 60, cf_max_orders = 8, cf_min_shares = lit 5,
       cf_tick = lit (1 / 1000), cf_touch_per_order_usd = 0, cf_touch_per_market_usd = 0,
       cf_touch_per_coin_usd = 0, cf_touch_total_usd = 0, cf_touch_max_orders = 8 \<rparr>"

record Quote =
  qt_no_token :: string
  qt_no_price :: double
  qt_size :: double
  qt_note :: string

section \<open>Reading a market row\<close>

definition contains_any :: "string \<Rightarrow> string list \<Rightarrow> bool" where
  "contains_any s ws \<longleftrightarrow> list_ex (\<lambda>w. contains w s) ws"

definition parse_iso :: "string \<Rightarrow> double" where
  "parse_iso ts =
     (if length ts < 19 then 0
      else case scan_fields [CHR ''-'', CHR ''-'', CHR ''T'', CHR '':'', CHR '':''] ts of
             Some [y, mo, d, h, mi, sec] \<Rightarrow> of_i (timegm y (mo - 1) d h mi sec)
           | _ \<Rightarrow> 0)"

definition coin_of :: "string \<Rightarrow> string" where
  "coin_of s =
     (if contains_any s [''bitcoin'', ''btc''] then ''btc''
      else if contains_any s [''ethereum'', ''eth''] then ''eth''
      else if contains_any s [''solana'', ''sol''] then ''sol''
      else if contains_any s [''xrp''] then ''xrp''
      else [])"

definition round_tick :: "double \<Rightarrow> double \<Rightarrow> double" where
  "round_tick px tick = dround (px / tick) * tick"

definition down_words :: "string list" where
  "down_words = [''below'', ''less than'', ''or-lower'', ''or lower'', ''dip'', ''drop'', ''fall'',
                 ''under'', ''beneath'', ''new low'', ''all-time low'', ''record low'']"

definition up_words :: "string list" where
  "up_words = [''above'', ''greater than'', ''-greater-'', ''or-higher'', ''or higher'', ''reach'']"

text \<open>\<open>std::optional\<close>-chaining for the fields read inside the \<open>try\<close> block.\<close>

definition json_strs2 :: "(string \<Rightarrow> json option) \<Rightarrow> json \<Rightarrow> (string \<times> string) option" where
  "json_strs2 parse v =
     (case (case v of JStr s \<Rightarrow> parse s | _ \<Rightarrow> Some v) of
        Some (JArr [JStr a, JStr b]) \<Rightarrow> Some (a, b) | _ \<Rightarrow> None)"

definition best_price :: "json \<Rightarrow> string \<Rightarrow> string \<Rightarrow> double \<Rightarrow> double option" where
  "best_price m key def missing =
     (case jget m key of None \<Rightarrow> Some missing
      | Some (JInt i) \<Rightarrow> Some (of_i i)
      | Some (JFloat d) \<Rightarrow> Some d
      | Some _ \<Rightarrow> map_option atof (jvalue_str m key def))"

definition value_or_null :: "json \<Rightarrow> string \<Rightarrow> json" where
  "value_or_null m key = (case jget m key of None \<Rightarrow> JNull | Some v \<Rightarrow> v)"

definition parse_fields :: "(string \<Rightarrow> json option) \<Rightarrow> json \<Rightarrow> string \<Rightarrow> double \<Rightarrow> Candidate option" where
  "parse_fields parse m coin now =
     (case json_strs2 parse (value_or_null m ''outcomes'') of None \<Rightarrow> None
      | Some (yes, no) \<Rightarrow>
        if to_lower yes \<noteq> ''yes'' \<or> to_lower no \<noteq> ''no'' then None
        else case json_strs2 parse (value_or_null m ''clobTokenIds'') of None \<Rightarrow> None
        | Some (t0, t1) \<Rightarrow>
          (case jvalue_str m ''condition_id'' [] of None \<Rightarrow> None
           | Some cond1 \<Rightarrow>
          (case jvalue_str m ''conditionId'' cond1 of None \<Rightarrow> None
           | Some cond \<Rightarrow>
          (case jvalue_str m ''slug'' [] of None \<Rightarrow> None
           | Some slug \<Rightarrow>
          (case best_price m ''bestBid'' ''0'' 0 of None \<Rightarrow> None
           | Some bid \<Rightarrow>
          (case best_price m ''bestAsk'' ''1'' 1 of None \<Rightarrow> None
           | Some ask \<Rightarrow>
          (case jvalue_str m ''endDate'' [] of None \<Rightarrow> None
           | Some ed \<Rightarrow>
             let fin = parse_iso ed in
             if fin \<le> 0 \<or> cond = [] \<or> t1 = [] then None
             else Some \<lparr> c_cond = cond, c_slug = slug, c_yes_token = t0, c_no_token = t1, c_coin = coin,
                         c_yes_bid = bid, c_yes_ask = ask, c_days_left = (fin - now) / lit 86400,
                         c_band_clamp = False, c_is_touch = False, c_wl_collateral = 0,
                         c_wl_fair = lit (- 1) \<rparr>)))))))"

definition parse_candidate ::
  "(string \<Rightarrow> json option) \<Rightarrow> json \<Rightarrow> double \<Rightarrow> string + Candidate option" where
  "parse_candidate parse m now =
     (case (jvalue_str m ''slug'' [], jvalue_str m ''question'' []) of
        (Some slug0, Some q0) \<Rightarrow>
          let sq = to_lower slug0 @ '' '' @ to_lower q0; coin = coin_of sq in
          if coin = [] then Inr None
          else if contains_any sq down_words then Inr None
          else if \<not> contains_any sq up_words then Inr None
          else Inr (parse_fields parse m coin now)
      | _ \<Rightarrow> Inl ''type_error'')"

section \<open>One order\<close>

definition eps9 :: double where "eps9 = lit (1 / 10 ^ 9)"

definition sell_price :: "Candidate \<Rightarrow> Config \<Rightarrow> double option" where
  "sell_price c cfg =
     (let sy = round_tick (cmax (cf_floor_yes cfg) (c_yes_ask c - cf_tick cfg)) (cf_tick cfg) in
      if cf_yes_max cfg < sy then (if \<not> c_band_clamp c then None else Some (cf_yes_max cfg))
      else Some sy)"

definition order_cap :: "Candidate \<Rightarrow> Config \<Rightarrow> double" where
  "order_cap c cfg =
     (if c_is_touch c then cmin (c_wl_collateral c) (cf_touch_per_order_usd cfg) else cf_per_order_usd cfg)"

definition cap_market :: "Candidate \<Rightarrow> Config \<Rightarrow> double" where
  "cap_market c cfg = (if c_is_touch c then cf_touch_per_market_usd cfg else cf_per_market_usd cfg)"

definition cap_coin :: "Candidate \<Rightarrow> Config \<Rightarrow> double" where
  "cap_coin c cfg =
     (if c_is_touch c then cf_touch_per_coin_usd cfg
      else if (c_coin c = ''sol'' \<or> c_coin c = ''xrp'') \<and> 0 < cf_per_coin_alt_usd cfg
      then cf_per_coin_alt_usd cfg else cf_per_coin_usd cfg)"

definition cap_total :: "Candidate \<Rightarrow> Config \<Rightarrow> double" where
  "cap_total c cfg = (if c_is_touch c then cf_touch_total_usd cfg else cf_total_usd cfg)"

definition decide :: "Candidate \<Rightarrow> Config \<Rightarrow> double \<Rightarrow> double \<Rightarrow> double \<Rightarrow> Quote option" where
  "decide c cfg deployed_market deployed_coin deployed_total =
     (if c_days_left c < cf_days_min cfg \<or> cf_days_max cfg < c_days_left c then None
      else if c_yes_ask c \<le> 0 \<or> 1 \<le> c_yes_ask c then None
      else case sell_price c cfg of None \<Rightarrow> None
      | Some sell_yes \<Rightarrow>
        if 0 \<le> c_wl_fair c \<and> sell_yes < c_wl_fair c + cf_min_edge cfg - eps9 then None
        else if sell_yes < cf_yes_min cfg then None
        else if sell_yes \<le> c_yes_bid c + eps9 then None
        else if c_yes_ask c - eps9 \<le> sell_yes then None
        else let no_price = round_tick (1 - sell_yes) (cf_tick cfg) in
          if c_is_touch c \<and> cf_touch_total_usd cfg \<le> 0 then None
          else let order_usd = order_cap c cfg in
          if order_usd \<le> 0 then None
          else let sz = dfloor (order_usd / no_price) in
          if sz < cf_min_shares cfg then None
          else let notional = sz * no_price in
          if cap_market c cfg + eps9 < deployed_market + notional then None
          else if cap_coin c cfg + eps9 < deployed_coin + notional then None
          else if cap_total c cfg + eps9 < deployed_total + notional then None
          else Some \<lparr> qt_no_token = c_no_token c, qt_no_price = no_price, qt_size = sz, qt_note = c_slug c \<rparr>)"

definition should_pull :: "Candidate \<Rightarrow> Config \<Rightarrow> bool" where
  "should_pull c cfg \<longleftrightarrow>
     (if c_days_left c < cf_days_min cfg * lit (1 / 2) then True
      else if c_band_clamp c then cf_yes_exit cfg \<le> c_yes_bid c
      else let mid = (c_yes_bid c + c_yes_ask c) / lit 2 in
        if cf_yes_exit cfg \<le> mid then True
        else if lit (1 / 5) < c_yes_ask c - c_yes_bid c then True
        else False)"

definition is_transient_place_error :: "int \<Rightarrow> bool" where
  "is_transient_place_error http \<longleftrightarrow> http = 0 \<or> 500 \<le> http"

section \<open>A whole round\<close>

record OpenOrder =
  oo_no_token :: string
  oo_no_price :: double
  oo_size :: double
  oo_coin :: string
  oo_note :: string

datatype Kind = KCancel | KPlace

record Action =
  act_kind :: Kind
  act_no_token :: string
  act_no_price :: double
  act_size :: double
  act_why :: string
  act_note :: string

text \<open>Why an open order must go; the empty string keeps it.\<close>

definition cancel_reason :: "(string, Candidate) smap \<Rightarrow> Config \<Rightarrow> OpenOrder \<Rightarrow> string" where
  "cancel_reason cands cfg oo =
     (case smap_get cands (oo_no_token oo) of
        None \<Rightarrow> ''left_window''
      | Some c \<Rightarrow>
          if should_pull c cfg then ''pull_signal''
          else if c_yes_ask c < (1 - oo_no_price oo) - cf_tick cfg - eps9
          then let target_yes = round_tick (cmax (cf_floor_yes cfg) (c_yes_ask c - cf_tick cfg)) (cf_tick cfg)
               in if cf_tick cfg / lit 2 < dabs ((1 - target_yes) - oo_no_price oo) then ''outbid''
                  else ''wall_over_floor''
          else [])"

definition cancel_action :: "OpenOrder \<Rightarrow> string \<Rightarrow> Action" where
  "cancel_action oo why =
     \<lparr> act_kind = KCancel, act_no_token = oo_no_token oo, act_no_price = 0, act_size = 0, act_why = why,
       act_note = oo_note oo \<rparr>"

definition cancels :: "(string, Candidate) smap \<Rightarrow> Config \<Rightarrow> OpenOrder list \<Rightarrow> Action list" where
  "cancels cands cfg opn =
     map (\<lambda>oo. cancel_action oo (cancel_reason cands cfg oo)) (filter (\<lambda>oo. cancel_reason cands cfg oo \<noteq> []) opn)"

text \<open>\<open>keep[o.no_token] = &o\<close>: a later order on the same token replaces an earlier one.\<close>

definition kept :: "(string, Candidate) smap \<Rightarrow> Config \<Rightarrow> OpenOrder list \<Rightarrow> (string, OpenOrder) smap" where
  "kept cands cfg opn =
     foldl (\<lambda>m oo. smap_put (oo_no_token oo) oo m) [] (filter (\<lambda>oo. cancel_reason cands cfg oo = []) opn)"

text \<open>The running sums of a round.\<close>

record Ledger =
  lg_total :: double
  lg_total_t :: double
  lg_coin :: "(string, double) smap"
  lg_coin_t :: "(string, double) smap"
  lg_market :: "(string, double) smap"
  lg_orders :: int

definition smap_add :: "string \<Rightarrow> double \<Rightarrow> (string, double) smap \<Rightarrow> (string, double) smap" where
  "smap_add k v m = smap_put k (smap_at 0 m k + v) m"

definition rest_order :: "(string, Candidate) smap \<Rightarrow> Ledger \<Rightarrow> string \<times> OpenOrder \<Rightarrow> Ledger" where
  "rest_order cands lg po =
     (case po of (tok, oo) \<Rightarrow>
        let n = oo_no_price oo * oo_size oo;
            lg1 = lg\<lparr> lg_market := smap_add tok n (lg_market lg) \<rparr>;
            t = (case smap_get cands tok of Some c \<Rightarrow> c_is_touch c | None \<Rightarrow> False)
        in if t
           then lg1\<lparr> lg_total_t := lg_total_t lg1 + n,
                     lg_coin_t := (if oo_coin oo \<noteq> [] then smap_add (oo_coin oo) n (lg_coin_t lg1) else lg_coin_t lg1) \<rparr>
           else lg1\<lparr> lg_total := lg_total lg1 + n,
                     lg_coin := (if oo_coin oo \<noteq> [] then smap_add (oo_coin oo) n (lg_coin lg1) else lg_coin lg1) \<rparr>)"

definition dep_coin :: "Ledger \<Rightarrow> Candidate \<Rightarrow> double" where
  "dep_coin lg c = (if c_is_touch c then smap_at 0 (lg_coin_t lg) (c_coin c) else smap_at 0 (lg_coin lg) (c_coin c))"

definition dep_total :: "Ledger \<Rightarrow> Candidate \<Rightarrow> double" where
  "dep_total lg c = (if c_is_touch c then lg_total_t lg else lg_total lg)"

definition place_action :: "Quote \<Rightarrow> Action" where
  "place_action q =
     \<lparr> act_kind = KPlace, act_no_token = qt_no_token q, act_no_price = qt_no_price q, act_size = qt_size q,
       act_why = [], act_note = qt_note q \<rparr>"

definition book_quote :: "Ledger \<Rightarrow> Candidate \<Rightarrow> Quote \<Rightarrow> Ledger" where
  "book_quote lg c q =
     (let n = qt_no_price q * qt_size q;
          lg1 = (if c_is_touch c
                 then lg\<lparr> lg_total_t := lg_total_t lg + n, lg_coin_t := smap_add (c_coin c) n (lg_coin_t lg) \<rparr>
                 else lg\<lparr> lg_total := lg_total lg + n, lg_coin := smap_add (c_coin c) n (lg_coin lg) \<rparr>)
      in lg1\<lparr> lg_orders := lg_orders lg1 + 1 \<rparr>)"

text \<open>One pass over the candidates; the list of placed pairs is in placing order.\<close>

fun place_pass ::
  "Config \<Rightarrow> (string, OpenOrder) smap \<Rightarrow> bool \<Rightarrow> (string, Candidate) smap \<Rightarrow> int \<Rightarrow> Ledger
     \<Rightarrow> Ledger \<times> (Candidate \<times> Quote) list" where
  "place_pass cfg keep want_touch [] touch_placed lg = (lg, [])"
| "place_pass cfg keep want_touch ((tok, c) # cs) touch_placed lg =
     (if c_is_touch c \<noteq> want_touch then place_pass cfg keep want_touch cs touch_placed lg
      else if smap_get keep tok \<noteq> None then place_pass cfg keep want_touch cs touch_placed lg
      else if cf_max_orders cfg \<le> lg_orders lg then (lg, [])
      else if want_touch \<and> cf_touch_max_orders cfg \<le> touch_placed then (lg, [])
      else case decide c cfg (smap_at 0 (lg_market lg) tok) (dep_coin lg c) (dep_total lg c) of
             None \<Rightarrow> place_pass cfg keep want_touch cs touch_placed lg
           | Some q \<Rightarrow>
               let (lg', ps) = place_pass cfg keep want_touch cs
                                 (if c_is_touch c then touch_placed + 1 else touch_placed) (book_quote lg c q)
               in (lg', (c, q) # ps))"

definition resting_ledger ::
  "(string, Candidate) smap \<Rightarrow> (string, OpenOrder) smap \<Rightarrow> (string, double) smap \<Rightarrow> (string, double) smap
     \<Rightarrow> double \<Rightarrow> (string, double) smap \<Rightarrow> double \<Rightarrow> Ledger" where
  "resting_ledger cands keep held_coin held_token held_total held_coin_touch held_total_touch =
     (foldl (rest_order cands)
        \<lparr> lg_total = held_total, lg_total_t = held_total_touch, lg_coin = held_coin,
          lg_coin_t = held_coin_touch, lg_market = held_token, lg_orders = 0 \<rparr> keep)
     \<lparr> lg_orders := int (length keep) \<rparr>"

definition plan_run ::
  "(string, Candidate) smap \<Rightarrow> OpenOrder list \<Rightarrow> (string, double) smap \<Rightarrow> (string, double) smap
     \<Rightarrow> double \<Rightarrow> Config \<Rightarrow> (string, double) smap \<Rightarrow> double \<Rightarrow> Ledger \<times> (Candidate \<times> Quote) list" where
  "plan_run cands opn held_coin held_token held_total cfg held_coin_touch held_total_touch =
     (let keep = kept cands cfg opn;
          lg0 = resting_ledger cands keep held_coin held_token held_total held_coin_touch held_total_touch;
          (lg1, ps1) = place_pass cfg keep False cands 0 lg0;
          (lg2, ps2) = place_pass cfg keep True cands 0 lg1
      in (lg2, ps1 @ ps2))"

definition plan ::
  "(string, Candidate) smap \<Rightarrow> OpenOrder list \<Rightarrow> (string, double) smap \<Rightarrow> (string, double) smap
     \<Rightarrow> double \<Rightarrow> Config \<Rightarrow> (string, double) smap \<Rightarrow> double \<Rightarrow> Action list" where
  "plan cands opn held_coin held_token held_total cfg held_coin_touch held_total_touch =
     cancels cands cfg opn @
     map (\<lambda>(c, q). place_action q)
       (snd (plan_run cands opn held_coin held_token held_total cfg held_coin_touch held_total_touch))"

section \<open>Manual sheets\<close>

record SheetEntry =
  se_no_token :: string
  se_no_price :: double
  se_size :: double
  se_note :: string

definition json_num :: "json option \<Rightarrow> double option" where
  "json_num v = (case v of Some (JInt i) \<Rightarrow> Some (of_i i) | Some (JFloat d) \<Rightarrow> Some d | _ \<Rightarrow> None)"

text \<open>One row: \<open>Inl\<close> is an escaping type error, \<open>Inr None\<close> a refused sheet.\<close>

definition parse_row :: "json \<Rightarrow> string + SheetEntry option" where
  "parse_row r =
     (case r of
        JObj _ \<Rightarrow>
          (case jvalue_str r ''token_id'' [] of None \<Rightarrow> Inl ''type_error''
           | Some tok \<Rightarrow>
             (case (json_num (jget r ''price''), json_num (jget r ''size'')) of
                (Some p, Some sz) \<Rightarrow>
                  (case jvalue_str r ''note'' [] of None \<Rightarrow> Inl ''type_error''
                   | Some note \<Rightarrow> Inr (Some \<lparr> se_no_token = tok, se_no_price = p, se_size = sz, se_note = note \<rparr>))
              | _ \<Rightarrow> Inr None))
      | _ \<Rightarrow> Inr None)"

fun parse_rows :: "json list \<Rightarrow> string + SheetEntry list option" where
  "parse_rows [] = Inr (Some [])"
| "parse_rows (r # rs) =
     (case parse_row r of
        Inl e \<Rightarrow> Inl e
      | Inr None \<Rightarrow> Inr None
      | Inr (Some en) \<Rightarrow> (case parse_rows rs of
          Inl e \<Rightarrow> Inl e | Inr None \<Rightarrow> Inr None | Inr (Some es) \<Rightarrow> Inr (Some (en # es))))"

definition parse_sheet :: "json \<Rightarrow> string + SheetEntry list option" where
  "parse_sheet j = (case j of JArr rs \<Rightarrow> if rs = [] then Inr None else parse_rows rs | _ \<Rightarrow> Inr None)"

definition row_error :: "Config \<Rightarrow> string list \<Rightarrow> SheetEntry \<Rightarrow> string option" where
  "row_error cfg seen en =
     (if se_no_token en = [] \<or> \<not> list_all is_digit (se_no_token en)
      then Some (''bad token_id ('' @ se_note en @ '')'')
      else if se_no_token en \<in> set seen then Some (''duplicate token ('' @ se_note en @ '')'')
      else if se_no_price en < lit (8 / 10) \<or> lit (995 / 1000) < se_no_price en
      then Some (''price outside NO-buy band [0.80, 0.995] ('' @ se_note en @ '')'')
      else if se_size en < cf_min_shares cfg \<or> lit 100 < se_size en
      then Some (''size outside [min,100] ('' @ se_note en @ '')'')
      else None)"

fun sheet_loop :: "Config \<Rightarrow> string list \<Rightarrow> double \<Rightarrow> SheetEntry list \<Rightarrow> string + double" where
  "sheet_loop cfg seen notional [] = Inr notional"
| "sheet_loop cfg seen notional (en # es) =
     (case row_error cfg seen en of
        Some e \<Rightarrow> Inl e
      | None \<Rightarrow> sheet_loop cfg (se_no_token en # seen) (notional + se_no_price en * se_size en) es)"

definition validate_sheet :: "SheetEntry list \<Rightarrow> Config \<Rightarrow> string option" where
  "validate_sheet sheet cfg =
     (if cf_max_orders cfg < int (length sheet)
      then Some (''sheet size '' @ nat_str (length sheet) @ '' > max_orders'')
      else case sheet_loop cfg [] 0 sheet of
             Inl e \<Rightarrow> Some e
           | Inr notional \<Rightarrow>
               if cf_total_usd cfg + eps9 < notional
               then Some (''notional $'' @ double_str notional @ '' > total cap'')
               else None)"

section \<open>The ledger of a round\<close>

definition total_of :: "bool \<Rightarrow> Ledger \<Rightarrow> double" where
  "total_of t lg = (if t then lg_total_t lg else lg_total lg)"

definition coin_at :: "bool \<Rightarrow> Ledger \<Rightarrow> string \<Rightarrow> double" where
  "coin_at t lg k = smap_at 0 (if t then lg_coin_t lg else lg_coin lg) k"

definition total_cap :: "bool \<Rightarrow> Config \<Rightarrow> double" where
  "total_cap t cfg = (if t then cf_touch_total_usd cfg else cf_total_usd cfg)"

definition coin_cap :: "bool \<Rightarrow> string \<Rightarrow> Config \<Rightarrow> double" where
  "coin_cap t k cfg =
     (if t then cf_touch_per_coin_usd cfg
      else if (k = ''sol'' \<or> k = ''xrp'') \<and> 0 < cf_per_coin_alt_usd cfg then cf_per_coin_alt_usd cfg
      else cf_per_coin_usd cfg)"

definition in_cap :: "double \<Rightarrow> double \<Rightarrow> bool" where
  "in_cap cap x \<longleftrightarrow> \<not> cap + eps9 < x"

definition notional :: "Quote \<Rightarrow> double" where
  "notional q = qt_no_price q * qt_size q"

lemma mult_comm_d: "x * y = y * (x::double)"
  by (cases x; cases y) (auto simp: times_double_def mult.commute)

lemma decide_caps:
  assumes "decide c cfg dm dc dt = Some q"
  shows "in_cap (cap_market c cfg) (dm + notional q) \<and> in_cap (coin_cap (c_is_touch c) (c_coin c) cfg) (dc + notional q) \<and>
    in_cap (total_cap (c_is_touch c) cfg) (dt + notional q) \<and> \<not> qt_size q < cf_min_shares cfg \<and>
    qt_no_token q = c_no_token c"
proof -
  have caps: "cap_coin c cfg = coin_cap (c_is_touch c) (c_coin c) cfg" "cap_total c cfg = total_cap (c_is_touch c) cfg"
    by (simp_all add: cap_coin_def coin_cap_def cap_total_def total_cap_def)
  show ?thesis unfolding caps[symmetric] in_cap_def notional_def
    using assms unfolding decide_def Let_def
    by (auto split: option.splits if_splits simp: mult_comm_d[of "dfloor _"])
qed

lemma book_quote_same:
  "c_is_touch c = t \<Longrightarrow> total_of t (book_quote lg c q) = total_of t lg + notional q"
  "c_is_touch c = t \<Longrightarrow> total_of (\<not> t) (book_quote lg c q) = total_of (\<not> t) lg"
  "c_is_touch c = t \<Longrightarrow> coin_at t (book_quote lg c q) k =
     (if k = c_coin c then coin_at t lg k + notional q else coin_at t lg k)"
  "c_is_touch c = t \<Longrightarrow> coin_at (\<not> t) (book_quote lg c q) k = coin_at (\<not> t) lg k"
  "lg_orders (book_quote lg c q) = lg_orders lg + 1"
  "lg_market (book_quote lg c q) = lg_market lg"
  by (auto simp: total_of_def coin_at_def book_quote_def Let_def notional_def smap_add_def smap_at_def)

lemma dep_of: "c_is_touch c = t \<Longrightarrow> dep_total lg c = total_of t lg"
  "c_is_touch c = t \<Longrightarrow> dep_coin lg c = coin_at t lg (c_coin c)"
  by (simp_all add: dep_total_def dep_coin_def total_of_def coin_at_def)

lemma place_pass_Nil: "place_pass cfg keep t cs tp lg = (lg', []) \<Longrightarrow> lg' = lg"
proof (induction cs arbitrary: tp lg)
  case (Cons x cs)
  then show ?case by (cases x) (auto split: if_splits option.splits prod.splits)
qed simp

text \<open>One pass keeps every running sum under its cap, or leaves it as it was.\<close>

definition pass_ok ::
  "Config \<Rightarrow> (string, OpenOrder) smap \<Rightarrow> bool \<Rightarrow> (string, Candidate) smap \<Rightarrow> Ledger \<Rightarrow> Ledger \<Rightarrow> (Candidate \<times> Quote) list \<Rightarrow> bool" where
  "pass_ok cfg keep t cs lg lg' ps \<longleftrightarrow>
     total_of t lg' = foldl (+) (total_of t lg) (map (\<lambda>x. notional (snd x)) ps) \<and>
     total_of (\<not> t) lg' = total_of (\<not> t) lg \<and>
     (ps = [] \<or> in_cap (total_cap t cfg) (total_of t lg')) \<and>
     (\<forall>k. coin_at t lg' k = coin_at t lg k \<or> in_cap (coin_cap t k cfg) (coin_at t lg' k)) \<and>
     (\<forall>k. coin_at (\<not> t) lg' k = coin_at (\<not> t) lg k) \<and>
     lg_orders lg' = lg_orders lg + int (length ps) \<and>
     (ps = [] \<or> lg_orders lg' \<le> cf_max_orders cfg) \<and>
     lg_market lg' = lg_market lg \<and>
     list_all (\<lambda>(c, q). c_is_touch c = t \<and> qt_no_token q = c_no_token c \<and> \<not> qt_size q < cf_min_shares cfg \<and>
       (\<exists>tok. (tok, c) \<in> set cs \<and> smap_get keep tok = None \<and>
          in_cap (cap_market c cfg) (smap_at 0 (lg_market lg) tok + notional q))) ps"

lemma pass_ok_skip: "pass_ok cfg keep t cs lg lg' ps \<Longrightarrow> pass_ok cfg keep t (x # cs) lg lg' ps"
  unfolding pass_ok_def by (auto elim!: list.pred_mono_strong)

lemma pass_ok_stop: "pass_ok cfg keep t cs lg lg []"
  by (simp add: pass_ok_def)

lemma place_pass_ok: "place_pass cfg keep t cs tp lg = (lg', ps) \<Longrightarrow> pass_ok cfg keep t cs lg lg' ps"
proof (induction cs arbitrary: tp lg ps)
  case Nil
  then show ?case by (simp add: pass_ok_stop)
next
  case (Cons x cs)
  obtain tok c where x: "x = (tok, c)" by (cases x)
  let ?skip = "c_is_touch c \<noteq> t \<or> smap_get keep tok \<noteq> None"
  let ?stop = "cf_max_orders cfg \<le> lg_orders lg \<or> t \<and> cf_touch_max_orders cfg \<le> tp"
  let ?d = "decide c cfg (smap_at 0 (lg_market lg) tok) (dep_coin lg c) (dep_total lg c)"
  consider (skip) "?skip \<or> \<not> ?stop \<and> ?d = None" | (stop) "\<not> ?skip" "?stop"
    | (place) q where "\<not> ?skip" "\<not> ?stop" "?d = Some q" by (cases ?d) blast+
  then show ?case
  proof cases
    case skip
    then have "place_pass cfg keep t cs tp lg = (lg', ps) \<or> (lg', ps) = (lg, [])"
      using Cons.prems by (auto simp: x split: if_splits)
    then show ?thesis using Cons.IH pass_ok_skip pass_ok_stop by (metis Pair_inject)
  next
    case stop
    then show ?thesis using Cons.prems by (auto simp: x pass_ok_stop split: if_splits)
  next
    case place
    then have t: "c_is_touch c = t" by simp
    obtain ps' where ps: "ps = (c, q) # ps'"
      and rec: "place_pass cfg keep t cs (if c_is_touch c then tp + 1 else tp) (book_quote lg c q) = (lg', ps')"
      using Cons.prems place by (auto simp: x split: prod.splits)
    have ih: "pass_ok cfg keep t cs (book_quote lg c q) lg' ps'" by (rule Cons.IH[OF rec])
    note caps = decide_caps[OF place(3)]
    have e: "lg' = book_quote lg c q" if "ps' = []" using place_pass_Nil rec that by blast
    have coin: "coin_at t lg' k = coin_at t lg k \<or> in_cap (coin_cap t k cfg) (coin_at t lg' k)" for k
    proof -
      have "coin_at t lg' k = coin_at t (book_quote lg c q) k \<or> in_cap (coin_cap t k cfg) (coin_at t lg' k)"
        using ih by (simp add: pass_ok_def)
      then show ?thesis using caps t by (auto simp: book_quote_same(3)[OF t] dep_of split: if_splits)
    qed
    show ?thesis
      unfolding ps pass_ok_def using coin
      by (intro conjI allI)
        (use ih caps e place(1,2) t in \<open>auto simp: pass_ok_def book_quote_same dep_of x elim!: list.pred_mono_strong\<close>)
  qed
qed

lemma place_pass_touch_count:
  "place_pass cfg keep True cs tp lg = (lg', ps) \<Longrightarrow> ps = [] \<or> tp + int (length ps) \<le> cf_touch_max_orders cfg"
proof (induction cs arbitrary: tp lg ps)
  case (Cons x cs)
  then show ?case
    by (cases x) (force split: if_splits option.splits prod.splits)
qed simp

lemma place_pass_no_touch: "cf_touch_total_usd cfg \<le> 0 \<Longrightarrow> place_pass cfg keep True cs tp lg = (lg, [])"
proof (induction cs arbitrary: tp lg)
  case (Cons x cs)
  have "decide c cfg dm dc dt = None" if "c_is_touch c" for c dm dc dt
    using Cons.prems that by (auto simp: decide_def Let_def split: option.split)
  then show ?case using Cons by (cases x) auto
qed simp

text \<open>The notionals a round places for one kind of candidate, in order.\<close>

definition placed :: "bool \<Rightarrow> (Candidate \<times> Quote) list \<Rightarrow> double list" where
  "placed t ps = map (\<lambda>x. notional (snd x)) (filter (\<lambda>x. c_is_touch (fst x) = t) ps)"

definition base_ledger ::
  "(string, Candidate) smap \<Rightarrow> OpenOrder list \<Rightarrow> (string, double) smap \<Rightarrow> (string, double) smap
     \<Rightarrow> double \<Rightarrow> Config \<Rightarrow> (string, double) smap \<Rightarrow> double \<Rightarrow> Ledger" where
  "base_ledger cands opn hc ht htot cfg hct htt = resting_ledger cands (kept cands cfg opn) hc ht htot hct htt"

lemma plan_run_passes:
  assumes "plan_run cands opn hc ht htot cfg hct htt = (lg, ps)"
  obtains lg1 ps1 ps2 where "ps = ps1 @ ps2"
    "place_pass cfg (kept cands cfg opn) False cands 0 (base_ledger cands opn hc ht htot cfg hct htt) = (lg1, ps1)"
    "place_pass cfg (kept cands cfg opn) True cands 0 lg1 = (lg, ps2)"
  using assms by (auto simp: plan_run_def base_ledger_def Let_def split: prod.splits)

lemma placed_split:
  assumes "list_all (\<lambda>(c, q). c_is_touch c = False \<and> P c q) ps1" "list_all (\<lambda>(c, q). c_is_touch c = True \<and> Q c q) ps2"
  shows "placed False (ps1 @ ps2) = map (\<lambda>x. notional (snd x)) ps1" "placed True (ps1 @ ps2) = map (\<lambda>x. notional (snd x)) ps2"
  using assms by (auto simp: placed_def list_all_iff split_beta filter_id_conv intro!: filter_True filter_False)


lemma fold_put_None:
  "smap_get (foldl (\<lambda>m x. smap_put (k x) x m) m xs) t = None \<longleftrightarrow> smap_get m t = None \<and> t \<notin> k ` set xs"
  by (induction xs arbitrary: m) auto

lemma kept_None:
  "smap_get (kept cands cfg opn) t = None \<longleftrightarrow>
     (\<forall>oo \<in> set opn. oo_no_token oo = t \<longrightarrow> cancel_reason cands cfg oo \<noteq> [])"
  unfolding kept_def fold_put_None by (auto simp: image_iff) (simp add: smap_get_def)?

definition keys_match :: "(string, Candidate) smap \<Rightarrow> bool" where
  "keys_match cands \<longleftrightarrow> list_all (\<lambda>(tok, c). c_no_token c = tok) cands"

lemma place_pass_tokens:
  assumes "place_pass cfg keep t cs tp lg = (lg', ps)" "keys_match cs" "distinct (map fst cs)"
  shows "distinct (map (\<lambda>x. c_no_token (fst x)) ps) \<and>
    (\<forall>x \<in> set ps. (c_no_token (fst x), fst x) \<in> set cs)"
  using assms
proof (induction cs arbitrary: tp lg ps)
  case (Cons x cs)
  obtain tok c where x: "x = (tok, c)" by (cases x)
  have m: "keys_match cs" "c_no_token c = tok" "distinct (map fst cs)" "tok \<notin> fst ` set cs"
    using Cons.prems x by (auto simp: keys_match_def)
  from Cons.prems(1) consider tp' lg'' where "place_pass cfg keep t cs tp' lg'' = (lg', ps)" | "ps = []"
    | q tp' lg'' ps' where "ps = (c, q) # ps'" "place_pass cfg keep t cs tp' lg'' = (lg', ps')"
    by (auto simp: x split: if_splits option.splits prod.splits)
  then show ?case
  proof cases
    case 1
    from Cons.IH[OF 1 m(1,3)] show ?thesis by auto
  next
    case 3
    from Cons.IH[OF 3(2) m(1,3)] show ?thesis using m unfolding 3(1) x by force
  qed simp
qed simp

lemma pass_ok_all:
  assumes "pass_ok cfg keep t cs lg lg' ps" "x \<in> set ps"
  shows "c_is_touch (fst x) = t \<and> qt_no_token (snd x) = c_no_token (fst x) \<and>
    (\<exists>tok. (tok, fst x) \<in> set cs \<and> smap_get keep tok = None)"
proof -
  have "list_all (\<lambda>(c, q). c_is_touch c = t \<and> qt_no_token q = c_no_token c \<and> \<not> qt_size q < cf_min_shares cfg \<and>
       (\<exists>tok. (tok, c) \<in> set cs \<and> smap_get keep tok = None \<and>
          in_cap (cap_market c cfg) (smap_at 0 (lg_market lg) tok + notional q))) ps"
    using assms(1) unfolding pass_ok_def by blast
  then show ?thesis using assms(2) unfolding list_all_iff split_beta by blast
qed

lemma plan_run_tokens:
  assumes "plan_run cands opn hc ht htot cfg hct htt = (lg, ps)" "keys_match cands" "smap_ok cands"
  shows "distinct (map (\<lambda>x. c_no_token (fst x)) ps) \<and>
    list_all (\<lambda>(c, q). qt_no_token q = c_no_token c \<and> smap_get cands (c_no_token c) = Some c \<and>
      smap_get (kept cands cfg opn) (c_no_token c) = None) ps"
proof -
  obtain lg1 ps1 ps2 where ps: "ps = ps1 @ ps2"
    and p1: "place_pass cfg (kept cands cfg opn) False cands 0 (base_ledger cands opn hc ht htot cfg hct htt) = (lg1, ps1)"
    and p2: "place_pass cfg (kept cands cfg opn) True cands 0 lg1 = (lg, ps2)"
    using plan_run_passes[OF assms(1)] by blast
  have d: "distinct (map fst cands)" by (rule smap_ok_distinct[OF assms(3)])
  note t1 = place_pass_tokens[OF p1 assms(2) d] and t2 = place_pass_tokens[OF p2 assms(2) d]
  note all1 = pass_ok_all[OF place_pass_ok[OF p1]] and all2 = pass_ok_all[OF place_pass_ok[OF p2]]
  let ?k = "\<lambda>x. qt_no_token (snd x) = c_no_token (fst x) \<and>
       (\<exists>tok. (tok, fst x) \<in> set cands \<and> smap_get (kept cands cfg opn) tok = None)"
  have ok: "\<forall>x \<in> set ps1. \<not> c_is_touch (fst x)" "\<forall>x \<in> set ps2. c_is_touch (fst x)"
    using all1 all2 by blast+
  have okk: "\<forall>x \<in> set ps. ?k x" unfolding ps set_append using all1 all2 by blast
  have get: "smap_get cands (c_no_token (fst x)) = Some (fst x)" if "x \<in> set ps" for x
    using that t1 t2 smap_get_mem[OF assms(3)] unfolding ps by auto
  have "c_no_token (fst x) \<noteq> c_no_token (fst y)" if "x \<in> set ps1" "y \<in> set ps2" for x y
  proof
    assume eq: "c_no_token (fst x) = c_no_token (fst y)"
    have "smap_get cands (c_no_token (fst x)) = Some (fst x)" by (rule get) (simp add: ps that)
    moreover have "smap_get cands (c_no_token (fst y)) = Some (fst y)" by (rule get) (simp add: ps that)
    ultimately have "fst x = fst y" unfolding eq by simp
    then show False using ok that by (metis (full_types))
  qed
  moreover have "smap_get (kept cands cfg opn) (c_no_token (fst x)) = None" if "x \<in> set ps" for x
    using okk that assms(2) unfolding keys_match_def list_all_iff by fastforce
  ultimately have dis: "set (map (\<lambda>x. c_no_token (fst x)) ps1) \<inter> set (map (\<lambda>x. c_no_token (fst x)) ps2) = {}"
    and kn: "\<forall>x \<in> set ps. smap_get (kept cands cfg opn) (c_no_token (fst x)) = None" by auto
  have "distinct (map (\<lambda>x. c_no_token (fst x)) ps)" using t1 t2 dis unfolding ps by simp
  moreover have "list_all (\<lambda>(c, q). qt_no_token q = c_no_token c \<and> smap_get cands (c_no_token c) = Some c \<and>
      smap_get (kept cands cfg opn) (c_no_token c) = None) ps"
    unfolding list_all_iff split_beta using kn get okk by blast
  ultimately show ?thesis by blast
qed

text \<open>
  The plan of a round lists its cancels before its new orders; every open order whose market
  has left the candidate list is cancelled; new orders are for distinct candidate tokens, each
  with no order left resting, so a round never doubles an order.
\<close>

theorem plan_structure:
  assumes "keys_match cands" "smap_ok cands"
  shows "\<exists>cs ps. plan cands opn hc ht htot cfg hct htt = cs @ ps \<and>
    list_all (\<lambda>a. act_kind a = KCancel) cs \<and> list_all (\<lambda>a. act_kind a = KPlace) ps \<and>
    list_all (\<lambda>oo. smap_get cands (oo_no_token oo) = None \<longrightarrow> cancel_action oo ''left_window'' \<in> set cs) opn \<and>
    distinct (map act_no_token ps) \<and>
    list_all (\<lambda>a. smap_get cands (act_no_token a) \<noteq> None \<and>
      \<not> list_ex (\<lambda>oo. oo_no_token oo = act_no_token a \<and> cancel_reason cands cfg oo = []) opn) ps"
proof -
  obtain lg ps where run: "plan_run cands opn hc ht htot cfg hct htt = (lg, ps)" by fastforce
  note tk = plan_run_tokens[OF run assms]
  let ?ps = "map (\<lambda>(c, q). place_action q) ps"
  have tok: "map act_no_token ?ps = map (\<lambda>x. c_no_token (fst x)) ps"
    using tk by (auto simp: place_action_def list_all_iff)
  have 1: "list_all (\<lambda>oo. smap_get cands (oo_no_token oo) = None \<longrightarrow>
      cancel_action oo ''left_window'' \<in> set (cancels cands cfg opn)) opn"
    by (auto simp: list_all_iff cancels_def cancel_reason_def image_iff)
  have "smap_get cands (act_no_token a) \<noteq> None \<and>
      \<not> list_ex (\<lambda>oo. oo_no_token oo = act_no_token a \<and> cancel_reason cands cfg oo = []) opn"
    if a: "a \<in> set ?ps" for a
  proof -
    obtain c q where cq: "(c, q) \<in> set ps" "a = place_action q" using a by auto
    then have "qt_no_token q = c_no_token c" "smap_get cands (c_no_token c) = Some c"
      "smap_get (kept cands cfg opn) (c_no_token c) = None" using tk by (auto simp: list_all_iff)
    then show ?thesis using cq(2) kept_None[of cands cfg opn "c_no_token c"]
      by (auto simp: place_action_def list_ex_iff)
  qed
  then have 2: "list_all (\<lambda>a. smap_get cands (act_no_token a) \<noteq> None \<and>
      \<not> list_ex (\<lambda>oo. oo_no_token oo = act_no_token a \<and> cancel_reason cands cfg oo = []) opn) ?ps"
    unfolding list_all_iff by blast
  have 3: "list_all (\<lambda>a. act_kind a = KCancel) (cancels cands cfg opn)"
    by (auto simp: list_all_iff cancels_def cancel_action_def)
  have 4: "list_all (\<lambda>a. act_kind a = KPlace) ?ps"
    by (auto simp: list_all_iff place_action_def)
  have 5: "plan cands opn hc ht htot cfg hct htt = cancels cands cfg opn @ ?ps"
    by (simp add: plan_def run)
  have 6: "distinct (map act_no_token ?ps)" unfolding tok using tk by blast
  show ?thesis by (intro exI[of _ "cancels cands cfg opn"] exI[of _ ?ps] conjI 1 2 3 4 5 6)
qed

text \<open>
  The running sums count one open order per token: when two kept orders rest on the same
  token, only the later one enters the map of kept orders, so the resting notional of the earlier
  one is not counted against any cap.
\<close>

theorem kept_drops_duplicates:
  assumes "cancel_reason cands cfg a = []" "cancel_reason cands cfg b = []" "oo_no_token a = oo_no_token b"
  shows "base_ledger cands [a, b] hc ht htot cfg hct htt = base_ledger cands [b] hc ht htot cfg hct htt"
  using assms by (simp add: base_ledger_def kept_def)

section \<open>Sheets\<close>

lemma sheet_loop_ok:
  "sheet_loop cfg seen n es = Inr r \<longleftrightarrow>
     list_all (\<lambda>en. se_no_token en \<noteq> [] \<and> list_all is_digit (se_no_token en) \<and>
        \<not> se_no_price en < lit (8 / 10) \<and> \<not> lit (995 / 1000) < se_no_price en \<and>
        \<not> se_size en < cf_min_shares cfg \<and> \<not> lit 100 < se_size en) es \<and>
     distinct (map se_no_token es) \<and> set seen \<inter> set (map se_no_token es) = {} \<and>
     r = foldl (+) n (map (\<lambda>en. se_no_price en * se_size en) es)"
proof (induction es arbitrary: seen n)
  case (Cons en es)
  show ?case by (simp add: row_error_def Cons.IH split: option.split) blast
qed auto

text \<open>
  A manual sheet passes validation exactly when it has at most \<open>max_orders\<close> rows, its tokens
  are distinct non-empty digit strings, every price lies in [0.80, 0.995], every size in
  [min_shares, 100], and the total notional, added in order, is within the total cap.
\<close>

theorem validate_sheet_iff:
  "validate_sheet sheet cfg = None \<longleftrightarrow>
     int (length sheet) \<le> cf_max_orders cfg \<and> distinct (map se_no_token sheet) \<and>
     list_all (\<lambda>en. se_no_token en \<noteq> [] \<and> list_all is_digit (se_no_token en) \<and>
        \<not> se_no_price en < lit (8 / 10) \<and> \<not> lit (995 / 1000) < se_no_price en \<and>
        \<not> se_size en < cf_min_shares cfg \<and> \<not> lit 100 < se_size en) sheet \<and>
     in_cap (cf_total_usd cfg) (foldl (+) 0 (map (\<lambda>en. se_no_price en * se_size en) sheet))"
proof (cases "sheet_loop cfg [] 0 sheet")
  case (Inl e)
  then show ?thesis
    using sheet_loop_ok[of cfg "[]" 0 sheet "foldl (+) 0 (map (\<lambda>en. se_no_price en * se_size en) sheet)"]
    by (auto simp: validate_sheet_def)
next
  case (Inr r)
  then show ?thesis using sheet_loop_ok[of cfg "[]" 0 sheet r]
    by (simp add: validate_sheet_def in_cap_def not_le)
qed

section \<open>Witnesses\<close>

definition sample_cand :: Candidate where
  "sample_cand = \<lparr> c_cond = ''0xc'', c_slug = ''btc-above'', c_yes_token = ''6'', c_no_token = ''7'', c_coin = ''btc'',
     c_yes_bid = lit (1 / 64), c_yes_ask = lit (5 / 64), c_days_left = lit 3, c_band_clamp = False,
     c_is_touch = False, c_wl_collateral = 0, c_wl_fair = lit (- 1) \<rparr>"

definition sample_cfg :: Config where
  "sample_cfg = default_config\<lparr> cf_tick := lit (1 / 64), cf_floor_yes := lit (1 / 64), cf_yes_min := lit (1 / 64),
     cf_yes_max := lit (1 / 8), cf_per_order_usd := lit 15 \<rparr>"

lemma sample_decide: "decide sample_cand sample_cfg 0 0 0 =
    Some \<lparr> qt_no_token = ''7'', qt_no_price = Fin (15 / 16), qt_size = Fin 16, qt_note = ''btc-above'' \<rparr>"
  by code_simp

lemma sample_run: "placed False (snd (plan_run [(''7'', sample_cand)] [] [] [] 0 sample_cfg [] 0)) \<noteq> []"
proof -
  have c: "c_is_touch sample_cand = False" "cf_max_orders sample_cfg = 8" "c_coin sample_cand = ''btc''"
    by (simp_all add: sample_cand_def sample_cfg_def default_config_def)
  show ?thesis
    by (simp add: plan_run_def kept_def resting_ledger_def c smap_get_def dep_coin_def dep_total_def smap_at_def
        sample_decide placed_def Let_def)
qed


theorem plan_structure_witness:
  "\<exists>cs ps. plan [(''7'', sample_cand)] [] [] [] 0 sample_cfg [] 0 = cs @ ps \<and>
     list_all (\<lambda>a. act_kind a = KPlace) ps \<and> distinct (map act_no_token ps)"
proof -
  have "keys_match [(''7'', sample_cand)]" "smap_ok [(''7'', sample_cand)]"
    by (simp_all add: keys_match_def sample_cand_def smap_ok_def)
  from plan_structure[OF this, of "[]" "[]" "[]" 0 sample_cfg "[]" 0] show ?thesis by blast
qed

definition sample_open :: "rat \<Rightarrow> OpenOrder" where
  "sample_open n = \<lparr> oo_no_token = ''7'', oo_no_price = lit (15 / 16), oo_size = lit n, oo_coin = ''btc'', oo_note = [] \<rparr>"

theorem kept_drops_duplicates_witness:
  "base_ledger [(''7'', sample_cand)] [sample_open 40, sample_open 5] [] [] 0 sample_cfg [] 0 =
   base_ledger [(''7'', sample_cand)] [sample_open 5] [] [] 0 sample_cfg [] 0"
proof -
  have "cancel_reason [(''7'', sample_cand)] sample_cfg (sample_open 40) = []"
    "cancel_reason [(''7'', sample_cand)] sample_cfg (sample_open 5) = []" by code_simp+
  then show ?thesis by (rule kept_drops_duplicates) (simp add: sample_open_def)
qed

end
