(* ===== verification/Models.thy ===== *)
theory Models
  imports Support
begin

text \<open>
  The data vocabulary: \<open>models.hpp\<close> (errors, market, order book, fills, trades, positions,
  account) and \<open>orders.hpp\<close> (limit orders, maker quotes).  Exceptions are the constructors of
  \<open>sim_error\<close>; a lookup that throws returns \<open>None\<close>.
\<close>

datatype sim_error =
    SimError string
  | NotInitializedError
  | InsufficientBalanceError double double
  | MarketNotFoundError string
  | MarketClosedError string
  | NoPositionError string string
  | InvalidOutcomeError string
  | OrderRejectedError string
  | TickSizeViolationError double double
  | ApiError string "int option"
  | StdError string

fun error_code :: "sim_error \<Rightarrow> string option" where
  "error_code (SimError _) = Some ''SIM_ERROR''"
| "error_code NotInitializedError = Some ''NOT_INITIALIZED''"
| "error_code (InsufficientBalanceError _ _) = Some ''INSUFFICIENT_BALANCE''"
| "error_code (MarketNotFoundError _) = Some ''MARKET_NOT_FOUND''"
| "error_code (MarketClosedError _) = Some ''MARKET_CLOSED''"
| "error_code (NoPositionError _ _) = Some ''NO_POSITION''"
| "error_code (InvalidOutcomeError _) = Some ''INVALID_OUTCOME''"
| "error_code (OrderRejectedError _) = Some ''ORDER_REJECTED''"
| "error_code (TickSizeViolationError _ _) = Some ''TICK_SIZE_VIOLATION''"
| "error_code (ApiError _ _) = Some ''API_ERROR''"
| "error_code (StdError _) = None"

section \<open>Market\<close>

record Token =
  tk_token_id :: string
  tk_outcome :: string

record Market =
  mk_condition_id :: string
  mk_slug :: string
  mk_question :: string
  mk_description :: string
  mk_outcomes :: "string list"
  mk_outcome_prices :: "double list"
  mk_tokens :: "Token list"
  mk_active :: bool
  mk_closed :: bool
  mk_volume :: double
  mk_liquidity :: double
  mk_end_date :: string
  mk_fee_rate_bps :: int
  mk_tick_size :: double

definition get_token_id :: "Market \<Rightarrow> string \<Rightarrow> string option" where
  "get_token_id m outcome =
     map_option tk_token_id (find (\<lambda>t. to_lower (tk_outcome t) = to_lower outcome) (mk_tokens m))"

definition yes_token_id :: "Market \<Rightarrow> string option" where
  "yes_token_id m = get_token_id m ''yes''"

definition no_token_id :: "Market \<Rightarrow> string option" where
  "no_token_id m = get_token_id m ''no''"

definition price_for :: "Market \<Rightarrow> string \<Rightarrow> double" where
  "price_for m target =
     (case find (\<lambda>(oc, p). to_lower oc = target) (zip (mk_outcomes m) (mk_outcome_prices m)) of
        Some (_, p) \<Rightarrow> p | None \<Rightarrow> 0)"

definition yes_price :: "Market \<Rightarrow> double" where "yes_price m = price_for m ''yes''"
definition no_price :: "Market \<Rightarrow> double" where "no_price m = price_for m ''no''"

section \<open>Order book and fills\<close>

record OrderBookLevel =
  lv_price :: double
  lv_size :: double

record OrderBook =
  ob_bids :: "OrderBookLevel list"
  ob_asks :: "OrderBookLevel list"

record Fill =
  fi_price :: double
  fi_shares :: double
  fi_cost :: double
  fi_level :: int

record FillResult =
  fr_filled :: bool
  fr_avg_price :: double
  fr_total_cost :: double
  fr_total_shares :: double
  fr_fee :: double
  fr_slippage_bps :: double
  fr_levels_filled :: int
  fr_is_partial :: bool
  fr_fills :: "Fill list"

section \<open>Trades, positions, account\<close>

record Trade =
  tr_id :: int
  tr_market_condition_id :: string
  tr_market_slug :: string
  tr_market_question :: string
  tr_outcome :: string
  tr_side :: string
  tr_order_type :: string
  tr_avg_price :: double
  tr_amount_usd :: double
  tr_shares :: double
  tr_fee_rate_bps :: int
  tr_fee :: double
  tr_slippage :: double
  tr_levels_filled :: int
  tr_is_partial :: bool
  tr_created_at :: string

record Position =
  po_market_condition_id :: string
  po_market_slug :: string
  po_market_question :: string
  po_outcome :: string
  po_shares :: double
  po_avg_entry_price :: double
  po_total_cost :: double
  po_realized_pnl :: double
  po_is_resolved :: bool
  po_resolved_at :: "string option"

definition current_value :: "Position \<Rightarrow> double \<Rightarrow> double" where
  "current_value p live_price = po_shares p * live_price"

definition unrealized_pnl :: "Position \<Rightarrow> double \<Rightarrow> double" where
  "unrealized_pnl p live_price = current_value p live_price - po_total_cost p"

definition percent_pnl :: "Position \<Rightarrow> double \<Rightarrow> double" where
  "percent_pnl p live_price =
     (if deq (po_total_cost p) 0 then 0 else unrealized_pnl p live_price / po_total_cost p * lit 100)"

record Account =
  ac_id :: int
  ac_starting_balance :: double
  ac_cash :: double
  ac_created_at :: string

record TradeResult =
  tres_trade :: Trade
  tres_account :: Account

record ResolveResult =
  rres_position :: Position
  rres_payout :: double
  rres_account :: Account

section \<open>Limit orders and maker quotes\<close>

record LimitOrder =
  lo_id :: int
  lo_market_slug :: string
  lo_market_condition_id :: string
  lo_outcome :: string
  lo_side :: string
  lo_amount :: double
  lo_limit_price :: double
  lo_order_type :: string
  lo_expires_at :: "string option"
  lo_status :: string
  lo_created_at :: string
  lo_filled_at :: "string option"

record LimitOrderInput =
  li_market_slug :: string
  li_market_condition_id :: string
  li_outcome :: string
  li_side :: string
  li_amount :: double
  li_limit_price :: double
  li_order_type :: string
  li_expires_at :: "string option"

record MakerQuote =
  q_id :: int
  q_market_slug :: string
  q_market_condition_id :: string
  q_outcome :: string
  q_token_id :: string
  q_complement_token_id :: string
  q_size :: double
  q_half_spread_c :: double
  q_max_spread_c :: double
  q_min_size :: double
  q_daily_rate :: double
  q_tick :: double
  q_cancel_efficiency :: double
  q_max_inventory :: double
  q_skew_strength :: double
  q_inventory :: double
  q_complement_inventory :: double
  q_inventory_pnl :: double
  q_entry_mid :: double
  q_committed_capital :: double
  q_accrued_rewards :: double
  q_realized_bleed :: double
  q_fills :: int
  q_status :: string
  q_last_mid :: double
  q_created_at :: string
  q_last_accrued_at :: string

record MakerQuoteInput =
  qi_market_slug :: string
  qi_market_condition_id :: string
  qi_outcome :: string
  qi_token_id :: string
  qi_complement_token_id :: string
  qi_size :: double
  qi_half_spread_c :: double
  qi_max_spread_c :: double
  qi_min_size :: double
  qi_daily_rate :: double
  qi_tick :: double
  qi_cancel_efficiency :: double
  qi_committed_capital :: double
  qi_last_mid :: double
  qi_last_accrued_at :: string
  qi_max_inventory :: double
  qi_skew_strength :: double
  qi_entry_mid :: double

record AccrualUpdate =
  au_accrued_rewards :: double
  au_realized_bleed :: double
  au_fills :: int
  au_last_mid :: double
  au_last_accrued_at :: string
  au_inventory :: double
  au_complement_inventory :: double
  au_inventory_pnl :: double

definition normalize_timestamp :: "string \<Rightarrow> string" where
  "normalize_timestamp ts = (if ts \<noteq> [] \<and> last ts = CHR ''Z'' then butlast ts @ ''+00:00'' else ts)"

definition should_fill :: "LimitOrder \<Rightarrow> double \<Rightarrow> bool" where
  "should_fill ord best_price =
     (if lo_side ord = ''buy'' then best_price \<le> lo_limit_price ord else lo_limit_price ord \<le> best_price)"

section \<open>Rounding helpers (\<open>round.hpp\<close>)\<close>

fun pow10 :: "nat \<Rightarrow> double" where
  "pow10 0 = 1"
| "pow10 (Suc n) = pow10 n * lit 10"

definition round_to :: "double \<Rightarrow> nat \<Rightarrow> double" where
  "round_to x ndigits = (let f = pow10 ndigits in nearbyint (x * f) / f)"

definition round_int :: "double \<Rightarrow> double" where
  "round_int x = nearbyint x"

end
