(* ===== verification/Comp.thy ===== *)
theory Comp
  imports Models
begin

text \<open>
  Computations on a state that may throw: the state is kept as the effects so far left it, also
  when an exception leaves the method, as in the source (there are no transactions).  \<open>bindc\<close> is
  sequencing, \<open>catch\<close> is \<open>try { } catch (...) { }\<close>.

  The locale \<open>evolution\<close> is a reflexive and transitive relation between states; in it the
  combinators are shown to respect the relation when their parts do, so a frame condition of an
  operation follows from its structure.  It is interpreted on the equality of a part of the state
  (\<open>same\<close>) here, and on the growth of the tables where they are defined.
\<close>

type_synonym ('s, 'a) comp = "'s \<Rightarrow> (sim_error + 'a) \<times> 's"

definition ret :: "'a \<Rightarrow> ('s, 'a) comp" where
  "ret x s = (Inr x, s)"

definition throw :: "sim_error \<Rightarrow> ('s, 'a) comp" where
  "throw e s = (Inl e, s)"

fun continue_with :: "('a \<Rightarrow> ('s, 'b) comp) \<Rightarrow> (sim_error + 'a) \<times> 's \<Rightarrow> (sim_error + 'b) \<times> 's" where
  "continue_with f (Inl e, s) = (Inl e, s)"
| "continue_with f (Inr x, s) = f x s"

definition bindc :: "('s, 'a) comp \<Rightarrow> ('a \<Rightarrow> ('s, 'b) comp) \<Rightarrow> ('s, 'b) comp" where
  "bindc m f s = continue_with f (m s)"

definition ensure :: "bool \<Rightarrow> sim_error \<Rightarrow> ('s, unit) comp" where
  "ensure ok e = (if ok then ret () else throw e)"

definition modify :: "('s \<Rightarrow> 's) \<Rightarrow> ('s, unit) comp" where
  "modify f s = (Inr (), f s)"

definition reading :: "('s \<Rightarrow> 'a) \<Rightarrow> ('s, 'a) comp" where
  "reading f s = (Inr (f s), s)"

fun handled :: "(sim_error \<Rightarrow> ('s, 'a) comp) \<Rightarrow> (sim_error + 'a) \<times> 's \<Rightarrow> (sim_error + 'a) \<times> 's" where
  "handled h (Inl e, s) = h e s"
| "handled h (Inr x, s) = (Inr x, s)"

definition catch :: "('s, 'a) comp \<Rightarrow> (sim_error \<Rightarrow> ('s, 'a) comp) \<Rightarrow> ('s, 'a) comp" where
  "catch m h s = handled h (m s)"

text \<open>Dereferencing an empty optional, whose behaviour the language leaves undefined\<close>

definition deref :: "'a option \<Rightarrow> ('s, 'a) comp" where
  "deref x = (case x of None \<Rightarrow> throw (StdError ''empty optional dereferenced'') | Some v \<Rightarrow> ret v)"

text \<open>A result that is already computed, and a computation on a component of the state\<close>

definition of_sum :: "sim_error + 'a \<Rightarrow> ('s, 'a) comp" where
  "of_sum r s = (r, s)"

definition on_part :: "('s \<Rightarrow> 't) \<Rightarrow> ('t \<Rightarrow> 's \<Rightarrow> 's) \<Rightarrow> ('t, 'a) comp \<Rightarrow> ('s, 'a) comp" where
  "on_part get put m s = (case m (get s) of (r, t) \<Rightarrow> (r, put t s))"

text \<open>Reading a part of the state that may be missing\<close>

definition fetch :: "sim_error \<Rightarrow> ('s \<Rightarrow> 't option) \<Rightarrow> ('s, 't) comp" where
  "fetch e sel s = (case sel s of None \<Rightarrow> (Inl e, s) | Some t \<Rightarrow> (Inr t, s))"

fun for_each :: "('a \<Rightarrow> ('s, 'b list) comp) \<Rightarrow> 'a list \<Rightarrow> ('s, 'b list) comp" where
  "for_each body [] = ret []"
| "for_each body (x # xs) = bindc (body x) (\<lambda>ys. bindc (for_each body xs) (\<lambda>zs. ret (ys @ zs)))"

named_theorems comp_simps

lemma comp_run [comp_simps]:
  "ret x s = (Inr x, s)" "throw e s = (Inl e, s)" "bindc m f s = continue_with f (m s)"
  "ensure ok e s = (if ok then (Inr (), s) else (Inl e, s))" "modify g s = (Inr (), g s)"
  "reading g' s = (Inr (g' s), s)" "catch m h s = handled h (m s)" "of_sum r s = (r, s)"
  "deref None s = (Inl (StdError ''empty optional dereferenced''), s)" "deref (Some v) s = (Inr v, s)"
  by (simp_all add: ret_def throw_def bindc_def ensure_def modify_def reading_def catch_def of_sum_def deref_def)

lemma continue_Inr: "continue_with f r = (Inr y, s') \<longleftrightarrow> (\<exists>x s1. r = (Inr x, s1) \<and> f x s1 = (Inr y, s'))"
  by (cases "(f, r)" rule: continue_with.cases) auto

lemma bindc_Inr: "bindc m f s = (Inr y, s') \<longleftrightarrow> (\<exists>x s1. m s = (Inr x, s1) \<and> f x s1 = (Inr y, s'))"
  by (simp add: bindc_def continue_Inr)

lemma fetch_Inr: "fetch e sel s = (Inr t, s') \<longleftrightarrow> sel s = Some t \<and> s' = s"
  by (auto simp: fetch_def split: option.split)

lemma fetch_run [comp_simps]:
  "sel s = Some t \<Longrightarrow> fetch e sel s = (Inr t, s)" "sel s = None \<Longrightarrow> fetch e sel s = (Inl e, s)"
  by (simp_all add: fetch_def)

lemma ensure_Inr: "ensure ok e s = (Inr u, s') \<longleftrightarrow> ok \<and> s' = s"
  by (auto simp: ensure_def ret_def throw_def)

lemma bindc_assoc: "bindc (bindc m f) g = bindc m (\<lambda>x. bindc (f x) g)"
proof (rule ext)
  fix s show "bindc (bindc m f) g s = bindc m (\<lambda>x. bindc (f x) g) s"
    by (cases "m s"; cases "fst (m s)") (auto simp: bindc_def)
qed

section \<open>What every part of a computation obeys\<close>

definition obeys :: "('s \<Rightarrow> 's \<Rightarrow> bool) \<Rightarrow> ('s, 'a) comp \<Rightarrow> bool" where
  "obeys R m \<longleftrightarrow> (\<forall>s. R s (snd (m s)))"

lemma obeysD: "obeys R m \<Longrightarrow> m s = (r, s') \<Longrightarrow> R s s'"
  by (metis obeys_def snd_conv)

named_theorems obeys_intros

locale evolution =
  fixes R :: "'s \<Rightarrow> 's \<Rightarrow> bool"
  assumes stays: "R s s" and follows: "R s t \<Longrightarrow> R t u \<Longrightarrow> R s u"
begin

lemma pure [obeys_intros]:
  "obeys R (ret x)" "obeys R (throw e)" "obeys R (ensure ok e)" "obeys R (reading f)"
  "obeys R (of_sum r)" "obeys R (deref v)" "obeys R (fetch e' sel)"
  by (auto simp: fetch_def obeys_def ret_def throw_def ensure_def reading_def of_sum_def deref_def stays split: option.split)

lemma sequenced [obeys_intros]:
  assumes "obeys R m" "\<And>x. obeys R (f x)" shows "obeys R (bindc m f)"
  unfolding obeys_def
proof
  fix s
  have "R s (snd (m s))" using assms(1) by (simp add: obeys_def)
  moreover have "R t (snd (f x t))" for x t using assms(2) by (simp add: obeys_def)
  ultimately show "R s (snd (bindc m f s))"
    by (cases "m s"; cases "fst (m s)") (auto simp: bindc_def intro: follows)
qed

lemma caught [obeys_intros]:
  assumes "obeys R m" "\<And>e. obeys R (h e)" shows "obeys R (catch m h)"
  unfolding obeys_def
proof
  fix s
  have "R s (snd (m s))" using assms(1) by (simp add: obeys_def)
  moreover have "R t (snd (h e t))" for e t using assms(2) by (simp add: obeys_def)
  ultimately show "R s (snd (catch m h s))"
    by (cases "m s"; cases "fst (m s)") (auto simp: catch_def intro: follows)
qed

lemma repeated [obeys_intros]: "(\<And>x. obeys R (body x)) \<Longrightarrow> obeys R (for_each body xs)"
  by (induction xs) (auto intro!: pure sequenced)

lemma modified: "(\<And>s. R s (f s)) \<Longrightarrow> obeys R (modify f)"
  by (simp add: obeys_def modify_def)

lemma branches [obeys_intros]:
  "obeys R m \<Longrightarrow> obeys R n \<Longrightarrow> obeys R (if b then m else n)"
  "(y = None \<Longrightarrow> obeys R m) \<Longrightarrow> (\<And>x. y = Some x \<Longrightarrow> obeys R (k x)) \<Longrightarrow> obeys R (case y of None \<Rightarrow> m | Some x \<Rightarrow> k x)"
  "(\<And>a b. p = (a, b) \<Longrightarrow> obeys R (l a b)) \<Longrightarrow> obeys R (case p of (a, b) \<Rightarrow> l a b)"
  "obeys R (g v) \<Longrightarrow> obeys R (Let v g)"
  by (auto split: option.split prod.split)

end

definition same :: "('s \<Rightarrow> 'p) \<Rightarrow> 's \<Rightarrow> 's \<Rightarrow> bool" where
  "same p s t \<longleftrightarrow> p t = p s"

interpretation same: evolution "same p" for p :: "'s \<Rightarrow> 'p"
  by unfold_locales (simp_all add: same_def)

lemma modify_same: "(\<And>s. p (f s) = p s) \<Longrightarrow> obeys (same p) (modify f)"
  by (rule same.modified) (simp add: same_def)

text \<open>A computation on a part of the state\<close>

lemma on_part_obeys:
  assumes "obeys Q m" "\<And>s t. Q (get s) t \<Longrightarrow> R s (put t s)"
  shows "obeys R (on_part get put m)"
  using assms by (auto simp: obeys_def on_part_def split: prod.split) (metis snd_conv)

end
