(* ===== verification/Sort.thy ===== *)
theory Sort
  imports Double "HOL-Library.Multiset"
begin

text \<open>
  \<open>std::sort\<close> and \<open>std::stable_sort\<close> with a comparison function, as the stable insertion sort
  (one of the results \<open>std::sort\<close> may give for elements the comparison does not separate).
  The locale \<open>comparator\<close> is the strict weak order the standard asks of the comparison, on the
  elements that satisfy \<open>ok\<close> (the comparison of doubles is one away from NaN); in it the
  result is proved sorted.  It is interpreted on the orders of doubles here and on the
  components' own comparisons where they are declared.
\<close>

fun insert_by :: "('a \<Rightarrow> 'a \<Rightarrow> bool) \<Rightarrow> 'a \<Rightarrow> 'a list \<Rightarrow> 'a list" where
  "insert_by lt x [] = [x]"
| "insert_by lt x (y # ys) = (if lt y x then y # insert_by lt x ys else x # y # ys)"

text \<open>Insertion from the right, so equal elements keep their order.\<close>

definition sort_by :: "('a \<Rightarrow> 'a \<Rightarrow> bool) \<Rightarrow> 'a list \<Rightarrow> 'a list" where
  "sort_by lt xs = foldr (insert_by lt) xs []"

lemma mset_insert_by [simp]: "mset (insert_by lt x xs) = add_mset x (mset xs)"
  by (induction xs) auto

lemma sort_by_simps [simp]: "sort_by lt [] = []" "sort_by lt (x # xs) = insert_by lt x (sort_by lt xs)"
  by (simp_all add: sort_by_def)

lemma mset_sort_by [simp]: "mset (sort_by lt xs) = mset xs"
  by (induction xs) auto

lemma set_sort_by [simp]: "set (sort_by lt xs) = set xs"
  by (metis mset_sort_by set_mset_mset)

lemma length_sort_by [simp]: "length (sort_by lt xs) = length xs"
  by (metis mset_sort_by size_mset)

lemma set_insert_by [simp]: "set (insert_by lt x xs) = insert x (set xs)"
  by (induction xs) auto

locale comparator =
  fixes lt :: "'a \<Rightarrow> 'a \<Rightarrow> bool" and ok :: "'a \<Rightarrow> bool"
  assumes lt_asym: "ok x \<Longrightarrow> ok y \<Longrightarrow> lt x y \<Longrightarrow> \<not> lt y x"
    and not_lt_trans: "ok x \<Longrightarrow> ok y \<Longrightarrow> ok z \<Longrightarrow> \<not> lt y x \<Longrightarrow> \<not> lt z y \<Longrightarrow> \<not> lt z x"
begin

definition in_order :: "'a list \<Rightarrow> bool" where
  "in_order xs \<longleftrightarrow> sorted_wrt (\<lambda>a b. \<not> lt b a) xs"

lemma in_order_insert: "list_all ok (x # xs) \<Longrightarrow> in_order xs \<Longrightarrow> in_order (insert_by lt x xs)"
proof (induction xs)
  case Nil
  then show ?case by (simp add: in_order_def)
next
  case (Cons y ys)
  then have ok: "ok x" "ok y" "\<And>z. z \<in> set ys \<Longrightarrow> ok z" by (auto simp: list_all_iff)
  show ?case
  proof (cases "lt y x")
    case True
    then show ?thesis using Cons ok lt_asym by (auto simp: in_order_def)
  next
    case False
    then show ?thesis using Cons.prems ok not_lt_trans[of x y] by (auto simp: in_order_def)
  qed
qed

lemma in_order_sort: "list_all ok xs \<Longrightarrow> in_order (sort_by lt xs)"
proof (induction xs)
  case (Cons x xs)
  have "list_all ok (x # sort_by lt xs)" using Cons.prems by (simp add: list_all_iff)
  then show ?case using Cons in_order_insert by simp
qed (simp add: in_order_def)

lemma in_order_nth: "in_order xs \<Longrightarrow> i < j \<Longrightarrow> j < length xs \<Longrightarrow> \<not> lt (xs ! j) (xs ! i)"
  by (simp add: in_order_def sorted_wrt_iff_nth_less)

lemma in_order_take: "in_order xs \<Longrightarrow> in_order (take n xs)"
  by (simp add: in_order_def sorted_wrt_take)

lemma insert_by_head: "\<not> lt y x \<Longrightarrow> insert_by lt x (y # ys) = x # y # ys"
  by simp

text \<open>A list already in order is left as it is: the sort is stable.\<close>

lemma sort_in_order: "in_order xs \<Longrightarrow> sort_by lt xs = xs"
proof (induction xs)
  case (Cons x xs)
  then have "sort_by lt xs = xs" by (simp add: in_order_def)
  then show ?case using Cons.prems by (cases xs) (auto simp: in_order_def)
qed simp

end

definition not_nan :: "double \<Rightarrow> bool" where
  "not_nan x \<longleftrightarrow> x \<noteq> NaN"

interpretation asc: comparator "(<) :: double \<Rightarrow> double \<Rightarrow> bool" not_nan
  by unfold_locales (simp_all add: not_nan_def not_less_d less_le_d, blast intro: le_trans_d)

interpretation desc: comparator "\<lambda>x y::double. y < x" not_nan
  by unfold_locales (simp_all add: not_nan_def not_less_d less_le_d, blast intro: le_trans_d)

text \<open>Ordering by a numeric key.\<close>

lemma asc_key: "comparator (\<lambda>a b. f a < (f b :: double)) (\<lambda>a. f a \<noteq> NaN)"
  by unfold_locales (simp_all add: not_less_d less_le_d, blast intro: le_trans_d)

lemma desc_key: "comparator (\<lambda>a b. f b < (f a :: double)) (\<lambda>a. f a \<noteq> NaN)"
  by unfold_locales (simp_all add: not_less_d less_le_d, blast intro: le_trans_d)

end
