(* ===== verification/Database.thy ===== *)
theory Database
  imports Comp Sort
begin

text \<open>
  The SQLite layer (\<open>db.cpp\<close>).  A table is the list of its rows in rowid order with the
  \<open>AUTOINCREMENT\<close> counter; a table that does not exist is \<open>None\<close>, and a statement on it fails
  to prepare.  Every method is a function on the database that returns a thrown exception or a
  value, and the database as the statements executed so far left it.  The SQL texts of the
  source are translated statement by statement, with their \<open>CHECK\<close> and \<open>NOT NULL\<close> constraints:
  a NaN is bound as \<open>NULL\<close>, so it violates \<open>NOT NULL\<close>, and a text is bound up to its first NUL
  byte.  The clock is an argument: \<open>now\<close> counts microseconds since 1970.

  The locale \<open>row_store\<close> is the contract of a table with a primary key; it is interpreted on the
  limit orders, the maker quotes and the trades.
\<close>

section \<open>Times as texts\<close>

definition civil_from_days :: "int \<Rightarrow> int \<times> int \<times> int" where
  "civil_from_days z0 =
     (let z = z0 + 719468; era = z div 146097; doe = z mod 146097;
          yoe = (doe - doe div 1460 + doe div 36524 - doe div 146096) div 365;
          doy = doe - (365 * yoe + yoe div 4 - yoe div 100);
          mp = (5 * doy + 2) div 153; d = doy - (153 * mp + 2) div 5 + 1;
          m = (if mp < 10 then mp + 3 else mp - 9); y = yoe + era * 400
      in (if m \<le> 2 then y + 1 else y, m, d))"

definition pad :: "nat \<Rightarrow> int \<Rightarrow> string" where
  "pad w v = (if 0 \<le> v then zero_pad w (nat_str (nat v)) else ''-'' @ zero_pad (w - 1) (nat_str (nat (- v))))"

text \<open>The broken-down UTC time of a number of seconds, \<open>gmtime_r\<close>.\<close>

definition date_text :: "char \<Rightarrow> int \<Rightarrow> string" where
  "date_text sep t =
     (let days = t div 86400; s = t mod 86400; (y, m, d) = civil_from_days days in
      pad 4 y @ ''-'' @ pad 2 m @ ''-'' @ pad 2 d @ [sep] @
      pad 2 (s div 3600) @ '':'' @ pad 2 (s div 60 mod 60) @ '':'' @ pad 2 (s mod 60))"

text \<open>SQLite's \<open>datetime('now')\<close> and the ISO text of \<open>utc_iso_now\<close>\<close>

definition sql_datetime :: "int \<Rightarrow> string" where
  "sql_datetime now = date_text (CHR '' '') (now div 1000000)"

definition utc_iso_now :: "int \<Rightarrow> string" where
  "utc_iso_now now = date_text (CHR ''T'') (now div 1000000) @ ''.'' @ pad 6 (now mod 1000000) @ ''+00:00''"

section \<open>Tables\<close>

record 'r table =
  tb_rows :: "'r list"
  tb_seq :: int

definition empty_table :: "'r table" where
  "empty_table = \<lparr>tb_rows = [], tb_seq = 0\<rparr>"

text \<open>\<open>INSERT\<close> into a table with an \<open>AUTOINCREMENT\<close> key, and the new rowid\<close>

definition tb_insert :: "(int \<Rightarrow> 'r) \<Rightarrow> 'r table \<Rightarrow> int \<times> 'r table" where
  "tb_insert mk t = (let i = tb_seq t + 1 in (i, t\<lparr>tb_rows := tb_rows t @ [mk i], tb_seq := i\<rparr>))"

definition tb_select :: "('r \<Rightarrow> int) \<Rightarrow> int \<Rightarrow> 'r table \<Rightarrow> 'r option" where
  "tb_select key i t = find (\<lambda>r. key r = i) (tb_rows t)"

definition tb_update :: "('r \<Rightarrow> bool) \<Rightarrow> ('r \<Rightarrow> 'r) \<Rightarrow> 'r table \<Rightarrow> 'r table" where
  "tb_update P f t = t\<lparr>tb_rows := map (\<lambda>r. if P r then f r else r) (tb_rows t)\<rparr>"

text \<open>\<open>DELETE FROM\<close> keeps the counter.\<close>

definition tb_clear :: "'r table \<Rightarrow> 'r table" where
  "tb_clear t = t\<lparr>tb_rows := []\<rparr>"

definition tb_ok :: "('r \<Rightarrow> int) \<Rightarrow> 'r table \<Rightarrow> bool" where
  "tb_ok key t \<longleftrightarrow> sorted_wrt (<) (map key (tb_rows t)) \<and> (\<forall>r\<in>set (tb_rows t). 0 < key r \<and> key r \<le> tb_seq t) \<and>
     0 \<le> tb_seq t"

text \<open>
  The contract of a keyed table: what a lookup returns after an insertion or an update, and the
  invariant each operation keeps.
\<close>

locale row_store =
  fixes key :: "'r \<Rightarrow> int" and sel :: "int \<Rightarrow> 't \<Rightarrow> 'r option"
    and ins :: "(int \<Rightarrow> 'r) \<Rightarrow> 't \<Rightarrow> int \<times> 't" and upd :: "('r \<Rightarrow> bool) \<Rightarrow> ('r \<Rightarrow> 'r) \<Rightarrow> 't \<Rightarrow> 't"
    and inv :: "'t \<Rightarrow> bool"
  assumes sel_key: "inv t \<Longrightarrow> sel i t = Some r \<Longrightarrow> key r = i"
    and ins_inv: "inv t \<Longrightarrow> ins mk t = (i, t') \<Longrightarrow> key (mk i) = i \<Longrightarrow> inv t'"
    and ins_fresh: "inv t \<Longrightarrow> ins mk t = (i, t') \<Longrightarrow> sel i t = None"
    and ins_sel: "inv t \<Longrightarrow> ins mk t = (i, t') \<Longrightarrow> key (mk i) = i \<Longrightarrow> sel j t' = (if j = i then Some (mk i) else sel j t)"
    and upd_inv: "inv t \<Longrightarrow> (\<And>r. key (f r) = key r) \<Longrightarrow> inv (upd P f t)"
    and upd_sel: "inv t \<Longrightarrow> (\<And>r. key (f r) = key r) \<Longrightarrow>
      sel j (upd P f t) = map_option (\<lambda>r. if P r then f r else r) (sel j t)"
begin

lemma ins_old:
  assumes "inv t" "ins mk t = (i, t')" "key (mk i) = i" "sel j t = Some r"
  shows "sel j t' = Some r"
  using assms ins_fresh[OF assms(1,2)] ins_sel[OF assms(1-3), of j] by auto

lemma upd_one:
  assumes "inv t" "\<And>r. key (f r) = key r"
  shows "sel j (upd (\<lambda>r. key r = i) f t) = (if j = i then map_option f (sel i t) else sel j t)"
  using upd_sel[OF assms, of j "\<lambda>r. key r = i"] sel_key[OF assms(1), of j]
  by (cases "sel j t") auto

text \<open>A projection of a row that no update changes is a property of its key for ever.\<close>

lemma upd_keeps:
  assumes "inv t" "\<And>r. key (f r) = key r" "\<And>r. g (f r) = g r" "sel j t = Some r"
  shows "\<exists>r'. sel j (upd P f t) = Some r' \<and> g r' = g r"
  using assms(4) upd_sel[OF assms(1,2), of j P] by (auto simp: assms(3))

end

lemma tb_select_Some: "tb_select key i t = Some r \<Longrightarrow> r \<in> set (tb_rows t) \<and> key r = i"
  by (auto simp: tb_select_def find_Some_iff)

lemma tb_select_row:
  assumes "tb_ok key t" "r \<in> set (tb_rows t)" shows "tb_select key (key r) t = Some r"
proof -
  have "distinct (map key (tb_rows t))" using assms(1) by (auto simp: tb_ok_def strict_sorted_iff)
  then have eq: "x = r" if "x \<in> set (tb_rows t)" "key x = key r" for x
    using that assms(2) by (auto simp: distinct_map inj_on_def)
  show ?thesis
  proof (cases "tb_select key (key r) t")
    case None
    then show ?thesis using assms(2) by (auto simp: tb_select_def find_None_iff)
  next
    case (Some x)
    then show ?thesis using eq tb_select_Some[OF Some] by auto
  qed
qed

lemma find_snoc: "find P (rs @ [x]) =
    (case find P rs of None \<Rightarrow> if P x then Some x else None | Some r \<Rightarrow> Some r)"
  by (induction rs) auto

lemma find_map_key: "(\<And>r. key (f r) = key r) \<Longrightarrow>
  find (\<lambda>r. key r = i) (map (\<lambda>r. if P r then f r else r) rs) =
  map_option (\<lambda>r. if P r then f r else r) (find (\<lambda>r. key r = i) rs)"
  by (induction rs) auto

lemma row_store_table: "row_store key (tb_select key) tb_insert tb_update (tb_ok key)"
proof (unfold_locales, goal_cases)
  case 1
  then show ?case by (auto dest: tb_select_Some)
next
  case 2
  then show ?case by (fastforce simp: tb_ok_def tb_insert_def Let_def sorted_wrt_append)
next
  case 3
  then show ?case by (fastforce simp: tb_ok_def tb_insert_def tb_select_def Let_def find_None_iff)
next
  case (4 t mk i t' j)
  then have "i = tb_seq t + 1" "t' = t\<lparr>tb_rows := tb_rows t @ [mk i], tb_seq := i\<rparr>"
    by (auto simp: tb_insert_def Let_def)
  moreover from this 4 have "find (\<lambda>r. key r = i) (tb_rows t) = None"
    by (force simp: tb_ok_def find_None_iff)
  ultimately show ?case using 4(3) by (auto simp: tb_select_def find_snoc split: option.split)
next
  case (5 t f P)
  have "map key (tb_rows (tb_update P f t)) = map key (tb_rows t)" using 5(2) by (simp add: tb_update_def)
  then show ?case using 5 unfolding tb_ok_def by (auto simp: tb_update_def simp del: map_map)
next
  case 6
  then show ?case by (simp add: tb_select_def tb_update_def find_map_key)
qed

interpretation orders: row_store lo_id "tb_select lo_id" tb_insert tb_update "tb_ok lo_id"
  by (rule row_store_table)

interpretation quotes: row_store q_id "tb_select q_id" tb_insert tb_update "tb_ok q_id"
  by (rule row_store_table)

interpretation trades: row_store tr_id "tb_select tr_id" tb_insert tb_update "tb_ok tr_id"
  by (rule row_store_table)


section \<open>The database\<close>

record EquityRow =
  eq_id :: int
  eq_equity :: double
  eq_recorded_at :: string

record CacheRow =
  ca_key :: string
  ca_data :: string
  ca_fetched_at :: string

text \<open>\<open>d_has_comp\<close> and \<open>d_has_comp_inv\<close>: the migrated columns of \<open>maker_quotes\<close> exist.\<close>

record Db =
  d_account :: "Account option option"
  d_trades :: "Trade table option"
  d_positions :: "Position list option"
  d_cache :: "CacheRow list option"
  d_equity :: "EquityRow table option"
  d_limit_orders :: "LimitOrder table option"
  d_maker_quotes :: "MakerQuote table option"
  d_has_comp :: bool
  d_has_comp_inv :: bool
  d_equity_inserts :: int

type_synonym 'a dbc = "(Db, 'a) comp"

definition prepare_failed :: sim_error where "prepare_failed = StdError ''sqlite prepare failed''"
definition step_failed :: sim_error where "step_failed = StdError ''sqlite step failed''"
definition exec_failed :: sim_error where "exec_failed = StdError ''sqlite exec failed''"

text \<open>\<open>sqlite3_bind_text(..., v.c_str(), -1, ...)\<close>\<close>

definition c_str :: "string \<Rightarrow> string" where
  "c_str s = takeWhile (\<lambda>c. c \<noteq> CHR 0x00) s"

text \<open>\<open>NOT NULL\<close> columns of type \<open>REAL\<close>\<close>

definition reals_ok :: "double list \<Rightarrow> bool" where
  "reals_ok ds = list_all not_nan ds"

text \<open>Preparing a statement needs its table; the constraints are checked by the step.\<close>

abbreviation table_of :: "(Db \<Rightarrow> 't option) \<Rightarrow> 't dbc" where
  "table_of \<equiv> fetch prepare_failed"

section \<open>Schema\<close>

definition create_if :: "'t \<Rightarrow> 't option \<Rightarrow> 't option" where
  "create_if new t = (case t of None \<Rightarrow> Some new | Some x \<Rightarrow> Some x)"

definition init_schema :: "unit dbc" where
  "init_schema = modify (\<lambda>db. db\<lparr>d_account := create_if None (d_account db),
     d_trades := create_if empty_table (d_trades db), d_positions := create_if [] (d_positions db),
     d_cache := create_if [] (d_cache db), d_equity := create_if empty_table (d_equity db)\<rparr>)"

definition init_orders_schema :: "unit dbc" where
  "init_orders_schema = modify (\<lambda>db.
     let fresh = d_maker_quotes db = None;
         has_comp = fresh \<or> d_has_comp db; has_inv = fresh \<or> d_has_comp_inv db;
         qs = create_if empty_table (d_maker_quotes db);
         qs1 = (if has_comp then qs
                else map_option (tb_update (\<lambda>r. True) (q_complement_token_id_update (\<lambda>_. []))) qs);
         qs2 = (if has_inv then qs1
                else map_option (tb_update (\<lambda>r. True) (q_complement_inventory_update (\<lambda>_. 0))) qs1)
     in db\<lparr>d_limit_orders := create_if empty_table (d_limit_orders db), d_maker_quotes := qs2,
           d_has_comp := True, d_has_comp_inv := True\<rparr>)"

definition db_reset :: "unit dbc" where
  "db_reset = bindc (modify (\<lambda>db. db\<lparr>d_trades := None, d_positions := None, d_account := None, d_cache := None,
     d_limit_orders := None, d_maker_quotes := None, d_equity := None\<rparr>)) (\<lambda>_. init_schema)"

section \<open>Account and equity curve\<close>

definition get_account_row :: "Account option dbc" where
  "get_account_row = table_of d_account"

definition clear_rows :: "(Db \<Rightarrow> 't option) \<Rightarrow> (Db \<Rightarrow> Db) \<Rightarrow> unit dbc" where
  "clear_rows sel f = bindc (fetch exec_failed sel) (\<lambda>_. modify f)"

definition db_init_account :: "int \<Rightarrow> double \<Rightarrow> Account dbc" where
  "db_init_account now balance =
     bindc (table_of d_account) (\<lambda>_.
     bindc (ensure (reals_ok [balance]) step_failed) (\<lambda>_.
     bindc (modify (\<lambda>db. db\<lparr>d_account := Some (Some
       \<lparr>ac_id = 1, ac_starting_balance = balance, ac_cash = balance, ac_created_at = sql_datetime now\<rparr>)\<rparr>)) (\<lambda>_.
     bindc (clear_rows d_trades (\<lambda>db. db\<lparr>d_trades := map_option tb_clear (d_trades db)\<rparr>)) (\<lambda>_.
     bindc (clear_rows d_positions (\<lambda>db. db\<lparr>d_positions := map_option (\<lambda>_. []) (d_positions db)\<rparr>)) (\<lambda>_.
     bindc (clear_rows d_equity (\<lambda>db. db\<lparr>d_equity := map_option tb_clear (d_equity db)\<rparr>)) (\<lambda>_.
     bindc (modify (\<lambda>db. db\<lparr>d_limit_orders := map_option tb_clear (d_limit_orders db),
       d_maker_quotes := map_option tb_clear (d_maker_quotes db)\<rparr>)) (\<lambda>_.
     bindc get_account_row (\<lambda>acc.
       case acc of None \<Rightarrow> throw (StdError ''init_account: account missing after insert'')
       | Some a \<Rightarrow> ret a))))))))"

definition update_cash :: "double \<Rightarrow> unit dbc" where
  "update_cash new_cash =
     bindc (table_of d_account) (\<lambda>acc.
     bindc (ensure (acc = None \<or> reals_ok [new_cash]) step_failed) (\<lambda>_.
     modify (\<lambda>db. db\<lparr>d_account := map_option (map_option (ac_cash_update (\<lambda>_. new_cash))) (d_account db)\<rparr>)))"

definition kEquityRetentionDays :: int where "kEquityRetentionDays = 30"
definition kEquityPruneEvery :: int where "kEquityPruneEvery = 1000"

definition db_record_equity :: "int \<Rightarrow> double \<Rightarrow> unit dbc" where
  "db_record_equity now equity =
     bindc (table_of d_equity) (\<lambda>t.
     bindc (ensure (reals_ok [equity]) step_failed) (\<lambda>_.
     bindc (modify (\<lambda>db. db\<lparr>d_equity := Some (snd (tb_insert
              (\<lambda>i. \<lparr>eq_id = i, eq_equity = equity, eq_recorded_at = sql_datetime now\<rparr>) t)),
              d_equity_inserts := d_equity_inserts db + 1\<rparr>)) (\<lambda>_.
     modify (\<lambda>db. if d_equity_inserts db mod kEquityPruneEvery = 0
       then db\<lparr>d_equity := map_option (\<lambda>t. t\<lparr>tb_rows := filter (\<lambda>r.
              \<not> eq_recorded_at r < sql_datetime (now - kEquityRetentionDays * 86400 * 1000000)) (tb_rows t)\<rparr>)
              (d_equity db)\<rparr>
       else db))))"

definition get_equity_curve :: "double list dbc" where
  "get_equity_curve = bindc (table_of d_equity) (\<lambda>t. ret (map eq_equity (tb_rows t)))"

section \<open>Trades and positions\<close>

record TradeInput =
  ti_market_condition_id :: string
  ti_market_slug :: string
  ti_market_question :: string
  ti_outcome :: string
  ti_side :: string
  ti_order_type :: string
  ti_avg_price :: double
  ti_amount_usd :: double
  ti_shares :: double
  ti_fee_rate_bps :: int
  ti_fee :: double
  ti_slippage :: double
  ti_levels_filled :: int
  ti_is_partial :: bool

definition trade_row :: "int \<Rightarrow> TradeInput \<Rightarrow> int \<Rightarrow> Trade" where
  "trade_row now t i = \<lparr>tr_id = i, tr_market_condition_id = c_str (ti_market_condition_id t),
     tr_market_slug = c_str (ti_market_slug t), tr_market_question = c_str (ti_market_question t),
     tr_outcome = c_str (ti_outcome t), tr_side = c_str (ti_side t), tr_order_type = c_str (ti_order_type t),
     tr_avg_price = ti_avg_price t, tr_amount_usd = ti_amount_usd t, tr_shares = ti_shares t,
     tr_fee_rate_bps = ti_fee_rate_bps t, tr_fee = ti_fee t, tr_slippage = ti_slippage t,
     tr_levels_filled = ti_levels_filled t, tr_is_partial = ti_is_partial t, tr_created_at = sql_datetime now\<rparr>"

definition trade_checks :: "Trade \<Rightarrow> bool" where
  "trade_checks r \<longleftrightarrow> tr_outcome r \<noteq> [] \<and> tr_side r \<in> {''buy'', ''sell''} \<and> tr_order_type r \<in> {''fok'', ''fak''} \<and>
     reals_ok [tr_avg_price r, tr_amount_usd r, tr_shares r, tr_fee r, tr_slippage r]"

definition insert_trade :: "int \<Rightarrow> TradeInput \<Rightarrow> Trade dbc" where
  "insert_trade now t =
     bindc (table_of d_trades) (\<lambda>tab.
     bindc (ensure (trade_checks (trade_row now t (tb_seq tab + 1))) step_failed) (\<lambda>_.
     let (i, tab') = tb_insert (trade_row now t) tab in
     bindc (modify (\<lambda>db. db\<lparr>d_trades := Some tab'\<rparr>)) (\<lambda>_.
     bindc (table_of d_trades) (\<lambda>tab.
       case tb_select tr_id i tab of None \<Rightarrow> throw (StdError ''insert_trade: row missing after insert'')
       | Some r \<Rightarrow> ret r))))"

text \<open>A negative \<open>LIMIT\<close> is no limit.\<close>

definition get_trades :: "int \<Rightarrow> Trade list dbc" where
  "get_trades n = bindc (table_of d_trades) (\<lambda>tab.
     let rs = rev (tb_rows tab) in ret (if n < 0 then rs else take (nat n) rs))"

record PositionInput =
  pin_market_condition_id :: string
  pin_market_slug :: string
  pin_market_question :: string
  pin_outcome :: string
  pin_shares :: double
  pin_avg_entry_price :: double
  pin_total_cost :: double
  pin_realized_pnl :: double

definition has_position_key :: "string \<Rightarrow> string \<Rightarrow> Position \<Rightarrow> bool" where
  "has_position_key cid oc p \<longleftrightarrow> po_market_condition_id p = cid \<and> po_outcome p = oc"

definition get_position :: "string \<Rightarrow> string \<Rightarrow> Position option dbc" where
  "get_position cid oc = bindc (table_of d_positions) (\<lambda>ps. ret (find (has_position_key (c_str cid) (c_str oc)) ps))"

definition upsert_row :: "PositionInput \<Rightarrow> Position list \<Rightarrow> Position list" where
  "upsert_row p ps =
     (let k = has_position_key (c_str (pin_market_condition_id p)) (c_str (pin_outcome p)) in
      if list_ex k ps
      then map (\<lambda>r. if k r then r\<lparr>po_shares := pin_shares p, po_avg_entry_price := pin_avg_entry_price p,
                     po_total_cost := pin_total_cost p, po_realized_pnl := pin_realized_pnl p\<rparr> else r) ps
      else ps @ [\<lparr>po_market_condition_id = c_str (pin_market_condition_id p),
                  po_market_slug = c_str (pin_market_slug p), po_market_question = c_str (pin_market_question p),
                  po_outcome = c_str (pin_outcome p), po_shares = pin_shares p,
                  po_avg_entry_price = pin_avg_entry_price p, po_total_cost = pin_total_cost p,
                  po_realized_pnl = pin_realized_pnl p, po_is_resolved = False, po_resolved_at = None\<rparr>])"

definition upsert_position :: "PositionInput \<Rightarrow> Position dbc" where
  "upsert_position p =
     bindc (table_of d_positions) (\<lambda>ps.
     bindc (ensure (c_str (pin_outcome p) \<noteq> [] \<and>
       reals_ok [pin_shares p, pin_avg_entry_price p, pin_total_cost p, pin_realized_pnl p]) step_failed) (\<lambda>_.
     bindc (modify (\<lambda>db. db\<lparr>d_positions := Some (upsert_row p ps)\<rparr>)) (\<lambda>_.
     bindc (get_position (pin_market_condition_id p) (pin_outcome p)) (\<lambda>r.
       case r of None \<Rightarrow> throw (StdError ''upsert_position: row missing after upsert'') | Some x \<Rightarrow> ret x))))"

definition get_open_positions :: "Position list dbc" where
  "get_open_positions = bindc (table_of d_positions) (\<lambda>ps.
     ret (filter (\<lambda>p. \<not> po_is_resolved p \<and> 0 < po_shares p) ps))"

definition get_positions_for_market :: "string \<Rightarrow> Position list dbc" where
  "get_positions_for_market cid = bindc (table_of d_positions) (\<lambda>ps.
     ret (filter (\<lambda>p. po_market_condition_id p = c_str cid) ps))"

definition resolve_position :: "int \<Rightarrow> string \<Rightarrow> string \<Rightarrow> double \<Rightarrow> Position dbc" where
  "resolve_position now cid oc payout =
     bindc (get_position cid oc) (\<lambda>pos. case pos of
       None \<Rightarrow> throw (StdError (''No position for '' @ cid @ ''/'' @ oc))
     | Some p \<Rightarrow>
         let new_realized = po_realized_pnl p + payout - po_total_cost p in
         bindc (ensure (reals_ok [new_realized]) step_failed) (\<lambda>_.
         bindc (modify (\<lambda>db. db\<lparr>d_positions := map_option (map (\<lambda>r.
            if has_position_key (c_str cid) (c_str oc) r
            then r\<lparr>po_is_resolved := True, po_resolved_at := Some (sql_datetime now),
                   po_realized_pnl := new_realized, po_shares := 0\<rparr>
            else r)) (d_positions db)\<rparr>)) (\<lambda>_.
         bindc (get_position cid oc) (\<lambda>r.
           case r of None \<Rightarrow> throw (StdError ''bad optional access'') | Some x \<Rightarrow> ret x))))"

section \<open>Cache\<close>

definition set_cache :: "int \<Rightarrow> string \<Rightarrow> string \<Rightarrow> unit dbc" where
  "set_cache now k json_text = bindc (table_of d_cache) (\<lambda>_.
     modify (\<lambda>db. db\<lparr>d_cache := map_option (\<lambda>rs. filter (\<lambda>r. ca_key r \<noteq> c_str k) rs @
       [\<lparr>ca_key = c_str k, ca_data = c_str json_text, ca_fetched_at = sql_datetime now\<rparr>]) (d_cache db)\<rparr>))"

definition get_cache :: "string \<Rightarrow> string option dbc" where
  "get_cache k = bindc (table_of d_cache) (\<lambda>rs.
     ret (map_option ca_data (find (\<lambda>r. ca_key r = c_str k) rs)))"

definition get_cache_fresh :: "int \<Rightarrow> string \<Rightarrow> int \<Rightarrow> string option dbc" where
  "get_cache_fresh now k ttl_seconds = bindc (table_of d_cache) (\<lambda>rs.
     ret (map_option ca_data (find (\<lambda>r. ca_key r = c_str k \<and>
       sql_datetime (now - ttl_seconds * 1000000) \<le> ca_fetched_at r) rs)))"

section \<open>Limit orders\<close>

definition order_row :: "int \<Rightarrow> LimitOrderInput \<Rightarrow> int \<Rightarrow> LimitOrder" where
  "order_row now inp i = \<lparr>lo_id = i, lo_market_slug = c_str (li_market_slug inp),
     lo_market_condition_id = c_str (li_market_condition_id inp), lo_outcome = c_str (li_outcome inp),
     lo_side = c_str (li_side inp), lo_amount = li_amount inp, lo_limit_price = li_limit_price inp,
     lo_order_type = c_str (li_order_type inp),
     lo_expires_at = map_option (\<lambda>e. c_str (normalize_timestamp e)) (li_expires_at inp),
     lo_status = ''pending'', lo_created_at = sql_datetime now, lo_filled_at = None\<rparr>"

definition order_checks :: "LimitOrder \<Rightarrow> bool" where
  "order_checks r \<longleftrightarrow> lo_outcome r \<noteq> [] \<and> lo_side r \<in> {''buy'', ''sell''} \<and> lo_order_type r \<in> {''gtc'', ''gtd''} \<and>
     lo_status r \<in> {''pending'', ''filled'', ''cancelled'', ''expired'', ''rejected''} \<and>
     reals_ok [lo_amount r, lo_limit_price r]"

definition get_order :: "int \<Rightarrow> LimitOrder option dbc" where
  "get_order order_id = bindc (table_of d_limit_orders) (\<lambda>t. ret (tb_select lo_id order_id t))"

definition create_order :: "int \<Rightarrow> LimitOrderInput \<Rightarrow> LimitOrder dbc" where
  "create_order now inp =
     bindc (table_of d_limit_orders) (\<lambda>t.
     bindc (ensure (order_checks (order_row now inp (tb_seq t + 1))) step_failed) (\<lambda>_.
     let (i, t') = tb_insert (order_row now inp) t in
     bindc (modify (\<lambda>db. db\<lparr>d_limit_orders := Some t'\<rparr>)) (\<lambda>_.
     bindc (get_order i) deref)))"

definition pending_rows :: "LimitOrder table \<Rightarrow> LimitOrder list" where
  "pending_rows t = filter (\<lambda>r. lo_status r = ''pending'') (tb_rows t)"

definition get_pending_orders :: "LimitOrder list dbc" where
  "get_pending_orders = bindc (table_of d_limit_orders) (\<lambda>t. ret (pending_rows t))"

definition set_orders :: "(LimitOrder \<Rightarrow> bool) \<Rightarrow> (LimitOrder \<Rightarrow> LimitOrder) \<Rightarrow> unit dbc" where
  "set_orders P f = bindc (table_of d_limit_orders) (\<lambda>_.
     modify (\<lambda>db. db\<lparr>d_limit_orders := map_option (tb_update P f) (d_limit_orders db)\<rparr>))"

definition cancel_order :: "int \<Rightarrow> LimitOrder option dbc" where
  "cancel_order order_id =
     bindc (get_order order_id) (\<lambda>o'. case o' of
       None \<Rightarrow> ret None
     | Some r \<Rightarrow> if lo_status r \<noteq> ''pending'' then ret None
         else bindc (set_orders (\<lambda>r. lo_id r = order_id) (lo_status_update (\<lambda>_. ''cancelled''))) (\<lambda>_.
              get_order order_id))"

definition cancel_all_orders :: "LimitOrder list dbc" where
  "cancel_all_orders =
     bindc get_pending_orders (\<lambda>pending.
       if pending = [] then ret []
       else bindc (set_orders (\<lambda>r. lo_status r = ''pending'') (lo_status_update (\<lambda>_. ''cancelled''))) (\<lambda>_.
            ret (map (lo_status_update (\<lambda>_. ''cancelled'')) pending)))"

definition mark_filled :: "int \<Rightarrow> int \<Rightarrow> LimitOrder dbc" where
  "mark_filled now order_id =
     bindc (set_orders (\<lambda>r. lo_id r = order_id)
       (\<lambda>r. r\<lparr>lo_status := ''filled'', lo_filled_at := Some (sql_datetime now)\<rparr>)) (\<lambda>_.
     bindc (get_order order_id) deref)"

definition reject_order :: "int \<Rightarrow> LimitOrder dbc" where
  "reject_order order_id =
     bindc (set_orders (\<lambda>r. lo_id r = order_id) (lo_status_update (\<lambda>_. ''rejected''))) (\<lambda>_.
     bindc (get_order order_id) deref)"

text \<open>A comparison with a \<open>NULL\<close> expiry is not true.\<close>

definition order_expired :: "string \<Rightarrow> LimitOrder \<Rightarrow> bool" where
  "order_expired now_text r \<longleftrightarrow> lo_status r = ''pending'' \<and> lo_order_type r = ''gtd'' \<and>
     (case lo_expires_at r of None \<Rightarrow> False | Some e \<Rightarrow> e \<le> now_text)"

definition expire_orders :: "int \<Rightarrow> LimitOrder list dbc" where
  "expire_orders now =
     (let now_text = normalize_timestamp (utc_iso_now now) in
      bindc (table_of d_limit_orders) (\<lambda>t.
      let out = filter (order_expired now_text) (tb_rows t) in
      if out = [] then ret []
      else bindc (set_orders (order_expired now_text) (lo_status_update (\<lambda>_. ''expired''))) (\<lambda>_. ret out)))"

section \<open>Maker quotes\<close>

definition quote_row :: "int \<Rightarrow> MakerQuoteInput \<Rightarrow> int \<Rightarrow> MakerQuote" where
  "quote_row now q i = \<lparr>q_id = i, q_market_slug = c_str (qi_market_slug q),
     q_market_condition_id = c_str (qi_market_condition_id q), q_outcome = c_str (qi_outcome q),
     q_token_id = c_str (qi_token_id q), q_complement_token_id = c_str (qi_complement_token_id q),
     q_size = qi_size q, q_half_spread_c = qi_half_spread_c q, q_max_spread_c = qi_max_spread_c q,
     q_min_size = qi_min_size q, q_daily_rate = qi_daily_rate q, q_tick = qi_tick q,
     q_cancel_efficiency = qi_cancel_efficiency q, q_max_inventory = qi_max_inventory q,
     q_skew_strength = qi_skew_strength q, q_inventory = 0, q_complement_inventory = 0,
     q_inventory_pnl = 0, q_entry_mid = qi_entry_mid q, q_committed_capital = qi_committed_capital q,
     q_accrued_rewards = 0, q_realized_bleed = 0, q_fills = 0, q_status = ''active'',
     q_last_mid = qi_last_mid q, q_created_at = sql_datetime now,
     q_last_accrued_at = c_str (qi_last_accrued_at q)\<rparr>"

definition quote_checks :: "MakerQuote \<Rightarrow> bool" where
  "quote_checks r \<longleftrightarrow> q_outcome r \<noteq> [] \<and> q_status r \<in> {''active'', ''cancelled''} \<and>
     reals_ok [q_size r, q_half_spread_c r, q_max_spread_c r, q_min_size r, q_daily_rate r, q_tick r,
       q_cancel_efficiency r, q_max_inventory r, q_skew_strength r, q_inventory r, q_inventory_pnl r,
       q_entry_mid r, q_committed_capital r, q_accrued_rewards r, q_realized_bleed r, q_last_mid r,
       q_complement_inventory r]"

definition get_maker_quote :: "int \<Rightarrow> MakerQuote option dbc" where
  "get_maker_quote quote_id = bindc (table_of d_maker_quotes) (\<lambda>t. ret (tb_select q_id quote_id t))"

definition create_maker_quote :: "int \<Rightarrow> MakerQuoteInput \<Rightarrow> MakerQuote dbc" where
  "create_maker_quote now q =
     bindc (table_of d_maker_quotes) (\<lambda>t.
     bindc (table_of (\<lambda>db. if d_has_comp db then Some () else None)) (\<lambda>_.
     bindc (ensure (quote_checks (quote_row now q (tb_seq t + 1))) step_failed) (\<lambda>_.
     let (i, t') = tb_insert (quote_row now q) t in
     bindc (modify (\<lambda>db. db\<lparr>d_maker_quotes := Some t'\<rparr>)) (\<lambda>_.
     bindc (get_maker_quote i) deref))))"

definition active_rows :: "MakerQuote table \<Rightarrow> MakerQuote list" where
  "active_rows t = filter (\<lambda>q. q_status q = ''active'') (tb_rows t)"

definition get_active_maker_quotes :: "MakerQuote list dbc" where
  "get_active_maker_quotes = bindc (table_of d_maker_quotes) (\<lambda>t. ret (active_rows t))"

definition get_all_maker_quotes :: "MakerQuote list dbc" where
  "get_all_maker_quotes = bindc (table_of d_maker_quotes) (\<lambda>t. ret (tb_rows t))"

definition set_quotes :: "(MakerQuote \<Rightarrow> bool) \<Rightarrow> (MakerQuote \<Rightarrow> MakerQuote) \<Rightarrow> unit dbc" where
  "set_quotes P f = bindc (table_of d_maker_quotes) (\<lambda>_.
     modify (\<lambda>db. db\<lparr>d_maker_quotes := map_option (tb_update P f) (d_maker_quotes db)\<rparr>))"

definition db_cancel_maker_quote :: "int \<Rightarrow> MakerQuote option dbc" where
  "db_cancel_maker_quote quote_id =
     bindc (get_maker_quote quote_id) (\<lambda>q. case q of
       None \<Rightarrow> ret None
     | Some r \<Rightarrow> if q_status r \<noteq> ''active'' then ret None
         else bindc (set_quotes (\<lambda>r. q_id r = quote_id) (q_status_update (\<lambda>_. ''cancelled''))) (\<lambda>_.
              get_maker_quote quote_id))"

definition accrual :: "AccrualUpdate \<Rightarrow> MakerQuote \<Rightarrow> MakerQuote" where
  "accrual u r = r\<lparr>q_accrued_rewards := au_accrued_rewards u, q_realized_bleed := au_realized_bleed u,
     q_fills := au_fills u, q_last_mid := au_last_mid u, q_last_accrued_at := c_str (au_last_accrued_at u),
     q_inventory := au_inventory u, q_inventory_pnl := au_inventory_pnl u,
     q_complement_inventory := au_complement_inventory u\<rparr>"

definition accrual_reals :: "AccrualUpdate \<Rightarrow> bool" where
  "accrual_reals u = reals_ok [au_accrued_rewards u, au_realized_bleed u, au_last_mid u, au_inventory u,
     au_inventory_pnl u, au_complement_inventory u]"

text \<open>The constraints are checked for the rows the statement touches.\<close>

definition update_maker_quote_accrual :: "int \<Rightarrow> AccrualUpdate \<Rightarrow> MakerQuote dbc" where
  "update_maker_quote_accrual quote_id u =
     bindc (table_of d_maker_quotes) (\<lambda>t.
     bindc (table_of (\<lambda>db. if d_has_comp_inv db then Some () else None)) (\<lambda>_.
     bindc (ensure (tb_select q_id quote_id t = None \<or> accrual_reals u) step_failed) (\<lambda>_.
     bindc (set_quotes (\<lambda>r. q_id r = quote_id) (accrual u)) (\<lambda>_.
     bindc (get_maker_quote quote_id) deref))))"


section \<open>How the tables evolve\<close>

definition grows :: "('r \<Rightarrow> int) \<Rightarrow> ('r \<Rightarrow> 'r \<Rightarrow> bool) \<Rightarrow> 'r table \<Rightarrow> 'r table \<Rightarrow> bool" where
  "grows key E t t' \<longleftrightarrow> (tb_ok key t \<longrightarrow> tb_ok key t' \<and> tb_seq t \<le> tb_seq t' \<and>
     (\<forall>i. i \<le> tb_seq t \<longrightarrow> rel_option E (tb_select key i t) (tb_select key i t')))"

definition opt_grows :: "('s \<Rightarrow> 'r table option) \<Rightarrow> ('r \<Rightarrow> int) \<Rightarrow> ('r \<Rightarrow> 'r \<Rightarrow> bool) \<Rightarrow> 's \<Rightarrow> 's \<Rightarrow> bool" where
  "opt_grows sel key E s s' \<longleftrightarrow> (\<forall>t. sel s = Some t \<longrightarrow> (\<exists>t'. sel s' = Some t' \<and> grows key E t t'))"

lemma grows_refl: "reflp E \<Longrightarrow> grows key E t t"
  by (simp add: grows_def option.rel_reflp[unfolded reflp_def] reflpD option.rel_refl)

lemma grows_trans:
  assumes "transp E" "grows key E t u" "grows key E u v" shows "grows key E t v"
proof -
  have "transp (rel_option E)" using assms(1) by (rule option.rel_transp)
  then show ?thesis using assms(2,3) unfolding grows_def by (metis order_trans transpD)
qed

lemma evolution_opt_grows:
  assumes "reflp E" "transp E" shows "evolution (opt_grows sel key E)"
proof
  show "opt_grows sel key E s s" for s by (auto simp: opt_grows_def intro: grows_refl[OF assms(1)])
  show "opt_grows sel key E s u" if "opt_grows sel key E s t" "opt_grows sel key E t u" for s t u
    using that unfolding opt_grows_def by (meson grows_trans[OF assms(2)])
qed

lemmas tb_ins_inv = row_store.ins_inv[OF row_store_table]
lemmas tb_ins_fresh = row_store.ins_fresh[OF row_store_table]
lemmas tb_ins_sel = row_store.ins_sel[OF row_store_table]
lemmas tb_upd_inv = row_store.upd_inv[OF row_store_table]
lemmas tb_upd_sel = row_store.upd_sel[OF row_store_table]

lemma insert_grows:
  assumes E: "reflp E" and ins: "tb_insert mk t = (i, t')" "key (mk i) = i" shows "grows key E t t'"
proof -
  have "i = tb_seq t + 1" "tb_seq t' = i" using ins(1) by (auto simp: tb_insert_def Let_def)
  then show ?thesis using ins by (auto simp: grows_def tb_ins_inv tb_ins_sel option.rel_refl[OF reflpD[OF E]])
qed

lemma update_grows:
  assumes "\<And>r. key (f r) = key r" "\<And>r. r \<in> set (tb_rows t) \<Longrightarrow> P r \<Longrightarrow> E r (f r)" "reflp E"
  shows "grows key E t (tb_update P f t)"
proof -
  have "rel_option E (tb_select key i t) (map_option (\<lambda>r. if P r then f r else r) (tb_select key i t))" for i
    using assms(2) reflpD[OF assms(3)] by (cases "tb_select key i t") (auto dest: tb_select_Some)
  then show ?thesis using assms(1) by (auto simp: grows_def tb_upd_inv tb_upd_sel) (simp add: tb_update_def)
qed

text \<open>
  A quote keeps its terms (everything but its accounting and its status), and once cancelled it
  stays cancelled.  An order keeps its terms, and its status moves along \<open>status_step\<close>.
\<close>

definition terms :: "MakerQuote \<Rightarrow> MakerQuote" where
  "terms q = q\<lparr>q_inventory := 0, q_complement_inventory := 0, q_inventory_pnl := 0, q_accrued_rewards := 0,
     q_realized_bleed := 0, q_fills := 0, q_status := [], q_last_mid := 0, q_last_accrued_at := []\<rparr>"

definition quote_evolves :: "MakerQuote \<Rightarrow> MakerQuote \<Rightarrow> bool" where
  "quote_evolves q q' \<longleftrightarrow> terms q' = terms q \<and> (q_status q = ''cancelled'' \<longrightarrow> q_status q' = ''cancelled'')"

inductive status_step :: "string \<Rightarrow> string \<Rightarrow> bool" where
  cancelled: "status_step ''pending'' ''cancelled''"
| expired: "status_step ''pending'' ''expired''"
| filled: "status_step s ''filled''"
| rejected: "status_step s ''rejected''"

inductive_cases status_stepE: "status_step s s'"

definition order_terms :: "LimitOrder \<Rightarrow> LimitOrder" where
  "order_terms r = r\<lparr>lo_status := [], lo_filled_at := None\<rparr>"

definition order_evolves :: "LimitOrder \<Rightarrow> LimitOrder \<Rightarrow> bool" where
  "order_evolves r r' \<longleftrightarrow> order_terms r' = order_terms r \<and> status_step\<^sup>*\<^sup>* (lo_status r) (lo_status r')"

lemma evolves_preorder: "reflp quote_evolves" "transp quote_evolves" "reflp order_evolves" "transp order_evolves"
  by (auto simp: reflp_def transp_def quote_evolves_def order_evolves_def)

definition quotes_grow :: "Db \<Rightarrow> Db \<Rightarrow> bool" where
  "quotes_grow = opt_grows d_maker_quotes q_id quote_evolves"

definition orders_grow :: "Db \<Rightarrow> Db \<Rightarrow> bool" where
  "orders_grow = opt_grows d_limit_orders lo_id order_evolves"

definition db_grows :: "Db \<Rightarrow> Db \<Rightarrow> bool" where
  "db_grows db db' \<longleftrightarrow> quotes_grow db db' \<and> orders_grow db db'"

interpretation growing: evolution db_grows
proof -
  note q = evolution_opt_grows[OF evolves_preorder(1,2), of d_maker_quotes q_id]
  note o = evolution_opt_grows[OF evolves_preorder(3,4), of d_limit_orders lo_id]
  show "evolution db_grows"
    unfolding db_grows_def quotes_grow_def orders_grow_def
    using evolution.stays[OF q] evolution.stays[OF o] evolution.follows[OF q] evolution.follows[OF o]
    by unfold_locales blast+
qed

lemma db_grows_same:
  assumes "d_maker_quotes db' = d_maker_quotes db" "d_limit_orders db' = d_limit_orders db" shows "db_grows db db'"
  using growing.stays[of db] assms by (simp add: db_grows_def quotes_grow_def orders_grow_def opt_grows_def)

lemma modify_grows: "(\<And>db. d_maker_quotes (f db) = d_maker_quotes db) \<Longrightarrow>
    (\<And>db. d_limit_orders (f db) = d_limit_orders db) \<Longrightarrow> obeys db_grows (modify f)"
  by (intro growing.modified db_grows_same)

lemma set_quotes_grows:
  assumes "\<And>r. q_id (f r) = q_id r" "\<And>r. P r \<Longrightarrow> quote_evolves r (f r)"
  shows "obeys db_grows (set_quotes P f)"
proof -
  have "db_grows db (db\<lparr>d_maker_quotes := map_option (tb_update P f) (d_maker_quotes db)\<rparr>)" for db
    using growing.stays[of db] update_grows[of q_id f _ P quote_evolves, OF assms(1) _ evolves_preorder(1)] assms(2)
    by (auto simp: db_grows_def quotes_grow_def orders_grow_def opt_grows_def)
  then show ?thesis unfolding set_quotes_def by (intro growing.pure growing.sequenced growing.modified)
qed

lemma set_orders_grows:
  assumes "\<And>r. lo_id (f r) = lo_id r" "\<And>r. P r \<Longrightarrow> order_evolves r (f r)"
  shows "obeys db_grows (set_orders P f)"
proof -
  have "db_grows db (db\<lparr>d_limit_orders := map_option (tb_update P f) (d_limit_orders db)\<rparr>)" for db
    using growing.stays[of db] update_grows[of lo_id f _ P order_evolves, OF assms(1) _ evolves_preorder(3)] assms(2)
    by (auto simp: db_grows_def quotes_grow_def orders_grow_def opt_grows_def)
  then show ?thesis unfolding set_orders_def by (intro growing.pure growing.sequenced growing.modified)
qed

lemmas reads_grow = get_account_row_def get_equity_curve_def get_trades_def get_position_def
  get_open_positions_def get_positions_for_market_def get_cache_def get_cache_fresh_def get_order_def
  get_pending_orders_def get_maker_quote_def get_active_maker_quotes_def get_all_maker_quotes_def

named_theorems db_grow

lemma read_ops_grow [db_grow]:
  "obeys db_grows get_account_row" "obeys db_grows get_equity_curve" "obeys db_grows (get_trades n)"
  "obeys db_grows (get_position c oc)" "obeys db_grows get_open_positions"
  "obeys db_grows (get_positions_for_market c)" "obeys db_grows (get_cache k)"
  "obeys db_grows (get_cache_fresh now k ttl)" "obeys db_grows (get_order i)"
  "obeys db_grows get_pending_orders" "obeys db_grows (get_maker_quote i)"
  "obeys db_grows get_active_maker_quotes" "obeys db_grows get_all_maker_quotes"
  unfolding reads_grow by (intro growing.pure growing.sequenced growing.branches)+

lemmas growing_intros = growing.pure growing.sequenced growing.branches growing.caught growing.repeated modify_grows

lemma account_ops_grow [db_grow]:
  "obeys db_grows (update_cash c)" "obeys db_grows (db_record_equity now e)"
  "obeys db_grows (set_cache now k j)" "obeys db_grows init_schema"
  unfolding update_cash_def db_record_equity_def set_cache_def init_schema_def
  by (intro growing_intros; simp)+

lemma trade_ops_grow [db_grow]:
  "obeys db_grows (insert_trade now t)" "obeys db_grows (upsert_position p)"
  "obeys db_grows (resolve_position now c oc x)"
  unfolding insert_trade_def upsert_position_def resolve_position_def
  by (intro growing_intros db_grow; simp)+


lemma insert_row_grows:
  assumes "tb_insert mk t = (i, t')" "\<And>i. key (mk i) = i" "reflp E"
  shows "grows key E t t'"
  using insert_grows[OF assms(3,1)] assms(2) by blast

lemma create_order_eq: "create_order now inp db = (case d_limit_orders db of
     None \<Rightarrow> (Inl prepare_failed, db)
   | Some t \<Rightarrow> let i = tb_seq t + 1; r = order_row now inp i in
       if order_checks r
       then (case tb_select lo_id i (snd (tb_insert (order_row now inp) t)) of
               None \<Rightarrow> (Inl (StdError ''empty optional dereferenced''),
                        db\<lparr>d_limit_orders := Some (snd (tb_insert (order_row now inp) t))\<rparr>)
             | Some x \<Rightarrow> (Inr x, db\<lparr>d_limit_orders := Some (snd (tb_insert (order_row now inp) t))\<rparr>))
       else (Inl step_failed, db))"
  by (simp add: create_order_def get_order_def tb_insert_def Let_def comp_simps split: option.split)

lemma create_quote_eq: "create_maker_quote now q db = (case d_maker_quotes db of
     None \<Rightarrow> (Inl prepare_failed, db)
   | Some t \<Rightarrow> let i = tb_seq t + 1; r = quote_row now q i in
       if \<not> d_has_comp db then (Inl prepare_failed, db)
       else if quote_checks r
       then (case tb_select q_id i (snd (tb_insert (quote_row now q) t)) of
               None \<Rightarrow> (Inl (StdError ''empty optional dereferenced''),
                        db\<lparr>d_maker_quotes := Some (snd (tb_insert (quote_row now q) t))\<rparr>)
             | Some x \<Rightarrow> (Inr x, db\<lparr>d_maker_quotes := Some (snd (tb_insert (quote_row now q) t))\<rparr>))
       else (Inl step_failed, db))"
  by (simp add: create_maker_quote_def get_maker_quote_def tb_insert_def Let_def comp_simps split: option.split)

lemma create_ops_grow [db_grow]:
  "obeys db_grows (create_order now inp)" "obeys db_grows (create_maker_quote now q)"
proof -
  have o: "db_grows db (db\<lparr>d_limit_orders := Some (snd (tb_insert (order_row now inp) t))\<rparr>)"
    if "d_limit_orders db = Some t" for db t
    using growing.stays[of db] that insert_row_grows[of "order_row now inp" t _ _ lo_id order_evolves]
    by (auto simp: db_grows_def quotes_grow_def orders_grow_def opt_grows_def order_row_def evolves_preorder
        intro: surjective_pairing)
  have q: "db_grows db (db\<lparr>d_maker_quotes := Some (snd (tb_insert (quote_row now q) t))\<rparr>)"
    if "d_maker_quotes db = Some t" for db t
    using growing.stays[of db] that insert_row_grows[of "quote_row now q" t _ _ q_id quote_evolves]
    by (auto simp: db_grows_def quotes_grow_def orders_grow_def opt_grows_def quote_row_def evolves_preorder
        intro: surjective_pairing)
  show "obeys db_grows (create_order now inp)" "obeys db_grows (create_maker_quote now q)"
    unfolding obeys_def create_order_eq create_quote_eq
    by (auto simp: Let_def o q growing.stays split: option.split)
qed

lemma status_ops_evolve:
  "order_evolves r (r\<lparr>lo_status := ''filled'', lo_filled_at := x\<rparr>)"
  "order_evolves r (r\<lparr>lo_status := ''rejected''\<rparr>)"
  "lo_status r = ''pending'' \<Longrightarrow> order_evolves r (r\<lparr>lo_status := ''cancelled''\<rparr>)"
  "lo_status r = ''pending'' \<Longrightarrow> order_evolves r (r\<lparr>lo_status := ''expired''\<rparr>)"
  by (auto simp: order_evolves_def order_terms_def intro!: r_into_rtranclp status_step.intros)

lemma order_ops_grow [db_grow]:
  "obeys db_grows cancel_all_orders" "obeys db_grows (mark_filled now i)" "obeys db_grows (reject_order i)"
  "obeys db_grows (expire_orders now)"
  unfolding cancel_all_orders_def mark_filled_def reject_order_def expire_orders_def
  by (intro growing_intros db_grow set_orders_grows; simp add: status_ops_evolve order_expired_def)+

text \<open>The guard of \<open>cancel_order\<close> looks at the selected row, which is the only one the update touches.\<close>

lemma cancel_order_eq: "cancel_order i db = (case d_limit_orders db of
     None \<Rightarrow> (Inl prepare_failed, db)
   | Some t \<Rightarrow> (case tb_select lo_id i t of
       None \<Rightarrow> (Inr None, db)
     | Some r \<Rightarrow> if lo_status r \<noteq> ''pending'' then (Inr None, db)
         else let t' = tb_update (\<lambda>r. lo_id r = i) (lo_status_update (\<lambda>_. ''cancelled'')) t
              in (Inr (tb_select lo_id i t'), db\<lparr>d_limit_orders := Some t'\<rparr>)))"
  by (simp add: cancel_order_def get_order_def set_orders_def Let_def comp_simps split: option.split)

lemma cancel_order_grows [db_grow]: "obeys db_grows (cancel_order i)"
proof -
  have "db_grows db (db\<lparr>d_limit_orders := Some (tb_update (\<lambda>r. lo_id r = i) (lo_status_update (\<lambda>_. ''cancelled'')) t)\<rparr>)"
    if t: "d_limit_orders db = Some t" "tb_select lo_id i t = Some r" "lo_status r = ''pending''" for db t r
  proof -
    have "grows lo_id order_evolves t (tb_update (\<lambda>r. lo_id r = i) (lo_status_update (\<lambda>_. ''cancelled'')) t)"
      if "tb_ok lo_id t"
    proof (rule update_grows[OF _ _ evolves_preorder(3)])
      fix x assume x: "x \<in> set (tb_rows t)" "lo_id x = i"
      then have "x = r" using tb_select_row[OF that x(1)] t(2) by simp
      then show "order_evolves x (lo_status_update (\<lambda>_. ''cancelled'') x)"
        using status_ops_evolve(3)[OF t(3)] by simp
    qed simp
    then show ?thesis using growing.stays[of db] t(1)
      by (auto simp: db_grows_def quotes_grow_def orders_grow_def opt_grows_def) (simp add: grows_def)
  qed
  then show ?thesis unfolding obeys_def cancel_order_eq
    by (auto simp: Let_def growing.stays split: option.split)
qed

lemma quote_ops_grow [db_grow]:
  "obeys db_grows (db_cancel_maker_quote i)" "obeys db_grows (update_maker_quote_accrual i u)"
  unfolding db_cancel_maker_quote_def update_maker_quote_accrual_def
  by (intro growing_intros db_grow set_quotes_grows; simp add: quote_evolves_def terms_def accrual_def)+


section \<open>Every sequence of operations\<close>

text \<open>One call of a method other than the two that wipe the store (\<open>reset\<close>, \<open>init_account\<close>)\<close>

inductive db_step :: "Db \<Rightarrow> Db \<Rightarrow> bool" where
  step_cash: "db_step db (snd (update_cash c db))"
| step_equity: "db_step db (snd (db_record_equity now e db))"
| step_schema: "db_step db (snd (init_schema db))"
| step_trade: "db_step db (snd (insert_trade now ti db))"
| step_position: "db_step db (snd (upsert_position p db))"
| step_resolve: "db_step db (snd (resolve_position now cid oc x db))"
| step_cache: "db_step db (snd (set_cache now k j db))"
| step_create: "db_step db (snd (create_order now oi db))"
| step_cancel: "db_step db (snd (cancel_order i db))"
| step_cancel_all: "db_step db (snd (cancel_all_orders db))"
| step_fill: "db_step db (snd (mark_filled now i db))"
| step_reject: "db_step db (snd (reject_order i db))"
| step_expire: "db_step db (snd (expire_orders now db))"
| step_quote: "db_step db (snd (create_maker_quote now qi db))"
| step_cancel_quote: "db_step db (snd (db_cancel_maker_quote i db))"
| step_accrual: "db_step db (snd (update_maker_quote_accrual i u db))"

inductive_cases db_stepE: "db_step db db'"

lemma step_grows: "db_step db db' \<Longrightarrow> db_grows db db'"
  by (induction rule: db_step.induct) (rule db_grow[unfolded obeys_def, rule_format])+

lemma steps_grow: "db_step\<^sup>*\<^sup>* db db' \<Longrightarrow> db_grows db db'"
  by (induction rule: rtranclp_induct) (auto intro: growing.stays growing.follows step_grows)

lemma quotes_grown:
  assumes "db_grows db db'" "d_maker_quotes db = Some t" "tb_ok q_id t"
  obtains t' where "d_maker_quotes db' = Some t'" "tb_ok q_id t'" "tb_seq t \<le> tb_seq t'"
    "\<And>i. i \<le> tb_seq t \<Longrightarrow> rel_option quote_evolves (tb_select q_id i t) (tb_select q_id i t')"
  using assms unfolding db_grows_def quotes_grow_def opt_grows_def grows_def by blast

lemma orders_grown:
  assumes "db_grows db db'" "d_limit_orders db = Some t" "tb_ok lo_id t"
  obtains t' where "d_limit_orders db' = Some t'" "tb_ok lo_id t'" "tb_seq t \<le> tb_seq t'"
    "\<And>i. i \<le> tb_seq t \<Longrightarrow> rel_option order_evolves (tb_select lo_id i t) (tb_select lo_id i t')"
  using assms unfolding db_grows_def orders_grow_def opt_grows_def grows_def by blast

lemma select_below: "tb_ok key t \<Longrightarrow> tb_select key i t = Some r \<Longrightarrow> i \<le> tb_seq t"
  by (auto simp: tb_ok_def dest!: tb_select_Some)

lemma decided_not_pending: "status_step\<^sup>*\<^sup>* s s' \<Longrightarrow> s \<noteq> ''pending'' \<Longrightarrow> s' \<noteq> ''pending''"
  by (induction rule: rtranclp_induct) (auto elim: status_stepE)


definition demo_order :: LimitOrderInput where
  "demo_order = \<lparr>li_market_slug = ''m'', li_market_condition_id = ''0x1'', li_outcome = ''yes'', li_side = ''buy'',
     li_amount = 1, li_limit_price = Fin (1 / 2), li_order_type = ''gtc'', li_expires_at = None\<rparr>"

definition demo_quote :: MakerQuoteInput where
  "demo_quote = \<lparr>qi_market_slug = ''m'', qi_market_condition_id = ''0x1'', qi_outcome = ''yes'', qi_token_id = ''11'',
     qi_complement_token_id = ''12'', qi_size = Fin 100, qi_half_spread_c = Fin 2, qi_max_spread_c = Fin 3,
     qi_min_size = Fin 50, qi_daily_rate = Fin 10, qi_tick = Fin (1 / 64), qi_cancel_efficiency = 0,
     qi_committed_capital = Fin 96, qi_last_mid = Fin (1 / 2), qi_last_accrued_at = ''t0'',
     qi_max_inventory = Fin 400, qi_skew_strength = 1, qi_entry_mid = Fin (1 / 2)\<rparr>"

definition no_tables :: Db where
  "no_tables = \<lparr>d_account = None, d_trades = None, d_positions = None, d_cache = None, d_equity = None,
     d_limit_orders = None, d_maker_quotes = None, d_has_comp = False, d_has_comp_inv = False, d_equity_inserts = 0\<rparr>"

definition fresh_db :: Db where
  "fresh_db = snd (init_orders_schema (snd (init_schema no_tables)))"

lemma fresh_db_eq: "fresh_db = \<lparr>d_account = Some None, d_trades = Some empty_table, d_positions = Some [], d_cache = Some [],
    d_equity = Some empty_table, d_limit_orders = Some empty_table, d_maker_quotes = Some empty_table,
    d_has_comp = True, d_has_comp_inv = True, d_equity_inserts = 0\<rparr>"
  by (simp add: fresh_db_def no_tables_def init_schema_def init_orders_schema_def create_if_def comp_simps)

lemma reals_ok_simps [simp]: "reals_ok []" "reals_ok (d # ds) \<longleftrightarrow> d \<noteq> NaN \<and> reals_ok ds"
  by (simp_all add: reals_ok_def not_nan_def)

lemma c_str_simps [simp]: "c_str [] = []" "c_str (c # s) = (if c = CHR 0x00 then [] else c # c_str s)"
  by (simp_all add: c_str_def)

lemma demo_quote_made: "create_maker_quote 0 demo_quote fresh_db = (Inr (quote_row 0 demo_quote 1),
    fresh_db\<lparr>d_maker_quotes := Some \<lparr>tb_rows = [quote_row 0 demo_quote 1], tb_seq = 1\<rparr>\<rparr>)"
  by (simp add: create_quote_eq fresh_db_eq tb_insert_def tb_select_def empty_table_def quote_checks_def
      quote_row_def demo_quote_def zero_double_def one_double_def)

lemma demo_order_made: "create_order 0 demo_order fresh_db = (Inr (order_row 0 demo_order 1),
    fresh_db\<lparr>d_limit_orders := Some \<lparr>tb_rows = [order_row 0 demo_order 1], tb_seq = 1\<rparr>\<rparr>)"
  by (simp add: create_order_eq fresh_db_eq tb_insert_def tb_select_def empty_table_def order_checks_def
      order_row_def demo_order_def zero_double_def one_double_def)

definition cancelled_db :: Db where
  "cancelled_db = snd (cancel_order 1 (snd (create_order 0 demo_order fresh_db)))"

lemma cancelled_db_orders: "d_limit_orders cancelled_db =
    Some \<lparr>tb_rows = [(order_row 0 demo_order 1)\<lparr>lo_status := ''cancelled''\<rparr>], tb_seq = 1\<rparr>"
  by (simp add: cancelled_db_def demo_order_made cancel_order_eq tb_select_def tb_update_def order_row_def)

definition quoted_db :: Db where
  "quoted_db = snd (create_maker_quote 0 demo_quote fresh_db)"

lemma quoted_db_quotes: "d_maker_quotes quoted_db = Some \<lparr>tb_rows = [quote_row 0 demo_quote 1], tb_seq = 1\<rparr>"
  by (simp add: quoted_db_def demo_quote_made)


text \<open>
  C31: a limit order keeps its terms along any sequence of calls, and once it is filled,
  cancelled, expired or rejected it is never pending again, so it can never fill a second time
  as a resting order.
\<close>

theorem order_life:
  assumes "db_step\<^sup>*\<^sup>* db db'" "d_limit_orders db = Some t" "tb_ok lo_id t" "tb_select lo_id i t = Some r"
  shows "\<exists>t' r'. d_limit_orders db' = Some t' \<and> tb_ok lo_id t' \<and> tb_select lo_id i t' = Some r' \<and>
    order_terms r' = order_terms r \<and> (lo_status r \<noteq> ''pending'' \<longrightarrow> r' \<notin> set (pending_rows t'))"
proof -
  obtain t' where t': "d_limit_orders db' = Some t'" "tb_ok lo_id t'" "tb_seq t \<le> tb_seq t'"
    "\<And>i. i \<le> tb_seq t \<Longrightarrow> rel_option order_evolves (tb_select lo_id i t) (tb_select lo_id i t')"
    using orders_grown[OF steps_grow[OF assms(1)] assms(2,3)] by blast
  show ?thesis using t'(1-3) t'(4)[OF select_below[OF assms(3,4)]] assms(4)
    by (auto simp: option_rel_Some1 order_evolves_def pending_rows_def dest: decided_not_pending)
qed

lemma order_life_witness:
  "let db' = snd (expire_orders 5 cancelled_db); r = (order_row 0 demo_order 1)\<lparr>lo_status := ''cancelled''\<rparr>
   in \<exists>t' r'. d_limit_orders db' = Some t' \<and> tb_ok lo_id t' \<and> tb_select lo_id 1 t' = Some r' \<and>
     order_terms r' = order_terms r \<and> r' \<notin> set (pending_rows t')"
  using order_life[OF r_into_rtranclp[of db_step, OF step_expire[of cancelled_db 5]] cancelled_db_orders,
      of 1 "(order_row 0 demo_order 1)\<lparr>lo_status := ''cancelled''\<rparr>"]
  by (simp add: tb_ok_def tb_select_def order_row_def)

lemma expire_orders_eq: "expire_orders now db = (case d_limit_orders db of
     None \<Rightarrow> (Inl prepare_failed, db)
   | Some t \<Rightarrow> let past = order_expired (normalize_timestamp (utc_iso_now now)) in
       (Inr (filter past (tb_rows t)),
        db\<lparr>d_limit_orders := Some (tb_update past (lo_status_update (\<lambda>_. ''expired'')) t)\<rparr>))"
proof (cases "d_limit_orders db")
  case (Some t)
  have "tb_update P f t = t" if "filter P (tb_rows t) = []" for P and f :: "LimitOrder \<Rightarrow> LimitOrder"
    using that by (simp add: tb_update_def filter_empty_conv map_idI)
  then show ?thesis using Some by (simp add: expire_orders_def set_orders_def Let_def comp_simps)
qed (simp add: expire_orders_def comp_simps Let_def)

text \<open>
  Expiring is complete and touches nothing else: the call returns exactly the orders that
  were pending, good-till-date and past their time; afterwards they are expired, every other row
  is as it was, and a second call at the same instant returns nothing.
\<close>

theorem expire_orders_complete:
  assumes "expire_orders now db = (Inr out, db')"
  shows "\<exists>t t'. d_limit_orders db = Some t \<and> d_limit_orders db' = Some t' \<and>
    out = filter (order_expired (normalize_timestamp (utc_iso_now now))) (tb_rows t) \<and>
    tb_rows t' = map (\<lambda>r. if r \<in> set out then r\<lparr>lo_status := ''expired''\<rparr> else r) (tb_rows t) \<and>
    fst (expire_orders now db') = Inr []"
proof -
  obtain t where t: "d_limit_orders db = Some t" using assms by (auto simp: expire_orders_eq split: option.splits)
  let ?past = "order_expired (normalize_timestamp (utc_iso_now now))"
  have out: "out = filter ?past (tb_rows t)"
    and db': "d_limit_orders db' = Some (tb_update ?past (lo_status_update (\<lambda>_. ''expired'')) t)"
    using assms t by (auto simp: expire_orders_eq Let_def)
  have "\<not> ?past (lo_status_update (\<lambda>_. ''expired'') r)" for r by (simp add: order_expired_def)
  then have "filter ?past (tb_rows (tb_update ?past (lo_status_update (\<lambda>_. ''expired'')) t)) = []"
    by (auto simp: tb_update_def filter_empty_conv)
  then show ?thesis using t out db' by (auto simp: expire_orders_eq Let_def) (auto simp: tb_update_def)
qed

definition gtd_order :: LimitOrderInput where
  "gtd_order = demo_order\<lparr>li_order_type := ''gtd'', li_expires_at := Some []\<rparr>"

definition gtd_db :: Db where
  "gtd_db = snd (create_order 0 gtd_order (snd (create_order 0 demo_order fresh_db)))"

lemma gtd_db_orders: "d_limit_orders gtd_db =
    Some \<lparr>tb_rows = [order_row 0 demo_order 1, order_row 0 gtd_order 2], tb_seq = 2\<rparr>"
  unfolding gtd_db_def demo_order_made snd_conv unfolding create_order_eq
  by (simp add: tb_insert_def tb_select_def order_checks_def order_row_def gtd_order_def demo_order_def
      zero_double_def one_double_def)

lemma expire_orders_complete_witness:
  "let db' = snd (expire_orders 2000000 gtd_db); out = [order_row 0 gtd_order 2]
   in \<exists>t t'. d_limit_orders gtd_db = Some t \<and> d_limit_orders db' = Some t' \<and>
    out = filter (order_expired (normalize_timestamp (utc_iso_now 2000000))) (tb_rows t) \<and>
    tb_rows t' = map (\<lambda>r. if r \<in> set out then r\<lparr>lo_status := ''expired''\<rparr> else r) (tb_rows t) \<and>
    fst (expire_orders 2000000 db') = Inr []"
proof -
  have "expire_orders 2000000 gtd_db = (Inr [order_row 0 gtd_order 2], snd (expire_orders 2000000 gtd_db))"
    by (simp add: expire_orders_eq gtd_db_orders Let_def)
       (simp add: order_expired_def order_row_def gtd_order_def demo_order_def normalize_timestamp_def)
  from expire_orders_complete[OF this] show ?thesis unfolding Let_def .
qed

text \<open>
  \<open>mark_filled\<close> has no guard on the status: it turns any order of the table into a filled
  one, a cancelled or expired order too, while \<open>cancel_order\<close> refuses everything but a pending
  order and then changes nothing.
\<close>

theorem mark_filled_unguarded:
  assumes "d_limit_orders db = Some t" "tb_ok lo_id t" "tb_select lo_id i t = Some r"
  shows "fst (mark_filled now i db) = Inr (r\<lparr>lo_status := ''filled'', lo_filled_at := Some (sql_datetime now)\<rparr>) \<and>
    (if lo_status r = ''pending'' then fst (cancel_order i db) = Inr (Some (r\<lparr>lo_status := ''cancelled''\<rparr>))
     else cancel_order i db = (Inr None, db))"
proof -
  have "tb_select lo_id i (tb_update (\<lambda>r. lo_id r = i) f t) = Some (f r)" if "\<And>r. lo_id (f r) = lo_id r" for f
    using assms(2,3) that by (simp add: orders.upd_one)
  then show ?thesis using assms
    by (simp add: mark_filled_def set_orders_def get_order_def cancel_order_eq Let_def comp_simps)
qed

lemma mark_filled_unguarded_witness:
  "let r = (order_row 0 demo_order 1)\<lparr>lo_status := ''cancelled''\<rparr>
   in fst (mark_filled 7 1 cancelled_db) = Inr (r\<lparr>lo_status := ''filled'', lo_filled_at := Some (sql_datetime 7)\<rparr>) \<and>
      cancel_order 1 cancelled_db = (Inr None, cancelled_db)"
  using mark_filled_unguarded[OF cancelled_db_orders, of 1 "(order_row 0 demo_order 1)\<lparr>lo_status := ''cancelled''\<rparr>" 7]
  by (simp add: tb_ok_def tb_select_def order_row_def)

end
