(* ===== verification/StoreTypes.thy ===== *)
theory StoreTypes
  imports Database
begin

text \<open>
  The constraints of the schema as a type of the store: what the \<open>CHECK\<close>, \<open>NOT NULL\<close> and key clauses
  of \<open>db.cpp\<close> promise of every row, and that every call of the class keeps it, the calls that wipe
  tables and the migrations too.
\<close>

definition rows_all :: "('r \<Rightarrow> bool) \<Rightarrow> 'r table option \<Rightarrow> bool" where
  "rows_all P t = pred_option (\<lambda>t. list_all P (tb_rows t)) t"

definition position_checks :: "Position \<Rightarrow> bool" where
  "position_checks p \<longleftrightarrow> po_outcome p \<noteq> [] \<and>
     reals_ok [po_shares p, po_avg_entry_price p, po_total_cost p, po_realized_pnl p]"

definition keys_ok :: "Db \<Rightarrow> bool" where
  "keys_ok db \<longleftrightarrow> pred_option (tb_ok lo_id) (d_limit_orders db) \<and> pred_option (tb_ok q_id) (d_maker_quotes db) \<and>
     pred_option (tb_ok tr_id) (d_trades db)"

definition store_typed :: "Db \<Rightarrow> bool" where
  "store_typed db \<longleftrightarrow> keys_ok db \<and> rows_all order_checks (d_limit_orders db) \<and>
     rows_all quote_checks (d_maker_quotes db) \<and> rows_all trade_checks (d_trades db) \<and>
     pred_option (list_all position_checks) (d_positions db) \<and>
     rows_all (\<lambda>r. not_nan (eq_equity r)) (d_equity db) \<and>
     pred_option (pred_option (\<lambda>a. not_nan (ac_cash a))) (d_account db)"

named_theorems typed_simps

lemmas typed_unfold [typed_simps] = store_typed_def keys_ok_def rows_all_def

lemma rows_insert [typed_simps]:
  "list_all P (tb_rows (snd (tb_insert mk t))) \<longleftrightarrow> list_all P (tb_rows t) \<and> P (mk (tb_seq t + 1))"
  "list_all P (tb_rows (tb_clear t))" "list_all P (tb_rows empty_table)"
  by (auto simp: tb_insert_def Let_def tb_clear_def empty_table_def)

lemma keys_insert [typed_simps]:
  "tb_ok key t \<Longrightarrow> key (mk (tb_seq t + 1)) = tb_seq t + 1 \<Longrightarrow> tb_ok key (snd (tb_insert mk t))"
  "tb_ok key t \<Longrightarrow> tb_ok key (tb_clear t)" "tb_ok key empty_table"
proof -
  show "tb_ok key (snd (tb_insert mk t))" if "tb_ok key t" "key (mk (tb_seq t + 1)) = tb_seq t + 1"
    using tb_ins_inv[OF that(1), of mk] that(2) by (simp add: tb_insert_def Let_def)
qed (auto simp: tb_ok_def tb_clear_def empty_table_def)

lemma rows_update [intro]:
  assumes "list_all P (tb_rows t)" "\<And>r. r \<in> set (tb_rows t) \<Longrightarrow> P r \<Longrightarrow> Q r \<Longrightarrow> P (f r)"
  shows "list_all P (tb_rows (tb_update Q f t))"
  using assms by (auto simp: tb_update_def list_all_iff)

lemma row_keys [typed_simps]:
  "lo_id (order_row now inp i) = i" "q_id (quote_row now q i) = i" "tr_id (trade_row now ti i) = i"
  by (simp_all add: order_row_def quote_row_def trade_row_def)

section \<open>Each call\<close>

text \<open>A computation keeps the type when its run from a typed store ends in one.\<close>

definition keeps_type :: "'a dbc \<Rightarrow> bool" where
  "keeps_type m = obeys (\<lambda>db db'. store_typed db \<longrightarrow> store_typed db') m"

interpretation typing: evolution "\<lambda>db db'. store_typed db \<longrightarrow> store_typed db'"
  by unfold_locales auto

lemma ensured:
  assumes "ok \<Longrightarrow> obeys (\<lambda>db db'. store_typed db \<longrightarrow> store_typed db') m"
  shows "obeys (\<lambda>db db'. store_typed db \<longrightarrow> store_typed db') (bindc (ensure ok e) (\<lambda>_. m))"
  using assms by (cases ok) (auto simp: obeys_def comp_simps)

lemma keeps_typeI: "(\<And>db. store_typed db \<Longrightarrow> store_typed (snd (m db))) \<Longrightarrow> keeps_type m"
  by (simp add: keeps_type_def obeys_def)

lemma set_orders_typed:
  assumes "\<And>r. lo_id (f r) = lo_id r" "\<And>r. order_checks r \<Longrightarrow> Q r \<Longrightarrow> order_checks (f r)"
  shows "keeps_type (set_orders Q f)"
  using assms by (intro keeps_typeI)
    (auto simp: set_orders_def bindc_def fetch_def modify_def typed_simps tb_upd_inv split: option.splits)

lemma set_quotes_typed:
  assumes "\<And>r. q_id (f r) = q_id r" "\<And>r. quote_checks r \<Longrightarrow> Q r \<Longrightarrow> quote_checks (f r)"
  shows "keeps_type (set_quotes Q f)"
  using assms by (intro keeps_typeI)
    (auto simp: set_quotes_def bindc_def fetch_def modify_def typed_simps tb_upd_inv split: option.splits)

lemmas typing_intros = typing.pure typing.sequenced typing.branches

lemma read_ops_typed:
  "keeps_type (get_order i)" "keeps_type get_pending_orders" "keeps_type (get_maker_quote i)"
  unfolding reads_grow keeps_type_def by (intro typing_intros)+

lemma order_status_typed:
  "order_checks r \<Longrightarrow> s \<in> {''filled'', ''cancelled'', ''expired'', ''rejected''} \<Longrightarrow> order_checks (r\<lparr>lo_status := s\<rparr>)"
  "order_checks r \<Longrightarrow> s \<in> {''filled'', ''cancelled'', ''expired'', ''rejected''} \<Longrightarrow>
     order_checks (r\<lparr>lo_status := s, lo_filled_at := x\<rparr>)"
  by (auto simp: order_checks_def)

lemma order_updates_typed:
  "keeps_type (cancel_order i)" "keeps_type cancel_all_orders" "keeps_type (mark_filled now i)"
  "keeps_type (reject_order i)" "keeps_type (expire_orders now)"
  unfolding cancel_order_def cancel_all_orders_def mark_filled_def reject_order_def expire_orders_def keeps_type_def
  by (intro typing_intros read_ops_typed[unfolded keeps_type_def] set_orders_typed[unfolded keeps_type_def];
      simp add: order_status_typed)+

lemma inserts_typed:
  "keeps_type (create_order now inp)" "keeps_type (create_maker_quote now q)"
proof -
  show "keeps_type (create_order now inp)"
    by (rule keeps_typeI) (auto simp: create_order_eq Let_def typed_simps split: option.split)
  show "keeps_type (create_maker_quote now q)"
    by (rule keeps_typeI) (auto simp: create_quote_eq Let_def typed_simps split: option.split)
qed

lemma cancel_quote_typed: "keeps_type (db_cancel_maker_quote i)"
  unfolding db_cancel_maker_quote_def keeps_type_def
  by (intro typing_intros read_ops_typed[unfolded keeps_type_def] set_quotes_typed[unfolded keeps_type_def];
      simp add: quote_checks_def)

lemma accrual_typed: "keeps_type (update_maker_quote_accrual i u)"
proof (rule keeps_typeI)
  fix db assume db: "store_typed db"
  show "store_typed (snd (update_maker_quote_accrual i u db))"
  proof (cases "\<exists>t. d_maker_quotes db = Some t \<and> d_has_comp_inv db \<and> (tb_select q_id i t = None \<or> accrual_reals u)")
    case True
    then obtain t where t: "d_maker_quotes db = Some t" "d_has_comp_inv db"
      "tb_select q_id i t = None \<or> accrual_reals u" by blast
    have "quote_checks (accrual u r)" if "quote_checks r" "accrual_reals u" for r
      using that by (auto simp: quote_checks_def accrual_def accrual_reals_def)
    moreover have "accrual_reals u" if "r \<in> set (tb_rows t)" "q_id r = i" for r
      using t(3) that by (auto simp: tb_select_def find_None_iff)
    ultimately have "store_typed (db\<lparr>d_maker_quotes := Some (tb_update (\<lambda>r. q_id r = i) (accrual u) t)\<rparr>)"
      using db t(1) by (auto simp: typed_simps accrual_def intro!: tb_upd_inv)
    moreover have "snd (update_maker_quote_accrual i u db) = db\<lparr>d_maker_quotes := Some (tb_update (\<lambda>r. q_id r = i) (accrual u) t)\<rparr>"
      using t by (auto simp: update_maker_quote_accrual_def set_quotes_def get_maker_quote_def comp_simps deref_def
          ret_def throw_def split: option.split)
    ultimately show ?thesis by simp
  next
    case False
    then have "snd (update_maker_quote_accrual i u db) = db"
      by (cases "d_maker_quotes db") (auto simp: update_maker_quote_accrual_def comp_simps fetch_def)
    then show ?thesis using db by simp
  qed
qed

lemma account_ops_typed:
  "keeps_type (update_cash c)" "keeps_type (db_record_equity now e)" "keeps_type (set_cache now k j)"
proof -
  show "keeps_type (update_cash c)"
    by (rule keeps_typeI) (auto simp: update_cash_def bindc_def fetch_def ensure_def ret_def throw_def modify_def
      typed_simps reals_ok_def pred_option_def split: option.splits)
  show "keeps_type (db_record_equity now e)"
    by (rule keeps_typeI) (auto simp: db_record_equity_def bindc_def fetch_def ensure_def ret_def throw_def modify_def
      typed_simps reals_ok_def list_all_iff tb_insert_def Let_def split: option.splits)
  show "keeps_type (set_cache now k j)"
    by (rule keeps_typeI) (auto simp: set_cache_def bindc_def fetch_def modify_def typed_simps split: option.splits)
qed

lemma trade_op_typed: "keeps_type (insert_trade now ti)"
  by (rule keeps_typeI; auto simp: insert_trade_def bindc_def fetch_def ensure_def ret_def throw_def modify_def Let_def
      tb_insert_def split: option.splits)
     (auto simp: typed_simps dest: keys_insert(1)[where key = tr_id and mk = "trade_row now ti"] simp: tb_insert_def Let_def)

lemma upsert_typed:
  "list_all position_checks ps \<Longrightarrow> c_str (pin_outcome p) \<noteq> [] \<Longrightarrow>
     reals_ok [pin_shares p, pin_avg_entry_price p, pin_total_cost p, pin_realized_pnl p] \<Longrightarrow>
     list_all position_checks (upsert_row p ps)"
  by (auto simp: upsert_row_def Let_def list_all_iff position_checks_def)

lemma position_ops_typed: "keeps_type (upsert_position p)" "keeps_type (resolve_position now c oc x)"
proof -
  show "keeps_type (upsert_position p)"
    by (rule keeps_typeI) (auto simp: upsert_position_def get_position_def bindc_def fetch_def ensure_def ret_def throw_def
      modify_def typed_simps upsert_typed split: option.splits)
  show "keeps_type (resolve_position now c oc x)"
    by (rule keeps_typeI) (auto simp: resolve_position_def get_position_def bindc_def fetch_def ensure_def ret_def throw_def
      modify_def Let_def typed_simps list_all_iff position_checks_def zero_double_def split: option.splits)
qed

lemma create_if_pred: "pred_option P (create_if new t) \<longleftrightarrow> (if t = None then P new else pred_option P t)"
  by (auto simp: create_if_def split: option.split)

lemma migrate_typed:
  assumes "pred_option (tb_ok q_id) t" "pred_option (\<lambda>t. list_all quote_checks (tb_rows t)) t"
    and "\<And>r. q_id (f r) = q_id r" "\<And>r. quote_checks r \<Longrightarrow> quote_checks (f r)"
  shows "pred_option (tb_ok q_id) (map_option (tb_update (\<lambda>_. True) f) t)"
    "pred_option (\<lambda>t. list_all quote_checks (tb_rows t)) (map_option (tb_update (\<lambda>_. True) f) t)"
  using assms by (cases t; auto simp: tb_upd_inv)+

lemma schema_typed: "keeps_type init_schema" "keeps_type init_orders_schema" "keeps_type db_reset"
  "keeps_type (db_init_account now b)"
proof -
  have empty: "tb_ok key empty_table" "tb_rows empty_table = []" for key :: "'r \<Rightarrow> int"
    by (simp_all add: tb_ok_def empty_table_def)
  show schema: "keeps_type init_schema"
    by (rule keeps_typeI) (auto simp: init_schema_def modify_def typed_simps create_if_pred empty)
  show "keeps_type init_orders_schema"
  proof (rule keeps_typeI)
    fix db assume db: "store_typed db"
    let ?qs = "create_if empty_table (d_maker_quotes db)"
    have q: "pred_option (tb_ok q_id) ?qs" "pred_option (\<lambda>t. list_all quote_checks (tb_rows t)) ?qs"
      using db by (auto simp: typed_simps create_if_pred empty)
    have u: "quote_checks (q_complement_token_id_update (\<lambda>_. []) r)" "quote_checks (q_complement_inventory_update (\<lambda>_. 0) r)"
      if "quote_checks r" for r using that by (auto simp: quote_checks_def zero_double_def)
    note m1 = migrate_typed[OF q, of "q_complement_token_id_update (\<lambda>_. [])"]
    note m2 = migrate_typed[of _ "q_complement_inventory_update (\<lambda>_. 0)"]
    show "store_typed (snd (init_orders_schema db))"
      using db q u m1 m2 by (auto simp: init_orders_schema_def modify_def Let_def typed_unfold create_if_pred empty)
  qed
  show "keeps_type db_reset"
    unfolding db_reset_def keeps_type_def
    by (intro typing.sequenced typing.modified schema[unfolded keeps_type_def]) (simp add: typed_simps)
  show "keeps_type (db_init_account now b)"
    unfolding db_init_account_def get_account_row_def clear_rows_def keeps_type_def
    by (rule typing.sequenced, rule typing.pure, rule ensured, intro typing_intros typing.modified)
       (auto simp: typed_simps reals_ok_def pred_option_def option.set_map)
qed

section \<open>Every sequence of calls\<close>

inductive store_call :: "Db \<Rightarrow> Db \<Rightarrow> bool" where
  call_step: "db_step db db' \<Longrightarrow> store_call db db'"
| call_orders_schema: "store_call db (snd (init_orders_schema db))"
| call_reset: "store_call db (snd (db_reset db))"
| call_init_account: "store_call db (snd (db_init_account now balance db))"

lemmas calls_typed = order_updates_typed inserts_typed cancel_quote_typed accrual_typed account_ops_typed trade_op_typed
  position_ops_typed schema_typed

lemma keeps_typeD: "keeps_type m \<Longrightarrow> store_typed db \<Longrightarrow> store_typed (snd (m db))"
  by (simp add: keeps_type_def obeys_def)

lemma call_typed: "store_call db db' \<Longrightarrow> store_typed db \<Longrightarrow> store_typed db'"
  by (induction rule: store_call.induct) (auto elim!: db_stepE intro: calls_typed[THEN keeps_typeD])



end
