(* ===== verification/OrderBook.thy ===== *)
theory OrderBook
  imports Models Sort
begin

text \<open>
  \<open>cpp/src/pmm/orderbook.cpp\<close>: the simulated fills that walk the book, and the reward,
  inventory and spread arithmetic.  Every number is a \<open>double\<close> and every operation rounds as
  the machine does.  The transcendental functions of \<open>libm\<close> are the fields of \<open>libm\<close>, a
  parameter; the sort is the stable insertion sort, one of the orders \<open>std::sort\<close> may give to
  levels of equal price.
\<close>

record libm =
  m_exp :: "double \<Rightarrow> double"
  m_erf :: "double \<Rightarrow> double"
  m_sqrt :: "double \<Rightarrow> double"
  m_log :: "double \<Rightarrow> double"

section \<open>Fees and fills\<close>

definition SINGLE_SIDED_DIVISOR :: double where "SINGLE_SIDED_DIVISOR = lit 3"

definition empty_fill_result :: FillResult where
  "empty_fill_result = \<lparr> fr_filled = False, fr_avg_price = 0, fr_total_cost = 0, fr_total_shares = 0,
     fr_fee = 0, fr_slippage_bps = 0, fr_levels_filled = 0, fr_is_partial = False, fr_fills = [] \<rparr>"

definition max_price_of :: "double \<Rightarrow> OrderBookLevel list \<Rightarrow> double" where
  "max_price_of z lvs = foldl (\<lambda>b lv. cmax b (lv_price lv)) z lvs"

definition min_price_of :: "double \<Rightarrow> OrderBookLevel list \<Rightarrow> double" where
  "min_price_of z lvs = foldl (\<lambda>b lv. cmin b (lv_price lv)) z lvs"

definition midpoint :: "OrderBook \<Rightarrow> double option" where
  "midpoint book =
     (if ob_bids book = [] \<or> ob_asks book = [] then None
      else let best_bid = max_price_of (lv_price (hd (ob_bids book))) (ob_bids book);
               best_ask = min_price_of (lv_price (hd (ob_asks book))) (ob_asks book)
           in Some ((best_bid + best_ask) / lit 2))"

definition calculate_fee :: "int \<Rightarrow> double \<Rightarrow> double \<Rightarrow> double" where
  "calculate_fee fee_rate_bps price sz =
     (if fee_rate_bps = 0 then 0
      else let fee = (of_i fee_rate_bps / lit 10000) * cmin price (1 - price) * sz
           in if 0 < fee then cmax fee (lit (1 / 10000)) else fee)"

definition level_index :: "nat \<Rightarrow> int" where
  "level_index i = int i + 1"

fun buy_loop :: "double option \<Rightarrow> nat \<Rightarrow> double \<Rightarrow> OrderBookLevel list \<Rightarrow> Fill list \<times> double" where
  "buy_loop max_price i remaining [] = ([], remaining)"
| "buy_loop max_price i remaining (lv # lvs) =
     (if remaining \<le> 0 then ([], remaining)
      else if (case max_price of Some m \<Rightarrow> m < lv_price lv | None \<Rightarrow> False) then ([], remaining)
      else let max_cost = lv_size lv * lv_price lv in
        if max_cost \<le> remaining
        then let (fs, r) = buy_loop max_price (Suc i) (remaining - max_cost) lvs
             in (\<lparr> fi_price = lv_price lv, fi_shares = lv_size lv, fi_cost = max_cost, fi_level = level_index i \<rparr> # fs, r)
        else let shares = remaining / lv_price lv
             in ([\<lparr> fi_price = lv_price lv, fi_shares = shares, fi_cost = remaining, fi_level = level_index i \<rparr>], 0))"

fun sell_loop :: "double option \<Rightarrow> nat \<Rightarrow> double \<Rightarrow> OrderBookLevel list \<Rightarrow> Fill list \<times> double" where
  "sell_loop min_price i remaining [] = ([], remaining)"
| "sell_loop min_price i remaining (lv # lvs) =
     (if remaining \<le> 0 then ([], remaining)
      else if (case min_price of Some m \<Rightarrow> lv_price lv < m | None \<Rightarrow> False) then ([], remaining)
      else if lv_size lv \<le> remaining
        then let (fs, r) = sell_loop min_price (Suc i) (remaining - lv_size lv) lvs
             in (\<lparr> fi_price = lv_price lv, fi_shares = lv_size lv, fi_cost = lv_size lv * lv_price lv,
                    fi_level = level_index i \<rparr> # fs, r)
        else ([\<lparr> fi_price = lv_price lv, fi_shares = remaining, fi_cost = remaining * lv_price lv,
                 fi_level = level_index i \<rparr>], 0))"

definition sum_d :: "double list \<Rightarrow> double" where
  "sum_d xs = foldl (+) 0 xs"

definition slippage_of :: "OrderBook \<Rightarrow> double \<Rightarrow> double" where
  "slippage_of book avg_price =
     (case midpoint book of None \<Rightarrow> 0
      | Some mid \<Rightarrow> if 0 < mid then (avg_price - mid) / mid * lit 10000 else 0)"

definition sort_asks :: "OrderBookLevel list \<Rightarrow> OrderBookLevel list" where
  "sort_asks lvs = sort_by (\<lambda>a b. lv_price a < lv_price b) lvs"

definition sort_bids :: "OrderBookLevel list \<Rightarrow> OrderBookLevel list" where
  "sort_bids lvs = sort_by (\<lambda>a b. lv_price b < lv_price a) lvs"

text \<open>The part after the loop; \<open>fee_base\<close> picks the cost or the shares.\<close>

definition finish_fill ::
  "OrderBook \<Rightarrow> int \<Rightarrow> string \<Rightarrow> (double \<Rightarrow> double \<Rightarrow> double) \<Rightarrow> Fill list \<times> double \<Rightarrow> FillResult" where
  "finish_fill book fee_rate_bps order_type fee_base walk =
     (case walk of (fills, remaining) \<Rightarrow>
        if fills = [] then empty_fill_result
        else let total_cost = sum_d (map fi_cost fills);
                 total_shares = sum_d (map fi_shares fills);
                 is_partial = (0 < remaining)
          in if order_type = ''fok'' \<and> is_partial then empty_fill_result
             else let avg_price = (if 0 < total_shares then total_cost / total_shares else 0) in
               \<lparr> fr_filled = (\<not> is_partial), fr_avg_price = avg_price, fr_total_cost = total_cost,
                 fr_total_shares = total_shares,
                 fr_fee = calculate_fee fee_rate_bps avg_price (fee_base total_cost total_shares),
                 fr_slippage_bps = slippage_of book avg_price, fr_levels_filled = int (length fills),
                 fr_is_partial = is_partial, fr_fills = fills \<rparr>)"

definition simulate_buy_fill ::
  "OrderBook \<Rightarrow> double \<Rightarrow> int \<Rightarrow> string \<Rightarrow> double option \<Rightarrow> FillResult" where
  "simulate_buy_fill book amount_usd fee_rate_bps order_type max_price =
     (if ob_asks book = [] then empty_fill_result
      else finish_fill book fee_rate_bps order_type (\<lambda>c s. c)
             (buy_loop max_price 0 amount_usd (sort_asks (ob_asks book))))"

definition simulate_sell_fill ::
  "OrderBook \<Rightarrow> double \<Rightarrow> int \<Rightarrow> string \<Rightarrow> double option \<Rightarrow> FillResult" where
  "simulate_sell_fill book shares fee_rate_bps order_type min_price =
     (if ob_bids book = [] then empty_fill_result
      else finish_fill book fee_rate_bps order_type (\<lambda>c s. s)
             (sell_loop min_price 0 shares (sort_bids (ob_bids book))))"

section \<open>Reward arithmetic\<close>

definition inband_weight :: "double \<Rightarrow> double \<Rightarrow> double" where
  "inband_weight s_cents max_spread_c =
     (if max_spread_c \<le> 0 then 0
      else if s_cents < lit (- 1 / 10 ^ 9) \<or> max_spread_c + lit (1 / 10 ^ 9) < s_cents then 0
      else let w = (max_spread_c - s_cents) / max_spread_c in w * w)"

definition round4 :: "double \<Rightarrow> double" where
  "round4 x = nearbyint (x * lit 10000) / lit 10000"

definition binding_qmin :: "double \<Rightarrow> double \<Rightarrow> double \<Rightarrow> double" where
  "binding_qmin bid_score ask_score mid =
     (let lo = cmin bid_score ask_score in
      if lit (1 / 10) \<le> mid \<and> mid \<le> lit (9 / 10)
      then cmax lo (cmax bid_score ask_score / SINGLE_SIDED_DIVISOR) else lo)"

definition bid_band_score :: "OrderBook \<Rightarrow> double \<Rightarrow> double \<Rightarrow> double" where
  "bid_band_score book mid max_spread_c =
     foldl (\<lambda>a lv. a + lv_size lv * inband_weight ((mid - lv_price lv) * lit 100) max_spread_c) 0 (ob_bids book)"

definition ask_band_score :: "OrderBook \<Rightarrow> double \<Rightarrow> double \<Rightarrow> double" where
  "ask_band_score book mid max_spread_c =
     foldl (\<lambda>a lv. a + lv_size lv * inband_weight ((lv_price lv - mid) * lit 100) max_spread_c) 0 (ob_asks book)"

definition book_inband_qmin :: "OrderBook \<Rightarrow> double \<Rightarrow> double \<Rightarrow> double" where
  "book_inband_qmin book mid max_spread_c =
     binding_qmin (bid_band_score book mid max_spread_c) (ask_band_score book mid max_spread_c) mid"

record BookSignals =
  bs_micro_price :: double
  bs_obi1 :: double
  bs_obi_band :: double
  bs_depth :: double
  bs_valid :: bool

text \<open>The first level of strictly best price among those of positive size.\<close>

definition best_level :: "(double \<Rightarrow> double \<Rightarrow> bool) \<Rightarrow> OrderBookLevel list \<Rightarrow> OrderBookLevel option" where
  "best_level better lvs =
     foldl (\<lambda>b lv. if 0 < lv_size lv \<and> (case b of None \<Rightarrow> True | Some x \<Rightarrow> better (lv_price lv) (lv_price x))
                   then Some lv else b) None lvs"

definition compute_book_signals :: "OrderBook \<Rightarrow> double \<Rightarrow> double \<Rightarrow> BookSignals" where
  "compute_book_signals book mid max_spread_c =
     (let s = \<lparr> bs_micro_price = mid, bs_obi1 = 0, bs_obi_band = 0, bs_depth = 0, bs_valid = False \<rparr> in
      if ob_bids book = [] \<or> ob_asks book = [] then s
      else case (best_level (\<lambda>p q. q < p) (ob_bids book), best_level (\<lambda>p q. p < q) (ob_asks book)) of
        (Some bb, Some ba) \<Rightarrow>
          let b0 = lv_size bb; a0 = lv_size ba;
              micro = (if 0 < a0 + b0 then (lv_price bb * a0 + lv_price ba * b0) / (a0 + b0) else mid);
              obi1 = (if 0 < b0 + a0 then (b0 - a0) / (b0 + a0) else 0);
              bid_score = bid_band_score book mid max_spread_c;
              ask_score = ask_band_score book mid max_spread_c;
              depth = bid_score + ask_score
          in \<lparr> bs_micro_price = micro, bs_obi1 = obi1,
               bs_obi_band = (if 0 < depth then (bid_score - ask_score) / depth else 0),
               bs_depth = depth, bs_valid = True \<rparr>
      | _ \<Rightarrow> s)"

definition mu_hat :: "BookSignals \<Rightarrow> double \<Rightarrow> double \<Rightarrow> double \<Rightarrow> double" where
  "mu_hat sig mid s_cents lam =
     (if \<not> bs_valid sig then 0
      else let mu0 = lam * ((bs_micro_price sig - mid) * lit 100);
               mu1 = (if s_cents < mu0 then s_cents else mu0)
           in if mu1 < - s_cents then - s_cents else mu1)"

definition depth_ahead :: "OrderBook \<Rightarrow> double \<Rightarrow> string \<Rightarrow> double \<times> double" where
  "depth_ahead book price side =
     (let is_bid = (to_lower side = ''bid'' \<or> to_lower side = ''buy'');
          lvs = (if is_bid then ob_bids book else ob_asks book)
      in foldl (\<lambda>(better, at_sz) lv.
           if dabs (lv_price lv - price) \<le> lit (1 / 10 ^ 9) then (better, at_sz + lv_size lv)
           else if (if is_bid then price < lv_price lv else lv_price lv < price) then (better + lv_size lv, at_sz)
           else (better, at_sz)) (0, 0) lvs)"

definition maker_quote_score :: "double \<Rightarrow> double \<Rightarrow> double \<Rightarrow> double" where
  "maker_quote_score sz half_spread_c max_spread_c = sz * inband_weight half_spread_c max_spread_c"

definition maker_reward_share :: "double \<Rightarrow> double \<Rightarrow> double \<Rightarrow> double \<Rightarrow> double" where
  "maker_reward_share sz half_spread_c max_spread_c existing_qmin =
     (let mine = maker_quote_score sz half_spread_c max_spread_c; denom = mine + existing_qmin
      in if 0 < denom then mine / denom else 0)"

definition reward_accrual :: "double \<Rightarrow> double \<Rightarrow> double \<Rightarrow> double" where
  "reward_accrual share daily_rate seconds =
     (if share \<le> 0 \<or> daily_rate \<le> 0 \<or> seconds \<le> 0 then 0
      else share * daily_rate * (seconds / lit 86400))"

definition adverse_bleed :: "double \<Rightarrow> double \<Rightarrow> double \<Rightarrow> double \<Rightarrow> double \<Rightarrow> double" where
  "adverse_bleed sz half_spread_c mid_prev mid_now cancel_efficiency =
     (let off = half_spread_c / lit 100; excess = dabs (mid_now - mid_prev) - off
      in if excess \<le> 0 then 0 else sz * excess * cmax 0 (1 - cancel_efficiency))"

definition skewed_center :: "double \<Rightarrow> double \<Rightarrow> double \<Rightarrow> double \<Rightarrow> double \<Rightarrow> double" where
  "skewed_center mid inventory sz half_spread_c skew_strength =
     (let off = half_spread_c / lit 100
      in if 0 < sz then mid - skew_strength * (inventory / sz) * off else mid)"

definition maker_fill ::
  "double \<Rightarrow> double \<Rightarrow> double \<Rightarrow> double \<Rightarrow> double \<Rightarrow> double \<Rightarrow> double \<Rightarrow> double \<Rightarrow> double \<times> double" where
  "maker_fill mid_prev mid_now inventory sz half_spread_c skew_strength cancel_efficiency max_inventory =
     (let off = half_spread_c / lit 100;
          center = skewed_center mid_prev inventory sz half_spread_c skew_strength;
          bid = center - off; ask = center + off;
          f0 = sz * cmax 0 (1 - cancel_efficiency)
      in if mid_now \<le> bid then let f = cmin f0 (cmax 0 (max_inventory - inventory)) in (f, f * (bid - mid_now))
         else if ask \<le> mid_now then let f = cmin f0 (cmax 0 (max_inventory + inventory)) in (- f, f * (mid_now - ask))
         else (0, 0))"

definition committed_capital :: "double \<Rightarrow> double \<Rightarrow> double" where
  "committed_capital sz half_spread_c =
     (let cap = sz * (1 - lit 2 * (half_spread_c / lit 100)) in if 0 < cap then cap else 0)"

section \<open>Volatility and the optimal half spread\<close>

text \<open>\<open>std::numbers::pi\<close>\<close>

definition pi_d :: double where "pi_d = lit (3141592653589793 / 10 ^ 15)"

definition expected_excess_move :: "libm \<Rightarrow> double \<Rightarrow> double \<Rightarrow> double" where
  "expected_excess_move lm sigma off =
     (if sigma \<le> 0 then 0
      else let a = off / sigma;
               phi = m_exp lm (- lit (1 / 2) * a * a) / m_sqrt lm (lit 2 * pi_d);
               cdf = lit (1 / 2) * (1 + m_erf lm (a / m_sqrt lm (lit 2)))
           in cmax 0 (lit 2 * sigma * phi - lit 2 * off * (1 - cdf)))"

record PricePoint =
  pp_p :: double
  pp_t :: double

fun gaps_of :: "double list \<Rightarrow> double list" where
  "gaps_of (a # b # ts) = (if a < b then [b - a] else []) @ gaps_of (b # ts)"
| "gaps_of _ = []"

fun diffs_of :: "double list \<Rightarrow> double list" where
  "diffs_of (a # b # ps) = ((b - a) * lit 100) # diffs_of (b # ps)"
| "diffs_of _ = []"

definition jump_factor :: "libm \<Rightarrow> double \<Rightarrow> double \<Rightarrow> double \<Rightarrow> double \<Rightarrow> double" where
  "jump_factor lm stdev n max_abs_dev jump_weight =
     (let exp_max = stdev * m_sqrt lm (lit 2 * m_log lm (cmax (lit 2) n));
          anomaly = (if lit (1 / 10 ^ 9) < exp_max then max_abs_dev / exp_max else 1)
      in if 1 < anomaly then 1 + jump_weight * (anomaly - 1) else 1)"

definition realized_sigma_c_from_history :: "libm \<Rightarrow> PricePoint list \<Rightarrow> double \<Rightarrow> double \<Rightarrow> double" where
  "realized_sigma_c_from_history lm history poll_seconds jump_weight =
     (let prices = map pp_p history; ts = map pp_t history in
      if length prices < 2 \<or> poll_seconds \<le> 0 then 0
      else let gaps = sort_by (<) (gaps_of ts) in
        if gaps = [] then 0
        else let step = gaps ! (length gaps div 2);
                 ds = diffs_of prices;
                 n = of_i (int (length ds));
                 mean = sum_d ds / n;
                 (var_sum, max_abs_dev) =
                   foldl (\<lambda>(v, m) d. (v + (d - mean) * (d - mean), cmax m (dabs (d - mean)))) (0, 0) ds;
                 stdev = m_sqrt lm (var_sum / n);
                 stdev_sigma = stdev * m_sqrt lm (poll_seconds / step)
             in if jump_weight \<le> 0 \<or> stdev < lit (1 / 10 ^ 9) then stdev_sigma
                else stdev_sigma * jump_factor lm stdev n max_abs_dev jump_weight)"

record OptimalHalfSpread =
  oh_half_spread_c :: double
  oh_net_per_day :: double
  oh_reward_per_day :: double
  oh_bleed_per_day :: double
  oh_share :: double

definition spread_candidates :: "double \<Rightarrow> double \<Rightarrow> int \<Rightarrow> double list" where
  "spread_candidates lo hi grid =
     (if hi \<le> lo then [lo]
      else let step = (hi - lo) / of_i grid
           in map (\<lambda>i. lo + of_i i * step) [0..grid])"

text \<open>One candidate: its reward, bleed, net and share before rounding.\<close>

definition eval_spread ::
  "libm \<Rightarrow> double \<Rightarrow> double \<Rightarrow> double \<Rightarrow> double \<Rightarrow> double \<Rightarrow> double \<Rightarrow> double \<Rightarrow> double
     \<Rightarrow> double \<times> double \<times> double \<times> double" where
  "eval_spread lm daily_rate max_spread_c min_size existing_qmin sigma_c periods cancel_eff s =
     (let own = maker_quote_score min_size s max_spread_c;
          denom = own + existing_qmin;
          share = (if 0 < denom then own / denom else 0);
          reward = share * daily_rate;
          bleed = cmax 0 (1 - cancel_eff) * min_size * (expected_excess_move lm sigma_c s / lit 100) * periods
      in (reward, bleed, reward - bleed, share))"

definition rounded_spread :: "double \<Rightarrow> double \<times> double \<times> double \<times> double \<Rightarrow> OptimalHalfSpread" where
  "rounded_spread s ev = (case ev of (reward, bleed, net, share) \<Rightarrow>
     \<lparr> oh_half_spread_c = round4 s, oh_net_per_day = round4 net, oh_reward_per_day = round4 reward,
       oh_bleed_per_day = round4 bleed, oh_share = round4 share \<rparr>)"

definition zero_spread :: OptimalHalfSpread where
  "zero_spread = \<lparr> oh_half_spread_c = 0, oh_net_per_day = 0, oh_reward_per_day = 0, oh_bleed_per_day = 0,
                   oh_share = 0 \<rparr>"

definition better_spread ::
  "(double \<Rightarrow> double \<times> double \<times> double \<times> double) \<Rightarrow> OptimalHalfSpread option \<Rightarrow> double \<Rightarrow> OptimalHalfSpread option" where
  "better_spread ev best s =
     (let net = fst (snd (snd (ev s))) in
      case best of None \<Rightarrow> Some (rounded_spread s (ev s))
      | Some b \<Rightarrow> if oh_net_per_day b < net then Some (rounded_spread s (ev s)) else best)"

definition optimal_half_spread ::
  "libm \<Rightarrow> double \<Rightarrow> double \<Rightarrow> double \<Rightarrow> double \<Rightarrow> double \<Rightarrow> double \<Rightarrow> double \<Rightarrow> double \<Rightarrow> int
     \<Rightarrow> OptimalHalfSpread" where
  "optimal_half_spread lm daily_rate max_spread_c min_size tick_c existing_qmin sigma_c periods_per_day
     cancel_efficiency grid0 =
     (let grid = (if grid0 < 1 then 1 else grid0);
          ev = eval_spread lm daily_rate max_spread_c min_size existing_qmin sigma_c periods_per_day cancel_efficiency
      in case foldl (better_spread ev) None (spread_candidates tick_c max_spread_c grid) of
           Some b \<Rightarrow> b | None \<Rightarrow> zero_spread)"

section \<open>The walk through the book\<close>

interpretation asks: comparator "\<lambda>a b. lv_price a < lv_price b" "\<lambda>a. lv_price a \<noteq> NaN"
  by (rule asc_key)

interpretation bids: comparator "\<lambda>a b. lv_price b < lv_price a" "\<lambda>a. lv_price a \<noteq> NaN"
  by (rule desc_key)

text \<open>Representable levels with a positive price and a size that is not negative.\<close>

definition level_ok :: "OrderBookLevel \<Rightarrow> bool" where
  "level_ok lv \<longleftrightarrow> isD (lv_price lv) \<and> finite_d (lv_price lv) \<and> 0 < lv_price lv \<and>
     isD (lv_size lv) \<and> finite_d (lv_size lv) \<and> 0 \<le> lv_size lv"

definition fill_of :: "Fill \<Rightarrow> OrderBookLevel \<Rightarrow> bool" where
  "fill_of f lv \<longleftrightarrow> fi_price f = lv_price lv \<and> 0 \<le> fi_shares f \<and> fi_shares f \<le> lv_size lv"

definition past :: "double option \<Rightarrow> (double \<Rightarrow> double \<Rightarrow> bool) \<Rightarrow> double \<Rightarrow> bool" where
  "past bnd worse p \<longleftrightarrow> (case bnd of Some m \<Rightarrow> worse m p | None \<Rightarrow> False)"

text \<open>What a walk over \<open>lvs\<close> from index \<open>i\<close> returns: a prefix of the levels, within the limit,
  and a rest only when the next level is missing or over the limit.\<close>

definition walk_ok :: "double option \<Rightarrow> (double \<Rightarrow> double \<Rightarrow> bool) \<Rightarrow> nat \<Rightarrow> OrderBookLevel list
    \<Rightarrow> Fill list \<times> double \<Rightarrow> bool" where
  "walk_ok bnd worse i lvs x \<longleftrightarrow>
     list_all2 fill_of (fst x) (take (length (fst x)) lvs) \<and>
     map fi_level (fst x) = map level_index [i..<i + length (fst x)] \<and>
     list_all (\<lambda>f. \<not> past bnd worse (fi_price f)) (fst x) \<and>
     (0 < snd x \<longrightarrow> length (fst x) = length lvs \<or> past bnd worse (lv_price (lvs ! length (fst x))))"

lemma walk_Nil: "walk_ok bnd worse i lvs ([], r)" if "\<not> 0 < r \<or> lvs = [] \<or> past bnd worse (lv_price (lvs ! 0))"
  using that by (auto simp: walk_ok_def)

lemma walk_Cons:
  "\<lbrakk>walk_ok bnd worse (Suc i) lvs (fs, r); fill_of f lv; \<not> past bnd worse (lv_price lv); fi_level f = level_index i\<rbrakk>
     \<Longrightarrow> walk_ok bnd worse i (lv # lvs) (f # fs, r)"
  by (auto simp: walk_ok_def fill_of_def upt_conv_Cons simp del: upt_Suc)

lemma walk_last:
  "\<lbrakk>fill_of f lv; \<not> past bnd worse (lv_price lv); fi_level f = level_index i\<rbrakk>
     \<Longrightarrow> walk_ok bnd worse i (lv # lvs) ([f], 0)"
  by (auto simp: walk_ok_def fill_of_def)

lemma finite_ge0: "0 \<le> x \<Longrightarrow> x \<le> y \<Longrightarrow> finite_d y \<Longrightarrow> finite_d (x::double)"
  by (cases x; cases y) (auto simp: zero_double_def)

lemma part_shares:
  assumes "level_ok lv" "isD r" "finite_d r" "0 < r" "\<not> lv_size lv * lv_price lv \<le> r"
  shows "0 \<le> r / lv_price lv \<and> r / lv_price lv \<le> lv_size lv"
proof -
  obtain p s q where v: "lv_price lv = Fin p" "lv_size lv = Fin s" "r = Fin q"
    using assms(1,3) by (cases "lv_price lv"; cases "lv_size lv"; cases r) (auto simp: level_ok_def)
  have p: "0 < p" and q: "0 < q" and s: "isD (Fin s)"
    using assms v by (auto simp: zero_double_def level_ok_def)
  have "q \<le> s * p"
  proof (rule ccontr)
    assume "\<not> q \<le> s * p"
    then have "fl (s * p) \<le> Fin q" using assms(2) v by (intro fl_le) auto
    then show False using assms(5) v by (simp add: times_double_def)
  qed
  then have "q / p \<le> s" using p by (simp add: divide_le_eq)
  then show ?thesis using p q s v fl_ge[of 0 "q / p"] fl_le[OF s, of "q / p"]
    by (simp add: divide_double_def zero_double_def)
qed

lemma rest_ok:
  assumes "isD r" "finite_d r" "0 \<le> c" "c \<le> r" "isD c"
  shows "isD (r - c) \<and> finite_d (r - c)"
proof -
  have "0 \<le> r - c" "r - c \<le> r"
    using assms sub_nonneg_d[of c r] sub_le_d[of r c] finite_ge0[of c r] by auto
  then show ?thesis using assms finite_ge0 by auto
qed

lemma cost_nonneg: "level_ok lv \<Longrightarrow> 0 \<le> lv_size lv * lv_price lv"
  by (auto simp: level_ok_def intro: mult_nonneg_d less_le_d)

lemma buy_loop_Cons:
  "buy_loop bnd i r (lv # lvs) =
     (if r \<le> 0 \<or> past bnd (<) (lv_price lv) then ([], r)
      else let c = lv_size lv * lv_price lv in
        if c \<le> r
        then let (fs, r') = buy_loop bnd (Suc i) (r - c) lvs
             in (\<lparr> fi_price = lv_price lv, fi_shares = lv_size lv, fi_cost = c, fi_level = level_index i \<rparr> # fs, r')
        else ([\<lparr> fi_price = lv_price lv, fi_shares = r / lv_price lv, fi_cost = r, fi_level = level_index i \<rparr>], 0))"
  by (simp add: past_def Let_def)

declare buy_loop.simps(2) [simp del]

lemma not_pos_d: "r \<le> 0 \<Longrightarrow> \<not> (0::double) < r"
  by (simp add: less_double_def)

lemma buy_loop_ok:
  "\<lbrakk>list_all level_ok lvs; isD r; finite_d r\<rbrakk> \<Longrightarrow> walk_ok bnd (<) i lvs (buy_loop bnd i r lvs)"
proof (induction lvs arbitrary: i r)
  case Nil
  then show ?case by (simp add: walk_Nil)
next
  case (Cons lv lvs)
  have lv: "level_ok lv" and lvs: "list_all level_ok lvs" using Cons.prems by simp_all
  let ?c = "lv_size lv * lv_price lv"
  consider (stop) "r \<le> 0 \<or> past bnd (<) (lv_price lv)"
    | (full) "\<not> r \<le> 0" "\<not> past bnd (<) (lv_price lv)" "?c \<le> r"
    | (part) "\<not> r \<le> 0" "\<not> past bnd (<) (lv_price lv)" "\<not> ?c \<le> r" by blast
  then show ?case
  proof cases
    case stop
    then show ?thesis by (auto simp: buy_loop_Cons dest: not_pos_d intro!: walk_Nil)
  next
    case full
    obtain fs r' where step: "buy_loop bnd (Suc i) (r - ?c) lvs = (fs, r')" by fastforce
    have "walk_ok bnd (<) (Suc i) lvs (fs, r')"
      using Cons.IH[OF lvs, of "r - ?c" "Suc i"] rest_ok[OF Cons.prems(2,3) cost_nonneg[OF lv] full(3)] step
      by simp
    moreover have "fill_of \<lparr> fi_price = lv_price lv, fi_shares = lv_size lv, fi_cost = ?c,
        fi_level = level_index i \<rparr> lv" using lv by (auto simp: fill_of_def level_ok_def dest: le_not_nan)
    ultimately show ?thesis using full step by (simp add: buy_loop_Cons Let_def walk_Cons)
  next
    case part
    then have "0 < r" using Cons.prems(3) by (cases r) (auto simp: zero_double_def)
    from part_shares[OF lv Cons.prems(2,3) this part(3)]
    show ?thesis using part by (simp add: buy_loop_Cons Let_def walk_last fill_of_def)
  qed
qed

lemma sell_loop_Cons:
  "sell_loop bnd i r (lv # lvs) =
     (if r \<le> 0 \<or> past bnd (\<lambda>m p. p < m) (lv_price lv) then ([], r)
      else if lv_size lv \<le> r
        then let (fs, r') = sell_loop bnd (Suc i) (r - lv_size lv) lvs
             in (\<lparr> fi_price = lv_price lv, fi_shares = lv_size lv, fi_cost = lv_size lv * lv_price lv,
                    fi_level = level_index i \<rparr> # fs, r')
        else ([\<lparr> fi_price = lv_price lv, fi_shares = r, fi_cost = r * lv_price lv, fi_level = level_index i \<rparr>], 0))"
  by (simp add: past_def Let_def)

declare sell_loop.simps(2) [simp del]

lemma sell_loop_ok:
  "\<lbrakk>list_all level_ok lvs; isD r; finite_d r\<rbrakk> \<Longrightarrow> walk_ok bnd (\<lambda>m p. p < m) i lvs (sell_loop bnd i r lvs)"
proof (induction lvs arbitrary: i r)
  case Nil
  then show ?case by (simp add: walk_Nil)
next
  case (Cons lv lvs)
  have lv: "level_ok lv" and lvs: "list_all level_ok lvs" using Cons.prems by simp_all
  let ?c = "lv_size lv"
  have c: "0 \<le> ?c" "isD ?c" "finite_d ?c" using lv by (simp_all add: level_ok_def)
  consider (stop) "r \<le> 0 \<or> past bnd (\<lambda>m p. p < m) (lv_price lv)"
    | (full) "\<not> r \<le> 0" "\<not> past bnd (\<lambda>m p. p < m) (lv_price lv)" "?c \<le> r"
    | (part) "\<not> r \<le> 0" "\<not> past bnd (\<lambda>m p. p < m) (lv_price lv)" "\<not> ?c \<le> r" by blast
  then show ?case
  proof cases
    case stop
    then show ?thesis by (auto simp: sell_loop_Cons dest: not_pos_d intro!: walk_Nil)
  next
    case full
    obtain fs r' where step: "sell_loop bnd (Suc i) (r - ?c) lvs = (fs, r')" by fastforce
    have "walk_ok bnd (\<lambda>m p. p < m) (Suc i) lvs (fs, r')"
      using Cons.IH[OF lvs, of "r - ?c" "Suc i"] rest_ok[OF Cons.prems(2,3) c(1) full(3) c(2)] step by simp
    moreover have "fill_of \<lparr> fi_price = lv_price lv, fi_shares = ?c, fi_cost = ?c * lv_price lv,
        fi_level = level_index i \<rparr> lv" using c by (auto simp: fill_of_def dest: le_not_nan)
    ultimately show ?thesis using full step by (simp add: sell_loop_Cons Let_def walk_Cons)
  next
    case part
    then have r: "0 \<le> r" "r \<le> ?c"
      using Cons.prems(3) c by (cases r; cases "lv_size lv"; auto simp: zero_double_def)+
    show ?thesis using part r by (simp add: sell_loop_Cons Let_def walk_last fill_of_def)
  qed
qed

text \<open>
  What a simulated fill promises over the sorted levels \<open>lvs\<close>: the fills are the first levels,
  in order, each at its level's price for at most its level's size and within the limit price;
  a fill-or-kill order is never partial; and a partial result means the levels, or those within
  the limit, are exhausted.
\<close>

definition best_first ::
  "double option \<Rightarrow> (double \<Rightarrow> double \<Rightarrow> bool) \<Rightarrow> OrderBookLevel list \<Rightarrow> string \<Rightarrow> FillResult \<Rightarrow> bool" where
  "best_first bnd worse lvs order_type r \<longleftrightarrow>
     (let fs = fr_fills r in
      list_all2 fill_of fs (take (length fs) lvs) \<and>
      list_all (\<lambda>f. \<not> past bnd worse (fi_price f)) fs \<and>
      fr_levels_filled r = int (length fs) \<and>
      (fr_filled r \<longleftrightarrow> fs \<noteq> [] \<and> \<not> fr_is_partial r) \<and>
      (order_type = ''fok'' \<longrightarrow> \<not> fr_is_partial r) \<and>
      (fr_is_partial r \<longrightarrow> length fs = length lvs \<or> past bnd worse (lv_price (lvs ! length fs))))"

lemma best_first_empty: "best_first bnd worse lvs ot empty_fill_result"
  by (simp add: best_first_def empty_fill_result_def)

lemma finish_fill_ok:
  assumes "walk_ok bnd worse 0 lvs w"
  shows "best_first bnd worse lvs ot (finish_fill book bps ot fb w)"
proof (cases "fst w = [] \<or> ot = ''fok'' \<and> 0 < snd w")
  case True
  then have "finish_fill book bps ot fb w = empty_fill_result"
    by (auto simp: finish_fill_def Let_def split: prod.split)
  then show ?thesis by (simp add: best_first_empty)
next
  case False
  then show ?thesis using assms
    by (auto simp: finish_fill_def Let_def best_first_def walk_ok_def split: prod.split)
qed

lemma sorted_levels_ok:
  "list_all level_ok lvs \<Longrightarrow> list_all level_ok (sort_asks lvs) \<and> list_all level_ok (sort_bids lvs)"
  by (simp add: list_all_iff sort_asks_def sort_bids_def)

lemma levels_not_nan: "list_all level_ok lvs \<Longrightarrow> list_all (\<lambda>lv. lv_price lv \<noteq> NaN) lvs"
  by (auto simp: list_all_iff level_ok_def)

lemma sort_asks_order: "list_all level_ok lvs \<Longrightarrow> sorted_wrt (\<lambda>a b. lv_price a \<le> lv_price b) (sort_asks lvs)"
  and sort_bids_order: "list_all level_ok lvs \<Longrightarrow> sorted_wrt (\<lambda>a b. lv_price b \<le> lv_price a) (sort_bids lvs)"
  using asks.in_order_sort[of lvs] bids.in_order_sort[of lvs] levels_not_nan[of lvs]
    levels_not_nan[of "sort_asks lvs"] levels_not_nan[of "sort_bids lvs"] sorted_levels_ok[of lvs]
  unfolding asks.in_order_def bids.in_order_def sort_asks_def sort_bids_def
  by (auto elim!: sorted_wrt_mono_rel[rotated] simp: not_less_d list_all_iff)

text \<open>
  A simulated market buy takes the asks best price first, never above the limit price, never
  more than a level offers (exactly, in floating point, for the partly taken last level too); it
  fills completely or, for a fill-or-kill order, not at all.
\<close>

theorem simulate_buy_fill_best_first:
  assumes "list_all level_ok (ob_asks book)" "isD amount" "finite_d amount"
  shows "best_first max_price (<) (sort_asks (ob_asks book)) order_type
           (simulate_buy_fill book amount fee_rate_bps order_type max_price) \<and>
         sorted_wrt (\<lambda>a b. lv_price a \<le> lv_price b) (sort_asks (ob_asks book)) \<and>
         mset (sort_asks (ob_asks book)) = mset (ob_asks book)"
  using assms buy_loop_ok[OF conjunct1[OF sorted_levels_ok]] sort_asks_order
  by (auto simp: simulate_buy_fill_def finish_fill_ok best_first_empty sort_asks_def)

text \<open>
  A simulated market sell takes the bids best price first, never below the limit price and
  never more than a level offers; it fills completely or, for a fill-or-kill order, not at all.
\<close>

theorem simulate_sell_fill_best_first:
  assumes "list_all level_ok (ob_bids book)" "isD shares" "finite_d shares"
  shows "best_first min_price (\<lambda>m p. p < m) (sort_bids (ob_bids book)) order_type
           (simulate_sell_fill book shares fee_rate_bps order_type min_price) \<and>
         sorted_wrt (\<lambda>a b. lv_price b \<le> lv_price a) (sort_bids (ob_bids book)) \<and>
         mset (sort_bids (ob_bids book)) = mset (ob_bids book)"
  using assms sell_loop_ok[OF conjunct2[OF sorted_levels_ok]] sort_bids_order
  by (auto simp: simulate_sell_fill_def finish_fill_ok best_first_empty sort_bids_def)

definition lvl :: "rat \<Rightarrow> rat \<Rightarrow> OrderBookLevel" where
  "lvl p s = \<lparr> lv_price = lit p, lv_size = lit s \<rparr>"

definition sample_book :: OrderBook where
  "sample_book = \<lparr> ob_bids = [lvl (1/4) 10, lvl (3/8) 4], ob_asks = [lvl (3/4) 10, lvl (1/2) 10, lvl (5/8) 100] \<rparr>"

lemma sample_asks_ok: "list_all level_ok (ob_asks sample_book)"
  and sample_bids_ok: "list_all level_ok (ob_bids sample_book)"
  by code_simp+

theorem simulate_buy_fill_best_first_witness:
  "fr_is_partial (simulate_buy_fill sample_book (lit 70) 0 ''fok'' (Some (lit (5/8)))) = False"
proof -
  have "isD (lit 70)" "finite_d (lit 70)" by code_simp+
  from simulate_buy_fill_best_first[OF sample_asks_ok this, of "Some (lit (5/8))" "''fok''" 0]
  show ?thesis by (simp add: best_first_def Let_def)
qed

theorem simulate_sell_fill_best_first_witness:
  "fr_is_partial (simulate_sell_fill sample_book (lit 70) 0 ''fok'' None) = False"
proof -
  have "isD (lit 70)" "finite_d (lit 70)" by code_simp+
  from simulate_sell_fill_best_first[OF sample_bids_ok this, of None "''fok''" 0]
  show ?thesis by (simp add: best_first_def Let_def)
qed

section \<open>Shares and inventory\<close>

lemma lit_numerals [simp]: "lit 10000 = Fin 10000" "lit 100 = Fin 100" "lit 2 = Fin 2" "lit 3 = Fin 3"
  by (simp_all add: lit_def fl_def Let_def rnd_numeral)

lemma unit_d: "0 \<le> x \<Longrightarrow> x \<le> 1 \<Longrightarrow> finite_d (x::double)"
  by (cases x) (auto simp: zero_double_def one_double_def)

lemma inband_unit:
  assumes "finite_d m" "isD s" "isD m" "0 \<le> s" "s \<le> m"
  shows "0 \<le> inband_weight s m \<and> inband_weight s m \<le> 1"
proof (cases "m \<le> 0 \<or> s < lit (- 1 / 10 ^ 9) \<or> m + lit (1 / 10 ^ 9) < s")
  case True
  then show ?thesis by (auto simp: inband_weight_def zero_double_def one_double_def)
next
  case False
  define w where "w = (m - s) / m"
  have m: "0 < m" using False assms(1) by (cases m) (auto simp: zero_double_def)
  have fs: "finite_d s" using assms(1,4,5) finite_ge0 by blast
  have d: "0 \<le> m - s" "m - s \<le> m" using sub_nonneg_d[OF assms(5) fs] sub_le_d[OF assms(3,1,4)] by auto
  have fd: "finite_d (m - s)" using d assms(1) finite_ge0 by blast
  have w: "0 \<le> w" "w \<le> 1" unfolding w_def using div_nonneg_d[OF d(1) m fd] div_le_one_d[OF d m fd] by auto
  have "w * w \<le> w" using w unit_d mult_le_d[of w w] by (simp add: w_def)
  then have "w * w \<le> 1" using w(2) le_trans_d by blast
  moreover have "0 \<le> w * w" using w unit_d mult_nonneg_d by blast
  ultimately show ?thesis using False by (simp add: inband_weight_def w_def Let_def)
qed

text \<open>
  The estimated share of a reward pool is a fraction: with a quote inside the band, sizes and
  competing score not negative, \<open>maker_reward_share\<close> lies in [0, 1] after all rounding.
\<close>

theorem maker_reward_share_unit:
  assumes "isD sz" "finite_d sz" "0 \<le> sz" "isD s" "isD m" "finite_d m" "0 \<le> s" "s \<le> m"
    and "isD e" "finite_d e" "0 \<le> e"
  shows "0 \<le> maker_reward_share sz s m e \<and> maker_reward_share sz s m e \<le> 1"
proof -
  define mine where "mine = maker_quote_score sz s m"
  have w: "0 \<le> inband_weight s m" "inband_weight s m \<le> 1" using inband_unit assms by auto
  have mine: "0 \<le> mine" "mine \<le> sz" "finite_d mine" "isD mine"
    unfolding mine_def maker_quote_score_def using w assms unit_d mult_nonneg_d[of sz] mult_le_d[of sz]
      finite_ge0[of _ sz] by auto
  have le: "mine \<le> mine + e" using mine assms(11) by (intro add_ge_d) auto
  show ?thesis
  proof (cases "0 < mine + e")
    case True
    then show ?thesis using mine le div_nonneg_d div_le_one_d
      by (simp add: maker_reward_share_def Let_def flip: mine_def)
  next
    case False
    then show ?thesis by (simp add: maker_reward_share_def Let_def zero_double_def one_double_def flip: mine_def)
  qed
qed

theorem maker_reward_share_unit_witness:
  "maker_reward_share (lit 200) (lit (3/2)) (lit 3) (lit (1234/10)) \<le> 1"
proof -
  have "isD (lit 200)" "finite_d (lit 200)" "0 \<le> lit 200" "isD (lit (3/2))" "isD (lit 3)" "finite_d (lit 3)"
    "0 \<le> lit (3/2)" "lit (3/2) \<le> lit 3" "isD (lit (1234/10))" "finite_d (lit (1234/10))" "0 \<le> lit (1234/10)"
    by code_simp+
  from maker_reward_share_unit[OF this] show ?thesis by simp
qed

lemma neg_neg_d [simp]: "- (- x) = (x::double)"
  by (cases x) auto

lemma neg_pos_d: "- x < 0 \<longleftrightarrow> 0 < (x::double)" "\<not> (0 < - x \<and> 0 < (x::double))"
  by (cases x; auto simp: zero_double_def less_double_def)+

lemma fill_room:
  "0 \<le> f0 \<Longrightarrow> 0 < cmin f0 (cmax 0 r) \<Longrightarrow> cmin f0 (cmax 0 r) \<le> r \<and> cmin f0 (cmax 0 r) \<le> f0"
  "0 \<le> f0 \<Longrightarrow> \<not> cmin f0 (cmax 0 r) < (0::double)"
  by (cases f0; cases r; auto simp: cmin_def cmax_def zero_double_def less_double_def split: if_splits)+

lemma cmax_unit: "x \<le> 1 \<Longrightarrow> 0 \<le> cmax 0 x \<and> cmax 0 x \<le> (1::double)"
  by (cases x) (auto simp: cmax_def zero_double_def one_double_def less_double_def)

text \<open>
  A simulated maker fill never trades past the inventory cap: a buy of \<open>d\<close> shares satisfies
  \<open>d \<le> max_inventory - inventory\<close> and a sell of \<open>d\<close> shares \<open>d \<le> max_inventory + inventory\<close>, both
  at most the quoted size; with the cap reached nothing more is traded on that side.
\<close>

theorem maker_fill_capped:
  assumes "isD sz" "finite_d sz" "0 \<le> sz" "isD ce" "finite_d ce" "0 \<le> ce"
    and "maker_fill mid_prev mid_now inventory sz s skew ce max_inventory = (d, loss)"
  shows "(0 < d \<longrightarrow> d \<le> max_inventory - inventory \<and> d \<le> sz) \<and>
         (d < 0 \<longrightarrow> - d \<le> max_inventory + inventory \<and> - d \<le> sz)"
proof -
  define w where "w = cmax 0 (1 - ce)"
  have one: "isD (1::double)" "finite_d (1::double)" by (simp_all add: one_double_def)
  have w: "0 \<le> w" "w \<le> 1"
    unfolding w_def using cmax_unit[OF sub_le_d[OF one assms(6)]] by blast+
  have f0: "0 \<le> sz * w" "sz * w \<le> sz"
    by (rule mult_nonneg_d[OF assms(3) w(1) assms(2) unit_d[OF w]],
        rule mult_le_d[OF assms(1-3) w])
  have le_sz: "x \<le> sz * w \<Longrightarrow> x \<le> sz" for x using f0(2) le_trans_d by blast
  have up: "0 < cmin (sz * w) (cmax 0 r) \<Longrightarrow> cmin (sz * w) (cmax 0 r) \<le> r \<and> cmin (sz * w) (cmax 0 r) \<le> sz"
    and dn: "\<not> cmin (sz * w) (cmax 0 r) < 0" for r
    using fill_room[OF f0(1), of r] le_sz by blast+
  consider "d = cmin (sz * w) (cmax 0 (max_inventory - inventory))"
    | "d = - cmin (sz * w) (cmax 0 (max_inventory + inventory))" | "d = 0"
    using assms(7) unfolding maker_fill_def Let_def w_def[symmetric] by (metis fst_conv)
  then show ?thesis
  proof cases
    case 1
    then show ?thesis using up dn by blast
  next
    case 2
    then show ?thesis using up dn neg_pos_d by (metis neg_neg_d)
  qed simp
qed

theorem maker_fill_capped_witness:
  "fst (maker_fill (lit (1/2)) (lit (1/4)) (lit 90) (lit 50) (lit 2) 0 0 (lit 100)) \<le> lit 100 - lit 90"
proof -
  have h: "isD (lit 50)" "finite_d (lit 50)" "0 \<le> lit 50" "isD (0::double)" "finite_d (0::double)" "(0::double) \<le> 0"
    by code_simp+
  obtain d l where e: "maker_fill (lit (1/2)) (lit (1/4)) (lit 90) (lit 50) (lit 2) 0 0 (lit 100) = (d, l)" by fastforce
  have "0 < fst (maker_fill (lit (1/2)) (lit (1/4)) (lit 90) (lit 50) (lit 2) 0 0 (lit 100))" by code_simp
  then show ?thesis using maker_fill_capped[OF h e] e by simp
qed

section \<open>The optimal half spread\<close>

lemma round4_mono: "x \<le> y \<Longrightarrow> round4 x \<le> round4 y"
  by (simp add: round4_def div_mono_c nearbyint_mono mult_mono_c)

definition per_day_range :: "double \<Rightarrow> bool" where
  "per_day_range x \<longleftrightarrow> dabs x \<le> Fin (10 ^ 9)"

lemma round4_idem:
  assumes "per_day_range x"
  shows "round4 (round4 x) = round4 x"
proof -
  obtain q where q: "x = Fin q" "\<bar>q\<bar> \<le> 10 ^ 9" using assms by (cases x) (auto simp: per_day_range_def)
  define k where "k = rne (rnd (q * 10000))"
  have z: "q * 10000 \<le> of_int (10 ^ 13)" "of_int (- (10 ^ 13)) \<le> q * 10000"
    using q(2) by (auto simp: abs_le_iff)
  have g: "rnd (of_int (10 ^ 13)) = of_int (10 ^ 13)" "rnd (of_int (- (10 ^ 13))) = of_int (- (10 ^ 13))"
    by (rule rnd_of_int, simp)+
  have "rnd (q * 10000) \<le> of_int (10 ^ 13)" "of_int (- (10 ^ 13)) \<le> rnd (q * 10000)"
    using rnd_mono[OF z(1)] rnd_mono[OF z(2)] unfolding g by auto
  then have "k \<le> 10 ^ 13" "- (10 ^ 13) \<le> k"
    unfolding k_def using rne_mono[of "rnd (q * 10000)"] rne_mono[of _ "rnd (q * 10000)"] rne_of_int by metis+
  then have k: "\<bar>k\<bar> \<le> 2 ^ 44" by simp
  have "fl (q * 10000) = Fin (rnd (q * 10000))" using q(2) by (intro fl_small) (simp add: abs_mult)
  then have r: "round4 x = fl (of_int k / of_int 10000)"
    by (simp add: round4_def q times_double_def nearbyint_def divide_double_def flip: k_def)
  have "nearbyint (round4 x * Fin (of_int 10000)) = Fin (of_int k)"
    unfolding r by (rule nearbyint_grid[OF k]) simp_all
  then show ?thesis by (simp add: round4_def[of "round4 x"]) (simp add: r divide_double_def)
qed

definition net_of :: "(double \<Rightarrow> double \<times> double \<times> double \<times> double) \<Rightarrow> double \<Rightarrow> double" where
  "net_of ev s = fst (snd (snd (ev s)))"

text \<open>The search over a list of candidates keeps a candidate that no earlier one beats.\<close>

definition best_of :: "(double \<Rightarrow> double \<times> double \<times> double \<times> double) \<Rightarrow> double list \<Rightarrow> OptimalHalfSpread \<Rightarrow> bool" where
  "best_of ev cs b \<longleftrightarrow> (\<exists>s \<in> set cs. b = rounded_spread s (ev s)) \<and>
     (\<forall>t \<in> set cs. round4 (net_of ev t) \<le> oh_net_per_day b)"

lemma net_rounded: "oh_net_per_day (rounded_spread s (ev s)) = round4 (net_of ev s)"
  by (simp add: rounded_spread_def net_of_def split: prod.split)

lemma best_of_step:
  assumes "best_of ev cs b" "list_all (\<lambda>s. per_day_range (net_of ev s)) (s # cs)"
  shows "\<exists>b'. better_spread ev (Some b) s = Some b' \<and> best_of ev (cs @ [s]) b'"
proof -
  obtain r where r: "r \<in> set cs" "b = rounded_spread r (ev r)" using assms(1) by (auto simp: best_of_def)
  have idem: "round4 (oh_net_per_day b) = oh_net_per_day b"
    using assms(2) r by (simp add: net_rounded round4_idem list_all_iff)
  have nn: "net_of ev s \<noteq> NaN" using assms(2) by (cases "net_of ev s") (auto simp: per_day_range_def)
  have nb: "oh_net_per_day b \<noteq> NaN" using assms(1) r(1) by (auto simp: best_of_def dest: le_not_nan)
  show ?thesis
  proof (cases "oh_net_per_day b < net_of ev s")
    case True
    have up: "oh_net_per_day b \<le> round4 (net_of ev s)"
      using round4_mono[OF less_le_d[OF True]] idem by simp
    then have "round4 (net_of ev s) \<le> round4 (net_of ev s)" by (auto dest: le_not_nan)
    moreover have "round4 (net_of ev t) \<le> round4 (net_of ev s)" if "t \<in> set cs" for t
      using assms(1) that up le_trans_d unfolding best_of_def by blast
    ultimately show ?thesis using True
      by (auto simp: better_spread_def Let_def best_of_def net_rounded simp flip: net_of_def)
  next
    case False
    then have "net_of ev s \<le> oh_net_per_day b" using nn nb not_less_d by blast
    then have "round4 (net_of ev s) \<le> oh_net_per_day b" using round4_mono idem by metis
    then show ?thesis using False assms(1)
      by (auto simp: better_spread_def Let_def best_of_def simp flip: net_of_def)
  qed
qed

lemma best_of_fold:
  assumes "list_all (\<lambda>s. per_day_range (net_of ev s)) cs" "cs \<noteq> []"
  shows "\<exists>b. foldl (better_spread ev) None cs = Some b \<and> best_of ev cs b"
  using assms
proof (induction cs rule: rev_induct)
  case (snoc s cs)
  show ?case
  proof (cases "cs = []")
    case True
    have "net_of ev s \<le> net_of ev s" using snoc.prems by (auto simp: per_day_range_def)
    from round4_mono[OF this] show ?thesis
      by (simp add: True better_spread_def best_of_def net_rounded)
  next
    case False
    then obtain b where "foldl (better_spread ev) None cs = Some b" "best_of ev cs b" using snoc by auto
    then show ?thesis using best_of_step[of ev cs b s] snoc.prems by auto
  qed
qed simp

text \<open>
  C40: the grid search returns the rounded evaluation of one of its candidates, and no candidate
  of the grid has a better rounded net income per day (for incomes up to a billion a day).
\<close>

theorem optimal_half_spread_best:
  fixes lm :: libm and rate m sz tick qm sigma periods ce :: double and grid :: int
  defines "ev \<equiv> eval_spread lm rate m sz qm sigma periods ce"
    and "cs \<equiv> spread_candidates tick m (if grid < 1 then 1 else grid)"
  assumes "list_all (\<lambda>s. per_day_range (net_of ev s)) cs"
  shows "best_of ev cs (optimal_half_spread lm rate m sz tick qm sigma periods ce grid)"
proof -
  have "cs \<noteq> []" by (simp add: cs_def spread_candidates_def Let_def)
  from best_of_fold[OF assms(3) this] show ?thesis
    by (auto simp: optimal_half_spread_def Let_def ev_def cs_def)
qed

definition demo_libm :: libm where
  "demo_libm = \<lparr> m_exp = (\<lambda>_. lit (1/2)), m_erf = (\<lambda>_. lit (1/2)), m_sqrt = (\<lambda>_. 1), m_log = (\<lambda>_. 1) \<rparr>"

theorem optimal_half_spread_best_witness:
  "round4 (net_of (eval_spread demo_libm (lit 100) (lit 2) (lit 4) (lit 3) 0 (lit 10) 0) (lit 2))
     \<le> oh_net_per_day (optimal_half_spread demo_libm (lit 100) (lit 2) (lit 4) 1 (lit 3) 0 (lit 10) 0 1)"
proof -
  let ?ev = "eval_spread demo_libm (lit 100) (lit 2) (lit 4) (lit 3) 0 (lit 10) 0"
  have c: "spread_candidates 1 (lit 2) 1 = [1, lit 2]" by code_simp
  have "per_day_range (net_of ?ev 1)" "per_day_range (net_of ?ev (lit 2))" by code_simp+
  then have "list_all (\<lambda>s. per_day_range (net_of ?ev s)) (spread_candidates 1 (lit 2) 1)" unfolding c by simp
  then have "best_of ?ev (spread_candidates 1 (lit 2) (if (1::int) < 1 then 1 else 1))
     (optimal_half_spread demo_libm (lit 100) (lit 2) (lit 4) 1 (lit 3) 0 (lit 10) 0 1)"
    by (intro optimal_half_spread_best) simp
  then have "best_of ?ev [1, lit 2] (optimal_half_spread demo_libm (lit 100) (lit 2) (lit 4) 1 (lit 3) 0 (lit 10) 0 1)"
    by (simp only: less_irrefl if_False c)
  then show ?thesis unfolding best_of_def by simp
qed

end
