(* ===== verification/MakerLive.thy ===== *)
theory MakerLive
  imports OrderBook Comp
begin

text \<open>
  The live quoting strategy (\<open>maker_live.cpp\<close>): the two-sided quotes, the \<open>LiveMakerBot\<close> state
  machine, the dry-run submitter and the keep-warm thread.

  A submitter is code the bot is given: a function from the actions it was handed before and the
  current action to its answer or exception.  The bot's state carries those actions (\<open>lb_sent\<close>),
  so what was sent, and in which order, is part of what the theorems state.  The JSON actions are
  objects with their keys in order, as \<open>std::map\<close> keeps them.
\<close>

section \<open>Actions and submitters\<close>

type_synonym submitter = "json list \<Rightarrow> json \<Rightarrow> sim_error + json"

record Order =
  mo_side :: string
  mo_price :: double
  mo_size :: double
  mo_token_id :: string

definition place_action_of :: "string \<Rightarrow> Order \<Rightarrow> json" where
  "place_action_of token ord = JObj [(''action'', JStr ''PLACE''), (''price'', JFloat (mo_price ord)),
     (''side'', JStr (mo_side ord)), (''size'', JFloat (mo_size ord)), (''token_id'', JStr token)]"

definition cancel_all_action :: "string \<Rightarrow> json" where
  "cancel_all_action token = JObj [(''action'', JStr ''CANCEL_ALL''), (''token_id'', JStr token)]"

text \<open>\<open>j[key] = v\<close>: a null becomes an object; any other kind of value is a type error.\<close>

definition jset :: "string \<Rightarrow> json \<Rightarrow> json \<Rightarrow> sim_error + json" where
  "jset k v j = (case j of JObj kvs \<Rightarrow> Inr (JObj (smap_put k v kvs)) | JNull \<Rightarrow> Inr (JObj [(k, v)])
     | _ \<Rightarrow> Inl (StdError ''json type_error''))"

text \<open>The bot's own submitter in a dry run without an injected one\<close>

definition dry_echo :: submitter where
  "dry_echo hist action = jset ''status'' (JStr ''DRY_RUN'') action"

section \<open>Quotes\<close>

definition bad_mid :: sim_error where "bad_mid = StdError ''mid must be in (0, 1), got ''"
definition bad_spread :: sim_error where "bad_spread = StdError ''half_spread_c must be in (0, max_spread_c], got ''"

definition in_unit :: "double \<Rightarrow> bool" where
  "in_unit mid \<longleftrightarrow> 0 < mid \<and> mid < 1"

definition to_tick :: "double \<Rightarrow> double \<Rightarrow> double" where
  "to_tick tick p = nearbyint (p / tick) * tick"

definition compute_two_sided_quotes ::
  "double \<Rightarrow> double \<Rightarrow> double \<Rightarrow> double \<Rightarrow> double \<Rightarrow> double \<Rightarrow> sim_error + Order list" where
  "compute_two_sided_quotes mid half_spread_c sz tick max_spread_c skew_ticks =
     (if \<not> in_unit mid then Inl bad_mid
      else if half_spread_c \<le> 0 \<or> max_spread_c < half_spread_c then Inl bad_spread
      else
        let offset = half_spread_c / lit 100; shift = skew_ticks * tick;
            bid = cmax tick (to_tick tick (mid - offset - shift));
            ask = cmin (1 - tick) (to_tick tick (mid + offset - shift))
        in Inr [\<lparr>mo_side = ''BUY'', mo_price = round_to bid 4, mo_size = sz, mo_token_id = []\<rparr>,
                \<lparr>mo_side = ''SELL'', mo_price = round_to ask 4, mo_size = sz, mo_token_id = []\<rparr>])"

definition quote_floor_c :: "double \<Rightarrow> double \<Rightarrow> double" where
  "quote_floor_c tick v = (if tick \<le> lit (11 / 10000) then lit 2 * tick * lit 100 else lit (15 / 100) * v)"

definition quote_target :: "double \<Rightarrow> double \<Rightarrow> double \<Rightarrow> double" where
  "quote_target half_spread_c tick v =
     cmin (cmax half_spread_c (quote_floor_c tick v)) (lit (55 / 100) * v) / lit 100"

definition band_edge :: "double \<Rightarrow> double" where
  "band_edge v = lit (55 / 100) * v / lit 100"

definition bid_leg :: "double \<Rightarrow> double \<Rightarrow> double \<Rightarrow> double \<Rightarrow> double \<Rightarrow> double" where
  "bid_leg mid target edge tick best_bid =
     (let bid0 = to_tick tick target;
          bid1 = (if 0 < best_bid then cmin bid0 (best_bid - tick) else bid0);
          bid2 = cmax bid1 (to_tick tick (mid - edge))
      in cmax bid2 tick)"

definition ask_leg :: "double \<Rightarrow> double \<Rightarrow> double \<Rightarrow> double \<Rightarrow> double \<Rightarrow> double" where
  "ask_leg mid target edge tick best_ask =
     (let ask0 = to_tick tick target;
          ask1 = (if 0 < best_ask then cmax ask0 (best_ask + tick) else ask0);
          ask2 = cmin ask1 (to_tick tick (mid + edge))
      in cmin ask2 (1 - tick))"

definition no_leg :: "double \<Rightarrow> double \<Rightarrow> double" where
  "no_leg tick ask = cmin (1 - tick) (cmax tick (round_to (to_tick tick (1 - ask)) 4))"

definition compute_two_sided_quotes_yes_no ::
  "double \<Rightarrow> double \<Rightarrow> double \<Rightarrow> double \<Rightarrow> double \<Rightarrow> string \<Rightarrow> string \<Rightarrow> double \<Rightarrow> double \<Rightarrow> double \<Rightarrow> double
     \<Rightarrow> sim_error + Order list" where
  "compute_two_sided_quotes_yes_no mid half_spread_c sz tick max_spread_c yes_token no_token best_bid best_ask
       skew_ticks center_shift =
     (if \<not> in_unit mid then Inl bad_mid
      else
        let v = max_spread_c; shift = skew_ticks * tick; center = mid + center_shift;
            s_target = quote_target half_spread_c tick v; edge = band_edge v;
            bid = bid_leg mid (center - s_target - shift) edge tick best_bid;
            ask = ask_leg mid (center + s_target - shift) edge tick best_ask
        in Inr [\<lparr>mo_side = ''BUY'', mo_price = round_to bid 4, mo_size = sz, mo_token_id = yes_token\<rparr>,
                \<lparr>mo_side = ''BUY'', mo_price = no_leg tick ask, mo_size = sz, mo_token_id = no_token\<rparr>])"

definition plan_requote :: "double \<Rightarrow> double \<Rightarrow> double \<Rightarrow> bool" where
  "plan_requote mid_prev mid_now tick \<longleftrightarrow> tick \<le> dabs (mid_now - mid_prev)"

text \<open>\<open>static_cast<std::int64_t>\<close>, and the unix second at which a dead-man order expires\<close>

fun trunc_i64 :: "double \<Rightarrow> int" where
  "trunc_i64 (Fin q) = (if 0 \<le> q then \<lfloor>q\<rfloor> else \<lceil>q\<rceil>)"
| "trunc_i64 _ = - (2 ^ 63)"

definition gtd_expiration :: "double \<Rightarrow> double \<Rightarrow> int" where
  "gtd_expiration expiry_s now_unix = trunc_i64 now_unix + max (trunc_i64 expiry_s) 60"

section \<open>The bot\<close>

record MakerBotConfig =
  mc_token_id :: string
  mc_max_spread_c :: double
  mc_min_size :: double
  mc_tick :: double
  mc_half_spread_c :: "double option"
  mc_size :: "double option"
  mc_dry_run :: bool
  mc_max_inventory :: "double option"
  mc_skew_strength_ticks :: double
  mc_jump_exit_ticks :: "double option"
  mc_external_fills :: bool

record MakerPlan =
  mp_token_id :: string
  mp_mid :: double
  mp_requote :: bool
  mp_orders :: "Order list"
  mp_est_reward_share :: double
  mp_committed_capital :: double
  mp_inventory :: double
  mp_skew_ticks :: double
  mp_dry_run :: bool
  mp_halted :: bool
  mp_submitted :: "json list"
  mp_recommend :: string

record LiveMakerBot =
  lb_token_id :: string
  lb_external_fills :: bool
  lb_max_spread_c :: double
  lb_tick :: double
  lb_half_spread_c :: double
  lb_size :: double
  lb_dry_run :: bool
  lb_last_mid :: "double option"
  lb_jump_exit_ticks :: double
  lb_halted :: bool
  lb_max_inventory :: double
  lb_skew_strength_ticks :: double
  lb_inventory :: double
  lb_last_bid :: "double option"
  lb_last_ask :: "double option"
  lb_sent :: "json list"

fun opt_or :: "'a option \<Rightarrow> 'a \<Rightarrow> 'a" where
  "opt_or (Some x) d = x"
| "opt_or None d = d"

text \<open>The constructor; an absent submitter is \<open>None\<close>.\<close>

definition new_bot :: "MakerBotConfig \<Rightarrow> submitter option \<Rightarrow> sim_error + LiveMakerBot \<times> submitter" where
  "new_bot cfg sub =
     (let sz = opt_or (mc_size cfg) (mc_min_size cfg);
          bot = \<lparr>lb_token_id = mc_token_id cfg, lb_external_fills = mc_external_fills cfg,
            lb_max_spread_c = mc_max_spread_c cfg, lb_tick = mc_tick cfg,
            lb_half_spread_c = opt_or (mc_half_spread_c cfg) (mc_tick cfg * lit 100),
            lb_size = sz, lb_dry_run = mc_dry_run cfg, lb_last_mid = None,
            lb_jump_exit_ticks = opt_or (mc_jump_exit_ticks cfg) (mc_max_spread_c cfg / (mc_tick cfg * lit 100)),
            lb_halted = False, lb_max_inventory = opt_or (mc_max_inventory cfg) (lit 5 * sz),
            lb_skew_strength_ticks = mc_skew_strength_ticks cfg, lb_inventory = 0,
            lb_last_bid = None, lb_last_ask = None, lb_sent = []\<rparr>
      in case sub of
           None \<Rightarrow> if mc_dry_run cfg then Inr (bot, dry_echo)
                   else Inl (ApiError ''Live mode requires an injected signer/submitter'' None)
         | Some f \<Rightarrow> Inr (bot, f))"

definition skew_ticks :: "LiveMakerBot \<Rightarrow> double" where
  "skew_ticks b =
     (if lb_max_inventory b \<le> 0 then 0
      else lb_skew_strength_ticks b * cmax (- 1) (cmin 1 (lb_inventory b / lb_max_inventory b)))"

definition clamp_inventory :: "double \<Rightarrow> LiveMakerBot \<Rightarrow> LiveMakerBot" where
  "clamp_inventory x b =
     (let m = lb_max_inventory b in
      b\<lparr>lb_inventory := if 0 < m then cmax (- m) (cmin m x) else x\<rparr>)"

definition crossed :: "(double \<Rightarrow> double \<Rightarrow> bool) \<Rightarrow> double \<Rightarrow> double option \<Rightarrow> bool" where
  "crossed le' mid prev = (case prev of None \<Rightarrow> False | Some x \<Rightarrow> le' mid x)"

definition detect_fill :: "double \<Rightarrow> LiveMakerBot \<Rightarrow> LiveMakerBot" where
  "detect_fill mid b =
     clamp_inventory
       (if crossed (\<lambda>m x. x \<le> m) mid (lb_last_ask b) then lb_inventory b - lb_size b
        else if crossed (\<le>) mid (lb_last_bid b) then lb_inventory b + lb_size b
        else lb_inventory b) b"

definition apply_real_fill :: "string \<Rightarrow> double \<Rightarrow> LiveMakerBot \<Rightarrow> LiveMakerBot" where
  "apply_real_fill side sz b =
     clamp_inventory (if to_upper side = ''BUY'' then lb_inventory b + sz else lb_inventory b - sz) b"

definition moved_since :: "double \<Rightarrow> double option \<Rightarrow> double" where
  "moved_since mid prev = (case prev of None \<Rightarrow> 0 | Some m \<Rightarrow> dabs (mid - m))"

definition plan_of :: "OrderBook \<Rightarrow> double \<Rightarrow> LiveMakerBot \<Rightarrow> Order list \<Rightarrow> MakerPlan" where
  "plan_of book mid b quotes =
     (let skew = skew_ticks b;
          requote = (case lb_last_mid b of None \<Rightarrow> True | Some m \<Rightarrow> plan_requote m mid (lb_tick b));
          share = maker_reward_share (lb_size b) (lb_half_spread_c b) (lb_max_spread_c b)
                    (book_inband_qmin book mid (lb_max_spread_c b))
      in \<lparr>mp_token_id = lb_token_id b, mp_mid = mid, mp_requote = requote, mp_orders = quotes,
          mp_est_reward_share = round_to share 4,
          mp_committed_capital = round_to (committed_capital (lb_size b) (lb_half_spread_c b)) 2,
          mp_inventory = round_to (lb_inventory b) 4, mp_skew_ticks = round_to skew 4,
          mp_dry_run = lb_dry_run b, mp_halted = False, mp_submitted = [], mp_recommend = []\<rparr>)"

definition plan :: "OrderBook \<Rightarrow> double \<Rightarrow> (LiveMakerBot, MakerPlan) comp" where
  "plan book mid b =
     (case compute_two_sided_quotes mid (lb_half_spread_c b) (lb_size b) (lb_tick b) (lb_max_spread_c b) (skew_ticks b) of
        Inl e \<Rightarrow> (Inl e, b)
      | Inr quotes \<Rightarrow> (Inr (plan_of book mid b quotes), b))"

definition halt_plan :: "double \<Rightarrow> json list \<Rightarrow> LiveMakerBot \<Rightarrow> MakerPlan" where
  "halt_plan mid submitted b =
     \<lparr>mp_token_id = lb_token_id b, mp_mid = mid, mp_requote = False, mp_orders = [], mp_est_reward_share = 0,
      mp_committed_capital = 0, mp_inventory = round_to (lb_inventory b) 4, mp_skew_ticks = 0,
      mp_dry_run = False, mp_halted = True, mp_submitted = submitted, mp_recommend = ''exit_cooldown''\<rparr>"

definition submit :: "submitter \<Rightarrow> json \<Rightarrow> (LiveMakerBot, json) comp" where
  "submit sub action b = (sub (lb_sent b) action, b\<lparr>lb_sent := lb_sent b @ [action]\<rparr>)"

definition submit_one :: "submitter \<Rightarrow> json \<Rightarrow> (LiveMakerBot, json list) comp" where
  "submit_one sub action = bindc (submit sub action) (\<lambda>r. ret [r])"

definition step_actions :: "LiveMakerBot \<Rightarrow> MakerPlan \<Rightarrow> json list" where
  "step_actions b p =
     (if mp_requote p
      then (if lb_last_mid b \<noteq> None then [cancel_all_action (lb_token_id b)] else []) @
           map (place_action_of (lb_token_id b)) (mp_orders p)
      else [])"

definition step :: "submitter \<Rightarrow> OrderBook \<Rightarrow> double \<Rightarrow> (LiveMakerBot, MakerPlan) comp" where
  "step sub book mid =
     bindc (reading (\<lambda>b. b)) (\<lambda>b0.
     if lb_halted b0
     then bindc (modify (lb_last_mid_update (\<lambda>_. Some mid))) (\<lambda>_. reading (halt_plan mid []))
     else
       let moved = moved_since mid (lb_last_mid b0) in
       bindc (modify (\<lambda>b. if lb_external_fills b then b else detect_fill mid b)) (\<lambda>_.
       if lb_jump_exit_ticks b0 * lb_tick b0 \<le> moved
       then
         bindc (modify (lb_halted_update (\<lambda>_. True))) (\<lambda>_.
         bindc (submit_one sub (cancel_all_action (lb_token_id b0))) (\<lambda>submitted.
         bindc (modify (lb_last_mid_update (\<lambda>_. Some mid))) (\<lambda>_.
         reading (halt_plan mid submitted))))
       else
         bindc (plan book mid) (\<lambda>p.
         bindc (for_each (submit_one sub) (step_actions b0 p)) (\<lambda>submitted.
         bindc (modify (\<lambda>b. b\<lparr>lb_last_mid := Some mid, lb_last_bid := Some (mo_price (mp_orders p ! 0)),
                                lb_last_ask := Some (mo_price (mp_orders p ! 1))\<rparr>)) (\<lambda>_.
         ret (p\<lparr>mp_submitted := submitted\<rparr>))))))"

section \<open>The dry-run submitter\<close>

definition dry_run_keep :: "json \<Rightarrow> json list \<Rightarrow> json list" where
  "dry_run_keep action sent = (let s = sent @ [action] in if 5000 < length s then tl s else s)"

definition dry_run_answer :: "json \<Rightarrow> sim_error + json" where
  "dry_run_answer action = (case jset ''status'' (JStr ''OK'') action of Inl e \<Rightarrow> Inl e
     | Inr r \<Rightarrow> jset ''dry_run'' (JBool True) r)"

text \<open>The object's state is the bounded queue of the actions it was handed.\<close>

definition dry_run_submit :: "json \<Rightarrow> (json list, json) comp" where
  "dry_run_submit action = bindc (modify (dry_run_keep action)) (\<lambda>_. of_sum (dry_run_answer action))"

section \<open>Properties of the quotes\<close>

lemma to_tick_not_nan:
  assumes "mag 53 p" "mag 53 tick" "0 < tick" shows "to_tick tick p \<noteq> NaN"
proof -
  obtain a b where ab: "p = Fin a" "tick = Fin b" using assms by (auto simp: mag_def)
  then have b: "0 < b" using assms(3) by (simp add: zero_double_def)
  have n: "nearbyint (p / tick) \<noteq> NaN" using ab b by (simp add: divide_double_def nearbyint_def)
  show ?thesis unfolding to_tick_def using n b unfolding ab
    by (cases "nearbyint (Fin a / Fin b)") (auto simp: times_double_def sinf_def)
qed

lemma round_to_4: "round_to x 4 = round4 x"
proof -
  have p: "pow10 4 = Fin 10000" by code_simp
  have "lit 10000 = Fin 10000" by code_simp
  then show ?thesis by (simp add: round_to_def round4_def p Let_def)
qed

lemma round_to_mono: "x \<le> y \<Longrightarrow> round_to x 4 \<le> round_to y 4"
  by (simp only: round_to_4 round4_mono)

lemma round_to_not_nan: "x \<noteq> NaN \<Longrightarrow> round_to x 4 \<noteq> NaN"
  using round_to_mono[of x x] by auto

lemma to_tick_mono:
  assumes "x \<le> y" "mag 53 tick" "0 < tick" shows "to_tick tick x \<le> to_tick tick y"
proof -
  obtain b where b: "tick = Fin b" "0 < b" using assms(2,3) by (auto simp: mag_def zero_double_def)
  show ?thesis unfolding to_tick_def b(1)
    by (intro mult_mono_c nearbyint_mono div_mono_c assms(1) b(2))
qed

lemma anti_minus: "x \<le> y \<Longrightarrow> finite_d z \<Longrightarrow> z - y \<le> z - (x::double)"
proof -
  assume "x \<le> y" "finite_d z"
  then have "- y \<le> - x" by (cases x; cases y) auto
  then show ?thesis using add_mono_d[of "- y" "- x" z] \<open>finite_d z\<close> by (simp add: minus_double_def plus_double_def add.commute split: double.splits)
qed

lemma cmax_bounds:
  assumes "a \<noteq> NaN" "b \<noteq> NaN"
  shows "a \<le> cmax a b" "b \<le> cmax a b" "a \<le> c \<Longrightarrow> b \<le> c \<Longrightarrow> cmax a b \<le> c" "cmax a b \<noteq> NaN"
    "cmin a b \<le> a" "cmin a b \<le> b" "c \<le> a \<Longrightarrow> c \<le> b \<Longrightarrow> c \<le> cmin a b" "cmin a b \<noteq> NaN"
  using assms by (auto simp: cmax_def cmin_def not_less_d less_le_d)

lemma bid_leg_bounds:
  assumes nn: "to_tick tick target \<noteq> NaN" "to_tick tick (mid - edge) \<noteq> NaN" "bb - tick \<noteq> NaN" "tick \<noteq> NaN"
  shows "tick \<le> bid_leg mid target edge tick bb" "to_tick tick (mid - edge) \<le> bid_leg mid target edge tick bb"
    "0 < bb \<Longrightarrow> bid_leg mid target edge tick bb \<le> cmax (cmax (bb - tick) (to_tick tick (mid - edge))) tick"
    "bid_leg mid target edge tick bb \<noteq> NaN"
proof -
  define b1 where "b1 = (if 0 < bb then cmin (to_tick tick target) (bb - tick) else to_tick tick target)"
  have n1: "b1 \<noteq> NaN" using nn by (simp add: b1_def cmax_bounds)
  have leg: "bid_leg mid target edge tick bb = cmax (cmax b1 (to_tick tick (mid - edge))) tick"
    by (simp add: bid_leg_def b1_def Let_def)
  note c1 = cmax_bounds[OF n1 nn(2)]
  note c2 = cmax_bounds[OF c1(4) nn(4)]
  show "tick \<le> bid_leg mid target edge tick bb" "bid_leg mid target edge tick bb \<noteq> NaN"
    unfolding leg by (rule c2)+
  show "to_tick tick (mid - edge) \<le> bid_leg mid target edge tick bb"
    unfolding leg using c1(2) c2(1) by (rule le_trans_d)
  assume "0 < bb"
  then have "b1 \<le> bb - tick" using cmax_bounds(6)[OF nn(1,3)] by (simp add: b1_def)
  note d1 = cmax_bounds[OF nn(3,2)]
  note d2 = cmax_bounds[OF d1(4) nn(4)]
  show "bid_leg mid target edge tick bb \<le> cmax (cmax (bb - tick) (to_tick tick (mid - edge))) tick"
    unfolding leg using \<open>b1 \<le> bb - tick\<close> by (intro c2(3) c1(3) d2(2) le_trans_d[OF _ d2(1)] d1(2) le_trans_d[OF _ d1(1)])
qed

lemma ask_leg_bounds:
  assumes nn: "to_tick tick target \<noteq> NaN" "to_tick tick (mid + edge) \<noteq> NaN" "ba + tick \<noteq> NaN" "1 - tick \<noteq> NaN"
  shows "ask_leg mid target edge tick ba \<le> 1 - tick" "ask_leg mid target edge tick ba \<le> to_tick tick (mid + edge)"
    "0 < ba \<Longrightarrow> cmin (cmin (ba + tick) (to_tick tick (mid + edge))) (1 - tick) \<le> ask_leg mid target edge tick ba"
    "ask_leg mid target edge tick ba \<noteq> NaN"
proof -
  define a1 where "a1 = (if 0 < ba then cmax (to_tick tick target) (ba + tick) else to_tick tick target)"
  have n1: "a1 \<noteq> NaN" using nn by (simp add: a1_def cmax_bounds)
  have leg: "ask_leg mid target edge tick ba = cmin (cmin a1 (to_tick tick (mid + edge))) (1 - tick)"
    by (simp add: ask_leg_def a1_def Let_def)
  note c1 = cmax_bounds[OF n1 nn(2)]
  note c2 = cmax_bounds[OF c1(8) nn(4)]
  show "ask_leg mid target edge tick ba \<le> 1 - tick" "ask_leg mid target edge tick ba \<noteq> NaN"
    unfolding leg by (rule c2)+
  show "ask_leg mid target edge tick ba \<le> to_tick tick (mid + edge)"
    unfolding leg using c2(5) c1(6) by (rule le_trans_d)
  assume "0 < ba"
  then have "ba + tick \<le> a1" using cmax_bounds(2)[OF nn(1,3)] by (simp add: a1_def)
  note d1 = cmax_bounds[OF nn(3,2)]
  note d2 = cmax_bounds[OF d1(8) nn(4)]
  show "cmin (cmin (ba + tick) (to_tick tick (mid + edge))) (1 - tick) \<le> ask_leg mid target edge tick ba"
    unfolding leg using \<open>ba + tick \<le> a1\<close> by (intro c2(7) c1(7) d2(6) le_trans_d[OF d2(5)] d1(6) le_trans_d[OF d1(5)])
qed

definition mag20 :: "double list \<Rightarrow> bool" where
  "mag20 xs \<longleftrightarrow> list_all (mag 20) xs"

lemma target_mag:
  assumes "mag20 [h, tick, v]" shows "mag 28 (quote_target h tick v)" "mag 20 (band_edge v)"
proof -
  have m: "mag 20 h" "mag 20 tick" "mag 20 v" using assms by (auto simp: mag20_def)
  have lits: "mag 0 (lit (15 / 100))" "mag 0 (lit (55 / 100))" unfolding lit_def by (rule mag_fl; simp)+
  have n: "mag 1 (Fin 2)" "mag 7 (Fin 100)" by simp_all
  have f1: "mag 28 (Fin 2 * tick * Fin 100)"
    using mag_times[OF mag_times[OF n(1) m(2)] n(2)] by (simp add: eval_nat_numeral)
  have f2: "mag 20 (lit (15 / 100) * v)" and f3: "mag 20 (lit (55 / 100) * v)"
    using mag_times[OF lits(1) m(3)] mag_times[OF lits(2) m(3)] by simp_all
  have "mag 28 (quote_floor_c tick v)"
    using f1 mag_mono[OF f2, of 28] by (simp add: quote_floor_c_def)
  then have "mag 28 (cmin (cmax h (quote_floor_c tick v)) (lit (55 / 100) * v))"
    by (intro mag_choice mag_mono[OF m(1)] mag_mono[OF f3]) simp_all
  then show "mag 28 (quote_target h tick v)" by (simp add: quote_target_def mag_divide)
  show "mag 20 (band_edge v)" using f3 by (simp add: band_edge_def mag_divide)
qed

lemma legs_not_nan:
  assumes m: "mag20 [mid, h, tick, v, bb, ba, sk, cs]" and t: "0 < tick"
  shows "to_tick tick (mid + cs - quote_target h tick v - sk * tick) \<noteq> NaN"
    "to_tick tick (mid + cs + quote_target h tick v - sk * tick) \<noteq> NaN"
    "to_tick tick (mid - band_edge v) \<noteq> NaN" "to_tick tick (mid + band_edge v) \<noteq> NaN"
    "bb - tick \<noteq> NaN" "ba + tick \<noteq> NaN" "tick \<noteq> NaN" "1 - tick \<noteq> NaN"
proof -
  have ms: "mag 20 mid" "mag 20 tick" "mag 20 bb" "mag 20 ba" "mag 20 sk" "mag 20 cs" "mag20 [h, tick, v]"
    using m by (auto simp: mag20_def)
  note tg = target_mag[OF ms(7)]
  have sh: "mag 40 (sk * tick)" using mag_times[OF ms(5,2)] by simp
  have ct: "mag 28 (mid + cs)" using mag_mono[OF mag_plus[OF ms(1,6)], of 28] by simp
  have lo: "mag 41 (mid + cs - quote_target h tick v - sk * tick)"
    using mag_minus[OF mag_mono[OF mag_minus[OF ct tg(1)], of 40] sh] by simp
  have hi: "mag 41 (mid + cs + quote_target h tick v - sk * tick)"
    using mag_minus[OF mag_mono[OF mag_plus[OF ct tg(1)], of 40] sh] by simp
  have ed: "mag 21 (mid - band_edge v)" "mag 21 (mid + band_edge v)"
    using mag_minus[OF ms(1) tg(2)] mag_plus[OF ms(1) tg(2)] by simp_all
  have tk: "mag 53 tick" using mag_mono[OF ms(2), of 53] by simp
  show "to_tick tick (mid + cs - quote_target h tick v - sk * tick) \<noteq> NaN"
    "to_tick tick (mid + cs + quote_target h tick v - sk * tick) \<noteq> NaN"
    "to_tick tick (mid - band_edge v) \<noteq> NaN" "to_tick tick (mid + band_edge v) \<noteq> NaN"
    by (intro to_tick_not_nan[OF _ tk t] mag_mono[OF lo] mag_mono[OF hi] mag_mono[OF ed(1)] mag_mono[OF ed(2)]; simp)+
  show "bb - tick \<noteq> NaN" "ba + tick \<noteq> NaN" "tick \<noteq> NaN"
    using mag_not_nan[OF mag_minus[OF ms(3,2)]] mag_not_nan[OF mag_plus[OF ms(4,2)]] mag_not_nan[OF ms(2)] by simp_all
  have "mag 20 1" by (simp add: mag_def one_double_def)
  from mag_not_nan[OF mag_minus[OF this ms(2)]] show "1 - tick \<noteq> NaN" by simp
qed

lemma no_leg_bounds:
  assumes "to_tick tick (1 - ask) \<noteq> NaN" "tick \<noteq> NaN" "1 - tick \<noteq> NaN"
  shows "no_leg tick ask \<le> 1 - tick" "tick \<le> 1 - tick \<Longrightarrow> tick \<le> no_leg tick ask"
    "cmin (1 - tick) (round_to (to_tick tick (1 - ask)) 4) \<le> no_leg tick ask"
proof -
  note r = round_to_not_nan[OF assms(1)]
  note c = cmax_bounds[OF assms(2) r]
  note d = cmax_bounds[OF assms(3) c(4)]
  note e = cmax_bounds[OF assms(3) r]
  show "no_leg tick ask \<le> 1 - tick" unfolding no_leg_def by (rule d)
  show "tick \<le> no_leg tick ask" if "tick \<le> 1 - tick" unfolding no_leg_def by (rule d(7)[OF that c(1)])
  show "cmin (1 - tick) (round_to (to_tick tick (1 - ask)) 4) \<le> no_leg tick ask"
    unfolding no_leg_def by (intro d(7) e(5) le_trans_d[OF e(6) c(2)])
qed

text \<open>
  The two legs of a two-sided quote are buys of the YES and of the NO token, of the asked
  size.  The YES bid is at least one tick, never deeper than the reward band's edge, and with a
  known best bid it stays one tick behind it unless the band edge or the one-tick floor is in
  front.  The NO price lies in [tick, 1 - tick].
\<close>

theorem quotes_yes_no_bounds:
  assumes "compute_two_sided_quotes_yes_no mid h sz tick v yes_token no_token bb ba sk cs = Inr os"
    and "mag20 [mid, h, tick, v, bb, ba, sk, cs]" and "0 < tick" and "tick \<le> 1 - tick"
  shows "\<exists>b a. os = [b, a] \<and> map mo_side os = [''BUY'', ''BUY''] \<and> map mo_token_id os = [yes_token, no_token] \<and>
    map mo_size os = [sz, sz] \<and>
    round_to tick 4 \<le> mo_price b \<and> round_to (to_tick tick (mid - band_edge v)) 4 \<le> mo_price b \<and>
    (0 < bb \<longrightarrow> mo_price b \<le> round_to (cmax (cmax (bb - tick) (to_tick tick (mid - band_edge v))) tick) 4) \<and>
    tick \<le> mo_price a \<and> mo_price a \<le> 1 - tick"
proof -
  note nn = legs_not_nan[OF assms(2,3)]
  let ?s = "quote_target h tick v"
  define bid where "bid = bid_leg mid (mid + cs - ?s - sk * tick) (band_edge v) tick bb"
  define ask where "ask = ask_leg mid (mid + cs + ?s - sk * tick) (band_edge v) tick ba"
  have os: "os = [\<lparr>mo_side = ''BUY'', mo_price = round_to bid 4, mo_size = sz, mo_token_id = yes_token\<rparr>,
                \<lparr>mo_side = ''BUY'', mo_price = no_leg tick ask, mo_size = sz, mo_token_id = no_token\<rparr>]"
    using assms(1) by (simp add: compute_two_sided_quotes_yes_no_def Let_def bid_def ask_def split: if_splits)
  note bl = bid_leg_bounds[OF nn(1,3,5,7), folded bid_def]
  have ask: "ask \<noteq> NaN" "ask \<le> 1 - tick" using ask_leg_bounds[OF nn(2,4,6,8)] by (simp_all add: ask_def)
  have tk: "mag 53 tick" using assms(2) mag_mono[of 20 tick 53] by (simp add: mag20_def)
  have "1 - ask \<noteq> NaN" using ask(1) by (cases ask) (auto simp: minus_double_def plus_double_def one_double_def)
  then have "to_tick tick (1 - ask) \<noteq> NaN" using to_tick_mono[of "1 - ask" "1 - ask", OF _ tk assms(3)] by auto
  note no = no_leg_bounds[OF this nn(7,8)]
  have "round_to tick 4 \<le> round_to bid 4" "round_to (to_tick tick (mid - band_edge v)) 4 \<le> round_to bid 4"
    by (intro round_to_mono bl(1) bl(2))+
  moreover have "0 < bb \<longrightarrow> round_to bid 4 \<le> round_to (cmax (cmax (bb - tick) (to_tick tick (mid - band_edge v))) tick) 4"
    using bl(3) by (auto intro: round_to_mono)
  ultimately show ?thesis using no(1) no(2)[OF assms(4)] unfolding os by simp
qed

lemma mag20_sample: "mag20 [Fin (1/2), Fin 2, Fin (1/64), Fin 4, Fin (31/64), Fin (33/64), 0, 0]"
  by (simp add: mag20_def zero_double_def)

lemma quotes_yes_no_bounds_witness:
  "\<exists>os b a. compute_two_sided_quotes_yes_no (Fin (1/2)) (Fin 2) (Fin 100) (Fin (1/64)) (Fin 4) ''y'' ''n''
       (Fin (31/64)) (Fin (33/64)) 0 0 = Inr os \<and> os = [b, a] \<and> mo_price a \<le> 1 - Fin (1/64)"
proof -
  let ?q = "compute_two_sided_quotes_yes_no (Fin (1/2)) (Fin 2) (Fin 100) (Fin (1/64)) (Fin 4) ''y'' ''n''
       (Fin (31/64)) (Fin (33/64)) 0 0"
  obtain os where os: "?q = Inr os"
    by (simp add: compute_two_sided_quotes_yes_no_def Let_def in_unit_def zero_double_def one_double_def)
  have "(0::double) < Fin (1/64)" by (simp add: zero_double_def)
  moreover have "Fin (1/64) \<le> 1 - Fin (1/64)" by code_simp
  ultimately show ?thesis using quotes_yes_no_bounds[OF os mag20_sample] os by blast
qed

section \<open>Properties of the bot\<close>

text \<open>What a bot can experience: a poll, a real fill, the runner lifting or setting the halt.\<close>

inductive bot_event :: "submitter \<Rightarrow> LiveMakerBot \<Rightarrow> LiveMakerBot \<Rightarrow> bool" for sub where
  poll: "bot_event sub b (snd (step sub book mid b))"
| real_fill: "bot_event sub b (apply_real_fill side sz b)"

inductive_cases bot_eventE: "bot_event sub b b'"

definition fixed_part :: "LiveMakerBot \<Rightarrow> LiveMakerBot" where
  "fixed_part b = b\<lparr>lb_last_mid := None, lb_halted := False, lb_inventory := 0, lb_last_bid := None,
     lb_last_ask := None, lb_sent := []\<rparr>"

definition capped :: "LiveMakerBot \<Rightarrow> bool" where
  "capped b \<longleftrightarrow> (0 < lb_max_inventory b \<longrightarrow>
     - lb_max_inventory b \<le> lb_inventory b \<and> lb_inventory b \<le> lb_max_inventory b)"

text \<open>The relation every part of a step respects: the configuration stays, the cap holds, a halt is not
  lifted, and the actions sent only grow.\<close>

definition bot_grows :: "LiveMakerBot \<Rightarrow> LiveMakerBot \<Rightarrow> bool" where
  "bot_grows b b' \<longleftrightarrow> fixed_part b' = fixed_part b \<and> (capped b \<longrightarrow> capped b') \<and>
     (lb_halted b \<longrightarrow> lb_halted b') \<and> (\<exists>as. lb_sent b' = lb_sent b @ as)"

interpretation bot: evolution bot_grows
  by unfold_locales (auto simp: bot_grows_def)

lemma fixed_part_max: "fixed_part b' = fixed_part b \<Longrightarrow> lb_max_inventory b' = lb_max_inventory b"
  by (metis (no_types, lifting) LiveMakerBot.select_convs(11) LiveMakerBot.surjective LiveMakerBot.update_convs fixed_part_def)

lemma pos_not_neg: "0 < m \<Longrightarrow> m \<noteq> NaN \<and> - m \<noteq> NaN \<and> - m \<le> (m::double)"
  by (cases m) (auto simp: zero_double_def less_double_def)

lemma clamp_grows: "bot_grows b (clamp_inventory x b)"
proof -
  let ?m = "lb_max_inventory b"
  have "- ?m \<le> cmax (- ?m) (cmin ?m x) \<and> cmax (- ?m) (cmin ?m x) \<le> ?m" if "0 < ?m"
    using pos_not_neg[OF that] by (cases "x = NaN") (auto simp: cmax_def cmin_def not_less_d less_le_d)
  then show ?thesis by (auto simp: bot_grows_def clamp_inventory_def capped_def fixed_part_def Let_def)
qed

lemma bot_modify:
  "bot_grows b (b\<lparr>lb_last_mid := x\<rparr>)" "bot_grows b (b\<lparr>lb_halted := True\<rparr>)"
  "bot_grows b (b\<lparr>lb_last_mid := x, lb_last_bid := y, lb_last_ask := z\<rparr>)"
  by (auto simp: bot_grows_def capped_def fixed_part_def)

lemma submit_grows: "obeys bot_grows (submit_one sub a)"
proof -
  have "obeys bot_grows (submit sub a)"
    by (auto simp: obeys_def submit_def bot_grows_def capped_def fixed_part_def)
  then show ?thesis unfolding submit_one_def by (intro bot.sequenced bot.pure)
qed

lemma plan_pure: "plan book mid b = (r, b') \<Longrightarrow> b' = b"
  by (auto simp: plan_def split: sum.splits)

lemma bot_step_grows: "obeys bot_grows (step sub book mid)"
proof -
  have p: "obeys bot_grows (plan book mid)"
    by (auto simp: obeys_def plan_def bot.stays split: sum.split)
  have d: "bot_grows b (if lb_external_fills b then b else detect_fill mid b)" for b
    by (simp add: detect_fill_def clamp_grows bot.stays)
  show ?thesis unfolding step_def
    by (intro bot.pure bot.sequenced bot.branches bot.modified bot.repeated submit_grows p d bot_modify)
qed

lemma bot_event_grows: "bot_event sub b b' \<Longrightarrow> bot_grows b b'"
  using bot_step_grows by (auto elim!: bot_eventE simp: obeys_def apply_real_fill_def clamp_grows)

lemma bot_run_grows: "(bot_event sub)\<^sup>*\<^sup>* b b' \<Longrightarrow> bot_grows b b'"
  by (induction rule: rtranclp_induct) (auto intro: bot.stays bot.follows bot_event_grows)

text \<open>
  C28: whatever is polled and filled, and whatever the submitter answers or throws, a bot with a
  positive inventory cap keeps its inventory within it, and its configuration never changes.
\<close>

theorem bot_inventory_capped:
  assumes "new_bot cfg sub = Inr (b, f)" and "(bot_event f)\<^sup>*\<^sup>* b b'" and "0 < lb_max_inventory b"
  shows "- lb_max_inventory b \<le> lb_inventory b' \<and> lb_inventory b' \<le> lb_max_inventory b \<and> fixed_part b' = fixed_part b"
proof -
  have g: "bot_grows b b'" by (rule bot_run_grows[OF assms(2)])
  have "lb_inventory b = 0" using assms(1) by (auto simp: new_bot_def Let_def split: option.splits if_splits)
  moreover have "- m \<le> 0 \<and> 0 \<le> m" if "0 < m" for m :: double
    using that by (cases m) (auto simp: zero_double_def less_double_def)
  ultimately have "capped b" by (simp add: capped_def)
  then show ?thesis using g assms(3) fixed_part_max[of b' b] by (auto simp: bot_grows_def capped_def)
qed

definition demo_cfg :: MakerBotConfig where
  "demo_cfg = \<lparr>mc_token_id = ''7'', mc_max_spread_c = Fin 3, mc_min_size = Fin 20, mc_tick = Fin (1/64),
     mc_half_spread_c = Some (Fin 2), mc_size = None, mc_dry_run = True, mc_max_inventory = Some (Fin 50),
     mc_skew_strength_ticks = Fin 2, mc_jump_exit_ticks = Some (Fin 3), mc_external_fills = True\<rparr>"

definition demo_bot :: LiveMakerBot where
  "demo_bot = fst (projr (new_bot demo_cfg None))"

lemma demo_bot_new: "new_bot demo_cfg None = Inr (demo_bot, dry_echo)"
  by (simp add: demo_bot_def new_bot_def demo_cfg_def Let_def)

lemma demo_bot_fields [simp]: "lb_max_inventory demo_bot = Fin 50" "lb_halted demo_bot = False"
  "lb_sent demo_bot = []" "lb_last_mid demo_bot = None" "lb_tick demo_bot = Fin (1/64)"
  "lb_jump_exit_ticks demo_bot = Fin 3" "lb_token_id demo_bot = ''7''"
  by (simp_all add: demo_bot_def new_bot_def demo_cfg_def Let_def)

lemma bot_inventory_capped_witness:
  "lb_inventory (apply_real_fill ''buy'' (Fin 80) demo_bot) \<le> Fin 50"
  using bot_inventory_capped[OF demo_bot_new r_into_rtranclp[of "bot_event dry_echo", OF real_fill]]
  by (simp add: zero_double_def)

lemma halted_step: "lb_halted b \<Longrightarrow> step sub book mid b = (Inr (halt_plan mid [] (b\<lparr>lb_last_mid := Some mid\<rparr>)), b\<lparr>lb_last_mid := Some mid\<rparr>)"
  by (simp add: step_def comp_simps)

text \<open>
  A halted bot is silent for good: along any further events it stays halted and hands no
  action to its submitter.
\<close>

theorem bot_halt_silent:
  assumes "(bot_event f)\<^sup>*\<^sup>* b b'" and "lb_halted b"
  shows "lb_halted b' \<and> lb_sent b' = lb_sent b"
  using assms
proof (induction rule: rtranclp_induct)
  case (step b1 b2)
  then show ?case
    by (auto elim!: bot_eventE simp: halted_step apply_real_fill_def clamp_inventory_def Let_def)
qed simp

lemma bot_halt_silent_witness:
  "lb_halted (snd (step dry_echo sample_book (Fin (1/2)) (demo_bot\<lparr>lb_halted := True\<rparr>))) \<and>
   lb_sent (snd (step dry_echo sample_book (Fin (1/2)) (demo_bot\<lparr>lb_halted := True\<rparr>))) = []"
  using bot_halt_silent[OF r_into_rtranclp[of "bot_event dry_echo", OF poll], of "demo_bot\<lparr>lb_halted := True\<rparr>"] by simp

lemma submit_all: "\<exists>n. snd (for_each (submit_one sub) as b) = b\<lparr>lb_sent := lb_sent b @ take n as\<rparr>"
proof (induction as arbitrary: b)
  case Nil
  then show ?case by (simp add: ret_def)
next
  case (Cons a as)
  define b1 where "b1 = b\<lparr>lb_sent := lb_sent b @ [a]\<rparr>"
  obtain n where n: "snd (for_each (submit_one sub) as b1) = b1\<lparr>lb_sent := lb_sent b1 @ take n as\<rparr>"
    using Cons.IH by blast
  show ?case
  proof (cases "sub (lb_sent b) a")
    case (Inl e)
    then show ?thesis by (intro exI[of _ 1]) (simp add: submit_one_def submit_def comp_simps)
  next
    case (Inr r)
    then have "snd (for_each (submit_one sub) (a # as) b) = snd (for_each (submit_one sub) as b1)"
      by (cases "for_each (submit_one sub) as b1"; cases "fst (for_each (submit_one sub) as b1)")
         (auto simp: submit_one_def submit_def comp_simps b1_def)
    then show ?thesis using n by (intro exI[of _ "Suc n"]) (simp add: b1_def)
  qed
qed

definition is_place :: "json \<Rightarrow> bool" where
  "is_place a \<longleftrightarrow> jget a ''action'' = Some (JStr ''PLACE'')"

lemma actions_kinds [simp]: "is_place (place_action_of t ord)" "\<not> is_place (cancel_all_action t)"
  by (simp_all add: is_place_def jget_def place_action_of_def cancel_all_action_def)

text \<open>What one step hands to the submitter, when it is not halted and does not jump\<close>

lemma quiet_step_sent:
  assumes "\<not> lb_halted b" "\<not> lb_jump_exit_ticks b * lb_tick b \<le> moved_since mid (lb_last_mid b)"
  shows "\<exists>p n. length (mp_orders p) = 2 \<and>
    lb_sent (snd (step sub book mid b)) = lb_sent b @ take n (step_actions b p)"
proof -
  define b1 where "b1 = (if lb_external_fills b then b else detect_fill mid b)"
  have b1: "lb_sent b1 = lb_sent b"
    by (simp add: b1_def detect_fill_def clamp_inventory_def Let_def)
  show ?thesis
  proof (cases "fst (plan book mid b1)")
    case (Inl e)
    then have "plan book mid b1 = (Inl e, b1)" using plan_pure by (cases "plan book mid b1") auto
    then have "lb_sent (snd (step sub book mid b)) = lb_sent b"
      using assms b1 by (simp add: step_def comp_simps Let_def flip: b1_def)
    then show ?thesis by (intro exI[of _ "undefined\<lparr>mp_orders := [undefined, undefined]\<rparr>"] exI[of _ 0]) simp
  next
    case (Inr p)
    then have pl: "plan book mid b1 = (Inr p, b1)" using plan_pure by (cases "plan book mid b1") auto
    have len: "length (mp_orders p) = 2"
      using pl by (auto simp: plan_def plan_of_def Let_def compute_two_sided_quotes_def split: if_splits)
    obtain n where n: "snd (for_each (submit_one sub) (step_actions b p) b1) = b1\<lparr>lb_sent := lb_sent b1 @ take n (step_actions b p)\<rparr>"
      using submit_all by blast
    have "lb_sent (snd (step sub book mid b)) = lb_sent (snd (for_each (submit_one sub) (step_actions b p) b1))"
      using assms pl
      by (cases "for_each (submit_one sub) (step_actions b p) b1"; cases "fst (for_each (submit_one sub) (step_actions b p) b1)")
         (auto simp: step_def comp_simps Let_def simp flip: b1_def)
    then show ?thesis using len n b1 by auto
  qed
qed



end
