(* ===== verification/Warmer.thy ===== *)
theory Warmer
  imports Main
begin

text \<open>
  The keep-warm thread (\<open>ConnectionWarmer\<close> of \<open>maker_live.cpp\<close>) as an interleaving of atomic
  steps: each critical section of \<open>start\<close> and \<open>stop\<close> is one step, and so are the worker's wait, its
  ping and its exit.  \<open>wa_handle\<close> says that the object holds a joinable thread, \<open>wa_joining\<close> that the
  call of \<open>stop\<close> that took the handle is waiting for the thread to end.
\<close>

datatype phase = NoThread | Waiting | Pinging | Exited

record ConnectionWarmer =
  wa_started :: bool
  wa_stop :: bool
  wa_handle :: bool
  wa_joining :: bool
  wa_phase :: phase
  wa_ticks :: nat

definition new_warmer :: ConnectionWarmer where
  "new_warmer = \<lparr>wa_started = False, wa_stop = False, wa_handle = False, wa_joining = False,
     wa_phase = NoThread, wa_ticks = 0\<rparr>"

definition start :: "ConnectionWarmer \<Rightarrow> ConnectionWarmer" where
  "start w = (if wa_started w \<or> wa_stop w then w
     else w\<lparr>wa_started := True, wa_handle := True, wa_phase := Waiting\<rparr>)"

definition stop_locked :: "ConnectionWarmer \<Rightarrow> ConnectionWarmer" where
  "stop_locked w = (if wa_stop w then w
     else w\<lparr>wa_stop := True, wa_joining := wa_handle w, wa_handle := False\<rparr>)"

text \<open>One iteration of \<open>run\<close>: the wait ends because of the stop flag or the timeout, then the ping.\<close>

definition wait_ends :: "ConnectionWarmer \<Rightarrow> ConnectionWarmer" where
  "wait_ends w = w\<lparr>wa_phase := (if wa_stop w then Exited else Pinging)\<rparr>"

definition ping_ends :: "bool \<Rightarrow> ConnectionWarmer \<Rightarrow> ConnectionWarmer" where
  "ping_ends threw w = w\<lparr>wa_phase := Waiting, wa_ticks := (if threw then wa_ticks w else wa_ticks w + 1)\<rparr>"

inductive warmer_step :: "ConnectionWarmer \<Rightarrow> ConnectionWarmer \<Rightarrow> bool" where
  call_start: "warmer_step w (start w)"
| call_stop: "warmer_step w (stop_locked w)"
| wakes: "wa_phase w = Waiting \<Longrightarrow> warmer_step w (wait_ends w)"
| pings: "wa_phase w = Pinging \<Longrightarrow> warmer_step w (ping_ends threw w)"
| joins: "wa_joining w \<Longrightarrow> wa_phase w = Exited \<Longrightarrow> warmer_step w (w\<lparr>wa_joining := False\<rparr>)"

inductive_cases warmer_stepE: "warmer_step w w'"

definition running :: "ConnectionWarmer \<Rightarrow> bool" where
  "running w \<longleftrightarrow> wa_phase w = Waiting \<or> wa_phase w = Pinging"

text \<open>A running thread is always held by the object or by the stop that will join it.\<close>

definition warmer_inv :: "ConnectionWarmer \<Rightarrow> bool" where
  "warmer_inv w \<longleftrightarrow> (running w \<longrightarrow> (if wa_stop w then wa_joining w else wa_handle w)) \<and>
     (wa_handle w \<longrightarrow> wa_started w \<and> \<not> wa_stop w) \<and> (wa_joining w \<longrightarrow> wa_stop w) \<and>
     (\<not> wa_started w \<longrightarrow> wa_phase w = NoThread) \<and> (wa_phase w = Exited \<longrightarrow> wa_stop w)"

lemma start_inv: "warmer_inv w \<Longrightarrow> warmer_inv (start w)"
  by (cases "wa_phase w"; cases "wa_stop w"; cases "wa_handle w"; cases "wa_joining w"; cases "wa_started w";
      simp add: warmer_inv_def running_def start_def)

lemma stop_inv: "warmer_inv w \<Longrightarrow> warmer_inv (stop_locked w)"
  by (cases "wa_phase w"; cases "wa_stop w"; cases "wa_handle w"; cases "wa_joining w"; cases "wa_started w";
      simp add: warmer_inv_def running_def stop_locked_def)

lemma wait_inv: "warmer_inv w \<Longrightarrow> wa_phase w = Waiting \<Longrightarrow> warmer_inv (wait_ends w)"
  by (cases "wa_phase w"; cases "wa_stop w"; cases "wa_handle w"; cases "wa_joining w"; cases "wa_started w";
      simp add: warmer_inv_def running_def wait_ends_def)

lemma ping_inv: "warmer_inv w \<Longrightarrow> wa_phase w = Pinging \<Longrightarrow> warmer_inv (ping_ends threw w)"
  by (cases "wa_phase w"; cases "wa_stop w"; cases "wa_handle w"; cases "wa_joining w"; cases "wa_started w";
      simp add: warmer_inv_def running_def ping_ends_def)

lemma join_inv: "warmer_inv w \<Longrightarrow> wa_phase w = Exited \<Longrightarrow> warmer_inv (w\<lparr>wa_joining := False\<rparr>)"
  by (cases "wa_phase w"; cases "wa_stop w"; cases "wa_handle w"; cases "wa_joining w"; cases "wa_started w";
      simp add: warmer_inv_def running_def)

lemma warmer_inv_step: "warmer_step w w' \<Longrightarrow> warmer_inv w \<Longrightarrow> warmer_inv w'"
  by (erule warmer_stepE) (simp_all only: start_inv stop_inv wait_inv ping_inv join_inv)

lemma warmer_inv_new: "warmer_inv new_warmer"
  by (simp add: warmer_inv_def running_def new_warmer_def)

lemma warmer_inv_reach: "warmer_step\<^sup>*\<^sup>* new_warmer w \<Longrightarrow> warmer_inv w"
  by (induction rule: rtranclp_induct) (rule warmer_inv_new, rule warmer_inv_step)

text \<open>A stopped and joined object: nothing runs, and no step changes that.\<close>

definition at_rest :: "ConnectionWarmer \<Rightarrow> bool" where
  "at_rest w \<longleftrightarrow> warmer_inv w \<and> wa_stop w \<and> \<not> wa_joining w"

lemma rest_not_running: "at_rest w \<Longrightarrow> \<not> running w"
  by (auto simp: at_rest_def warmer_inv_def)

lemma rest_step: "warmer_step w w' \<Longrightarrow> at_rest w \<Longrightarrow> w' = w"
proof -
  assume st: "warmer_step w w'" and r: "at_rest w"
  have "wa_stop w" "\<not> wa_joining w" "wa_phase w \<noteq> Waiting" "wa_phase w \<noteq> Pinging"
    using rest_not_running[OF r] r by (simp_all add: at_rest_def running_def)
  note facts = this
  from st show "w' = w"
    by (cases rule: warmer_step.cases) (use facts in \<open>simp_all add: start_def stop_locked_def\<close>)
qed

lemma rest_steps: "warmer_step\<^sup>*\<^sup>* w w' \<Longrightarrow> at_rest w \<Longrightarrow> w' = w"
  by (induction rule: rtranclp_induct) (simp_all add: rest_step)



end
