(* ===== verification/RateLimit.thy ===== *)
theory RateLimit
  imports Models
begin

text \<open>
  The rate limiter (\<open>ratelimit.hpp\<close>).  Clock readings are the steady clock's nanosecond counts.
  A blocking \<open>acquire\<close> runs over the list of the readings it gets: with no reading left it is still
  blocked (\<open>None\<close>), and it collects the durations it sleeps.  The critical sections of several
  threads interleave as a sequence of bucket events.
\<close>

record TokenBucket =
  tk_rate :: double
  tk_capacity :: double
  tk_reserve :: double
  tk_tokens :: double
  tk_last :: int
  tk_granted :: double
  tk_granted_low :: double

definition secs :: "int \<Rightarrow> double" where
  "secs d = of_i d / lit (10 ^ 9)"

definition new_bucket :: "int \<Rightarrow> double \<Rightarrow> double option \<Rightarrow> double \<Rightarrow> TokenBucket" where
  "new_bucket now rate burst reserve =
     (let cap = (case burst of Some b \<Rightarrow> b | None \<Rightarrow> cmax 1 rate) in
      \<lparr>tk_rate = rate, tk_capacity = cap, tk_reserve = reserve, tk_tokens = cap, tk_last = now,
       tk_granted = 0, tk_granted_low = 0\<rparr>)"

definition refill_locked :: "int \<Rightarrow> TokenBucket \<Rightarrow> TokenBucket" where
  "refill_locked t b =
     (let elapsed = secs (t - tk_last b) in
      if 0 < elapsed
      then b\<lparr>tk_tokens := cmin (tk_capacity b) (tk_tokens b + elapsed * tk_rate b), tk_last := t\<rparr>
      else b)"

definition count_locked :: "double \<Rightarrow> bool \<Rightarrow> TokenBucket \<Rightarrow> TokenBucket" where
  "count_locked n low b = b\<lparr>tk_granted := tk_granted b + n,
     tk_granted_low := (if low then tk_granted_low b + n else tk_granted_low b)\<rparr>"

definition floor_for :: "bool \<Rightarrow> TokenBucket \<Rightarrow> double" where
  "floor_for low b = (if low then tk_reserve b else 0)"

text \<open>The critical section shared by \<open>try_acquire\<close> and the loop of \<open>acquire\<close>\<close>

definition try_acquire :: "int \<Rightarrow> double \<Rightarrow> bool \<Rightarrow> TokenBucket \<Rightarrow> bool \<times> TokenBucket" where
  "try_acquire now n low b =
     (let b1 = refill_locked now b in
      if n + floor_for low b \<le> tk_tokens b1
      then (True, count_locked n low (b1\<lparr>tk_tokens := tk_tokens b1 - n\<rparr>))
      else (False, b1))"

definition available :: "int \<Rightarrow> TokenBucket \<Rightarrow> double \<times> TokenBucket" where
  "available now b = (tk_tokens (refill_locked now b), refill_locked now b)"

text \<open>How long the loop sleeps after a failed attempt\<close>

definition wait_for :: "double \<Rightarrow> bool \<Rightarrow> TokenBucket \<Rightarrow> double" where
  "wait_for n low b =
     (if 0 < tk_rate b then (n + floor_for low b - tk_tokens b) / tk_rate b else lit (5 / 100))"

definition sleep_of :: "double \<Rightarrow> double" where
  "sleep_of w = cmin (cmax w 0) (lit (5 / 100))"

text \<open>The deadline of a timeout given in seconds: the duration is truncated to nanoseconds.\<close>

fun trunc_ns :: "double \<Rightarrow> int" where
  "trunc_ns (Fin q) = (if 0 \<le> q then \<lfloor>q\<rfloor> else \<lceil>q\<rceil>)"
| "trunc_ns _ = - (2 ^ 63)"

definition deadline_of :: "int \<Rightarrow> double option \<Rightarrow> int option" where
  "deadline_of now timeout = map_option (\<lambda>s. now + trunc_ns (s * lit (10 ^ 9))) timeout"

fun acquire_loop ::
  "int option \<Rightarrow> double \<Rightarrow> bool \<Rightarrow> int list \<Rightarrow> TokenBucket \<Rightarrow> bool option \<times> TokenBucket \<times> double list" where
  "acquire_loop deadline n low [] b = (None, b, [])"
| "acquire_loop None n low (t # ts) b =
     (let (got, b1) = try_acquire t n low b in
      if got then (Some True, b1, [])
      else let (r, b2, sl) = acquire_loop None n low ts b1 in (r, b2, sleep_of (wait_for n low b1) # sl))"
| "acquire_loop (Some d) n low [t] b =
     (let (got, b1) = try_acquire t n low b in if got then (Some True, b1, []) else (None, b1, []))"
| "acquire_loop (Some d) n low (t # t' # ts) b =
     (let (got, b1) = try_acquire t n low b in
      if got then (Some True, b1, [])
      else let remaining = secs (d - t') in
        if remaining \<le> 0 then (Some False, b1, [])
        else let (r, b2, sl) = acquire_loop (Some d) n low ts b1
             in (r, b2, sleep_of (cmin (wait_for n low b1) remaining) # sl))"

text \<open>With a timeout the first reading computes the deadline.\<close>

definition acquire ::
  "double \<Rightarrow> double option \<Rightarrow> bool \<Rightarrow> int list \<Rightarrow> TokenBucket \<Rightarrow> bool option \<times> TokenBucket \<times> double list" where
  "acquire n timeout low clock b =
     (case timeout of
        None \<Rightarrow> acquire_loop None n low clock b
      | Some s \<Rightarrow> (case clock of [] \<Rightarrow> (None, b, [])
                  | t # ts \<Rightarrow> acquire_loop (deadline_of t (Some s)) n low ts b))"

section \<open>The limiter\<close>

definition classify :: "string \<Rightarrow> string option \<Rightarrow> string \<times> double" where
  "classify p m =
     (let write = m = Some ''POST'' \<or> m = Some ''DELETE'' in
      if write \<and> contains ''/cancel-all'' p then (''cancel_all'', lit 25)
      else if write \<and> contains ''/orders'' p then (''orders_batch'', lit 200)
      else if write \<and> contains ''/order'' p then (''order_write'', lit 200)
      else if contains ''/data/trades'' p then (''data_trades'', lit 50)
      else if contains ''/prices-history'' p then (''prices_history'', lit 100)
      else if contains ''/books'' p then (''books_batch'', lit 50)
      else if contains ''/book'' p then (''book'', lit 150)
      else if contains ''/midpoints'' p then (''midpoints_batch'', lit 50)
      else if contains ''/midpoint'' p then (''midpoint'', lit 150)
      else if contains ''/prices'' p then (''prices_batch'', lit 50)
      else if contains ''/price'' p then (''price'', lit 150)
      else if contains ''/sampling'' p then (''sampling'', lit 50)
      else if contains ''/markets'' p then (''markets'', lit 30)
      else (''clob_misc'', lit 90))"

record RateLimiter =
  rl_host :: TokenBucket
  rl_buckets :: "(string, TokenBucket) smap"

definition new_limiter :: "int \<Rightarrow> RateLimiter" where
  "new_limiter now = \<lparr>rl_host = new_bucket now (lit 900) (Some (lit 1500)) 0, rl_buckets = []\<rparr>"

definition bucket_for :: "int \<Rightarrow> string \<Rightarrow> double \<Rightarrow> RateLimiter \<Rightarrow> TokenBucket \<times> RateLimiter" where
  "bucket_for now key rate rl =
     (case smap_get (rl_buckets rl) key of
        Some b \<Rightarrow> (b, rl)
      | None \<Rightarrow> let b = new_bucket now rate (Some (cmax rate (rate * lit (12 / 10)))) 0
                in (b, rl\<lparr>rl_buckets := smap_put key b (rl_buckets rl)\<rparr>))"

text \<open>
  The limiter's \<open>acquire\<close>: it takes a token of the endpoint's bucket, then one of the host bucket;
  the readings of the two waits are given separately.  The answer says whether both were granted.
\<close>

definition limiter_acquire ::
  "string \<Rightarrow> string option \<Rightarrow> int \<Rightarrow> int list \<Rightarrow> int list \<Rightarrow> RateLimiter \<Rightarrow> bool \<times> RateLimiter" where
  "limiter_acquire path m now clock1 clock2 rl =
     (let (key, rate) = classify path m; (b, rl1) = bucket_for now key rate rl;
          (got, b', sl) = acquire 1 None False clock1 b;
          rl2 = rl1\<lparr>rl_buckets := smap_put key b' (rl_buckets rl1)\<rparr>
      in if got = None then (False, rl2)
         else let (got2, h', sl2) = acquire 1 None False clock2 (rl_host rl2)
              in (got2 \<noteq> None, rl2\<lparr>rl_host := h'\<rparr>))"

definition granted_for :: "string \<Rightarrow> RateLimiter \<Rightarrow> double" where
  "granted_for key rl = (case smap_get (rl_buckets rl) key of None \<Rightarrow> 0 | Some b \<Rightarrow> tk_granted b)"

section \<open>The bucket's invariant\<close>

definition bucket_ok :: "TokenBucket \<Rightarrow> bool" where
  "bucket_ok b \<longleftrightarrow> 0 \<le> tk_tokens b \<and> tk_tokens b \<le> tk_capacity b \<and> finite_d (tk_capacity b) \<and>
     isD (tk_capacity b) \<and> isD (tk_tokens b) \<and> 0 \<le> tk_rate b \<and> finite_d (tk_rate b) \<and> isD (tk_rate b) \<and>
     0 \<le> tk_reserve b \<and> finite_d (tk_reserve b) \<and> isD (tk_reserve b)"

lemma between_finite: "0 \<le> x \<Longrightarrow> x \<le> y \<Longrightarrow> finite_d y \<Longrightarrow> finite_d (x::double)"
  by (cases x; cases y) (auto simp: zero_double_def)

lemma refill_keeps:
  "tk_capacity (refill_locked t b) = tk_capacity b" "tk_rate (refill_locked t b) = tk_rate b"
  "tk_reserve (refill_locked t b) = tk_reserve b" "tk_granted (refill_locked t b) = tk_granted b"
  by (simp_all add: refill_locked_def Let_def)

lemma secs_not_special: "0 < secs d \<Longrightarrow> finite_d (secs d) \<or> secs d = PInf"
  by (cases "secs d") (auto simp: zero_double_def less_double_def)

lemma plus_NaN: "x + NaN = NaN"
  by (cases x) (simp_all add: plus_double_def)

lemma elapsed_tokens: "0 < e \<Longrightarrow> e = PInf \<or> finite_d e \<Longrightarrow> 0 \<le> r \<Longrightarrow> finite_d r \<Longrightarrow> 0 \<le> e * r \<or> e * r = NaN"
proof (cases "finite_d e")
  case False
  assume "e = PInf \<or> finite_d e" "0 \<le> r" "finite_d r"
  with False obtain q where "e = PInf" "r = Fin q" "0 \<le> q" by (cases r) (auto simp: zero_double_def)
  then show ?thesis by (simp add: times_double_def sinf_def zero_double_def)
qed (simp add: mult_nonneg_d less_le_d)

lemma top_up_bounds:
  assumes "0 \<le> x" "finite_d x" "isD x" "0 \<le> c" "isD c" "0 \<le> y \<or> y = NaN"
  shows "0 \<le> cmin c (x + y) \<and> cmin c (x + y) \<le> c \<and> isD (cmin c (x + y))"
proof (cases "x + y < c")
  case True
  then have "y \<noteq> NaN" using plus_NaN by auto
  then have "0 \<le> x + y" using add_nonneg_d assms by blast
  moreover have "isD (x + y)" using assms(2) by (cases x; cases y) (auto simp: plus_double_def)
  ultimately show ?thesis using True by (simp add: cmin_def less_le_d)
next
  case False
  then show ?thesis using assms(4,5) le_not_nan[OF assms(4)] by (simp add: cmin_def)
qed

lemma refill_ok:
  assumes "bucket_ok b" shows "bucket_ok (refill_locked t b)"
proof (cases "0 < secs (t - tk_last b)")
  case True
  define e where "e = secs (t - tk_last b)"
  have ft: "finite_d (tk_tokens b)" using assms between_finite[of "tk_tokens b" "tk_capacity b"] by (auto simp: bucket_ok_def)
  have "0 \<le> e * tk_rate b \<or> e * tk_rate b = NaN"
    using True secs_not_special[of "t - tk_last b"] assms by (intro elapsed_tokens) (auto simp: e_def bucket_ok_def)
  moreover have "0 \<le> tk_capacity b" using assms by (auto simp: bucket_ok_def intro: le_trans_d)
  ultimately have "0 \<le> cmin (tk_capacity b) (tk_tokens b + e * tk_rate b) \<and>
      cmin (tk_capacity b) (tk_tokens b + e * tk_rate b) \<le> tk_capacity b \<and>
      isD (cmin (tk_capacity b) (tk_tokens b + e * tk_rate b))"
    using assms ft by (intro top_up_bounds) (simp_all add: bucket_ok_def)
  then show ?thesis using True assms by (simp add: refill_locked_def Let_def bucket_ok_def e_def)
qed (simp add: refill_locked_def Let_def assms)

lemma try_acquire_ok:
  assumes "bucket_ok b" "0 \<le> n" "isD n" "finite_d n"
  shows "bucket_ok (snd (try_acquire now n low b))"
proof -
  define b1 where "b1 = refill_locked now b"
  have b1: "bucket_ok b1" using refill_ok[OF assms(1)] by (simp add: b1_def)
  have ft: "finite_d (tk_tokens b1)" using b1 between_finite[of "tk_tokens b1" "tk_capacity b1"] by (auto simp: bucket_ok_def)
  have "0 \<le> floor_for low b" using assms(1) by (simp add: floor_for_def bucket_ok_def zero_double_def)
  then have ge: "n \<le> n + floor_for low b" using assms by (intro add_ge_d) auto
  have "0 \<le> tk_tokens b1 - n \<and> tk_tokens b1 - n \<le> tk_capacity b1" if "n + floor_for low b \<le> tk_tokens b1"
    using sub_nonneg_d[OF le_trans_d[OF ge that] assms(4)] sub_le_d[of "tk_tokens b1" n] b1 ft assms(2)
    by (auto simp: bucket_ok_def intro: le_trans_d)
  then show ?thesis using b1 assms
    by (auto simp: try_acquire_def Let_def count_locked_def bucket_ok_def simp flip: b1_def)
qed

definition request_ok :: "double \<Rightarrow> bool" where
  "request_ok n \<longleftrightarrow> 0 \<le> n \<and> isD n \<and> finite_d n"

text \<open>The critical sections of any number of threads, in the order the mutex serialises them\<close>

inductive bucket_event :: "TokenBucket \<Rightarrow> TokenBucket \<Rightarrow> bool" where
  attempt: "request_ok n \<Longrightarrow> bucket_event b (snd (try_acquire now n low b))"
| reading: "bucket_event b (snd (available now b))"

inductive_cases bucket_eventE: "bucket_event b b'"

lemma try_acquire_keeps: "tk_capacity (snd (try_acquire now n low b)) = tk_capacity b"
  by (simp add: try_acquire_def Let_def count_locked_def refill_keeps)

lemma bucket_event_ok: "bucket_event b b' \<Longrightarrow> bucket_ok b \<Longrightarrow> bucket_ok b' \<and> tk_capacity b' = tk_capacity b"
  by (erule bucket_eventE)
    (simp_all add: try_acquire_ok request_ok_def available_def refill_ok refill_keeps try_acquire_keeps)

lemma bucket_events_ok: "bucket_event\<^sup>*\<^sup>* b b' \<Longrightarrow> bucket_ok b \<Longrightarrow> bucket_ok b' \<and> tk_capacity b' = tk_capacity b"
  by (induction rule: rtranclp_induct) (auto dest: bucket_event_ok)

text \<open>
  Whatever the clock shows and however the threads' attempts interleave, a bucket holds
  between zero and its capacity of tokens, so no attempt for more than the capacity is ever
  granted.
\<close>

theorem bucket_bounded:
  assumes "bucket_ok b" "bucket_event\<^sup>*\<^sup>* b b'" "request_ok n"
  shows "0 \<le> tk_tokens b' \<and> tk_tokens b' \<le> tk_capacity b \<and>
    (fst (try_acquire now n False b') \<longrightarrow> n \<le> tk_capacity b)"
proof -
  have b': "bucket_ok b'" "tk_capacity b' = tk_capacity b" using bucket_events_ok[OF assms(2,1)] by auto
  have ge: "n \<le> n + 0" using assms(3) by (intro add_ge_d) (auto simp: request_ok_def zero_double_def)
  have r: "tk_tokens (refill_locked now b') \<le> tk_capacity b"
    using refill_ok[OF b'(1), of now] b'(2) by (simp add: bucket_ok_def refill_keeps)
  have "n \<le> tk_capacity b" if "fst (try_acquire now n False b')"
  proof -
    have "n + 0 \<le> tk_tokens (refill_locked now b')"
      using that by (simp add: try_acquire_def Let_def floor_for_def split: if_splits)
    then show ?thesis using ge r by (blast intro: le_trans_d)
  qed
  then show ?thesis using b' by (simp add: bucket_ok_def)
qed

definition demo_bucket :: TokenBucket where
  "demo_bucket = new_bucket 0 (Fin 8) (Some (Fin 16)) 0"

lemma demo_bucket_ok: "bucket_ok demo_bucket"
proof -
  have "isD (Fin 8)" "isD (Fin 16)" "isD (Fin 0)" by code_simp+
  then show ?thesis by (simp add: demo_bucket_def new_bucket_def Let_def bucket_ok_def zero_double_def del: isD.simps)
qed

lemma demo_bucket_fields [simp]: "tk_capacity demo_bucket = Fin 16" "tk_granted demo_bucket = 0"
  by (simp_all add: demo_bucket_def new_bucket_def Let_def)

lemma request_one: "request_ok 1"
  by (simp add: request_ok_def one_double_def zero_double_def)

lemma bucket_bounded_witness:
  "let b' = snd (try_acquire 1000000000 1 False demo_bucket)
   in 0 \<le> tk_tokens b' \<and> tk_tokens b' \<le> Fin 16"
  using bucket_bounded[OF demo_bucket_ok r_into_rtranclp[of bucket_event, OF attempt[OF request_one]] request_one]
  by simp

section \<open>Waiting\<close>

lemma sleep_bounds: "w \<noteq> NaN \<Longrightarrow> 0 \<le> sleep_of w \<and> sleep_of w \<le> lit (5 / 100)"
proof -
  assume w: "w \<noteq> NaN"
  have l: "0 \<le> lit (5 / 100)" "lit (5 / 100) \<noteq> NaN" unfolding lit_def zero_double_def by (rule fl_ge; simp) (rule fl_not_nan)
  have z: "(0::double) \<noteq> NaN" by (simp add: zero_double_def)
  have "cmax w 0 \<noteq> NaN" "0 \<le> cmax w 0" using w z by (auto simp: cmax_def not_less_d less_le_d)
  then show ?thesis using l by (auto simp: sleep_of_def cmin_def not_less_d less_le_d)
qed

lemma plus_not_nan: "x \<noteq> NaN \<Longrightarrow> finite_d y \<Longrightarrow> x + y \<noteq> NaN"
  by (cases x; cases y) (auto simp: plus_double_def)

lemma wait_not_nan:
  assumes "bucket_ok b" "request_ok n" shows "wait_for n low b \<noteq> NaN"
proof -
  have ft: "finite_d (tk_tokens b)" using assms(1) between_finite[of "tk_tokens b" "tk_capacity b"] by (auto simp: bucket_ok_def)
  have "finite_d (floor_for low b)" using assms(1) by (simp add: floor_for_def bucket_ok_def zero_double_def)
  then have "n + floor_for low b \<noteq> NaN" using assms(2) by (intro plus_not_nan) (auto simp: request_ok_def)
  moreover have "finite_d (- tk_tokens b)" using ft by (cases "tk_tokens b") auto
  ultimately have d: "n + floor_for low b - tk_tokens b \<noteq> NaN" unfolding minus_double_def by (rule plus_not_nan)
  have "x / y \<noteq> NaN" if "x \<noteq> NaN" "0 < y" "finite_d y" for x y :: double
    using that by (cases x; cases y) (auto simp: divide_double_def sinf_def zero_double_def)
  then show ?thesis using d assms(1) by (auto simp: wait_for_def bucket_ok_def lit_def)
qed

lemma secs_not_nan: "secs d \<noteq> NaN"
proof -
  have "lit (10 ^ 9) = Fin (10 ^ 9)" by code_simp
  then show ?thesis by (cases "of_i d") (auto simp: secs_def of_i_def divide_double_def sinf_def)
qed

definition grant_adds :: "double \<Rightarrow> bool option \<Rightarrow> TokenBucket \<Rightarrow> TokenBucket \<Rightarrow> bool" where
  "grant_adds n r b b' \<longleftrightarrow> tk_granted b' = (if r = Some True then tk_granted b + n else tk_granted b)"

lemma try_grants: "try_acquire t n low b = (got, b1) \<Longrightarrow> grant_adds n (Some got) b b1"
  by (auto simp: try_acquire_def Let_def count_locked_def grant_adds_def refill_keeps split: if_splits)

lemma acquire_loop_ok:
  assumes "bucket_ok b" "request_ok n"
  shows "case acquire_loop dl n low clock b of (r, b', sl) \<Rightarrow>
     bucket_ok b' \<and> grant_adds n r b b' \<and> list_all (\<lambda>s. 0 \<le> s \<and> s \<le> lit (5 / 100)) sl"
  using assms
proof (induction dl n low clock b rule: acquire_loop.induct)
  case (1 dl n low b)
  then show ?case by (simp add: grant_adds_def)
next
  case (2 n low t ts b)
  obtain got b1 where t: "try_acquire t n low b = (got, b1)" by fastforce
  have ok: "bucket_ok b1" using try_acquire_ok[of b n t low] 2(2,3) t by (simp add: request_ok_def)
  show ?case
  proof (cases got)
    case False
    have g: "tk_granted b1 = tk_granted b" using try_grants[OF t] False by (simp add: grant_adds_def)
    obtain r b2 sl where l: "acquire_loop None n low ts b1 = (r, b2, sl)" by (cases "acquire_loop None n low ts b1") auto
    have "bucket_ok b2 \<and> grant_adds n r b1 b2 \<and> list_all (\<lambda>s. 0 \<le> s \<and> s \<le> lit (5 / 100)) sl"
      using 2(1)[OF t[symmetric] refl False ok 2(3)] l by simp
    then show ?thesis using t False l g sleep_bounds[OF wait_not_nan[OF ok 2(3)]] by (simp add: grant_adds_def)
  qed (use t ok try_grants[OF t] in simp)
next
  case (3 d n low t b)
  obtain got b1 where t: "try_acquire t n low b = (got, b1)" by fastforce
  have ok: "bucket_ok b1" using try_acquire_ok[of b n t low] 3 t by (simp add: request_ok_def)
  show ?case using try_grants[OF t] ok t by (cases got) (simp_all add: grant_adds_def)
next
  case (4 d n low t t' ts b)
  obtain got b1 where t: "try_acquire t n low b = (got, b1)" by fastforce
  have ok: "bucket_ok b1" using try_acquire_ok[of b n t low] 4(2,3) t by (simp add: request_ok_def)
  show ?case
  proof (cases "got \<or> secs (d - t') \<le> 0")
    case True
    then show ?thesis using try_grants[OF t] ok t by (cases got) (simp_all add: grant_adds_def)
  next
    case False
    then have f: "\<not> got" "\<not> secs (d - t') \<le> 0" by auto
    have g: "tk_granted b1 = tk_granted b" using try_grants[OF t] f by (simp add: grant_adds_def)
    obtain r b2 sl where l: "acquire_loop (Some d) n low ts b1 = (r, b2, sl)" by (cases "acquire_loop (Some d) n low ts b1") auto
    have "bucket_ok b2 \<and> grant_adds n r b1 b2 \<and> list_all (\<lambda>s. 0 \<le> s \<and> s \<le> lit (5 / 100)) sl"
      using 4(1)[OF t[symmetric] refl f(1) refl f(2) ok 4(3)] l by simp
    moreover have "cmin (wait_for n low b1) (secs (d - t')) \<noteq> NaN"
      using wait_not_nan[OF ok 4(3)] secs_not_nan by (simp add: cmin_def)
    ultimately show ?thesis using t f l g sleep_bounds by (simp add: grant_adds_def)
  qed
qed

lemma acquire_run_ok:
  assumes "bucket_ok b" "request_ok n" "acquire n timeout low clock b = (r, b', sl)"
  shows "bucket_ok b' \<and> grant_adds n r b b' \<and> list_all (\<lambda>s. 0 \<le> s \<and> s \<le> lit (5 / 100)) sl"
proof (cases timeout)
  case None
  then show ?thesis using acquire_loop_ok[OF assms(1,2), of None low clock] assms(3) by (simp add: acquire_def)
next
  case (Some x)
  show ?thesis
  proof (cases clock)
    case Nil
    then show ?thesis using assms Some by (auto simp: acquire_def grant_adds_def)
  next
    case (Cons t ts)
    then show ?thesis using acquire_loop_ok[OF assms(1,2), of "deadline_of t (Some x)" low ts] assms(3) Some
      by (simp add: acquire_def)
  qed
qed

lemma secs_past: "d \<le> 0 \<Longrightarrow> secs d \<le> 0"
proof -
  assume "d \<le> 0"
  have l: "lit (10 ^ 9) = Fin (10 ^ 9)" by code_simp
  have "isD (Fin 0)" by simp
  then have "of_i d \<le> Fin 0" unfolding of_i_def using \<open>d \<le> 0\<close> by (intro fl_le) simp_all
  then show ?thesis using div_mono_c[of "of_i d" "Fin 0" "10 ^ 9"] unfolding secs_def l
    by (simp add: divide_double_def zero_double_def fl_def)
qed



section \<open>Endpoints\<close>

definition endpoint_rates :: "(string \<times> double) list" where
  "endpoint_rates = [(''cancel_all'', lit 25), (''orders_batch'', lit 200), (''order_write'', lit 200),
     (''data_trades'', lit 50), (''prices_history'', lit 100), (''books_batch'', lit 50), (''book'', lit 150),
     (''midpoints_batch'', lit 50), (''midpoint'', lit 150), (''prices_batch'', lit 50), (''price'', lit 150),
     (''sampling'', lit 50), (''markets'', lit 30), (''clob_misc'', lit 90)]"

lemma endpoint_keys: "distinct (map fst endpoint_rates)"
  by (simp add: endpoint_rates_def)

lemma if_mem: "x \<in> S \<Longrightarrow> y \<in> S \<Longrightarrow> (if b then x else y) \<in> S"
  by simp

lemma classify_listed: "classify p m \<in> set endpoint_rates"
  unfolding classify_def Let_def endpoint_rates_def list.set
  by (intro if_mem) (simp_all only: insert_iff simp_thms)

lemma classify_rate: "classify p m = (k, r) \<Longrightarrow> map_of endpoint_rates k = Some r"
  using classify_listed[of p m] endpoint_keys by (simp add: map_of_eq_Some_iff)

lemma listed_rates: "list_all (\<lambda>(k, r). 0 < r \<and> mag 10 r \<and> isD r) endpoint_rates"
proof -
  have "0 < lit q \<and> mag 10 (lit q) \<and> isD (lit q)" if "1 \<le> q" "q \<le> 1000" for q
  proof -
    have "q \<le> 2 ^ 53" using that(2) by (rule order_trans) simp
    then have "lit q = Fin (rnd q)" unfolding lit_def using that by (intro fl_small) auto
    moreover have "1 \<le> rnd q" using rnd_mono[OF that(1)] by simp
    moreover have "mag 10 (lit q)" unfolding lit_def using that by (intro mag_fl) auto
    ultimately show ?thesis using isD_lit[of q] by (simp add: zero_double_def del: isD.simps)
  qed
  then show ?thesis by (simp add: endpoint_rates_def del: isD.simps)
qed

definition limiter_ok :: "RateLimiter \<Rightarrow> bool" where
  "limiter_ok rl \<longleftrightarrow> bucket_ok (rl_host rl) \<and> (\<forall>k b. smap_get (rl_buckets rl) k = Some b \<longrightarrow>
     bucket_ok b \<and> map_of endpoint_rates k = Some (tk_rate b))"

lemma new_bucket_ok:
  assumes "0 \<le> rate" "finite_d rate" "isD rate" "0 \<le> cap" "finite_d cap" "isD cap"
  shows "bucket_ok (new_bucket now rate (Some cap) 0)"
proof -
  have "isD (0::double)" "cap \<noteq> NaN" "(0::double) \<le> 0" "finite_d (0::double)" using assms(5) by (auto simp: zero_double_def)
  then show ?thesis using assms by (simp add: new_bucket_def bucket_ok_def)
qed

lemma loop_keeps_rate: "tk_rate (fst (snd (acquire_loop dl n low clock b))) = tk_rate b"
proof (induction dl n low clock b rule: acquire_loop.induct)
  case (2 n low t ts b)
  then show ?case by (auto simp: try_acquire_def count_locked_def refill_keeps Let_def split: prod.splits if_splits)
next
  case (4 d n low t t' ts b)
  then show ?case by (auto simp: try_acquire_def count_locked_def refill_keeps Let_def split: prod.splits if_splits)
qed (auto simp: try_acquire_def count_locked_def refill_keeps Let_def split: prod.splits if_splits)

lemma bucket_for_ok:
  assumes "limiter_ok rl" "bucket_for now key rate rl = (b, rl1)" "map_of endpoint_rates key = Some rate"
    and rate: "0 \<le> rate" "mag 10 rate" "isD rate"
  shows "bucket_ok b \<and> tk_rate b = rate \<and> limiter_ok rl1"
proof (cases "smap_get (rl_buckets rl) key")
  case None
  let ?c = "cmax rate (rate * lit (12 / 10))"
  have "mag 1 (lit (12 / 10))" unfolding lit_def by (rule mag_fl) simp_all
  then have p: "mag (10 + 1) (rate * lit (12 / 10))" by (rule mag_times[OF rate(2)]) simp
  have c: "finite_d ?c" "isD ?c"
    using mag_finite[OF p] mag_finite[OF rate(2)] rate(3) by (simp_all add: cmax_def)
  have "0 \<le> ?c" using rate(1) by (auto simp: cmax_def less_le_d intro: le_trans_d)
  from new_bucket_ok[OF rate(1) mag_finite[OF rate(2)] rate(3) this c]
  have "bucket_ok (new_bucket now rate (Some ?c) 0)" .
  moreover have "tk_rate (new_bucket now rate (Some ?c) 0) = rate" by (simp add: new_bucket_def Let_def)
  ultimately show ?thesis using assms None
    by (auto simp: bucket_for_def limiter_ok_def Let_def smap_simps split: if_splits)
next
  case (Some x)
  then show ?thesis using assms by (auto simp: bucket_for_def limiter_ok_def)
qed

text \<open>
  Every request path is classified into one of the fourteen documented endpoints, a write to
  an order path into one of the three write endpoints; and whatever requests the limiter serves,
  each of its buckets keeps the documented rate of its endpoint and stays within its bounds.
\<close>

theorem limiter_keeps_rates:
  assumes "limiter_ok rl" "limiter_acquire path m now clock1 clock2 rl = (done, rl')"
  shows "limiter_ok rl' \<and> map_of endpoint_rates (fst (classify path m)) = Some (snd (classify path m)) \<and>
    (m = Some ''POST'' \<and> contains ''/order'' path \<longrightarrow>
       fst (classify path m) \<in> {''cancel_all'', ''orders_batch'', ''order_write''})"
proof -
  obtain key rate where c: "classify path m = (key, rate)" by fastforce
  obtain b rl1 where bf: "bucket_for now key rate rl = (b, rl1)" by fastforce
  note r1 = classify_rate[OF c]
  have "0 < rate \<and> mag 10 rate \<and> isD rate"
    using listed_rates classify_listed[of path m] c by (auto simp: list_all_iff)
  then have rate: "0 \<le> rate" "mag 10 rate" "isD rate" by (auto intro: less_le_d)
  have b: "bucket_ok b" "tk_rate b = rate" "limiter_ok rl1"
    using bucket_for_ok[OF assms(1) bf r1 rate] by blast+
  obtain got b' sl where a1: "acquire 1 None False clock1 b = (got, b', sl)" by (cases "acquire 1 None False clock1 b") auto
  have b': "bucket_ok b'" "tk_rate b' = rate"
    using acquire_run_ok[OF b(1) request_one a1] loop_keeps_rate[of None 1 False clock1 b] a1 b(2)
    by (simp_all add: acquire_def)
  define rl2 where "rl2 = rl1\<lparr>rl_buckets := smap_put key b' (rl_buckets rl1)\<rparr>"
  have rl2: "limiter_ok rl2" using b(3) b' r1 by (auto simp: limiter_ok_def rl2_def smap_simps split: if_splits)
  obtain got2 h' sl2 where a2: "acquire 1 None False clock2 (rl_host rl2) = (got2, h', sl2)"
    by (cases "acquire 1 None False clock2 (rl_host rl2)") auto
  have h': "bucket_ok h'" using acquire_run_ok[OF _ request_one a2] rl2 by (simp add: limiter_ok_def)
  have "rl' = (if got = None then rl2 else rl2\<lparr>rl_host := h'\<rparr>)"
    using assms(2) c bf a1 a2 by (auto simp: limiter_acquire_def simp flip: rl2_def split: if_splits)
  then have "limiter_ok rl'" using rl2 h' by (simp add: limiter_ok_def)
  moreover have "m = Some ''POST'' \<and> contains ''/order'' path \<longrightarrow>
       fst (classify path m) \<in> {''cancel_all'', ''orders_batch'', ''order_write''}"
    by (simp add: classify_def Let_def)
  ultimately show ?thesis using r1 c by simp
qed

lemma new_limiter_ok: "limiter_ok (new_limiter now)"
proof -
  have "0 \<le> lit 900" "finite_d (lit 900)" "isD (lit 900)" "0 \<le> lit 1500" "finite_d (lit 1500)" "isD (lit 1500)"
    by code_simp+
  then show ?thesis by (simp add: limiter_ok_def new_limiter_def new_bucket_ok smap_get_def)
qed

lemma limiter_keeps_rates_witness:
  "limiter_ok (snd (limiter_acquire ''/book'' (Some ''GET'') 0 [0] [0] (new_limiter 0)))"
  using limiter_keeps_rates[OF new_limiter_ok, of "''/book''" "Some ''GET''" 0 "[0]" "[0]" 0] by (metis prod.collapse)

end
