(* ===== verification/Http.thy ===== *)
theory Http
  imports Models
begin

text \<open>
  What the HTTP clients share: a response, the JSON library (\<open>json::parse\<close> and \<open>dump\<close>, parameters),
  the network (a parameter: the response to the \<open>n\<close>-th request of a path within one call), the
  translation of a response into a JSON value or a thrown \<open>ApiError\<close>, and query strings.
\<close>

record HttpResponse =
  hr_status :: int
  hr_body :: string

record jlib =
  jl_parse :: "string \<Rightarrow> json option"
  jl_dump :: "json \<Rightarrow> string"

type_synonym network = "nat \<Rightarrow> string \<Rightarrow> HttpResponse"

text \<open>The body shared by \<open>RewardsClient::get\<close>, \<open>gamma_get\<close> and \<open>clob_get\<close>; \<open>who\<close> begins the messages.\<close>

definition json_reply :: "jlib \<Rightarrow> string \<Rightarrow> HttpResponse \<Rightarrow> sim_error + json" where
  "json_reply jl who r =
     (if hr_status r = 0 then Inl (ApiError (who @ '' request failed'') None)
      else if 400 \<le> hr_status r
      then Inl (ApiError (who @ '' error: '' @ int_str (hr_status r) @ '' '' @ take 200 (hr_body r)) (Some (hr_status r)))
      else case jl_parse jl (hr_body r) of
        None \<Rightarrow> Inl (ApiError (who @ '': invalid JSON response'') None)
      | Some j \<Rightarrow> Inr j)"

lemma json_reply_error: "json_reply jl who r = Inl e \<Longrightarrow> \<exists>msg st. e = ApiError msg st"
  by (auto simp: json_reply_def split: if_splits option.splits)

definition is_object :: "json \<Rightarrow> bool" where
  "is_object j \<longleftrightarrow> (case j of JObj _ \<Rightarrow> True | _ \<Rightarrow> False)"

definition is_array :: "json \<Rightarrow> bool" where
  "is_array j \<longleftrightarrow> (case j of JArr _ \<Rightarrow> True | _ \<Rightarrow> False)"

definition is_number :: "json \<Rightarrow> bool" where
  "is_number j \<longleftrightarrow> (case j of JInt _ \<Rightarrow> True | JFloat _ \<Rightarrow> True | _ \<Rightarrow> False)"

text \<open>The elements of an array, and nothing for any other value (the loops that test \<open>is_array\<close> first)\<close>

definition elements :: "json \<Rightarrow> json list" where
  "elements j = (case j of JArr xs \<Rightarrow> xs | _ \<Rightarrow> [])"

text \<open>A range-for over a JSON value: an object's values in key order, a scalar once.\<close>

definition items :: "json \<Rightarrow> json list" where
  "items j = (case j of JArr xs \<Rightarrow> xs | JObj kvs \<Rightarrow> map snd kvs | JNull \<Rightarrow> [] | v \<Rightarrow> [v])"

definition find_elements :: "json \<Rightarrow> string \<Rightarrow> json list" where
  "find_elements j key = (case jfind j key of None \<Rightarrow> [] | Some v \<Rightarrow> elements v)"

definition find_str :: "jlib \<Rightarrow> json \<Rightarrow> string \<Rightarrow> string" where
  "find_str jl j key = (case jfind j key of None \<Rightarrow> [] | Some v \<Rightarrow> to_str (jl_dump jl) v)"

definition find_double :: "json \<Rightarrow> string \<Rightarrow> double \<Rightarrow> double" where
  "find_double j key def = (case jfind j key of None \<Rightarrow> def | Some v \<Rightarrow> to_double v)"

definition truthy :: "json \<Rightarrow> bool" where
  "truthy v = py_bool v"

definition found_truthy :: "json \<Rightarrow> string \<Rightarrow> bool" where
  "found_truthy j key \<longleftrightarrow> (case jfind j key of None \<Rightarrow> False | Some v \<Rightarrow> truthy v)"

section \<open>Query strings\<close>

definition unreserved :: "char \<Rightarrow> bool" where
  "unreserved c \<longleftrightarrow> in_range (CHR ''A'') c (CHR ''Z'') \<or> in_range (CHR ''a'') c (CHR ''z'') \<or> is_digit c \<or>
     c = CHR ''-'' \<or> c = CHR ''_'' \<or> c = CHR ''.'' \<or> c = CHR 0x7E"

definition hex_upper :: "nat \<Rightarrow> char" where
  "hex_upper d = (if d < 10 then char_of (48 + d) else char_of (55 + d))"

definition url_encode :: "string \<Rightarrow> string" where
  "url_encode s = concat (map (\<lambda>c. if unreserved c then [c]
     else [CHR ''%'', hex_upper (char_code c div 16), hex_upper (char_code c mod 16)]) s)"

fun join_params :: "(string \<times> string) list \<Rightarrow> string" where
  "join_params [] = []"
| "join_params [(k, v)] = url_encode k @ ''='' @ url_encode v"
| "join_params ((k, v) # ps) = url_encode k @ ''='' @ url_encode v @ ''&'' @ join_params ps"

definition build_query :: "(string \<times> string) list \<Rightarrow> string" where
  "build_query params = (if params = [] then [] else ''?'' @ join_params params)"

text \<open>The server's side: percent-decoding, and splitting at the separators\<close>

definition hex_of :: "char \<Rightarrow> nat" where
  "hex_of c = (if is_digit c then char_code c - 48 else char_code c - 55)"

fun url_decode :: "string \<Rightarrow> string" where
  "url_decode (c # a # b # s) =
     (if c = CHR ''%'' then char_of (hex_of a * 16 + hex_of b) # url_decode s else c # url_decode (a # b # s))"
| "url_decode (c # s) = c # url_decode s"
| "url_decode [] = []"

fun split_on :: "char \<Rightarrow> string \<Rightarrow> string list" where
  "split_on d [] = [[]]"
| "split_on d (c # s) = (if c = d then [] # split_on d s
     else case split_on d s of w # ws \<Rightarrow> (c # w) # ws | [] \<Rightarrow> [[c]])"

definition parse_query :: "string \<Rightarrow> (string \<times> string) list" where
  "parse_query q = map (\<lambda>w. (url_decode (takeWhile (\<lambda>c. c \<noteq> CHR ''='') w),
      url_decode (drop 1 (dropWhile (\<lambda>c. c \<noteq> CHR ''='') w)))) (split_on (CHR ''&'') (drop 1 q))"

lemma hex_upper_of: "d < 16 \<Longrightarrow> hex_of (hex_upper d) = d"
  by (auto simp: hex_of_def hex_upper_def is_digit_def in_range_def char_code_def)

lemma unreserved_plain: "unreserved c \<Longrightarrow> c \<noteq> CHR ''%'' \<and> c \<noteq> CHR ''&'' \<and> c \<noteq> CHR ''=''"
  by (auto simp: unreserved_def in_range_def is_digit_def char_code_def)

lemma url_decode_plain: "c \<noteq> CHR ''%'' \<Longrightarrow> url_decode (c # s) = c # url_decode s"
  by (cases s; cases "tl s") auto

lemma url_decode_percent: "url_decode (CHR ''%'' # hex_upper (char_code c div 16) # hex_upper (char_code c mod 16) # s) = c # url_decode s"
  by (simp add: hex_upper_of less_mult_imp_div_less) (simp add: char_code_def)

lemma url_decode_encode: "url_decode (url_encode s @ t) = s @ url_decode t"
proof (induction s)
  case (Cons c s)
  then show ?case
    by (cases "unreserved c") (simp_all add: url_encode_def url_decode_plain unreserved_plain url_decode_percent del: url_decode.simps)
qed (simp add: url_encode_def)

lemma hex_upper_code: "d < 16 \<Longrightarrow> char_code (hex_upper d) = (if d < 10 then 48 + d else 55 + d)"
  by (simp add: hex_upper_def char_code_def)

lemma hex_upper_plain: "d < 16 \<Longrightarrow> hex_upper d \<noteq> CHR ''&'' \<and> hex_upper d \<noteq> CHR ''=''"
  using hex_upper_code[of d] by (auto simp: char_code_def split: if_splits)

lemma url_encode_chars: "c \<in> set (url_encode s) \<Longrightarrow> c \<noteq> CHR ''&'' \<and> c \<noteq> CHR ''=''"
proof -
  have d: "char_code c div 16 < 16" "char_code c mod 16 < 16" for c
    using char_code_less[of c] by (simp_all add: less_mult_imp_div_less)
  assume "c \<in> set (url_encode s)"
  then show ?thesis
    using hex_upper_plain[OF d(1)] hex_upper_plain[OF d(2)] unreserved_plain
    by (auto simp: url_encode_def split: if_splits)
qed

lemma split_on_none: "d \<notin> set s \<Longrightarrow> split_on d s = [s]"
  by (induction s) auto

lemma split_on_append: "d \<notin> set s \<Longrightarrow> split_on d (s @ d # t) = s # split_on d t"
  by (induction s) auto

definition param_text :: "string \<times> string \<Rightarrow> string" where
  "param_text = (\<lambda>(k, v). url_encode k @ ''='' @ url_encode v)"

lemma param_text_no_amp: "CHR ''&'' \<notin> set (param_text p)"
  using url_encode_chars[of "CHR ''&''"] by (auto simp: param_text_def split: prod.split)

lemma split_params: "ps \<noteq> [] \<Longrightarrow> split_on (CHR ''&'') (join_params ps) = map param_text ps"
proof (induction ps rule: join_params.induct)
  case (2 k v)
  then show ?case using split_on_none[OF param_text_no_amp[of "(k, v)"]] by (simp add: param_text_def)
next
  case (3 k v p ps)
  have j: "join_params ((k, v) # p # ps) = param_text (k, v) @ CHR ''&'' # join_params (p # ps)"
    by (simp add: param_text_def)
  show ?case unfolding j split_on_append[OF param_text_no_amp] using 3 by simp
qed simp

lemma param_text_parts:
  "url_decode (takeWhile (\<lambda>c. c \<noteq> CHR ''='') (param_text (k, v))) = k \<and>
   url_decode (drop 1 (dropWhile (\<lambda>c. c \<noteq> CHR ''='') (param_text (k, v)))) = v"
proof -
  have n: "\<forall>c\<in>set (url_encode k). c \<noteq> CHR ''=''" using url_encode_chars by blast
  then have "takeWhile (\<lambda>c. c \<noteq> CHR ''='') (param_text (k, v)) = url_encode k"
    "dropWhile (\<lambda>c. c \<noteq> CHR ''='') (param_text (k, v)) = ''='' @ url_encode v"
    by (simp_all add: param_text_def takeWhile_append2 dropWhile_append2)
  then show ?thesis using url_decode_encode[of k "[]"] url_decode_encode[of v "[]"] by simp
qed

text \<open>
  The server reads back exactly the parameters that were put into a query string, whatever
  characters the keys and values contain (separators, percent signs, bytes above 127).
\<close>

theorem build_query_roundtrip:
  "params \<noteq> [] \<Longrightarrow> parse_query (build_query params) = params"
proof -
  assume "params \<noteq> []"
  then have "split_on (CHR ''&'') (drop 1 (build_query params)) = map param_text params"
    by (simp add: build_query_def split_params)
  then show ?thesis using param_text_parts by (auto simp: parse_query_def intro!: map_idI)
qed

lemma build_query_roundtrip_witness:
  "parse_query (build_query [(''slug'', ''a&b=c%''), (''limit'', ''5'')]) = [(''slug'', ''a&b=c%''), (''limit'', ''5'')]"
  by (rule build_query_roundtrip) simp

end
