(* ===== verification/Rewards.thy ===== *)
theory Rewards
  imports OrderBook Http
begin

text \<open>
  The reward-pool scanner (\<open>rewards.cpp\<close>): parsing a pool, scoring its book, the jump-risk verdict,
  and \<open>scan\<close>, which filters, scores, enriches and sorts the pools.  The network, the JSON library,
  the mathematical library and the clock are parameters; the worker threads of \<open>scan\<close> write one
  slot per pool each, so their result is the list of the pools' own results.
\<close>

definition MIN_DAILY :: double where "MIN_DAILY = lit 50"
definition JUMP_KILL_DAYS :: double where "JUMP_KILL_DAYS = lit 20"
definition JUMP_WATCH_DAYS :: double where "JUMP_WATCH_DAYS = lit 7"
definition EMPTY_BAND_SHARE :: double where "EMPTY_BAND_SHARE = lit (99 / 100)"

record RewardConfig =
  rc_daily :: double
  rc_max_spread :: double
  rc_min_size :: double
  rc_tick :: double
  rc_token :: string
  rc_question :: string
  rc_condition_id :: string
  rc_end_date_unix :: double

record JumpRisk =
  jr_verdict :: string
  jr_days :: int
  jr_max_jump_c :: "double option"
  jr_daily_vol_c :: "double option"
  jr_recent_vol_c :: "double option"
  jr_days_wiped :: "double option"

record PoolReport =
  pr_question :: string
  pr_condition_id :: string
  pr_token :: string
  pr_daily :: double
  pr_max_spread_c :: double
  pr_min_size :: double
  pr_tick :: double
  pr_mid :: double
  pr_spread_c :: double
  pr_inband_notional :: double
  pr_share :: double
  pr_min_side_score :: double
  pr_empty_band :: bool
  pr_reward_per_day :: double
  pr_gross_ann_pct :: double
  pr_jump_verdict :: string
  pr_max_jump_c :: "double option"
  pr_daily_vol_c :: "double option"
  pr_recent_vol_c :: "double option"
  pr_days_wiped :: "double option"
  pr_competitiveness :: double
  pr_remaining_reward :: double
  pr_volume_24hr :: double

record RewardMulti =
  rm_competitiveness :: double
  rm_remaining :: double
  rm_volume_24hr :: double

section \<open>Parsing\<close>

definition roundn :: "double \<Rightarrow> nat \<Rightarrow> double" where
  "roundn x n = (let f = pow10 n in nearbyint (x * f) / f)"

definition level_prices :: "json \<Rightarrow> double list" where
  "level_prices levels = map to_double (List.map_filter (\<lambda>entry. jfind entry ''price'') (elements levels))"

definition best_level_price :: "json \<Rightarrow> bool \<Rightarrow> double option" where
  "best_level_price levels is_bid =
     (case level_prices levels of [] \<Rightarrow> None
      | p # ps \<Rightarrow> Some (foldl (if is_bid then cmax else cmin) p ps))"

text \<open>Python's \<open>float(d.get(key, base) or base)\<close>; \<open>None\<close> is its exception.\<close>

definition py_float_or :: "json \<Rightarrow> string \<Rightarrow> double \<Rightarrow> double option" where
  "py_float_or obj key base =
     (case jfind obj key of None \<Rightarrow> Some base
      | Some v \<Rightarrow>
          if \<not> truthy v then Some base
          else (case v of JInt i \<Rightarrow> Some (of_i i) | JFloat d \<Rightarrow> Some d
             | JStr s \<Rightarrow> (case stod s of None \<Rightarrow> None
                 | Some (d, rest) \<Rightarrow> if dropWhile isspace rest = [] then Some d else None)
             | _ \<Rightarrow> None))"

text \<open>\<open>sscanf\<close> with \<open>%d\<close> fields: the values converted before the first mismatch.\<close>

fun scan_prefix :: "char list \<Rightarrow> string \<Rightarrow> int list" where
  "scan_prefix [] s = (case scan_int s of None \<Rightarrow> [] | Some (v, r) \<Rightarrow> [v])"
| "scan_prefix (sep # seps) s =
     (case scan_int s of None \<Rightarrow> []
      | Some (v, r) \<Rightarrow> v # (if r \<noteq> [] \<and> hd r = sep then scan_prefix seps (tl r) else []))"

definition field_or_zero :: "int list \<Rightarrow> nat \<Rightarrow> int" where
  "field_or_zero fs i = (if i < length fs then fs ! i else 0)"

definition end_date_unix :: "string \<Rightarrow> double" where
  "end_date_unix ed =
     (let fs = scan_prefix [CHR ''-'', CHR ''-'', CHR ''T'', CHR '':'', CHR '':''] ed; f = field_or_zero fs in
      if 3 \<le> length fs
      then let t = timegm (f 0) (f 1 - 1) (f 2) (f 3) (f 4) (f 5) in if 0 < t then of_i t else 0
      else 0)"

definition daily_of :: "json \<Rightarrow> double" where
  "daily_of rw = foldl (\<lambda>acc rt. case jfind rt ''rewards_daily_rate'' of None \<Rightarrow> acc | Some v \<Rightarrow> acc + to_double v) 0
     (find_elements rw ''rates'')"

definition first_token :: "jlib \<Rightarrow> json \<Rightarrow> string" where
  "first_token jl market =
     (case find (\<lambda>tok. found_truthy tok ''token_id'') (find_elements market ''tokens'') of
        None \<Rightarrow> [] | Some tok \<Rightarrow> find_str jl tok ''token_id'')"

definition parse_rewards :: "jlib \<Rightarrow> json \<Rightarrow> RewardConfig option" where
  "parse_rewards jl market =
     (let rw = (case jfind market ''rewards'' of None \<Rightarrow> JObj [] | Some v \<Rightarrow> if is_object v then v else JObj []);
          daily = daily_of rw; token = first_token jl market in
      if daily \<le> 0 then None
      else if token = [] then None
      else case py_float_or rw ''max_spread'' 0 of None \<Rightarrow> None
      | Some ms \<Rightarrow> (case py_float_or rw ''min_size'' 0 of None \<Rightarrow> None
      | Some msz \<Rightarrow> (case py_float_or market ''minimum_tick_size'' (lit (1 / 100)) of None \<Rightarrow> None
      | Some tk \<Rightarrow> Some \<lparr>rc_daily = daily, rc_max_spread = ms, rc_min_size = msz, rc_tick = tk, rc_token = token,
          rc_question = utf8_prefix (find_str jl market ''question'') 80,
          rc_condition_id = find_str jl market ''condition_id'',
          rc_end_date_unix = (case jfind market ''end_date_iso'' of None \<Rightarrow> 0
             | Some v \<Rightarrow> end_date_unix (to_str (jl_dump jl) v))\<rparr>)))"

section \<open>Scoring\<close>

definition level_pair :: "json \<Rightarrow> (double \<times> double) option" where
  "level_pair entry = (case jfind entry ''price'' of None \<Rightarrow> None
     | Some p \<Rightarrow> (case jfind entry ''size'' of None \<Rightarrow> None | Some s \<Rightarrow> Some (to_double p, to_double s)))"

definition square_weight :: "double \<Rightarrow> double \<Rightarrow> double" where
  "square_weight c s_cents = (if 0 < c then ((c - s_cents) / c) * ((c - s_cents) / c) else 0)"

definition inband_score :: "json \<Rightarrow> double \<Rightarrow> double \<Rightarrow> bool \<Rightarrow> double \<times> double" where
  "inband_score levels mid max_spread_cents is_bid =
     (let c = max_spread_cents in
      foldl (\<lambda>(score, notional) (price, sz).
          let s_cents = (if is_bid then mid - price else price - mid) * lit 100 in
          if lit (- 1 / 10 ^ 9) \<le> s_cents \<and> s_cents \<le> c + lit (1 / 10 ^ 9)
          then (score + sz * square_weight c s_cents, notional + sz * (if is_bid then price else 1 - price))
          else (score, notional))
        (0, 0) (List.map_filter level_pair (elements levels)))"

definition reward_share :: "double \<Rightarrow> double \<Rightarrow> double \<Rightarrow> double \<Rightarrow> double" where
  "reward_share min_size tick max_spread_cents existing =
     (let my_score = min_size * square_weight max_spread_cents (tick * lit 100);
          denom = my_score + existing
      in if 0 < denom then my_score / denom else 0)"

fun moves_of :: "double list \<Rightarrow> double list" where
  "moves_of (a # b # ps) = dabs (b - a) # moves_of (b # ps)"
| "moves_of _ = []"

definition stdev_of :: "libm \<Rightarrow> double list \<Rightarrow> double" where
  "stdev_of lm ms =
     (let n = of_i (int (length ms)); mean = sum_d ms / n
      in m_sqrt lm (foldl (\<lambda>v m. v + (m - mean) * (m - mean)) 0 ms / n))"

fun is_inf :: "double \<Rightarrow> bool" where
  "is_inf PInf = True"
| "is_inf NInf = True"
| "is_inf _ = False"

definition verdict_of :: "double \<Rightarrow> double \<Rightarrow> double \<Rightarrow> string" where
  "verdict_of days_wiped kill_days watch_days =
     (if kill_days < days_wiped then ''KILL'' else if watch_days < days_wiped then ''WATCH'' else ''SAFE'')"

definition classify_jump_risk :: "libm \<Rightarrow> double list \<Rightarrow> double \<Rightarrow> double \<Rightarrow> double \<Rightarrow> double \<Rightarrow> JumpRisk" where
  "classify_jump_risk lm prices reward_per_day min_size kill_days watch_days =
     (if length prices < 10
      then \<lparr>jr_verdict = ''no-history'', jr_days = int (length prices), jr_max_jump_c = None,
            jr_daily_vol_c = None, jr_recent_vol_c = None, jr_days_wiped = None\<rparr>
      else
        let moves = moves_of prices;
            max_jump = foldl cmax (hd moves) moves;
            vol = stdev_of lm moves;
            recent = drop (length moves - min 7 (length moves)) moves;
            recent_vol = stdev_of lm recent;
            days_wiped = (if 0 < reward_per_day then min_size * max_jump / reward_per_day else PInf)
        in \<lparr>jr_verdict = verdict_of days_wiped kill_days watch_days, jr_days = int (length prices),
            jr_max_jump_c = Some (roundn (max_jump * lit 100) 2), jr_daily_vol_c = Some (roundn (vol * lit 100) 2),
            jr_recent_vol_c = Some (roundn (recent_vol * lit 100) 2),
            jr_days_wiped = (if is_inf days_wiped then None else Some (roundn days_wiped 1))\<rparr>)"

definition found_or_empty :: "json \<Rightarrow> string \<Rightarrow> json" where
  "found_or_empty j key = (case jfind j key of None \<Rightarrow> JArr [] | Some v \<Rightarrow> v)"

definition SHARE_CEIL :: double where "SHARE_CEIL = lit (40 / 100)"

definition ceiling_share :: "double \<Rightarrow> double" where
  "ceiling_share raw = (if raw < SHARE_CEIL then raw else SHARE_CEIL)"

definition score_at :: "libm \<Rightarrow> RewardConfig \<Rightarrow> json \<Rightarrow> json \<Rightarrow> PricePoint list \<Rightarrow> double \<Rightarrow> double \<Rightarrow> double \<Rightarrow> PoolReport" where
  "score_at lm pool bids asks history reward_calib best_bid best_ask =
     (let mid = (best_bid + best_ask) / lit 2; c = rc_max_spread pool;
          (bscore, bnot) = inband_score bids mid c True;
          (ascore, anot) = inband_score asks mid c False;
          min_side = binding_qmin bscore ascore mid;
          min_side_calib = min_side / cmax reward_calib (lit (1 / 10 ^ 6));
          raw_share = reward_share (rc_min_size pool) (rc_tick pool) c min_side_calib;
          share = ceiling_share raw_share;
          capital = rc_min_size pool;
          reward_per_day = share * rc_daily pool;
          gross_ann = (if 0 < capital then reward_per_day * lit 365 / capital * lit 100 else 0);
          jump = classify_jump_risk lm (map pp_p history) reward_per_day (rc_min_size pool) JUMP_KILL_DAYS JUMP_WATCH_DAYS
      in \<lparr>pr_question = rc_question pool, pr_condition_id = rc_condition_id pool, pr_token = rc_token pool,
          pr_daily = roundn (rc_daily pool) 2, pr_max_spread_c = c, pr_min_size = rc_min_size pool,
          pr_tick = rc_tick pool, pr_mid = roundn mid 4, pr_spread_c = roundn ((best_ask - best_bid) * lit 100) 2,
          pr_inband_notional = round_int (bnot + anot), pr_share = roundn share 4,
          pr_min_side_score = roundn min_side 4, pr_empty_band = EMPTY_BAND_SHARE \<le> raw_share,
          pr_reward_per_day = roundn reward_per_day 2, pr_gross_ann_pct = round_int gross_ann,
          pr_jump_verdict = jr_verdict jump, pr_max_jump_c = jr_max_jump_c jump,
          pr_daily_vol_c = jr_daily_vol_c jump, pr_recent_vol_c = jr_recent_vol_c jump,
          pr_days_wiped = jr_days_wiped jump, pr_competitiveness = - 1, pr_remaining_reward = - 1,
          pr_volume_24hr = 0\<rparr>)"

definition extreme_mid :: "double \<Rightarrow> bool" where
  "extreme_mid mid \<longleftrightarrow> mid < lit (10 / 100) \<or> lit (90 / 100) < mid"

definition score_pool :: "libm \<Rightarrow> RewardConfig \<Rightarrow> json \<Rightarrow> PricePoint list \<Rightarrow> double \<Rightarrow> PoolReport option" where
  "score_pool lm pool book history reward_calib =
     (let bids = found_or_empty book ''bids''; asks = found_or_empty book ''asks'' in
      case best_level_price bids True of None \<Rightarrow> None
      | Some bb \<Rightarrow> (case best_level_price asks False of None \<Rightarrow> None
      | Some ba \<Rightarrow> if extreme_mid ((bb + ba) / lit 2) then None
                   else Some (score_at lm pool bids asks history reward_calib bb ba)))"

section \<open>The HTTP client\<close>

definition rewards_get :: "jlib \<Rightarrow> network \<Rightarrow> nat \<Rightarrow> string \<Rightarrow> sim_error + json" where
  "rewards_get jl clob i path = json_reply jl ''Polymarket CLOB API'' (clob i path)"

definition rewards_gamma_get :: "jlib \<Rightarrow> network \<Rightarrow> nat \<Rightarrow> string \<Rightarrow> sim_error + json" where
  "rewards_gamma_get jl gamma i path = json_reply jl ''Gamma API'' (gamma i path)"

definition enrich_path :: "string list \<Rightarrow> string" where
  "enrich_path batch = ''/markets?limit=500'' @ concat (map (\<lambda>c. ''&condition_ids='' @ c) batch)"

text \<open>A transient failure is retried once.\<close>

definition enrich_fetch :: "jlib \<Rightarrow> network \<Rightarrow> string \<Rightarrow> json option" where
  "enrich_fetch jl gamma path =
     (case rewards_gamma_get jl gamma 0 path of Inr j \<Rightarrow> Some j
      | Inl _ \<Rightarrow> (case rewards_gamma_get jl gamma 1 path of Inr j \<Rightarrow> Some j | Inl _ \<Rightarrow> None))"

definition enrich_array :: "json \<Rightarrow> json list" where
  "enrich_array data = (case (if is_object data then jfind data ''data'' else None) of
       Some d \<Rightarrow> if is_array d then elements d else elements data
     | None \<Rightarrow> elements data)"

definition number_or_zero :: "json \<Rightarrow> string \<Rightarrow> double" where
  "number_or_zero m key = (case jfind m key of None \<Rightarrow> 0 | Some v \<Rightarrow> if is_number v then to_double v else 0)"

definition enrich_market :: "jlib \<Rightarrow> string list \<Rightarrow> json \<Rightarrow> (string, RewardMulti) smap \<Rightarrow> (string, RewardMulti) smap" where
  "enrich_market jl want m out =
     (case jfind m ''conditionId'' of None \<Rightarrow> out
      | Some cv \<Rightarrow>
          let cond = to_str (jl_dump jl) cv in
          if cond \<notin> set want then out
          else smap_put cond \<lparr>rm_competitiveness = number_or_zero m ''competitive'', rm_remaining = lit (- 1),
                 rm_volume_24hr = number_or_zero m ''volume24hr''\<rparr> out)"

definition kBatch :: nat where "kBatch = 25"

fun batches_of :: "nat \<Rightarrow> 'a list \<Rightarrow> 'a list list" where
  "batches_of 0 xs = []"
| "batches_of (Suc n) xs = (if xs = [] then [] else take kBatch xs # batches_of n (drop kBatch xs))"

definition gamma_enrich :: "jlib \<Rightarrow> network \<Rightarrow> string list \<Rightarrow> (string, RewardMulti) smap" where
  "gamma_enrich jl gamma ids =
     foldl (\<lambda>out batch. case enrich_fetch jl gamma (enrich_path batch) of None \<Rightarrow> out
         | Some data \<Rightarrow> foldl (\<lambda>o' m. enrich_market jl ids m o') out (enrich_array data))
       [] (batches_of (length ids) ids)"

definition page_of :: "json \<Rightarrow> json" where
  "page_of data = (if is_object data then (case jfind data ''data'' of Some d \<Rightarrow> d | None \<Rightarrow> JArr []) else data)"

definition next_cursor :: "jlib \<Rightarrow> json \<Rightarrow> string" where
  "next_cursor jl data = (if is_object data then find_str jl data ''next_cursor'' else [])"

text \<open>The page loop: the pages still allowed, the page number and the cursor.\<close>

fun sampling_loop :: "jlib \<Rightarrow> network \<Rightarrow> nat \<Rightarrow> nat \<Rightarrow> string \<Rightarrow> sim_error + json list" where
  "sampling_loop jl clob 0 i cursor = Inr []"
| "sampling_loop jl clob (Suc n) i cursor =
     (case rewards_get jl clob i
         (''/sampling-markets'' @ (if cursor = [] then [] else ''?next_cursor='' @ cursor)) of
        Inl e \<Rightarrow> Inl e
      | Inr data \<Rightarrow>
          let page = page_of data in
          if \<not> is_array page \<or> elements page = [] then Inr []
          else let nxt = next_cursor jl data in
            if nxt = [] \<or> nxt = ''LTE='' \<or> nxt = cursor then Inr (elements page)
            else (case sampling_loop jl clob n (i + 1) nxt of
                    Inl e \<Rightarrow> Inl e | Inr rest \<Rightarrow> Inr (elements page @ rest)))"

definition sampling_markets :: "jlib \<Rightarrow> network \<Rightarrow> nat \<Rightarrow> sim_error + json list" where
  "sampling_markets jl clob max_pages = sampling_loop jl clob max_pages 0 []"

definition rewards_book :: "jlib \<Rightarrow> network \<Rightarrow> string \<Rightarrow> sim_error + json" where
  "rewards_book jl clob token =
     (case rewards_get jl clob 0 (''/book?token_id='' @ token) of Inl e \<Rightarrow> Inl e
      | Inr data \<Rightarrow> Inr (if is_object data then data else JObj []))"

definition history_points :: "json \<Rightarrow> PricePoint list" where
  "history_points data = (if is_object data
     then List.map_filter (\<lambda>pt. case jfind pt ''p'' of None \<Rightarrow> None
            | Some p \<Rightarrow> (case jfind pt ''t'' of None \<Rightarrow> None
            | Some t \<Rightarrow> Some \<lparr>pp_p = to_double p, pp_t = to_double t\<rparr>)) (find_elements data ''history'')
     else [])"

definition rewards_history :: "jlib \<Rightarrow> network \<Rightarrow> string \<Rightarrow> string \<Rightarrow> int \<Rightarrow> sim_error + PricePoint list" where
  "rewards_history jl clob token interval fidelity =
     (case rewards_get jl clob 0 (''/prices-history?market='' @ token @ ''&interval='' @ interval @
             ''&fidelity='' @ int_str fidelity) of
        Inl e \<Rightarrow> Inl e | Inr data \<Rightarrow> Inr (history_points data))"

section \<open>The scan\<close>

definition catalysts :: "string list" where
  "catalysts = [''fdv'', ''launch'', '' ipo'', ''debut'', ''airdrop'', ''listing'', ''release'', ''premiere'',
     ''valuation'', ''opening weekend'']"

definition has_catalyst :: "string \<Rightarrow> bool" where
  "has_catalyst question = list_ex (\<lambda>w. contains w (to_lower question)) catalysts"

definition scan_keeps :: "double \<Rightarrow> double \<Rightarrow> double \<Rightarrow> RewardConfig \<Rightarrow> bool" where
  "scan_keeps min_daily min_days now p \<longleftrightarrow>
     \<not> rc_daily p < min_daily \<and>
     \<not> (0 < min_days \<and> 0 < rc_end_date_unix p \<and> (rc_end_date_unix p - now) / lit 86400 < min_days) \<and>
     \<not> (0 < min_days \<and> has_catalyst (rc_question p))"

definition scan_pools :: "jlib \<Rightarrow> double \<Rightarrow> int \<Rightarrow> double \<Rightarrow> double \<Rightarrow> json list \<Rightarrow> RewardConfig list" where
  "scan_pools jl min_daily topn min_days now markets =
     (let pools = sort_by (\<lambda>a b. rc_daily b < rc_daily a)
                    (filter (scan_keeps min_daily min_days now) (List.map_filter (parse_rewards jl) markets))
      in if 0 < topn \<and> topn < int (length pools) then take (nat topn) pools else pools)"

definition score_one :: "libm \<Rightarrow> jlib \<Rightarrow> network \<Rightarrow> bool \<Rightarrow> double \<Rightarrow> RewardConfig \<Rightarrow> PoolReport option" where
  "score_one lm jl clob with_jump_risk reward_calib p =
     (case rewards_book jl clob (rc_token p) of Inl e \<Rightarrow> None
      | Inr bk \<Rightarrow>
          let history = (if with_jump_risk
                then (case rewards_history jl clob (rc_token p) ''max'' 1440 of Inl e \<Rightarrow> [] | Inr h \<Rightarrow> h) else [])
          in score_pool lm p bk history reward_calib)"

definition opt_zero :: "double option \<Rightarrow> double" where
  "opt_zero x = (case x of None \<Rightarrow> 0 | Some v \<Rightarrow> v)"

definition too_jumpy :: "double \<Rightarrow> string set \<Rightarrow> PoolReport \<Rightarrow> bool" where
  "too_jumpy max_vol_mult whitelist r \<longleftrightarrow>
     (let vol_c = cmax (opt_zero (pr_daily_vol_c r)) (opt_zero (pr_recent_vol_c r)) in
      0 < max_vol_mult \<and> pr_condition_id r \<notin> whitelist \<and> 0 < vol_c \<and> 0 < pr_max_spread_c r \<and>
      max_vol_mult * pr_max_spread_c r < vol_c)"

definition enriched :: "(string, RewardMulti) smap \<Rightarrow> PoolReport \<Rightarrow> PoolReport" where
  "enriched multi r = (case smap_get multi (pr_condition_id r) of None \<Rightarrow> r
     | Some m \<Rightarrow> r\<lparr>pr_competitiveness := rm_competitiveness m, pr_remaining_reward := rm_remaining m,
                   pr_volume_24hr := rm_volume_24hr m\<rparr>)"

definition depleted :: "(string, RewardMulti) smap \<Rightarrow> PoolReport \<Rightarrow> bool" where
  "depleted multi r \<longleftrightarrow> smap_get multi (pr_condition_id r) \<noteq> None \<and>
     0 \<le> pr_remaining_reward (enriched multi r) \<and> pr_remaining_reward (enriched multi r) < 1"

definition verdict_rank :: "string \<Rightarrow> nat" where
  "verdict_rank v = (if v = ''SAFE'' then 0 else if v = ''WATCH'' then 1 else if v = ''no-history'' then 2
     else if v = ''KILL'' then 3 else 9)"

definition crowding :: "PoolReport \<Rightarrow> double" where
  "crowding r = (if pr_competitiveness r < 0 then lit (10 ^ 18) else pr_competitiveness r)"

definition report_before :: "PoolReport \<Rightarrow> PoolReport \<Rightarrow> bool" where
  "report_before a b =
     (if pr_empty_band a \<noteq> pr_empty_band b then \<not> pr_empty_band a
      else if verdict_rank (pr_jump_verdict a) \<noteq> verdict_rank (pr_jump_verdict b)
      then verdict_rank (pr_jump_verdict a) < verdict_rank (pr_jump_verdict b)
      else if \<not> deq (pr_gross_ann_pct a) (pr_gross_ann_pct b) then pr_gross_ann_pct b < pr_gross_ann_pct a
      else crowding a < crowding b)"

record ScanResult =
  sr_min_daily :: double
  sr_top :: int
  sr_with_jump_risk :: bool
  sr_total_reward_pools :: int
  sr_pools_scored :: int
  sr_safe_count :: int
  sr_pools :: "PoolReport list"

definition scan ::
  "libm \<Rightarrow> jlib \<Rightarrow> network \<Rightarrow> network \<Rightarrow> double \<Rightarrow> double \<Rightarrow> int \<Rightarrow> bool \<Rightarrow> double \<Rightarrow> double \<Rightarrow> double \<Rightarrow> string set
     \<Rightarrow> sim_error + ScanResult" where
  "scan lm jl clob gamma now min_daily topn with_jump_risk min_days max_vol_mult reward_calib whitelist =
     (case sampling_markets jl clob 100 of Inl e \<Rightarrow> Inl e
      | Inr markets \<Rightarrow>
          let results = List.map_filter (score_one lm jl clob with_jump_risk reward_calib)
                          (scan_pools jl min_daily topn min_days now markets);
              multi = gamma_enrich jl gamma (map pr_condition_id results);
              scored = map (enriched multi)
                (filter (\<lambda>r. \<not> too_jumpy max_vol_mult whitelist r \<and> \<not> depleted multi r) results);
              sorted = sort_by report_before scored
          in Inr \<lparr>sr_min_daily = min_daily, sr_top = topn, sr_with_jump_risk = with_jump_risk,
                  sr_total_reward_pools = int (length (List.map_filter (parse_rewards jl) markets)),
                  sr_pools_scored = int (length sorted),
                  sr_safe_count = int (length (filter (\<lambda>r. pr_jump_verdict r = ''SAFE'' \<and> \<not> pr_empty_band r) sorted)),
                  sr_pools = sorted\<rparr>)"

section \<open>Properties\<close>

lemma roundn_mono: "x \<le> y \<Longrightarrow> pow10 n = Fin c \<Longrightarrow> 0 < c \<Longrightarrow> roundn x n \<le> roundn y n"
  by (simp add: roundn_def Let_def div_mono_c nearbyint_mono mult_mono_c)

lemma pow10_4: "pow10 4 = Fin 10000"
  by code_simp

lemma score_pool_cases:
  assumes "score_pool lm pool book history reward_calib = Some r"
  obtains bb ba where "best_level_price (found_or_empty book ''bids'') True = Some bb"
    "best_level_price (found_or_empty book ''asks'') False = Some ba" "\<not> extreme_mid ((bb + ba) / lit 2)"
    "r = score_at lm pool (found_or_empty book ''bids'') (found_or_empty book ''asks'') history reward_calib bb ba"
  using assms by (auto simp: score_pool_def Let_def split: option.splits if_splits)

lemma score_at_fields:
  "\<exists>raw. pr_share (score_at lm pool bids asks history k bb ba) = roundn (ceiling_share raw) 4 \<and>
     pr_mid (score_at lm pool bids asks history k bb ba) = roundn ((bb + ba) / lit 2) 4"
  unfolding score_at_def Let_def split_beta PoolReport.simps by blast

text \<open>
  A scored pool has a price on both sides of its book and a midpoint that is not below 0.10
  or above 0.90, and its share is never estimated above the 0.40 ceiling, whatever numbers the
  book holds (NaN and infinities included).
\<close>

theorem score_pool_guards:
  assumes "score_pool lm pool book history reward_calib = Some r"
  shows "pr_share r \<le> roundn SHARE_CEIL 4 \<and>
    level_prices (found_or_empty book ''bids'') \<noteq> [] \<and> level_prices (found_or_empty book ''asks'') \<noteq> [] \<and>
    (\<exists>mid. pr_mid r = roundn mid 4 \<and> \<not> mid < lit (10 / 100) \<and> \<not> lit (90 / 100) < mid)"
proof -
  obtain bb ba where b: "best_level_price (found_or_empty book ''bids'') True = Some bb"
    "best_level_price (found_or_empty book ''asks'') False = Some ba" "\<not> extreme_mid ((bb + ba) / lit 2)"
    "r = score_at lm pool (found_or_empty book ''bids'') (found_or_empty book ''asks'') history reward_calib bb ba"
    by (rule score_pool_cases[OF assms])
  obtain raw where share: "pr_share r = roundn (ceiling_share raw) 4"
    and mid: "pr_mid r = roundn ((bb + ba) / lit 2) 4"
    using score_at_fields b(4) by blast
  have "ceiling_share raw \<le> SHARE_CEIL" by (simp add: ceiling_share_def SHARE_CEIL_def lit_def less_le_d)
  from roundn_mono[OF this pow10_4] share have "pr_share r \<le> roundn SHARE_CEIL 4" by simp
  then show ?thesis using b(1-3) mid
    by (auto simp: best_level_price_def extreme_mid_def split: list.splits)
qed

definition demo_pool :: RewardConfig where
  "demo_pool = \<lparr>rc_daily = Fin 100, rc_max_spread = Fin 4, rc_min_size = Fin 64, rc_tick = Fin (1 / 64),
     rc_token = ''7'', rc_question = ''q'', rc_condition_id = ''0x1'', rc_end_date_unix = 0\<rparr>"

definition demo_book :: json where
  "demo_book = JObj [(''asks'', JArr [JObj [(''price'', JFloat (Fin (33 / 64))), (''size'', JFloat (Fin 64))]]),
     (''bids'', JArr [JObj [(''price'', JFloat (Fin (31 / 64))), (''size'', JFloat (Fin 64))]])]"

lemma demo_book_best: "best_level_price (found_or_empty demo_book ''bids'') True = Some (Fin (31 / 64))"
  "best_level_price (found_or_empty demo_book ''asks'') False = Some (Fin (33 / 64))"
  by (simp_all add: demo_book_def found_or_empty_def jfind_def jfind2_def not_null_def best_level_price_def
      level_prices_def elements_def List.map_filter_def)

lemma score_pool_guards_witness:
  "\<exists>r. score_pool demo_libm demo_pool demo_book [] 1 = Some r \<and> pr_share r \<le> roundn SHARE_CEIL 4"
proof -
  have "\<not> extreme_mid ((Fin (31 / 64) + Fin (33 / 64)) / lit 2)" by code_simp
  then have "\<exists>r. score_pool demo_libm demo_pool demo_book [] 1 = Some r"
    by (simp add: score_pool_def demo_book_best)
  then show ?thesis using score_pool_guards by blast
qed

text \<open>The order of the report: the comparison is a strict weak order on reports without NaN.\<close>

definition report_ok :: "PoolReport \<Rightarrow> bool" where
  "report_ok r \<longleftrightarrow> pr_gross_ann_pct r \<noteq> NaN \<and> pr_competitiveness r \<noteq> NaN"

lemma crowding_ok: "report_ok r \<Longrightarrow> crowding r \<noteq> NaN"
  by (simp add: report_ok_def crowding_def lit_def)

lemma deq_iff: "x \<noteq> NaN \<Longrightarrow> y \<noteq> NaN \<Longrightarrow> deq x y \<longleftrightarrow> x = y"
  by (auto simp: deq_def intro: le_antisym_d)

definition report_key :: "PoolReport \<Rightarrow> nat" where
  "report_key r = (if pr_empty_band r then 10 else 0) + verdict_rank (pr_jump_verdict r)"

lemma verdict_rank_le: "verdict_rank v \<le> 9"
  by (simp add: verdict_rank_def)

lemma report_before_key:
  assumes "report_ok a" "report_ok b"
  shows "report_before a b \<longleftrightarrow> report_key a < report_key b \<or> (report_key a = report_key b \<and>
     (pr_gross_ann_pct b < pr_gross_ann_pct a \<or> (pr_gross_ann_pct a = pr_gross_ann_pct b \<and> crowding a < crowding b)))"
proof -
  have g: "pr_gross_ann_pct a \<noteq> NaN" "pr_gross_ann_pct b \<noteq> NaN" using assms by (auto simp: report_ok_def)
  have va: "verdict_rank (pr_jump_verdict a) \<le> 9" and vb: "verdict_rank (pr_jump_verdict b) \<le> 9" by (rule verdict_rank_le)+
  show ?thesis
    by (cases "pr_empty_band a"; cases "pr_empty_band b")
       (use va vb g in \<open>auto simp: report_before_def report_key_def deq_iff\<close>)
qed

interpretation reports: comparator report_before report_ok
proof (unfold_locales, goal_cases)
  case (1 x y)
  then show ?case using less_le_d not_less_d crowding_ok unfolding report_ok_def
    by (auto simp: report_before_key[OF 1(1) 1(2)] report_before_key[OF 1(2) 1(1)] report_ok_def
        dest: less_le_d le_less_trans_d less_le_trans_d)
next
  case (2 x y z)
  have n: "pr_gross_ann_pct x \<noteq> NaN" "pr_gross_ann_pct y \<noteq> NaN" "pr_gross_ann_pct z \<noteq> NaN"
    "crowding x \<noteq> NaN" "crowding y \<noteq> NaN" "crowding z \<noteq> NaN"
    using 2(1-3) crowding_ok by (auto simp: report_ok_def)
  show ?case using 2(4,5)
    unfolding report_before_key[OF 2(2) 2(1)] report_before_key[OF 2(3) 2(2)] report_before_key[OF 2(3) 2(1)]
    using n by (auto simp: not_less_d intro: le_trans_d le_antisym_d dest: less_le_d)
qed

section \<open>Enrichment and scan\<close>

lemma batches_concat: "length xs \<le> n \<Longrightarrow> concat (batches_of n xs) = xs"
proof (induction n arbitrary: xs)
  case (Suc n)
  have "length (drop kBatch xs) \<le> n" using Suc.prems by (simp add: kBatch_def)
  then show ?case using Suc.IH[of "drop kBatch xs"] by simp
qed simp

lemma enrich_market_keys:
  assumes "smap_get (enrich_market jl ids m out) k = Some v"
  shows "smap_get out k = Some v \<or> k \<in> set ids \<and> rm_remaining v = lit (- 1)"
  using assms by (auto simp: enrich_market_def Let_def smap_simps split: option.splits if_splits)

lemma enrich_fold_keys:
  assumes "smap_get (foldl (\<lambda>o' m. enrich_market jl ids m o') out ms) k = Some v"
  shows "smap_get out k = Some v \<or> k \<in> set ids \<and> rm_remaining v = lit (- 1)"
  using assms
proof (induction ms arbitrary: out)
  case (Cons m ms)
  then show ?case using enrich_market_keys[of jl ids m out k v] by fastforce
qed simp

lemma gamma_enrich_keys:
  assumes "smap_get (gamma_enrich jl gamma ids) k = Some v"
  shows "k \<in> set ids \<and> rm_remaining v = lit (- 1)"
proof -
  have "smap_get (foldl (\<lambda>out batch. case enrich_fetch jl gamma (enrich_path batch) of None \<Rightarrow> out
         | Some data \<Rightarrow> foldl (\<lambda>o' m. enrich_market jl ids m o') out (enrich_array data)) out bs) k = Some v \<Longrightarrow>
      smap_get out k = Some v \<or> k \<in> set ids \<and> rm_remaining v = lit (- 1)" for out bs
  proof (induction bs arbitrary: out)
    case (Cons b bs)
    show ?case
    proof (cases "enrich_fetch jl gamma (enrich_path b)")
      case (Some data)
      then show ?thesis
        using Cons.IH[of "foldl (\<lambda>o' m. enrich_market jl ids m o') out (enrich_array data)"] Cons.prems
          enrich_fold_keys[of jl ids out "enrich_array data" k v] by auto
    qed (use Cons in auto)
  qed simp
  from this[of "[]"] assms show ?thesis by (auto simp: gamma_enrich_def smap_get_def)
qed

lemma minus_one_negative: "\<not> 0 \<le> lit (- 1)"
proof -
  have "lit (- 1) = Fin (- 1)" by code_simp
  then show ?thesis by (simp add: zero_double_def)
qed

text \<open>
  The enrichment only ever describes pools of the request: a market the server adds on its
  own cannot enter the map, and since gamma has no remaining reward the "depleted" filter of the
  scan never drops a pool.
\<close>

theorem gamma_enrich_requested:
  assumes "smap_get (gamma_enrich jl gamma ids) k = Some v"
  shows "k \<in> set ids \<and> \<not> 0 \<le> rm_remaining v \<and> concat (batches_of (length ids) ids) = ids"
  using gamma_enrich_keys[OF assms] minus_one_negative batches_concat[of ids] by simp

definition demo_gamma :: network where
  "demo_gamma i path = \<lparr>hr_status = 200, hr_body = ''m''\<rparr>"

definition demo_jlib :: jlib where
  "demo_jlib = \<lparr>jl_parse = (\<lambda>s. if s = ''m''
       then Some (JArr [JObj [(''conditionId'', JStr ''0x1'')], JObj [(''conditionId'', JStr ''0x9'')]]) else None),
     jl_dump = (\<lambda>j. [])\<rparr>"

lemma demo_enriched: "gamma_enrich demo_jlib demo_gamma [''0x1''] =
    [(''0x1'', \<lparr>rm_competitiveness = 0, rm_remaining = lit (- 1), rm_volume_24hr = 0\<rparr>)]"
  by (simp add: gamma_enrich_def kBatch_def enrich_fetch_def rewards_gamma_get_def json_reply_def demo_gamma_def
      demo_jlib_def enrich_array_def is_object_def elements_def enrich_market_def jfind_def jfind2_def not_null_def
      number_or_zero_def Let_def)

lemma gamma_enrich_requested_witness: "''0x1'' \<in> set [''0x1''] \<and> \<not> 0 \<le> lit (- 1)"
  using gamma_enrich_requested[of demo_jlib demo_gamma "[''0x1'']" "''0x1''"
      "\<lparr>rm_competitiveness = 0, rm_remaining = lit (- 1), rm_volume_24hr = 0\<rparr>"] demo_enriched
  by (simp add: smap_get_def)

lemma not_depleted: "\<not> depleted (gamma_enrich jl gamma ids) r"
  using gamma_enrich_keys[of jl gamma ids "pr_condition_id r"] minus_one_negative
  by (auto simp: depleted_def enriched_def split: option.splits)

lemma scan_pools_sound:
  assumes "p \<in> set (scan_pools jl min_daily topn min_days now markets)"
  shows "scan_keeps min_daily min_days now p \<and> p \<in> set (List.map_filter (parse_rewards jl) markets)"
  using assms by (auto simp: scan_pools_def Let_def split: if_splits dest: in_set_takeD)

lemma scan_pools_top: "0 < topn \<Longrightarrow> int (length (scan_pools jl min_daily topn min_days now markets)) \<le> topn"
  by (simp add: scan_pools_def Let_def)

lemma map_filter_length: "length (List.map_filter f xs) \<le> length xs"
  by (simp add: List.map_filter_def)

lemma map_filter_set: "y \<in> set (List.map_filter f xs) \<longleftrightarrow> (\<exists>x\<in>set xs. f x = Some y)"
  by (force simp: List.map_filter_def)

text \<open>
  What a scan reports: every pool comes from a sampled market with at least the asked daily
  reward, no catalyst word and no near end date, none is jumpy unless whitelisted, at most
  \<open>topn\<close> pools are listed, and (with no NaN among them) they stand in the report order.
\<close>

theorem scan_sound:
  assumes "scan lm jl clob gamma now min_daily topn wj min_days vol_mult calib wl = Inr res"
  shows "(0 < topn \<longrightarrow> int (length (sr_pools res)) \<le> topn) \<and>
    list_all (\<lambda>r. \<not> too_jumpy vol_mult wl r) (sr_pools res) \<and>
    (list_all report_ok (sr_pools res) \<longrightarrow> reports.in_order (sr_pools res)) \<and>
    (\<forall>r\<in>set (sr_pools res). \<exists>p r0. scan_keeps min_daily min_days now p \<and>
       score_one lm jl clob wj calib p = Some r0 \<and> pr_condition_id r = pr_condition_id r0)"
proof -
  obtain markets where m: "sampling_markets jl clob 100 = Inr markets"
    using assms by (auto simp: scan_def split: sum.splits)
  define ps where "ps = scan_pools jl min_daily topn min_days now markets"
  define results where "results = List.map_filter (score_one lm jl clob wj calib) ps"
  define multi where "multi = gamma_enrich jl gamma (map pr_condition_id results)"
  define kept where "kept = filter (\<lambda>r. \<not> too_jumpy vol_mult wl r) results"
  have pools: "sr_pools res = sort_by report_before (map (enriched multi) kept)"
    using assms m unfolding scan_def ps_def results_def multi_def kept_def
    by (auto simp: Let_def not_depleted)
  have len: "length (sr_pools res) \<le> length ps"
    unfolding pools kept_def results_def by (simp add: le_trans[OF length_filter_le map_filter_length])
  have jumpy: "too_jumpy vol_mult wl (enriched multi r) = too_jumpy vol_mult wl r" for r
    by (simp add: too_jumpy_def enriched_def split: option.split)
  have from_pool: "\<exists>p r0. scan_keeps min_daily min_days now p \<and> score_one lm jl clob wj calib p = Some r0 \<and>
      pr_condition_id r = pr_condition_id r0" if "r \<in> set (sr_pools res)" for r
  proof -
    obtain r0 where "r0 \<in> set results" "r = enriched multi r0" using \<open>r \<in> set (sr_pools res)\<close> by (auto simp: pools kept_def)
    moreover have "pr_condition_id (enriched multi r0) = pr_condition_id r0" by (simp add: enriched_def split: option.split)
    moreover obtain p where "p \<in> set ps" "score_one lm jl clob wj calib p = Some r0"
      using \<open>r0 \<in> set results\<close> unfolding results_def map_filter_set by blast
    moreover have "scan_keeps min_daily min_days now p"
      using \<open>p \<in> set ps\<close> unfolding ps_def by (auto dest: scan_pools_sound)
    ultimately show ?thesis by metis
  qed
  have "list_all (\<lambda>r. \<not> too_jumpy vol_mult wl r) (sr_pools res)" by (auto simp: pools kept_def list_all_iff jumpy)
  moreover have "reports.in_order (sr_pools res)" if "list_all report_ok (sr_pools res)"
    using that reports.in_order_sort[of "map (enriched multi) kept"] by (simp add: pools list_all_iff)
  moreover have "int (length (sr_pools res)) \<le> topn" if "0 < topn"
    using len scan_pools_top[OF that, of jl min_daily min_days now markets] unfolding ps_def by linarith
  ultimately show ?thesis using from_pool by blast
qed

definition empty_clob :: network where
  "empty_clob i path = \<lparr>hr_status = 200, hr_body = ''e''\<rparr>"

definition empty_jlib :: jlib where
  "empty_jlib = \<lparr>jl_parse = (\<lambda>s. Some (JArr [])), jl_dump = (\<lambda>j. [])\<rparr>"

lemma scan_sound_witness:
  "\<exists>res. scan demo_libm empty_jlib empty_clob empty_clob 0 MIN_DAILY 30 True 0 0 1 {} = Inr res \<and>
     int (length (sr_pools res)) \<le> 30"
proof -
  have "sampling_markets empty_jlib empty_clob 100 = Inr []"
    by (simp add: sampling_markets_def numeral_eq_Suc rewards_get_def json_reply_def empty_clob_def empty_jlib_def
        page_of_def is_object_def is_array_def elements_def Let_def)
  then have "\<exists>res. scan demo_libm empty_jlib empty_clob empty_clob 0 MIN_DAILY 30 True 0 0 1 {} = Inr res"
    by (simp add: scan_def Let_def)
  then show ?thesis using scan_sound by (metis zero_less_numeral)
qed

text \<open>
  An empty reward band outranks the verdict in the report: a pool with competition is listed
  before one with an empty band even when the first is a KILL and the second is SAFE.
\<close>

theorem empty_band_last:
  "report_before (a\<lparr>pr_empty_band := False, pr_jump_verdict := ''KILL''\<rparr>) (b\<lparr>pr_empty_band := True, pr_jump_verdict := ''SAFE''\<rparr>)"
  by (simp add: report_before_def)

end
