(* ===== verification/Api.thy ===== *)
theory Api
  imports Database Rewards
begin

text \<open>
  The Gamma, CLOB and data API client (\<open>api.cpp\<close>): parsing of markets and books, and the
  client's calls on the database cache.  The state of the client is the database it was given and
  the number of requests made so far; the network answers the \<open>n\<close>-th request of a path and the
  clock is read after \<open>n\<close> requests, so two equal requests may be answered differently.  The waits
  of the rate limiter, which is the subject of \<open>RateLimit\<close>, are left out.
\<close>

record World =
  w_jl :: jlib
  w_gamma :: network
  w_clob :: network
  w_data :: network
  w_clock :: "nat \<Rightarrow> int"

record Client =
  cl_db :: Db
  cl_requests :: nat

type_synonym 'a clc = "(Client, 'a) comp"

definition type_error :: sim_error where "type_error = StdError ''json type_error''"

section \<open>Parsing\<close>

definition default_tick :: double where "default_tick = lit (1 / 100)"

definition has_condition_id :: "json \<Rightarrow> bool" where
  "has_condition_id data \<longleftrightarrow> is_object data \<and> (found_truthy data ''conditionId'' \<or> found_truthy data ''condition_id'')"

definition market_token :: "jlib \<Rightarrow> json \<Rightarrow> Token" where
  "market_token jl t = \<lparr>tk_token_id = find_str jl t ''token_id'', tk_outcome = find_str jl t ''outcome''\<rparr>"

text \<open>\<open>data.contains(key) ? conv(data[key]) : def\<close>\<close>

definition flag_of :: "(json \<Rightarrow> bool) \<Rightarrow> json \<Rightarrow> string \<Rightarrow> bool \<Rightarrow> bool" where
  "flag_of conv data key def = (case jget data key of None \<Rightarrow> def | Some v \<Rightarrow> conv v)"

definition tick_or_default :: "json option \<Rightarrow> double" where
  "tick_or_default v = (case v of None \<Rightarrow> default_tick
     | Some x \<Rightarrow> let t = to_double x in if deq t 0 then default_tick else t)"

definition parse_clob_market :: "jlib \<Rightarrow> json \<Rightarrow> Market" where
  "parse_clob_market jl data =
     (let raw = (case jfind data ''tokens'' of None \<Rightarrow> JArr [] | Some t \<Rightarrow> as_container (jl_parse jl) t);
          tokens = map (market_token jl) (items raw)
      in \<lparr>mk_condition_id = find_str jl data ''condition_id'', mk_slug = find_str jl data ''market_slug'',
          mk_question = find_str jl data ''question'', mk_description = find_str jl data ''description'',
          mk_outcomes = (if tokens = [] then [''Yes'', ''No''] else map tk_outcome tokens),
          mk_outcome_prices = [0, 0], mk_tokens = tokens,
          mk_active = flag_of str_bool data ''active'' True, mk_closed = flag_of str_bool data ''closed'' False,
          mk_volume = 0, mk_liquidity = 0, mk_end_date = find_str jl data ''end_date_iso'', mk_fee_rate_bps = 0,
          mk_tick_size = tick_or_default (jfind data ''minimum_tick_size'')\<rparr>)"

definition found_items :: "jlib \<Rightarrow> json option \<Rightarrow> json list" where
  "found_items jl v = (case v of None \<Rightarrow> [] | Some x \<Rightarrow> items (as_container (jl_parse jl) x))"

definition outcomes_of :: "jlib \<Rightarrow> json \<Rightarrow> string list" where
  "outcomes_of jl data =
     (let os = map (to_str (jl_dump jl)) (found_items jl (jfind data ''outcomes''))
      in if os = [] then [''Yes'', ''No''] else os)"

definition prices_of :: "jlib \<Rightarrow> json \<Rightarrow> double list" where
  "prices_of jl data =
     (let ps = map to_double (found_items jl (jfind2 data ''outcomePrices'' (Some ''outcome_prices'')))
      in if ps = [] then [0, 0] else ps)"

definition clob_token :: "jlib \<Rightarrow> string list \<Rightarrow> nat \<Rightarrow> json \<Rightarrow> Token" where
  "clob_token jl outcomes i v = \<lparr>tk_token_id = to_str (jl_dump jl) v,
     tk_outcome = (if i < length outcomes then outcomes ! i else ''Outcome'' @ nat_str i)\<rparr>"

text \<open>\<open>arr[i]\<close> by position needs an array; the loop runs only for a value that has elements.\<close>

definition clob_token_ids :: "jlib \<Rightarrow> string list \<Rightarrow> json \<Rightarrow> sim_error + Token list" where
  "clob_token_ids jl outcomes arr =
     (if items arr = [] then Inr []
      else if is_array arr then Inr (map2 (clob_token jl outcomes) [0..<length (items arr)] (items arr))
      else Inl type_error)"

definition tokens_of :: "jlib \<Rightarrow> json \<Rightarrow> sim_error + Token list" where
  "tokens_of jl data =
     (case jfind data ''clobTokenIds'' of
        Some cids \<Rightarrow> clob_token_ids jl (outcomes_of jl data) (as_container (jl_parse jl) cids)
      | None \<Rightarrow> Inr (map (market_token jl) (found_items jl (jfind data ''tokens''))))"

definition end_date_of :: "jlib \<Rightarrow> json \<Rightarrow> string" where
  "end_date_of jl data =
     (case jfind2 data ''endDateIso'' (Some ''end_date_iso'') of
        Some v \<Rightarrow> to_str (jl_dump jl) v | None \<Rightarrow> find_str jl data ''end_date'')"

definition parse_market :: "jlib \<Rightarrow> json \<Rightarrow> sim_error + Market" where
  "parse_market jl data =
     (case tokens_of jl data of Inl e \<Rightarrow> Inl e
      | Inr tokens \<Rightarrow> Inr
         \<lparr>mk_condition_id = (case jfind2 data ''conditionId'' (Some ''condition_id'') of
            None \<Rightarrow> [] | Some v \<Rightarrow> to_str (jl_dump jl) v),
          mk_slug = find_str jl data ''slug'', mk_question = find_str jl data ''question'',
          mk_description = find_str jl data ''description'', mk_outcomes = outcomes_of jl data,
          mk_outcome_prices = prices_of jl data, mk_tokens = tokens,
          mk_active = flag_of py_bool data ''active'' False, mk_closed = flag_of py_bool data ''closed'' False,
          mk_volume = find_double data ''volume'' 0, mk_liquidity = find_double data ''liquidity'' 0,
          mk_end_date = end_date_of jl data,
          mk_fee_rate_bps = (case jfind data ''fee_rate_bps'' of None \<Rightarrow> 0 | Some v \<Rightarrow> trunc_int (to_double v)),
          mk_tick_size = tick_or_default (jfind2 data ''orderPriceMinTickSize'' (Some ''minimum_tick_size''))\<rparr>)"

definition book_level :: "json \<Rightarrow> OrderBookLevel" where
  "book_level e = \<lparr>lv_price = find_double e ''price'' 0, lv_size = find_double e ''size'' 0\<rparr>"

definition parse_order_book :: "json \<Rightarrow> OrderBook" where
  "parse_order_book data = \<lparr>ob_bids = map book_level (find_elements data ''bids''),
     ob_asks = map book_level (find_elements data ''asks'')\<rparr>"

fun try_map :: "('a \<Rightarrow> 'e + 'b) \<Rightarrow> 'a list \<Rightarrow> 'e + 'b list" where
  "try_map f [] = Inr []"
| "try_map f (x # xs) = (case f x of Inl e \<Rightarrow> Inl e
     | Inr y \<Rightarrow> (case try_map f xs of Inl e \<Rightarrow> Inl e | Inr ys \<Rightarrow> Inr (y # ys)))"

definition parse_market_list :: "jlib \<Rightarrow> json \<Rightarrow> sim_error + Market list" where
  "parse_market_list jl data = try_map (parse_market jl) (filter has_condition_id (elements data))"

section \<open>Requests and the cache\<close>

definition kCacheTtlSeconds :: int where "kCacheTtlSeconds = 300"

definition request :: "network \<Rightarrow> string \<Rightarrow> HttpResponse clc" where
  "request net path = bindc (reading cl_requests) (\<lambda>n.
     bindc (modify (cl_requests_update Suc)) (\<lambda>_. ret (net n path)))"

definition clock :: "World \<Rightarrow> int clc" where
  "clock w = reading (\<lambda>c. w_clock w (cl_requests c))"

definition on_db :: "'a dbc \<Rightarrow> 'a clc" where
  "on_db m = on_part cl_db (\<lambda>d. cl_db_update (\<lambda>_. d)) m"

type_synonym Params = "(string \<times> string) list"

definition api_gamma_get :: "World \<Rightarrow> string \<Rightarrow> Params \<Rightarrow> json clc" where
  "api_gamma_get w path params =
     bindc (request (w_gamma w) (path @ build_query params)) (\<lambda>r. of_sum (json_reply (w_jl w) ''Gamma API'' r))"

definition api_clob_get :: "World \<Rightarrow> string \<Rightarrow> Params \<Rightarrow> json clc" where
  "api_clob_get w path params =
     bindc (request (w_clob w) (path @ build_query params)) (\<lambda>r. of_sum (json_reply (w_jl w) ''CLOB API'' r))"

definition get_cached :: "World \<Rightarrow> string \<Rightarrow> json option clc" where
  "get_cached w key =
     bindc (clock w) (\<lambda>now.
     bindc (on_db (get_cache_fresh now key kCacheTtlSeconds)) (\<lambda>raw.
     ret (case raw of None \<Rightarrow> None | Some s \<Rightarrow> jl_parse (w_jl w) s)))"

definition set_cached :: "World \<Rightarrow> string \<Rightarrow> json \<Rightarrow> unit clc" where
  "set_cached w key data =
     bindc (clock w) (\<lambda>now. on_db (set_cache now key (jl_dump (w_jl w) data)))"

section \<open>Calls\<close>

fun is_api_error :: "sim_error \<Rightarrow> bool" where
  "is_api_error (ApiError _ _) = True"
| "is_api_error _ = False"

text \<open>\<open>catch (const ApiError&)\<close> and \<open>catch (...)\<close>\<close>

definition catch_api :: "('s, 'a) comp \<Rightarrow> ('s, 'a) comp \<Rightarrow> ('s, 'a) comp" where
  "catch_api m h = catch m (\<lambda>e. if is_api_error e then h else throw e)"

definition catch_any :: "('s, 'a) comp \<Rightarrow> ('s, 'a) comp \<Rightarrow> ('s, 'a) comp" where
  "catch_any m h = catch m (\<lambda>_. h)"

definition cache_market :: "World \<Rightarrow> string \<Rightarrow> json \<Rightarrow> Market clc" where
  "cache_market w key data = bindc (set_cached w key data) (\<lambda>_. of_sum (parse_market (w_jl w) data))"

definition nonempty_array :: "json \<Rightarrow> bool" where
  "nonempty_array j \<longleftrightarrow> is_array j \<and> elements j \<noteq> []"

text \<open>The slug of the CLOB document is tried on gamma; a failure there falls back to the CLOB document.\<close>

definition clob_market :: "World \<Rightarrow> string \<Rightarrow> json \<Rightarrow> Market clc" where
  "clob_market w key clob_data =
     (let market = parse_clob_market (w_jl w) clob_data;
          keep = bindc (set_cached w key clob_data) (\<lambda>_. ret market) in
      if mk_slug market = [] then keep
      else bindc (catch_any
        (bindc (api_gamma_get w ''/markets'' [(''slug'', mk_slug market)]) (\<lambda>gamma_data.
           if nonempty_array gamma_data
           then bindc (cache_market w key (hd (elements gamma_data))) (\<lambda>m. ret (Some m)) else ret None))
        (ret None))
        (\<lambda>found. case found of Some m \<Rightarrow> ret m | None \<Rightarrow> keep))"

definition market_by_condition :: "World \<Rightarrow> string \<Rightarrow> string \<Rightarrow> Market option clc" where
  "market_by_condition w key slug_or_id =
     catch_api
       (bindc (api_clob_get w (''/markets/'' @ slug_or_id) []) (\<lambda>clob_data.
        if is_object clob_data \<and> found_truthy clob_data ''condition_id''
        then bindc (clob_market w key clob_data) (\<lambda>m. ret (Some m)) else ret None))
       (ret None)"

definition get_market :: "World \<Rightarrow> string \<Rightarrow> Market clc" where
  "get_market w slug_or_id =
     (let key = ''market:'' @ slug_or_id in
      bindc (get_cached w key) (\<lambda>cached. case cached of
        Some j \<Rightarrow> of_sum (parse_market (w_jl w) j)
      | None \<Rightarrow>
          bindc (api_gamma_get w ''/markets'' [(''slug'', slug_or_id)]) (\<lambda>data.
          if nonempty_array data then cache_market w key (hd (elements data))
          else if is_object data \<and> has_condition_id data then cache_market w key data
          else bindc (if starts_with ''0x'' slug_or_id then market_by_condition w key slug_or_id else ret None)
            (\<lambda>m. case m of Some x \<Rightarrow> ret x | None \<Rightarrow> throw (MarketNotFoundError slug_or_id)))))"

definition sort_params :: "string \<Rightarrow> Params" where
  "sort_params order_by =
     (if order_by = ''volume'' then [(''order'', ''volume''), (''ascending'', ''false'')]
      else if order_by = ''liquidity'' then [(''order'', ''liquidity''), (''ascending'', ''false'')] else [])"

definition gamma_markets :: "World \<Rightarrow> Params \<Rightarrow> Market list clc" where
  "gamma_markets w params =
     bindc (api_gamma_get w ''/markets'' params) (\<lambda>data. of_sum (parse_market_list (w_jl w) data))"

definition list_markets :: "World \<Rightarrow> int \<Rightarrow> string \<Rightarrow> Market list clc" where
  "list_markets w n order_by = gamma_markets w
     ([(''limit'', int_str n), (''active'', ''true''), (''closed'', ''false'')] @ sort_params order_by)"

definition search_markets :: "World \<Rightarrow> string \<Rightarrow> int \<Rightarrow> Market list clc" where
  "search_markets w query n = gamma_markets w [(''_q'', query), (''limit'', int_str n)]"

definition bool_text :: "bool \<Rightarrow> string" where
  "bool_text b = (if b then ''true'' else ''false'')"

definition get_markets_by_tag :: "World \<Rightarrow> string \<Rightarrow> int \<Rightarrow> bool \<Rightarrow> Market list clc" where
  "get_markets_by_tag w tag_slug n closed_only = gamma_markets w
     [(''tag_slug'', tag_slug), (''limit'', int_str n), (''closed'', bool_text closed_only), (''active'', bool_text (\<not> closed_only))]"

text \<open>A cached document, or one fetched and, when it has the expected shape, cached\<close>

definition cached_or :: "World \<Rightarrow> string \<Rightarrow> json clc \<Rightarrow> (json \<Rightarrow> bool) \<Rightarrow> json \<Rightarrow> json clc" where
  "cached_or w key get_it ok def =
     bindc (get_cached w key) (\<lambda>cached. case cached of Some j \<Rightarrow> ret j
     | None \<Rightarrow> bindc get_it (\<lambda>data.
         if ok data then bindc (set_cached w key data) (\<lambda>_. ret data) else ret def))"

definition get_tags :: "World \<Rightarrow> json clc" where
  "get_tags w = cached_or w ''tags:all'' (api_gamma_get w ''/tags'' []) nonempty_array (JArr [])"

definition get_event :: "World \<Rightarrow> string \<Rightarrow> json clc" where
  "get_event w slug = cached_or w (''event:'' @ slug) (api_gamma_get w (''/events/'' @ slug) []) is_object (JObj [])"

definition get_order_book :: "World \<Rightarrow> string \<Rightarrow> OrderBook clc" where
  "get_order_book w token = bindc (api_clob_get w ''/book'' [(''token_id'', token)]) (\<lambda>j. ret (parse_order_book j))"

definition get_midpoint :: "World \<Rightarrow> string \<Rightarrow> double clc" where
  "get_midpoint w token =
     bindc (api_clob_get w ''/midpoint'' [(''token_id'', token)]) (\<lambda>j. ret (find_double j ''mid'' 0))"

definition fee_bps_of :: "json \<Rightarrow> int" where
  "fee_bps_of j = (case jfind j ''fee_rate_bps'' of None \<Rightarrow> 0 | Some v \<Rightarrow> trunc_int (to_double v))"

definition get_fee_rate :: "World \<Rightarrow> string \<Rightarrow> int clc" where
  "get_fee_rate w token =
     (let key = ''fee_rate:'' @ token in
      bindc (get_cached w key) (\<lambda>cached. case cached of
        Some j \<Rightarrow> ret (fee_bps_of j)
      | None \<Rightarrow> bindc (api_clob_get w ''/fee-rate'' [(''token_id'', token)]) (\<lambda>data.
          bindc (set_cached w key (JObj [(''fee_rate_bps'', JInt (fee_bps_of data))])) (\<lambda>_. ret (fee_bps_of data)))))"

definition get_tick_size :: "World \<Rightarrow> string \<Rightarrow> double clc" where
  "get_tick_size w token =
     (let key = ''tick_size:'' @ token; tick_of = (\<lambda>j. find_double j ''minimum_tick_size'' default_tick) in
      bindc (get_cached w key) (\<lambda>cached. case cached of
        Some j \<Rightarrow> ret (tick_of j)
      | None \<Rightarrow> bindc (api_clob_get w ''/tick-size'' [(''token_id'', token)]) (\<lambda>data.
          bindc (set_cached w key (JObj [(''minimum_tick_size'', JFloat (tick_of data))])) (\<lambda>_. ret (tick_of data)))))"

definition prices_history :: "World \<Rightarrow> string \<Rightarrow> string \<Rightarrow> int \<Rightarrow> PricePoint list clc" where
  "prices_history w token interval fidelity =
     bindc (api_clob_get w ''/prices-history''
       [(''market'', token), (''interval'', interval), (''fidelity'', int_str fidelity)])
       (\<lambda>j. ret (history_points j))"

definition get_reward_config :: "World \<Rightarrow> string \<Rightarrow> RewardConfig option clc" where
  "get_reward_config w cid =
     bindc (api_clob_get w (''/markets/'' @ cid) []) (\<lambda>j.
       ret (if is_object j then parse_rewards (w_jl w) j else None))"

definition token_for :: "Market \<Rightarrow> string \<Rightarrow> ('s, string) comp" where
  "token_for m outcome = (case get_token_id m outcome of
     None \<Rightarrow> throw (StdError (''No token found for outcome '' @ outcome)) | Some t \<Rightarrow> ret t)"

definition get_trade_context :: "World \<Rightarrow> string \<Rightarrow> string \<Rightarrow> (Market \<times> OrderBook \<times> int) clc" where
  "get_trade_context w slug_or_id outcome =
     bindc (get_market w slug_or_id) (\<lambda>market.
     bindc (token_for market outcome) (\<lambda>token.
     bindc (get_order_book w token) (\<lambda>book.
     bindc (get_fee_rate w token) (\<lambda>fee. ret (market, book, fee)))))"

definition gamma_events_raw :: "World \<Rightarrow> Params \<Rightarrow> json clc" where
  "gamma_events_raw w params =
     catch_any (bindc (api_gamma_get w ''/events'' params) (\<lambda>d. ret (if is_array d then d else JArr [])))
       (ret (JArr []))"

section \<open>Positions on chain\<close>

definition positions_path :: "string \<Rightarrow> string" where
  "positions_path user = ''/positions?user='' @ user @ ''&sizeThreshold=0.5''"

text \<open>\<open>p.value(key, 0.0)\<close>; \<open>None\<close> is the type error.\<close>

definition jvalue_num :: "json \<Rightarrow> string \<Rightarrow> double option" where
  "jvalue_num j key = (case j of JObj kvs \<Rightarrow>
       (case map_of kvs key of None \<Rightarrow> Some 0 | Some v \<Rightarrow> if is_number v then Some (to_double v) else None)
     | _ \<Rightarrow> None)"

text \<open>An exception in a row ends the loop; what was collected is kept.\<close>

fun chain_rows :: "json list \<Rightarrow> (string, double) smap \<Rightarrow> (string, double) smap" where
  "chain_rows [] out = out"
| "chain_rows (p # ps) out =
     (case (jvalue_str p ''asset'' [], jvalue_num p ''size'') of
        (Some asset, Some sz) \<Rightarrow>
          chain_rows ps (if asset \<noteq> [] \<and> lit (1 / 2) \<le> dabs sz then smap_put asset sz out else out)
      | _ \<Rightarrow> out)"

fun value_rows :: "json list \<Rightarrow> double \<Rightarrow> double" where
  "value_rows [] acc = acc"
| "value_rows (p # ps) acc =
     (case (jvalue_num p ''size'', jvalue_num p ''curPrice'') of
        (Some sz, Some cur) \<Rightarrow>
          value_rows ps (if lit (1 / 2) \<le> dabs sz \<and> 0 < cur then acc + sz * cur else acc)
      | _ \<Rightarrow> acc)"

text \<open>The rows of a usable response\<close>

definition position_rows :: "jlib \<Rightarrow> HttpResponse \<Rightarrow> json list" where
  "position_rows jl r =
     (if hr_status r = 0 \<or> 400 \<le> hr_status r then []
      else case jl_parse jl (hr_body r) of None \<Rightarrow> [] | Some data \<Rightarrow> elements data)"

definition chain_positions :: "World \<Rightarrow> string \<Rightarrow> (string, double) smap clc" where
  "chain_positions w user =
     (if user = [] then ret []
      else bindc (request (w_data w) (positions_path user)) (\<lambda>r. ret (chain_rows (position_rows (w_jl w) r) [])))"

definition chain_position_value :: "World \<Rightarrow> string \<Rightarrow> double clc" where
  "chain_position_value w user =
     (if user = [] then ret 0
      else bindc (request (w_data w) (positions_path user)) (\<lambda>r. ret (value_rows (position_rows (w_jl w) r) 0)))"

section \<open>What the client changes\<close>

text \<open>The client writes the cache table and nothing else of the database.\<close>

definition uncached :: "Client \<Rightarrow> Db" where
  "uncached c = (cl_db c)\<lparr>d_cache := None\<rparr>"

definition reads_only :: "('a clc) \<Rightarrow> bool" where
  "reads_only = obeys (same uncached)"

named_theorems client_reads

lemma on_db_reads:
  assumes "obeys (same (\<lambda>db. db\<lparr>d_cache := None\<rparr>)) m" shows "reads_only (on_db m)"
  unfolding reads_only_def on_db_def by (rule on_part_obeys[OF assms]) (simp add: same_def uncached_def)

lemma cache_ops_frame:
  "obeys (same (\<lambda>db. db\<lparr>d_cache := None\<rparr>)) (get_cache_fresh now k ttl)"
  "obeys (same (\<lambda>db. db\<lparr>d_cache := None\<rparr>)) (set_cache now k j)"
  unfolding get_cache_fresh_def set_cache_def by (intro same.sequenced same.pure modify_same; simp)+

lemmas reads_intros = same.pure same.sequenced same.caught same.branches same.repeated

lemma reads_basic [client_reads]: "reads_only (request net path)" "reads_only (clock w)"
  unfolding reads_only_def request_def clock_def
  by (intro reads_intros modify_same; simp add: uncached_def)+

lemma reads_cache [client_reads]:
  "reads_only (on_db (get_cache_fresh now k ttl))" "reads_only (on_db (set_cache now k j))"
  by (rule on_db_reads[OF cache_ops_frame(1)], rule on_db_reads[OF cache_ops_frame(2)])

lemma reads_gets [client_reads]:
  "reads_only (api_gamma_get w p ps)" "reads_only (api_clob_get w p ps)"
  "reads_only (get_cached w k)" "reads_only (set_cached w k j)"
  using reads_basic reads_cache unfolding reads_only_def api_gamma_get_def api_clob_get_def get_cached_def set_cached_def
  by (intro reads_intros; simp)+

lemma reads_market [client_reads]: "reads_only (get_market w s)"
  using reads_gets
  unfolding reads_only_def get_market_def market_by_condition_def clob_market_def cache_market_def catch_any_def catch_api_def Let_def
  by (intro reads_intros; simp)

lemma reads_calls [client_reads]:
  "reads_only (get_order_book w t)" "reads_only (get_midpoint w t)" "reads_only (get_reward_config w c)"
  "reads_only (prices_history w t iv n)" "reads_only (get_fee_rate w t)" "reads_only (get_tick_size w t)"
  "reads_only (get_tags w)" "reads_only (get_event w s)" "reads_only (gamma_markets w ps)"
  "reads_only (gamma_events_raw w ps)" "reads_only (chain_positions w u)" "reads_only (chain_position_value w u)"
  using reads_gets reads_basic
  unfolding reads_only_def get_order_book_def get_midpoint_def get_reward_config_def prices_history_def
    get_fee_rate_def get_tick_size_def get_tags_def get_event_def gamma_markets_def gamma_events_raw_def
    chain_positions_def chain_position_value_def cached_or_def catch_any_def Let_def
  by (intro reads_intros; simp)+

section \<open>The market cache\<close>

lemma on_db_run [comp_simps]:
  "on_db m c = (case m (cl_db c) of (r, d) \<Rightarrow> (r, cl_db_update (\<lambda>_. d) c))"
  by (simp add: on_db_def on_part_def)

lemma request_run [comp_simps]:
  "request net path c = (Inr (net (cl_requests c) path), cl_requests_update Suc c)"
  by (simp add: request_def comp_simps)

lemma api_get_run:
  "api_gamma_get w p ps c = (json_reply (w_jl w) ''Gamma API'' (w_gamma w (cl_requests c) (p @ build_query ps)), cl_requests_update Suc c)"
  "api_clob_get w p ps c = (json_reply (w_jl w) ''CLOB API'' (w_clob w (cl_requests c) (p @ build_query ps)), cl_requests_update Suc c)"
  by (simp_all add: api_gamma_get_def api_clob_get_def comp_simps)

definition cache_find :: "int \<Rightarrow> string \<Rightarrow> CacheRow list \<Rightarrow> CacheRow option" where
  "cache_find now k rows = find (\<lambda>r. ca_key r = c_str k \<and> sql_datetime (now - kCacheTtlSeconds * 1000000) \<le> ca_fetched_at r) rows"

lemma get_cached_run: "d_cache (cl_db c) = Some rows \<Longrightarrow>
  get_cached w k c = (Inr (case cache_find (w_clock w (cl_requests c)) k rows of None \<Rightarrow> None
     | Some r \<Rightarrow> jl_parse (w_jl w) (ca_data r)), c)"
  by (simp add: get_cached_def clock_def get_cache_fresh_def cache_find_def comp_simps split: option.split)

definition cache_put :: "int \<Rightarrow> string \<Rightarrow> string \<Rightarrow> CacheRow list \<Rightarrow> CacheRow list" where
  "cache_put now k text rows = filter (\<lambda>r. ca_key r \<noteq> c_str k) rows @
     [\<lparr>ca_key = c_str k, ca_data = c_str text, ca_fetched_at = sql_datetime now\<rparr>]"

lemma set_cached_run: "d_cache (cl_db c) = Some rows \<Longrightarrow>
  set_cached w k j c = (Inr (), cl_db_update (\<lambda>d. d\<lparr>d_cache := Some (cache_put (w_clock w (cl_requests c)) k
     (jl_dump (w_jl w) j) rows)\<rparr>) c)"
  by (simp add: set_cached_def clock_def set_cache_def cache_put_def comp_simps)

lemma cache_find_put: "cache_find now k (cache_put then' k text rows) =
  (if sql_datetime (now - kCacheTtlSeconds * 1000000) \<le> sql_datetime then'
   then Some \<lparr>ca_key = c_str k, ca_data = c_str text, ca_fetched_at = sql_datetime then'\<rparr> else None)"
proof -
  have "find (\<lambda>r. ca_key r = k' \<and> P r) (filter (\<lambda>r. ca_key r \<noteq> k') rows @ [x]) =
    (if ca_key x = k' \<and> P x then Some x else None)" for k' P and x :: CacheRow
    by (induction rows) auto
  then show ?thesis by (simp add: cache_find_def cache_put_def)
qed

lemma not_object: "\<not> is_object (JArr xs)"
  by (simp add: is_object_def)

text \<open>
  A market known to the CLOB only is cached as the CLOB's document but read back with the
  gamma parser: the first \<open>get_market\<close> answers with the CLOB parser's market, and a second one
  while the entry is fresh with the gamma parser's, whose slug is the field "slug" instead of
  "market_slug".  The hypothesis on the JSON library is its round trip on this document.
\<close>

theorem cached_clob_market:
  assumes "d_cache (cl_db c) = Some rows" "cache_find (w_clock w (cl_requests c)) (''market:'' @ s) rows = None"
    and "starts_with ''0x'' s"
    and gamma: "\<And>n p. json_reply (w_jl w) ''Gamma API'' (w_gamma w n p) = Inr (JArr [])"
    and clob: "json_reply (w_jl w) ''CLOB API'' (w_clob w (cl_requests c + 1) (''/markets/'' @ s)) = Inr data"
    and "is_object data" "found_truthy data ''condition_id''"
    and "jl_parse (w_jl w) (c_str (jl_dump (w_jl w) data)) = Some data"
    and "get_market w s c = (r, c')"
    and "sql_datetime (w_clock w (cl_requests c') - kCacheTtlSeconds * 1000000) \<le> sql_datetime (w_clock w (cl_requests c'))"
  shows "r = Inr (parse_clob_market (w_jl w) data) \<and> fst (get_market w s c') = parse_market (w_jl w) data"
proof -
  define key where "key = ''market:'' @ s"
  define put where "put = (\<lambda>(c1::Client) rows'. cl_db_update (\<lambda>d. d\<lparr>d_cache := Some (cache_put (w_clock w (cl_requests c1)) key
     (jl_dump (w_jl w) data) rows')\<rparr>) c1)"
  have put_run: "set_cached w key data c1 = (Inr (), put c1 rows)" if "d_cache (cl_db c1) = Some rows" for c1
    using set_cached_run[OF that] by (simp add: put_def)
  have by_clob: "clob_market w key data c1 = (Inr (parse_clob_market (w_jl w) data),
      put (if mk_slug (parse_clob_market (w_jl w) data) = [] then c1 else cl_requests_update Suc c1) rows)"
    if "d_cache (cl_db c1) = Some rows" for c1
    using that by (simp add: clob_market_def Let_def comp_simps put_run api_get_run gamma nonempty_array_def elements_def catch_any_def)
  have first: "get_market w s c = (Inr (parse_clob_market (w_jl w) data), put
      (let c2 = cl_requests_update Suc (cl_requests_update Suc c) in
       if mk_slug (parse_clob_market (w_jl w) data) = [] then c2 else cl_requests_update Suc c2) rows)"
    using assms(1,3,6,7) clob assms(2)[folded key_def] unfolding get_market_def Let_def key_def[symmetric]
    by (simp add: market_by_condition_def catch_api_def comp_simps get_cached_run api_get_run gamma
        nonempty_array_def elements_def not_object build_query_def by_clob)
  then obtain c1 where c1: "c' = put c1 rows" and r: "r = Inr (parse_clob_market (w_jl w) data)"
    using assms(9) by (metis prod.inject)
  have "d_cache (cl_db c') = Some (cache_put (w_clock w (cl_requests c')) key (jl_dump (w_jl w) data) rows)"
    by (simp add: c1 put_def)
  from get_cached_run[OF this, of w key] have "get_cached w key c' = (Inr (Some data), c')"
    using assms(8,10) by (simp add: cache_find_put)
  then have "get_market w s c' = (parse_market (w_jl w) data, c')"
    unfolding get_market_def Let_def key_def[symmetric] by (simp add: comp_simps)
  then show ?thesis using r by simp
qed

definition clob_doc :: json where
  "clob_doc = JObj [(''condition_id'', JStr ''0x1''), (''market_slug'', JStr ''s'')]"

definition clob_world :: World where
  "clob_world = \<lparr>w_jl = \<lparr>jl_parse = (\<lambda>t. Some (if t = ''d'' then clob_doc else JArr [])), jl_dump = (\<lambda>_. ''d'')\<rparr>,
     w_gamma = (\<lambda>_ _. \<lparr>hr_status = 200, hr_body = ''g''\<rparr>), w_clob = (\<lambda>_ _. \<lparr>hr_status = 200, hr_body = ''d''\<rparr>),
     w_data = (\<lambda>_ _. \<lparr>hr_status = 0, hr_body = []\<rparr>), w_clock = (\<lambda>_. 0)\<rparr>"

definition fresh_client :: Client where
  "fresh_client = \<lparr>cl_db = fresh_db, cl_requests = 0\<rparr>"

lemma clob_doc_parsed: "jfind clob_doc ''market_slug'' = Some (JStr ''s'')" "jfind clob_doc ''slug'' = None"
    "jfind clob_doc ''tokens'' = None" "jfind clob_doc ''clobTokenIds'' = None" "found_truthy clob_doc ''condition_id''"
    "is_object clob_doc"
  by (simp_all add: clob_doc_def jfind_def jfind2_def not_null_def found_truthy_def truthy_def is_object_def)

lemma fresh_at_once: "sql_datetime (0 - kCacheTtlSeconds * 1000000) \<le> sql_datetime 0"
  by code_simp

lemma cached_clob_market_witness:
  "let c' = snd (get_market clob_world ''0x1'' fresh_client)
   in map_sum (\<lambda>e. e) mk_slug (fst (get_market clob_world ''0x1'' fresh_client)) = Inr ''s'' \<and>
      map_sum (\<lambda>e. e) mk_slug (fst (get_market clob_world ''0x1'' c')) = Inr []"
proof -
  obtain r c' where rc: "get_market clob_world ''0x1'' fresh_client = (r, c')" by fastforce
  have "r = Inr (parse_clob_market (w_jl clob_world) clob_doc) \<and>
      fst (get_market clob_world ''0x1'' c') = parse_market (w_jl clob_world) clob_doc"
    by (rule cached_clob_market[OF _ _ _ _ _ clob_doc_parsed(6,5) _ rc, of "[]"])
       (use fresh_at_once in \<open>simp_all add: starts_with_def fresh_client_def fresh_db_eq cache_find_def clob_world_def json_reply_def\<close>)
  then show ?thesis using rc
    by (simp add: parse_clob_market_def parse_market_def tokens_of_def found_items_def find_str_def clob_doc_parsed Let_def)
qed

end
