(* ===== verification/Engine.thy ===== *)
theory Engine
  imports Api MakerLive
begin

text \<open>
  The execution engine (\<open>engine.cpp\<close>): the account, the maker quotes on paper and live, and their
  accrual.  An engine computation runs on the engine's state: the API client (with the database),
  the parameters set by the runner, the chain positions and the actions handed to the submitter.
  The network, the clock, the JSON and mathematical libraries are in the world parameter; the live
  book source is a parameter that may give a book and a midpoint.  The prefetch threads write one
  slot per quote each, so they are modelled in the order of the quotes.  Quotes and results leave
  the engine as JSON rows, as in the source.
\<close>

definition MIN_ORDER_USD :: double where "MIN_ORDER_USD = lit 1"
definition MAKER_CAP_MULT :: double where "MAKER_CAP_MULT = lit 4"
definition MAKER_SKEW_STRENGTH :: double where "MAKER_SKEW_STRENGTH = lit 1"
definition MAX_ACCRUAL_SECONDS :: double where "MAX_ACCRUAL_SECONDS = lit 600"

record RealFill =
  rf_side :: string
  rf_size :: double
  rf_price :: double

type_synonym FillsByToken = "(string, RealFill list) smap"

record MakerQuoteOpts =
  mo_size_opt :: "double option"
  mo_half_spread_cents :: "double option"
  mo_cancel_efficiency :: double
  mo_max_inventory :: "double option"
  mo_skew_strength :: double
  mo_now_unix :: "double option"

type_synonym live_source = "nat \<Rightarrow> string \<Rightarrow> (OrderBook option \<times> double) option"

record Engine =
  en_client :: Client
  en_crossing_cost_c :: double
  en_micro_center :: bool
  en_micro_gate_c :: double
  en_micro_beta :: double
  en_reward_calib :: double
  en_chain :: "(string, double) smap"
  en_jump_vol_weight :: double
  en_sent :: "json list"

type_synonym 'a enc = "(Engine, 'a) comp"

record QuoteRead =
  qr_config_ok :: bool
  qr_pool :: "RewardConfig option"
  qr_book_ok :: bool
  qr_book :: OrderBook
  qr_mid :: double

record Mark =
  mark_condition_id :: string
  mark_outcome :: string
  mark_price :: double

section \<open>Times\<close>

definition now_unix_default :: "World \<Rightarrow> double enc" where
  "now_unix_default w = reading (\<lambda>e. of_i (w_clock w (cl_requests (en_client e))) / lit 1000000)"

fun lround :: "double \<Rightarrow> int" where
  "lround (Fin q) = (if 0 \<le> q then \<lfloor>q + 1 / 2\<rfloor> else \<lceil>q - 1 / 2\<rceil>)"
| "lround _ = - (2 ^ 63)"

fun floor_d :: "double \<Rightarrow> int" where
  "floor_d (Fin q) = \<lfloor>q\<rfloor>"
| "floor_d _ = - (2 ^ 63)"

definition unix_to_iso :: "double \<Rightarrow> string" where
  "unix_to_iso unix =
     (let t0 = floor_d unix; us0 = lround ((unix - of_i t0) * lit 1000000);
          us = (if 1000000 \<le> us0 then us0 - 1000000 else us0); t = (if 1000000 \<le> us0 then t0 + 1 else t0)
      in date_text (CHR ''T'') t @ (if us = 0 then [] else ''.'' @ pad 6 us) @ ''+00:00'')"

definition iso_to_unix :: "string \<Rightarrow> double" where
  "iso_to_unix s =
     (case scan_fields [CHR ''-'', CHR ''-'', CHR ''T'', CHR '':'', CHR '':''] s of
        Some [yr, mon, d, h, mi, sec] \<Rightarrow>
          let rest = dropWhile (\<lambda>c. c \<noteq> CHR ''.'') s; frac = (if rest = [] then 0 else atof rest)
          in of_i (timegm yr (mon - 1) d h mi sec) + frac
      | _ \<Rightarrow> 0)"

definition trim_ws :: "string \<Rightarrow> string" where
  "trim_ws s = env_trim s"

section \<open>Parts of the state\<close>

definition on_client :: "'a clc \<Rightarrow> 'a enc" where
  "on_client m = on_part en_client (\<lambda>c. en_client_update (\<lambda>_. c)) m"

definition edb :: "'a dbc \<Rightarrow> 'a enc" where
  "edb m = on_client (on_db m)"

text \<open>A database call that reads the clock\<close>

definition edb_now :: "World \<Rightarrow> (int \<Rightarrow> 'a dbc) \<Rightarrow> 'a enc" where
  "edb_now w m = bindc (on_client (clock w)) (\<lambda>now. edb (m now))"

text \<open>Handing an action to the submitter\<close>

definition send_action :: "submitter \<Rightarrow> json \<Rightarrow> json enc" where
  "send_action sub action e = (sub (en_sent e) action, e\<lparr>en_sent := en_sent e @ [action]\<rparr>)"

text \<open>\<open>json{{k, v}, ...}\<close>: an object keeps its keys in order.\<close>

definition jobj :: "(string \<times> json) list \<Rightarrow> json" where
  "jobj kvs = JObj (foldl (\<lambda>m (k, v). smap_put k v m) [] kvs)"

section \<open>Account\<close>

definition require_account :: "Account enc" where
  "require_account = bindc (edb get_account_row) (\<lambda>a. case a of None \<Rightarrow> throw NotInitializedError | Some x \<Rightarrow> ret x)"

definition committed_maker_capital :: "double enc" where
  "committed_maker_capital = bindc (edb get_active_maker_quotes) (\<lambda>qs. ret (sum_d (map q_committed_capital qs)))"

definition mark_of :: "Mark option \<Rightarrow> Position \<Rightarrow> double" where
  "mark_of mark p = (case mark of
       Some m \<Rightarrow> if po_market_condition_id p = mark_condition_id m \<and> po_outcome p = mark_outcome m
                 then mark_price m else po_avg_entry_price p
     | None \<Rightarrow> po_avg_entry_price p)"

definition record_equity :: "World \<Rightarrow> Mark option \<Rightarrow> unit enc" where
  "record_equity w mark = catch_any
     (bindc (edb get_account_row) (\<lambda>acc. case acc of None \<Rightarrow> ret ()
      | Some a \<Rightarrow>
          bindc committed_maker_capital (\<lambda>committed.
          bindc (edb get_open_positions) (\<lambda>ps.
          edb_now w (\<lambda>now. db_record_equity now
            (foldl (\<lambda>eq p. eq + po_shares p * mark_of mark p) (ac_cash a + committed) ps))))))
     (ret ())"

definition init_account :: "World \<Rightarrow> double \<Rightarrow> Account enc" where
  "init_account w balance = bindc (edb_now w (\<lambda>now. db_init_account now balance)) (\<lambda>a.
     bindc (record_equity w None) (\<lambda>_. ret a))"

definition sync_capital :: "double \<Rightarrow> unit enc" where
  "sync_capital capital = bindc require_account (\<lambda>_.
     bindc committed_maker_capital (\<lambda>committed. edb (update_cash (cmax 0 (capital - committed)))))"

definition reset_engine :: "unit enc" where
  "reset_engine = bindc (edb db_reset) (\<lambda>_. edb init_orders_schema)"

definition open_engine :: "unit enc" where
  "open_engine = bindc (edb init_schema) (\<lambda>_. edb init_orders_schema)"

definition live_price :: "World \<Rightarrow> Position \<Rightarrow> double enc" where
  "live_price w pos = on_client (catch_any
     (bindc (get_market w (po_market_slug pos)) (\<lambda>m. bindc (token_for m (po_outcome pos)) (get_midpoint w)))
     (ret 0))"

definition snapshot_equity :: "World \<Rightarrow> double enc" where
  "snapshot_equity w =
     bindc require_account (\<lambda>a.
     bindc committed_maker_capital (\<lambda>committed.
     bindc (edb get_open_positions) (\<lambda>ps.
     bindc (for_each (\<lambda>pos. bindc (live_price w pos) (\<lambda>price.
         ret [po_shares pos * (if price \<le> 0 then po_avg_entry_price pos else price)])) ps) (\<lambda>marks.
     let equity = foldl (+) (ac_cash a + committed) marks in
     bindc (edb_now w (\<lambda>now. db_record_equity now equity)) (\<lambda>_. ret equity)))))"

definition validate_outcome :: "string \<Rightarrow> Market option \<Rightarrow> sim_error + string" where
  "validate_outcome outcome_in market =
     (let outcome = trim_ws (to_lower outcome_in) in
      if outcome = [] then Inl (InvalidOutcomeError outcome)
      else case market of None \<Rightarrow> Inr outcome
      | Some m \<Rightarrow> if list_ex (\<lambda>oc. to_lower oc = outcome) (mk_outcomes m) then Inr outcome
                  else Inl (InvalidOutcomeError outcome))"

definition book_mid :: "OrderBook \<Rightarrow> double option" where
  "book_mid book =
     (case (map lv_price (ob_bids book), map lv_price (ob_asks book)) of
        (b # bs, a # as) \<Rightarrow> Some ((foldl cmax b (b # bs) + foldl cmin a (a # as)) / lit 2)
      | _ \<Rightarrow> None)"

definition credit_maker :: "double \<Rightarrow> unit enc" where
  "credit_maker amount = bindc require_account (\<lambda>a. edb (update_cash (ac_cash a + amount)))"

section \<open>Quotes as JSON\<close>

definition maker_quote_to_dict :: "MakerQuote \<Rightarrow> json" where
  "maker_quote_to_dict q = jobj
     [(''id'', JInt (q_id q)), (''market_slug'', JStr (q_market_slug q)),
      (''market_condition_id'', JStr (q_market_condition_id q)), (''outcome'', JStr (q_outcome q)),
      (''token_id'', JStr (q_token_id q)), (''complement_token_id'', JStr (q_complement_token_id q)),
      (''size'', JFloat (q_size q)), (''half_spread_c'', JFloat (q_half_spread_c q)),
      (''max_spread_c'', JFloat (q_max_spread_c q)), (''min_size'', JFloat (q_min_size q)),
      (''daily_rate'', JFloat (q_daily_rate q)), (''tick'', JFloat (q_tick q)),
      (''cancel_efficiency'', JFloat (q_cancel_efficiency q)), (''max_inventory'', JFloat (q_max_inventory q)),
      (''skew_strength'', JFloat (q_skew_strength q)), (''inventory'', JFloat (q_inventory q)),
      (''complement_inventory'', JFloat (q_complement_inventory q)), (''inventory_pnl'', JFloat (q_inventory_pnl q)),
      (''entry_mid'', JFloat (q_entry_mid q)), (''committed_capital'', JFloat (q_committed_capital q)),
      (''accrued_rewards'', JFloat (q_accrued_rewards q)), (''realized_bleed'', JFloat (q_realized_bleed q)),
      (''net_pnl'', JFloat (q_accrued_rewards q + q_inventory_pnl q)), (''fills'', JInt (q_fills q)),
      (''status'', JStr (q_status q)), (''last_mid'', JFloat (q_last_mid q)),
      (''created_at'', JStr (q_created_at q)), (''last_accrued_at'', JStr (q_last_accrued_at q))]"

definition rounded6 :: "double \<Rightarrow> json" where
  "rounded6 x = JFloat (round_to x 6)"

section \<open>Leaving a market\<close>

definition exit_row :: "json \<Rightarrow> double \<Rightarrow> string \<Rightarrow> double \<Rightarrow> (string \<times> double) list \<Rightarrow> json" where
  "exit_row quote mid reason crossing_cost extra = jobj
     ([(''quote'', quote), (''reconciled'', JStr reason), (''mid'', JFloat mid)] @
      (if deq crossing_cost 0 then [] else [(''crossing_cost'', rounded6 crossing_cost)]) @
      map (\<lambda>(k, v). (k, rounded6 v)) extra)"

definition exit_maker_quote ::
  "MakerQuote \<Rightarrow> double \<Rightarrow> string \<Rightarrow> double \<Rightarrow> (string \<times> double) list \<Rightarrow> json list enc" where
  "exit_maker_quote quote mid reason crossing_cost extra =
     bindc require_account (\<lambda>a.
     bindc (edb (update_cash (ac_cash a + q_committed_capital quote - cmax 0 crossing_cost))) (\<lambda>_.
     bindc (edb (db_cancel_maker_quote (q_id quote))) (\<lambda>cancelled.
     ret [exit_row (maker_quote_to_dict (case cancelled of None \<Rightarrow> quote | Some q \<Rightarrow> q)) mid reason crossing_cost extra])))"

definition action_ok :: "json \<Rightarrow> bool" where
  "action_ok res = (case (case res of JObj kvs \<Rightarrow> map_of kvs ''status'' | _ \<Rightarrow> None) of
       Some (JStr st) \<Rightarrow> st \<noteq> ''ERROR'' \<and> st \<noteq> ''REJECTED''
     | _ \<Rightarrow> True)"

definition flatten_action :: "string \<Rightarrow> double \<Rightarrow> json" where
  "flatten_action token inventory = JObj [(''action'', JStr ''FLATTEN''),
     (''side'', JStr (if 0 < inventory then ''SELL'' else ''BUY'')),
     (''size'', JFloat (dabs inventory)), (''token_id'', JStr token)]"

definition flatten_live :: "submitter \<Rightarrow> string \<Rightarrow> double \<Rightarrow> json enc" where
  "flatten_live sub token inventory =
     (if dabs inventory < lit (1 / 10 ^ 9) then ret JNull else send_action sub (flatten_action token inventory))"

section \<open>Placing on paper\<close>

definition reject_unless :: "bool \<Rightarrow> string \<Rightarrow> unit enc" where
  "reject_unless ok msg = ensure ok (OrderRejectedError msg)"

text \<open>The complement is the first other token with an id.\<close>

definition complement_of :: "Market \<Rightarrow> string \<Rightarrow> string" where
  "complement_of m token =
     (case find (\<lambda>t. tk_token_id t \<noteq> token \<and> tk_token_id t \<noteq> []) (mk_tokens m) of
        None \<Rightarrow> [] | Some t \<Rightarrow> tk_token_id t)"

definition min_leg :: "double \<Rightarrow> double \<Rightarrow> double \<Rightarrow> double" where
  "min_leg sz mid offset = sz * cmin (mid - offset) (1 - mid - offset)"

definition quote_now :: "World \<Rightarrow> double option \<Rightarrow> double enc" where
  "quote_now w now_unix = (case now_unix of None \<Rightarrow> now_unix_default w | Some u \<Rightarrow> ret u)"

text \<open>The checks on the options, in the order of the source\<close>

definition check_opts :: "RewardConfig \<Rightarrow> MakerQuoteOpts \<Rightarrow> (double \<times> double \<times> double) enc" where
  "check_opts pool opts =
     (let sz = opt_or (mo_size_opt opts) (rc_min_size pool);
          half = opt_or (mo_half_spread_cents opts) (rc_tick pool * lit 100);
          cap_shares = opt_or (mo_max_inventory opts) (MAKER_CAP_MULT * sz) in
      bindc (reject_unless (\<not> sz < rc_min_size pool) ''Maker size below pool min_size'') (\<lambda>_.
      bindc (reject_unless (\<not> (half \<le> 0 \<or> rc_max_spread pool < half)) ''half_spread_cents out of (0, max_spread]'') (\<lambda>_.
      bindc (reject_unless (0 \<le> mo_cancel_efficiency opts \<and> mo_cancel_efficiency opts \<le> 1)
        ''cancel_efficiency must be in [0, 1]'') (\<lambda>_.
      bindc (reject_unless (\<not> mo_skew_strength opts < 0) ''skew_strength must be >= 0'') (\<lambda>_.
      bindc (reject_unless (\<not> cap_shares \<le> 0) ''max_inventory must be > 0'') (\<lambda>_.
      ret (sz, half, cap_shares)))))))"

text \<open>Everything before the cash is touched: the account and the quote that is to be entered\<close>

definition quote_input :: "Market \<Rightarrow> RewardConfig \<Rightarrow> MakerQuoteOpts \<Rightarrow> string \<Rightarrow> string \<Rightarrow> double \<Rightarrow> double \<Rightarrow> double \<Rightarrow> double
    \<Rightarrow> MakerQuoteInput" where
  "quote_input market pool opts outcome token mid sz half cap_shares =
     \<lparr>qi_market_slug = mk_slug market, qi_market_condition_id = mk_condition_id market,
      qi_outcome = outcome, qi_token_id = token, qi_complement_token_id = complement_of market token,
      qi_size = sz, qi_half_spread_c = half, qi_max_spread_c = rc_max_spread pool,
      qi_min_size = rc_min_size pool, qi_daily_rate = rc_daily pool, qi_tick = rc_tick pool,
      qi_cancel_efficiency = mo_cancel_efficiency opts, qi_committed_capital = committed_capital sz half,
      qi_last_mid = mid, qi_last_accrued_at = [], qi_max_inventory = cap_shares,
      qi_skew_strength = mo_skew_strength opts, qi_entry_mid = mid\<rparr>"

definition place_check :: "World \<Rightarrow> string \<Rightarrow> string \<Rightarrow> MakerQuoteOpts \<Rightarrow> (Account \<times> MakerQuoteInput) enc" where
  "place_check w slug_or_id outcome_in opts =
     bindc require_account (\<lambda>account.
     bindc (on_client (get_market w slug_or_id)) (\<lambda>market.
     bindc (of_sum (validate_outcome outcome_in (Some market))) (\<lambda>outcome.
     bindc (ensure (\<not> mk_closed market) (MarketClosedError (mk_slug market))) (\<lambda>_.
     bindc (on_client (get_reward_config w (mk_condition_id market))) (\<lambda>pool_opt.
     bindc (reject_unless (pool_opt \<noteq> None) (mk_slug market @ '' is not in the liquidity-rewards program'')) (\<lambda>_.
     bindc (deref pool_opt) (\<lambda>pool.
     bindc (check_opts pool opts) (\<lambda>(sz, half, cap_shares).
     bindc (token_for market outcome) (\<lambda>token.
     bindc (on_client (get_midpoint w token)) (\<lambda>mid.
     bindc (reject_unless (in_unit mid) ''No valid midpoint to anchor the maker quote'') (\<lambda>_.
     bindc (reject_unless (\<not> min_leg sz mid (half / lit 100) < MIN_ORDER_USD)
       ''Maker leg notional below exchange minimum'') (\<lambda>_.
     let cap = committed_capital sz half in
     bindc (ensure (\<not> ac_cash account < cap) (InsufficientBalanceError cap (ac_cash account))) (\<lambda>_.
     ret (account, quote_input market pool opts outcome token mid sz half cap_shares))))))))))))))"

definition place_quote :: "World \<Rightarrow> string \<Rightarrow> string \<Rightarrow> MakerQuoteOpts \<Rightarrow> MakerQuote enc" where
  "place_quote w slug_or_id outcome_in opts =
     bindc (place_check w slug_or_id outcome_in opts) (\<lambda>(account, inp).
     bindc (edb (update_cash (ac_cash account - qi_committed_capital inp))) (\<lambda>_.
     bindc (quote_now w (mo_now_unix opts)) (\<lambda>now.
     bindc (edb_now w (\<lambda>t. create_maker_quote t (inp\<lparr>qi_last_accrued_at := unix_to_iso now\<rparr>))) (\<lambda>quote.
     bindc (record_equity w None) (\<lambda>_. ret quote)))))"

definition place_maker_quote :: "World \<Rightarrow> string \<Rightarrow> string \<Rightarrow> MakerQuoteOpts \<Rightarrow> json enc" where
  "place_maker_quote w slug_or_id outcome_in opts =
     bindc (place_quote w slug_or_id outcome_in opts) (\<lambda>q. ret (maker_quote_to_dict q))"

definition cancel_quote :: "World \<Rightarrow> int \<Rightarrow> MakerQuote option enc" where
  "cancel_quote w quote_id =
     bindc require_account (\<lambda>_.
     bindc (edb (get_maker_quote quote_id)) (\<lambda>quote. case quote of
       None \<Rightarrow> ret None
     | Some q \<Rightarrow>
         if q_status q \<noteq> ''active'' then ret None
         else bindc require_account (\<lambda>a.
              bindc (edb (update_cash (ac_cash a + q_committed_capital q))) (\<lambda>_.
              bindc (edb (db_cancel_maker_quote quote_id)) (\<lambda>updated.
              bindc (record_equity w None) (\<lambda>_. ret updated))))))"

definition cancel_maker_quote :: "World \<Rightarrow> int \<Rightarrow> json option enc" where
  "cancel_maker_quote w quote_id =
     bindc (cancel_quote w quote_id) (\<lambda>q. ret (map_option maker_quote_to_dict q))"

definition get_maker_quotes :: "json list enc" where
  "get_maker_quotes = bindc require_account (\<lambda>_.
     bindc (edb get_active_maker_quotes) (\<lambda>qs. ret (map maker_quote_to_dict qs)))"

definition add_summary :: "MakerQuote \<Rightarrow> (double \<times> double \<times> double \<times> double \<times> double \<times> int)
    \<Rightarrow> (double \<times> double \<times> double \<times> double \<times> double \<times> int)" where
  "add_summary q = (\<lambda>(committed, opened, reward, pnl, bleed, active).
     let on = (q_status q = ''active'') in
     (if on then committed + q_committed_capital q else committed,
      if on then opened + (dabs (q_inventory q) + dabs (q_complement_inventory q)) else opened,
      reward + q_accrued_rewards q, pnl + q_inventory_pnl q, bleed + q_realized_bleed q,
      if on then active + 1 else active))"

definition get_maker_summary :: "json enc" where
  "get_maker_summary = bindc require_account (\<lambda>_.
     bindc (edb get_all_maker_quotes) (\<lambda>qs.
     let (committed, opened, reward, pnl, bleed, active) = foldl (\<lambda>acc q. add_summary q acc) (0, 0, 0, 0, 0, 0) qs in
     ret (jobj [(''active_quotes'', JInt active), (''total_quotes'', JInt (int (length qs))),
       (''committed_capital'', JFloat committed), (''open_inventory'', JFloat opened),
       (''reward_income'', JFloat reward), (''inventory_pnl'', JFloat pnl), (''adverse_bleed'', JFloat bleed),
       (''net_maker_pnl'', JFloat (reward + pnl))])))"

section \<open>Reading the markets of the quotes\<close>

definition empty_read :: QuoteRead where
  "empty_read = \<lparr>qr_config_ok = False, qr_pool = None, qr_book_ok = False,
     qr_book = \<lparr>ob_bids = [], ob_asks = []\<rparr>, qr_mid = 0\<rparr>"

text \<open>\<open>book_source_ != nullptr && is_live()\<close>, with a book and a midpoint in (0, 1)\<close>

definition live_read :: "live_source \<Rightarrow> nat \<Rightarrow> string \<Rightarrow> (OrderBook \<times> double) option" where
  "live_read live n token = (case live n token of
       Some (Some b, m) \<Rightarrow> if in_unit m then Some (b, m) else None
     | _ \<Rightarrow> None)"

definition rest_read :: "World \<Rightarrow> string \<Rightarrow> QuoteRead \<Rightarrow> QuoteRead clc" where
  "rest_read w token r =
     bindc (catch_any (bindc (get_order_book w token) (\<lambda>b. ret (Some b))) (ret None)) (\<lambda>book. case book of
       None \<Rightarrow> ret r
     | Some b \<Rightarrow> catch_any (bindc (get_midpoint w token) (\<lambda>m.
           ret (r\<lparr>qr_book := b, qr_mid := m, qr_book_ok := True\<rparr>))) (ret (r\<lparr>qr_book := b\<rparr>)))"

definition read_one :: "World \<Rightarrow> live_source \<Rightarrow> MakerQuote \<Rightarrow> QuoteRead clc" where
  "read_one w live q =
     bindc (catch_any (bindc (get_reward_config w (q_market_condition_id q)) (\<lambda>p. ret (Some p))) (ret None))
       (\<lambda>config. case config of
          None \<Rightarrow> ret empty_read
        | Some pool \<Rightarrow>
            let r = empty_read\<lparr>qr_pool := pool, qr_config_ok := True\<rparr> in
            if (case pool of None \<Rightarrow> True | Some p \<Rightarrow> rc_daily p \<le> 0) then ret r
            else bindc (reading cl_requests) (\<lambda>n. case live_read live n (q_token_id q) of
                Some (b, m) \<Rightarrow> ret (r\<lparr>qr_book := b, qr_mid := m, qr_book_ok := True\<rparr>)
              | None \<Rightarrow> rest_read w (q_token_id q) r))"

definition prefetch_quote_reads :: "World \<Rightarrow> live_source \<Rightarrow> MakerQuote list \<Rightarrow> (int \<times> QuoteRead) list enc" where
  "prefetch_quote_reads w live quotes =
     on_client (for_each (\<lambda>q. bindc (read_one w live q) (\<lambda>r. ret [(q_id q, r)])) quotes)"

definition read_of :: "(int \<times> QuoteRead) list \<Rightarrow> int \<Rightarrow> QuoteRead" where
  "read_of reads i = (case map_of (rev reads) i of None \<Rightarrow> empty_read | Some r \<Rightarrow> r)"

definition pool_daily :: "QuoteRead \<Rightarrow> double" where
  "pool_daily r = (case qr_pool r of None \<Rightarrow> 0 | Some p \<Rightarrow> rc_daily p)"

text \<open>\<open>!r.pool || daily_rate <= 0.0\<close>\<close>

definition rewards_over :: "QuoteRead \<Rightarrow> bool" where
  "rewards_over r \<longleftrightarrow> qr_pool r = None \<or> pool_daily r \<le> 0"

definition entry_of :: "MakerQuote \<Rightarrow> double \<Rightarrow> double" where
  "entry_of q mid = (if 0 < q_entry_mid q then q_entry_mid q else mid)"

definition drifted :: "MakerQuote \<Rightarrow> double \<Rightarrow> bool" where
  "drifted q mid \<longleftrightarrow> q_max_spread_c q / lit 100 \<le> dabs (mid - entry_of q mid)"

section \<open>Accrual on paper\<close>

text \<open>What one reading of the book means for a quote: time, share, reward, simulated fill and mark\<close>

record PaperAccrual =
  pa_seconds :: double
  pa_share :: double
  pa_reward :: double
  pa_d_inv :: double
  pa_fill_loss :: double
  pa_new_inventory :: double
  pa_pnl_delta :: double

definition paper_accrual :: "MakerQuote \<Rightarrow> QuoteRead \<Rightarrow> double \<Rightarrow> PaperAccrual" where
  "paper_accrual q r now =
     (let mid = qr_mid r; seconds = cmax 0 (now - iso_to_unix (q_last_accrued_at q));
          share = maker_reward_share (q_size q) (q_half_spread_c q) (q_max_spread_c q)
                    (book_inband_qmin (qr_book r) mid (q_max_spread_c q));
          cap = (if 0 < q_max_inventory q then q_max_inventory q else MAKER_CAP_MULT * q_size q);
          held_mtm = q_inventory q * (mid - q_last_mid q);
          (d_inv, fill_loss) = maker_fill (q_last_mid q) mid (q_inventory q) (q_size q) (q_half_spread_c q)
                                 (q_skew_strength q) (q_cancel_efficiency q) cap
      in \<lparr>pa_seconds = seconds, pa_share = share, pa_reward = reward_accrual share (pool_daily r) seconds,
          pa_d_inv = d_inv, pa_fill_loss = fill_loss, pa_new_inventory = q_inventory q + d_inv,
          pa_pnl_delta = held_mtm - fill_loss\<rparr>)"

definition paper_update :: "MakerQuote \<Rightarrow> QuoteRead \<Rightarrow> double \<Rightarrow> PaperAccrual \<Rightarrow> double \<Rightarrow> AccrualUpdate" where
  "paper_update q r now pa inventory =
     \<lparr>au_accrued_rewards = q_accrued_rewards q + pa_reward pa,
      au_realized_bleed = q_realized_bleed q + pa_fill_loss pa,
      au_fills = q_fills q + (if deq (pa_d_inv pa) 0 then 0 else 1), au_last_mid = qr_mid r,
      au_last_accrued_at = unix_to_iso now, au_inventory = inventory, au_complement_inventory = 0,
      au_inventory_pnl = q_inventory_pnl q + pa_pnl_delta pa\<rparr>"

definition paper_row :: "MakerQuote \<Rightarrow> double \<Rightarrow> PaperAccrual \<Rightarrow> json" where
  "paper_row q mid pa = jobj
     [(''quote'', maker_quote_to_dict q), (''reward'', rounded6 (pa_reward pa)),
      (''fill_loss'', rounded6 (pa_fill_loss pa)), (''inventory_pnl_delta'', rounded6 (pa_pnl_delta pa)),
      (''inventory'', JFloat (round_to (pa_new_inventory pa) 4)), (''share'', rounded6 (pa_share pa)),
      (''seconds'', JFloat (round_to (pa_seconds pa) 2)), (''mid'', JFloat mid)]"

definition crossing_cost :: "double \<Rightarrow> double enc" where
  "crossing_cost shares = reading (\<lambda>e. en_crossing_cost_c e / lit 100 * shares)"

definition accrue_paper_quote :: "(int \<times> QuoteRead) list \<Rightarrow> double \<Rightarrow> MakerQuote \<Rightarrow> json list enc" where
  "accrue_paper_quote reads now q =
     (let r = read_of reads (q_id q); mid = qr_mid r in
      if \<not> qr_config_ok r then ret []
      else if rewards_over r
      then bindc (crossing_cost (dabs (q_inventory q))) (\<lambda>cost.
           exit_maker_quote q (q_last_mid q) ''rewards_ended'' cost [])
      else if \<not> qr_book_ok r \<or> \<not> in_unit mid then ret []
      else
        let pa = paper_accrual q r now in
        bindc (credit_maker (pa_reward pa + pa_pnl_delta pa)) (\<lambda>_.
        if drifted q mid
        then
          bindc (edb (update_maker_quote_accrual (q_id q) (paper_update q r now pa 0))) (\<lambda>final_q.
          bindc (crossing_cost (dabs (pa_new_inventory pa))) (\<lambda>cost.
          exit_maker_quote final_q mid ''drift_exit'' cost
            [(''reward'', pa_reward pa), (''fill_loss'', pa_fill_loss pa), (''inventory_pnl_delta'', pa_pnl_delta pa),
             (''share'', pa_share pa), (''seconds'', pa_seconds pa)]))
        else
          bindc (edb (update_maker_quote_accrual (q_id q) (paper_update q r now pa (pa_new_inventory pa)))) (\<lambda>updated.
          ret [paper_row updated mid pa])))"

definition accrue_maker_rewards :: "World \<Rightarrow> live_source \<Rightarrow> double option \<Rightarrow> json list enc" where
  "accrue_maker_rewards w live now_unix =
     bindc require_account (\<lambda>_.
     bindc (quote_now w now_unix) (\<lambda>now.
     bindc (edb get_active_maker_quotes) (\<lambda>quotes.
     bindc (prefetch_quote_reads w live quotes) (\<lambda>reads.
     bindc (for_each (accrue_paper_quote reads now) quotes) (\<lambda>results.
     bindc (record_equity w None) (\<lambda>_. ret results))))))"

section \<open>Placing live\<close>

definition best_bid_of :: "OrderBook \<Rightarrow> double" where
  "best_bid_of book = foldl (\<lambda>bb l. if 0 < lv_size l \<and> bb < lv_price l then lv_price l else bb) 0 (ob_bids book)"

definition best_ask_of :: "OrderBook \<Rightarrow> double" where
  "best_ask_of book =
     foldl (\<lambda>ba l. if 0 < lv_size l \<and> (deq ba 0 \<or> lv_price l < ba) then lv_price l else ba) 0 (ob_asks book)"

definition holds_position :: "(string, double) smap \<Rightarrow> string \<Rightarrow> bool" where
  "holds_position chain token \<longleftrightarrow> token \<noteq> [] \<and>
     (case smap_get chain token of None \<Rightarrow> False | Some x \<Rightarrow> 1 \<le> dabs x)"

definition micro_shift :: "Engine \<Rightarrow> OrderBook \<Rightarrow> double \<Rightarrow> double \<Rightarrow> double" where
  "micro_shift e book mid max_spread_c =
     (let sig = compute_book_signals book mid max_spread_c; lead = bs_micro_price sig - mid in
      if en_micro_center e \<and> bs_valid sig \<and> en_micro_gate_c e \<le> dabs lead * lit 100
      then en_micro_beta e * lead else 0)"

text \<open>The top of the YES book and the shift of the centre; nothing when the book cannot be read\<close>

definition read_top :: "World \<Rightarrow> MakerQuote \<Rightarrow> double \<Rightarrow> (double \<times> double \<times> double) enc" where
  "read_top w q mid = catch_any
     (bindc (on_client (get_order_book w (q_token_id q))) (\<lambda>yb.
      reading (\<lambda>e. (best_bid_of yb, best_ask_of yb, micro_shift e yb mid (q_max_spread_c q)))))
     (ret (0, 0, 0))"

definition place_acks :: "submitter \<Rightarrow> Order list \<Rightarrow> json list enc" where
  "place_acks sub orders = for_each (\<lambda>ord.
       bindc (catch_any (send_action sub (place_action_of (mo_token_id ord) ord)) (ret (JObj [(''status'', JStr ''ERROR'')])))
         (\<lambda>ack. ret [ack]))
     (filter (\<lambda>ord. mo_token_id ord \<noteq> []) orders)"

definition skipped_row :: "MakerQuote \<Rightarrow> json" where
  "skipped_row q = jobj [(''status'', JStr ''skipped_holding''), (''yes_token'', JStr (q_token_id q)),
     (''no_token'', JStr (q_complement_token_id q))]"

definition with_acks :: "MakerQuote \<Rightarrow> json list \<Rightarrow> json" where
  "with_acks q acks = (case maker_quote_to_dict q of
       JObj kvs \<Rightarrow> JObj (smap_put ''submitted'' (JArr acks) kvs) | j \<Rightarrow> j)"

definition roll_back :: "World \<Rightarrow> submitter \<Rightarrow> MakerQuote \<Rightarrow> json enc" where
  "roll_back w sub q =
     bindc (send_action sub (cancel_all_action (q_token_id q))) (\<lambda>_.
     bindc (if q_complement_token_id q \<noteq> []
            then send_action sub (cancel_all_action (q_complement_token_id q)) else ret JNull) (\<lambda>_.
     bindc (cancel_maker_quote w (q_id q)) (\<lambda>_.
     throw (OrderRejectedError ''maker quote placement failed (rolled back)''))))"

definition anchor_mid :: "MakerQuote \<Rightarrow> double" where
  "anchor_mid q = (if \<not> deq (q_entry_mid q) 0 then q_entry_mid q else q_last_mid q)"

definition place_maker_quote_live :: "World \<Rightarrow> submitter \<Rightarrow> string \<Rightarrow> string \<Rightarrow> MakerQuoteOpts \<Rightarrow> json enc" where
  "place_maker_quote_live w sub slug_or_id outcome opts =
     bindc (place_quote w slug_or_id outcome (opts\<lparr>mo_cancel_efficiency := 0\<rparr>)) (\<lambda>q.
     let mid = anchor_mid q in
     bindc (reading en_chain) (\<lambda>chain.
     if holds_position chain (q_token_id q) \<or> holds_position chain (q_complement_token_id q)
     then ret (skipped_row q)
     else
       bindc (read_top w q mid) (\<lambda>(bb, ba, shift).
       bindc (of_sum (compute_two_sided_quotes_yes_no mid (q_half_spread_c q) (q_size q) (q_tick q)
           (q_max_spread_c q) (q_token_id q) (q_complement_token_id q) bb ba 0 shift)) (\<lambda>orders.
       bindc (place_acks sub orders) (\<lambda>acks.
       if list_all action_ok acks then ret (with_acks q acks) else roll_back w sub q)))))"

section \<open>Accrual live\<close>

text \<open>Inventory, profit, bleed and number of the fills of a leg, priced against \<open>ref\<close>\<close>

definition leg_fill :: "double \<Rightarrow> double \<times> double \<times> double \<times> int \<Rightarrow> RealFill \<Rightarrow> double \<times> double \<times> double \<times> int" where
  "leg_fill ref = (\<lambda>(inventory, pnl, bleed, n) f.
     let sgn = (if to_lower (rf_side f) = ''buy'' then 1 else - 1); fp = sgn * (ref - rf_price f) * rf_size f
     in (inventory + sgn * rf_size f, pnl + fp, bleed + cmax 0 (- fp), n + 1))"

definition both_legs :: "double \<Rightarrow> RealFill list \<Rightarrow> RealFill list \<Rightarrow> double \<Rightarrow> double
    \<Rightarrow> double \<times> double \<times> double \<times> double \<times> int" where
  "both_legs mid fills no_fills yes0 no0 =
     (let (yes, pnl1, bleed1, n1) = foldl (leg_fill mid) (yes0, 0, 0, 0) fills;
          (no, pnl2, bleed2, n2) = foldl (leg_fill (1 - mid)) (no0, pnl1, bleed1, n1) no_fills
      in (yes, no, pnl2, bleed2, n2))"

definition fills_of :: "FillsByToken \<Rightarrow> string \<Rightarrow> RealFill list" where
  "fills_of fills token = (case smap_get fills token of None \<Rightarrow> [] | Some fs \<Rightarrow> fs)"

definition no_fills_of :: "FillsByToken \<Rightarrow> MakerQuote \<Rightarrow> RealFill list" where
  "no_fills_of fills q = (if q_complement_token_id q = [] then [] else fills_of fills (q_complement_token_id q))"

definition cancel_both :: "submitter \<Rightarrow> MakerQuote \<Rightarrow> bool enc" where
  "cancel_both sub q =
     bindc (send_action sub (cancel_all_action (q_token_id q))) (\<lambda>a.
     if q_complement_token_id q = [] then ret (action_ok a)
     else bindc (send_action sub (cancel_all_action (q_complement_token_id q))) (\<lambda>b.
          ret (action_ok b \<and> action_ok a)))"

definition flatten_ok :: "submitter \<Rightarrow> string \<Rightarrow> double \<Rightarrow> bool enc" where
  "flatten_ok sub token inventory = bindc (flatten_live sub token inventory) (\<lambda>a. ret (action_ok a))"

definition flatten_no :: "submitter \<Rightarrow> MakerQuote \<Rightarrow> double \<Rightarrow> bool enc" where
  "flatten_no sub q inventory =
     (if q_complement_token_id q = [] then ret True else flatten_ok sub (q_complement_token_id q) inventory)"

text \<open>
  Leaving a quote that holds inventory: cancel and flatten both legs, credit the profit, then
  either keep the quote with what is left (to be retried) or close it.
\<close>

definition leave_live ::
  "submitter \<Rightarrow> MakerQuote \<Rightarrow> double \<Rightarrow> string \<Rightarrow> double \<Rightarrow> AccrualUpdate \<Rightarrow> json \<Rightarrow> (string \<times> double) list \<Rightarrow> json list enc" where
  "leave_live sub q mid reason credit u failed_row extra =
     (let yes = au_inventory u; no = au_complement_inventory u in
      bindc (cancel_both sub q) (\<lambda>okc.
      bindc (flatten_ok sub (q_token_id q) yes) (\<lambda>fy.
      bindc (flatten_no sub q no) (\<lambda>fn.
      bindc (credit_maker credit) (\<lambda>_.
      if \<not> (okc \<and> fy \<and> fn)
      then bindc (edb (update_maker_quote_accrual (q_id q) u)) (\<lambda>_. ret [failed_row])
      else
        bindc (edb (update_maker_quote_accrual (q_id q) (u\<lparr>au_inventory := 0, au_complement_inventory := 0\<rparr>))) (\<lambda>final_q.
        bindc (crossing_cost (dabs yes + dabs no)) (\<lambda>cost.
        exit_maker_quote final_q mid reason cost extra)))))))"

definition live_update :: "MakerQuote \<Rightarrow> double \<Rightarrow> double \<Rightarrow> double \<Rightarrow> double \<Rightarrow> int \<Rightarrow> double \<Rightarrow> double \<Rightarrow> double \<Rightarrow> AccrualUpdate" where
  "live_update q now mid reward bleed n pnl yes no =
     \<lparr>au_accrued_rewards = q_accrued_rewards q + reward, au_realized_bleed = q_realized_bleed q + bleed,
      au_fills = q_fills q + n, au_last_mid = mid, au_last_accrued_at = unix_to_iso now,
      au_inventory = yes, au_complement_inventory = no, au_inventory_pnl = q_inventory_pnl q + pnl\<rparr>"

definition live_seconds :: "MakerQuote \<Rightarrow> double \<Rightarrow> double" where
  "live_seconds q now = cmin (cmax 0 (now - iso_to_unix (q_last_accrued_at q))) MAX_ACCRUAL_SECONDS"

record LiveAccrual =
  la_seconds :: double
  la_share :: double
  la_reward :: double
  la_yes :: double
  la_no :: double
  la_pnl_delta :: double
  la_bleed :: double
  la_fills :: int

definition live_accrual :: "MakerQuote \<Rightarrow> QuoteRead \<Rightarrow> FillsByToken \<Rightarrow> double \<Rightarrow> LiveAccrual" where
  "live_accrual q r fills now =
     (let mid = qr_mid r; seconds = live_seconds q now;
          share = maker_reward_share (q_size q) (q_half_spread_c q) (q_max_spread_c q)
                    (book_inband_qmin (qr_book r) mid (q_max_spread_c q));
          (d_yes, d_no, fill_pnl, bleed, n) = both_legs mid (fills_of fills (q_token_id q)) (no_fills_of fills q) 0 0
      in \<lparr>la_seconds = seconds, la_share = share, la_reward = reward_accrual share (pool_daily r) seconds,
          la_yes = q_inventory q + d_yes, la_no = q_complement_inventory q + d_no,
          la_pnl_delta = q_inventory q * (mid - q_last_mid q) +
            q_complement_inventory q * (q_last_mid q - mid) + fill_pnl,
          la_bleed = bleed, la_fills = n\<rparr>)"

definition la_update :: "MakerQuote \<Rightarrow> double \<Rightarrow> double \<Rightarrow> LiveAccrual \<Rightarrow> double \<Rightarrow> double \<Rightarrow> AccrualUpdate" where
  "la_update q now mid la yes no = live_update q now mid (la_reward la) (la_bleed la) (la_fills la) (la_pnl_delta la) yes no"

definition la_extra :: "LiveAccrual \<Rightarrow> (string \<times> double) list" where
  "la_extra la = [(''reward'', la_reward la), (''inventory_pnl_delta'', la_pnl_delta la), (''share'', la_share la),
     (''seconds'', la_seconds la)]"

definition failed_exit_row :: "MakerQuote \<Rightarrow> string \<Rightarrow> double \<Rightarrow> (string \<times> double) list \<Rightarrow> json" where
  "failed_exit_row q reason mid extra = jobj
     ([(''quote'', maker_quote_to_dict q), (''exit_failed'', JStr reason), (''mid'', JFloat mid)] @
      map (\<lambda>(k, v). (k, JFloat (round_to v 4))) extra)"

text \<open>1. The pool left the rewards program.\<close>

definition reconcile_ended :: "submitter \<Rightarrow> FillsByToken \<Rightarrow> double \<Rightarrow> MakerQuote \<Rightarrow> json list enc" where
  "reconcile_ended sub fills now q =
     (let mid = q_last_mid q;
          (yes, no, pnl, bleed, n) = both_legs mid (fills_of fills (q_token_id q)) (no_fills_of fills q)
             (q_inventory q) (q_complement_inventory q);
          u = (live_update q now mid 0 bleed n pnl yes no)\<lparr>au_accrued_rewards := q_accrued_rewards q\<rparr>
      in leave_live sub q mid ''rewards_ended'' pnl u (failed_exit_row q ''rewards_ended'' mid [])
           [(''inventory_pnl_delta'', pnl)])"

text \<open>3. The midpoint left the band.\<close>

definition drift_exit :: "submitter \<Rightarrow> double \<Rightarrow> MakerQuote \<Rightarrow> double \<Rightarrow> LiveAccrual \<Rightarrow> json list enc" where
  "drift_exit sub now q mid la =
     bindc (cancel_both sub q) (\<lambda>okc.
     bindc (credit_maker (la_reward la + la_pnl_delta la)) (\<lambda>_.
     if \<not> okc
     then bindc (edb (update_maker_quote_accrual (q_id q)
              (la_update q now mid la (q_inventory q) (q_complement_inventory q)))) (\<lambda>_.
          ret [failed_exit_row q ''drift_exit'' mid []])
     else bindc (edb (update_maker_quote_accrual (q_id q) (la_update q now mid la 0 0))) (\<lambda>final_q.
          exit_maker_quote final_q mid ''drift_exit'' 0 (la_extra la))))"

text \<open>4. The quotes are moved: cancel both legs and place them again around the new midpoint.\<close>

definition must_recenter :: "string set option \<Rightarrow> int \<Rightarrow> MakerQuote \<Rightarrow> double \<Rightarrow> bool" where
  "must_recenter force recenter_ticks q mid \<longleftrightarrow>
     (case force of None \<Rightarrow> False | Some S \<Rightarrow> q_token_id q \<in> S) \<or>
     of_i (max 1 recenter_ticks) * q_tick q \<le> dabs (mid - q_last_mid q)"

definition recenter :: "submitter \<Rightarrow> MakerQuote \<Rightarrow> OrderBook \<Rightarrow> double \<Rightarrow> json list enc" where
  "recenter sub q book mid =
     bindc (cancel_both sub q) (\<lambda>_.
     bindc (of_sum (compute_two_sided_quotes_yes_no mid (q_half_spread_c q) (q_size q) (q_tick q) (q_max_spread_c q)
         (q_token_id q) (q_complement_token_id q) (best_bid_of book) (best_ask_of book) 0 0)) (\<lambda>orders.
     for_each (\<lambda>ord. bindc (send_action sub (place_action_of (mo_token_id ord) ord)) (\<lambda>a. ret [a]))
       (filter (\<lambda>ord. mo_token_id ord \<noteq> []) orders)))"

definition live_row :: "MakerQuote \<Rightarrow> MakerQuote \<Rightarrow> double \<Rightarrow> LiveAccrual \<Rightarrow> json list \<Rightarrow> json" where
  "live_row updated q mid la submitted = jobj
     [(''quote'', maker_quote_to_dict updated), (''reward'', rounded6 (la_reward la)),
      (''inventory'', JFloat (round_to (q_inventory q) 4)), (''inventory_pnl_delta'', rounded6 (la_pnl_delta la)),
      (''share'', rounded6 (la_share la)), (''seconds'', JFloat (round_to (la_seconds la) 2)), (''mid'', JFloat mid),
      (''submitted'', JArr submitted), (''fills_applied'', JInt (la_fills la))]"

definition keep_quoting :: "submitter \<Rightarrow> string set option \<Rightarrow> int \<Rightarrow> double \<Rightarrow> MakerQuote \<Rightarrow> QuoteRead \<Rightarrow> LiveAccrual
    \<Rightarrow> json list enc" where
  "keep_quoting sub force recenter_ticks now q r la =
     (let mid = qr_mid r in
      bindc (if must_recenter force recenter_ticks q mid then recenter sub q (qr_book r) mid else ret []) (\<lambda>submitted.
      bindc (credit_maker (la_reward la + la_pnl_delta la)) (\<lambda>_.
      bindc (edb (update_maker_quote_accrual (q_id q)
        (la_update q now mid la (q_inventory q) (q_complement_inventory q)))) (\<lambda>updated.
      ret [live_row updated q mid la submitted]))))"

text \<open>2. A leg was filled, or inventory of an earlier cycle is still there.\<close>

definition filled_or_holding :: "MakerQuote \<Rightarrow> LiveAccrual \<Rightarrow> bool" where
  "filled_or_holding q la \<longleftrightarrow>
     0 < la_fills la \<or> 1 \<le> dabs (q_inventory q) \<or> 1 \<le> dabs (q_complement_inventory q)"

definition accrue_live_quote :: "submitter \<Rightarrow> FillsByToken \<Rightarrow> string set option \<Rightarrow> int \<Rightarrow> (int \<times> QuoteRead) list \<Rightarrow> double
    \<Rightarrow> MakerQuote \<Rightarrow> json list enc" where
  "accrue_live_quote sub fills force recenter_ticks reads now q =
     (let r = read_of reads (q_id q); mid = qr_mid r in
      if \<not> qr_config_ok r then ret []
      else if rewards_over r then reconcile_ended sub fills now q
      else if \<not> qr_book_ok r \<or> \<not> in_unit mid then ret []
      else
        let la = live_accrual q r fills now in
        if filled_or_holding q la
        then leave_live sub q mid ''filled_exit'' (la_reward la + la_pnl_delta la)
               (la_update q now mid la (la_yes la) (la_no la))
               (failed_exit_row q ''filled_exit'' mid
                  [(''inventory'', la_yes la), (''complement_inventory'', la_no la)]) (la_extra la)
        else if drifted q mid then drift_exit sub now q mid la
        else keep_quoting sub force recenter_ticks now q r la)"

definition accrue_maker_rewards_live ::
  "World \<Rightarrow> live_source \<Rightarrow> submitter \<Rightarrow> FillsByToken \<Rightarrow> double option \<Rightarrow> int \<Rightarrow> string set option \<Rightarrow> json list enc" where
  "accrue_maker_rewards_live w live sub fills now_unix recenter_ticks force =
     bindc require_account (\<lambda>_.
     bindc (quote_now w now_unix) (\<lambda>now.
     bindc (edb get_active_maker_quotes) (\<lambda>quotes.
     bindc (prefetch_quote_reads w live quotes) (\<lambda>reads.
     bindc (for_each (accrue_live_quote sub fills force recenter_ticks reads now) quotes) (\<lambda>results.
     bindc (record_equity w None) (\<lambda>_. ret results))))))"

section \<open>Reconciliation with the chain\<close>

definition chain_at :: "(string, double) smap \<Rightarrow> string \<Rightarrow> double" where
  "chain_at chain token = (case smap_get chain token of None \<Rightarrow> 0 | Some x \<Rightarrow> x)"

definition chain_no :: "(string, double) smap \<Rightarrow> MakerQuote \<Rightarrow> double" where
  "chain_no chain q = (if q_complement_token_id q = [] then 0 else chain_at chain (q_complement_token_id q))"

definition chain_agrees :: "(string, double) smap \<Rightarrow> MakerQuote \<Rightarrow> bool" where
  "chain_agrees chain q \<longleftrightarrow> dabs (q_inventory q - chain_at chain (q_token_id q)) < lit (1 / 2) \<and>
     dabs (q_complement_inventory q - chain_no chain q) < lit (1 / 2)"

definition reconcile_update :: "(string, double) smap \<Rightarrow> MakerQuote \<Rightarrow> AccrualUpdate" where
  "reconcile_update chain q =
     \<lparr>au_accrued_rewards = q_accrued_rewards q, au_realized_bleed = q_realized_bleed q, au_fills = q_fills q,
      au_last_mid = q_last_mid q, au_last_accrued_at = q_last_accrued_at q,
      au_inventory = chain_at chain (q_token_id q), au_complement_inventory = chain_no chain q,
      au_inventory_pnl = q_inventory_pnl q\<rparr>"

definition reconcile_quote :: "(string, double) smap \<Rightarrow> MakerQuote \<Rightarrow> unit list enc" where
  "reconcile_quote chain q =
     (if chain_agrees chain q then ret []
      else bindc (edb (update_maker_quote_accrual (q_id q) (reconcile_update chain q))) (\<lambda>_. ret [()]))"

definition reconcile_inventory :: "(string, double) smap \<Rightarrow> int enc" where
  "reconcile_inventory chain =
     bindc (edb get_active_maker_quotes) (\<lambda>quotes.
     bindc (for_each (reconcile_quote chain) quotes) (\<lambda>fixed. ret (int (length fixed))))"

section \<open>The recommended half spread\<close>

definition suggest_row :: "Market \<Rightarrow> string \<Rightarrow> RewardConfig \<Rightarrow> OptimalHalfSpread \<Rightarrow> double \<Rightarrow> double \<Rightarrow> double \<Rightarrow> double \<Rightarrow> double
    \<Rightarrow> json" where
  "suggest_row market outcome pool best mid sigma_c existing_qmin poll_seconds cancel_efficiency = jobj
     [(''half_spread_c'', JFloat (oh_half_spread_c best)), (''net_per_day'', JFloat (oh_net_per_day best)),
      (''reward_per_day'', JFloat (oh_reward_per_day best)), (''bleed_per_day'', JFloat (oh_bleed_per_day best)),
      (''share'', JFloat (oh_share best)), (''market_slug'', JStr (mk_slug market)),
      (''condition_id'', JStr (mk_condition_id market)), (''outcome'', JStr outcome), (''mid'', JFloat mid),
      (''sigma_c'', JFloat (round_to sigma_c 4)), (''existing_qmin'', JFloat (round_to existing_qmin 4)),
      (''max_spread_c'', JFloat (rc_max_spread pool)), (''min_size'', JFloat (rc_min_size pool)),
      (''daily_rate'', JFloat (rc_daily pool)), (''tick_c'', JFloat (round_to (rc_tick pool * lit 100) 4)),
      (''poll_seconds'', JFloat poll_seconds), (''cancel_efficiency'', JFloat cancel_efficiency)]"

definition suggest_maker_half_spread ::
  "World \<Rightarrow> libm \<Rightarrow> string \<Rightarrow> string \<Rightarrow> double \<Rightarrow> double \<Rightarrow> json enc" where
  "suggest_maker_half_spread w lm slug_or_id outcome_in cancel_efficiency poll_seconds =
     bindc require_account (\<lambda>_.
     bindc (on_client (get_market w slug_or_id)) (\<lambda>market.
     bindc (of_sum (validate_outcome outcome_in (Some market))) (\<lambda>outcome.
     bindc (reject_unless (0 \<le> cancel_efficiency \<and> cancel_efficiency \<le> 1) ''cancel_efficiency must be in [0, 1]'') (\<lambda>_.
     bindc (reject_unless (\<not> poll_seconds \<le> 0) ''poll_seconds must be > 0'') (\<lambda>_.
     bindc (on_client (get_reward_config w (mk_condition_id market))) (\<lambda>pool_opt.
     bindc (reject_unless (pool_opt \<noteq> None) (mk_slug market @ '' is not in the liquidity-rewards program'')) (\<lambda>_.
     bindc (deref pool_opt) (\<lambda>pool.
     bindc (token_for market outcome) (\<lambda>token.
     bindc (on_client (get_order_book w token)) (\<lambda>book.
     bindc (on_client (get_midpoint w token)) (\<lambda>mid.
     bindc (reject_unless (in_unit mid) ''No valid midpoint to anchor the maker quote'') (\<lambda>_.
     bindc (reading id) (\<lambda>e.
     bindc (on_client (catch_any (prices_history w token ''max'' 60) (ret []))) (\<lambda>history.
     let existing_qmin = book_inband_qmin book mid (rc_max_spread pool) / cmax (en_reward_calib e) (lit (1 / 10 ^ 6));
         sigma_c = realized_sigma_c_from_history lm history poll_seconds (en_jump_vol_weight e);
         best = optimal_half_spread lm (rc_daily pool) (rc_max_spread pool) (rc_min_size pool)
                  (rc_tick pool * lit 100) existing_qmin sigma_c (lit 86400 / poll_seconds) cancel_efficiency 200
     in ret (suggest_row market outcome pool best mid sigma_c existing_qmin poll_seconds cancel_efficiency)))))))))))))))"

section \<open>Settings\<close>

definition set_reward_calib :: "double \<Rightarrow> Engine \<Rightarrow> Engine" where
  "set_reward_calib k e = e\<lparr>en_reward_calib := if lit (1 / 10 ^ 6) < k \<and> k \<le> 1 then k else 1\<rparr>"

definition set_micro_center :: "bool \<Rightarrow> double \<Rightarrow> double \<Rightarrow> Engine \<Rightarrow> Engine" where
  "set_micro_center on gate_c beta e = e\<lparr>en_micro_center := on, en_micro_gate_c := gate_c, en_micro_beta := beta\<rparr>"

definition set_jump_vol_weight :: "double \<Rightarrow> Engine \<Rightarrow> Engine" where
  "set_jump_vol_weight x e = e\<lparr>en_jump_vol_weight := if 0 < x then x else 0\<rparr>"

definition set_chain_positions :: "(string, double) smap \<Rightarrow> Engine \<Rightarrow> Engine" where
  "set_chain_positions cp e = e\<lparr>en_chain := cp\<rparr>"

end
