(* ===== verification/EngineProofs.thy ===== *)
theory EngineProofs
  imports Engine
begin

text \<open>
  Properties of the engine: what its operations leave alone (the frame \<open>books\<close> and the growth of
  the tables), the books of placing and cancelling, what a live accrual hands to the submitter,
  the roll-back of a failed placement and the reconciliation with the chain.
\<close>

abbreviation db_of :: "Engine \<Rightarrow> Db" where
  "db_of e \<equiv> cl_db (en_client e)"

lemma bindcE:
  assumes "bindc m f s = (Inr y, s')"
  obtains x s1 where "m s = (Inr x, s1)" "f x s1 = (Inr y, s')"
  using assms by (auto simp: bindc_Inr)

section \<open>Frames\<close>

text \<open>The account, the quotes and the actions: reading the market and the equity curve leave them alone.\<close>

definition books where
  "books e = (d_account (db_of e), d_maker_quotes (db_of e), d_has_comp (db_of e), d_has_comp_inv (db_of e),
     en_sent e, en_chain e, en_crossing_cost_c e)"

named_theorems books_same

lemma on_client_books:
  assumes "reads_only m" shows "obeys (same books) (on_client m)"
  unfolding on_client_def
proof (rule on_part_obeys[OF assms[unfolded reads_only_def]])
  fix e :: Engine and c assume "same uncached (en_client e) c"
  then have "(cl_db c)\<lparr>d_cache := None\<rparr> = (db_of e)\<lparr>d_cache := None\<rparr>" by (simp add: same_def uncached_def)
  then have "d_account (cl_db c) = d_account (db_of e) \<and> d_maker_quotes (cl_db c) = d_maker_quotes (db_of e) \<and>
    d_has_comp (cl_db c) = d_has_comp (db_of e) \<and> d_has_comp_inv (cl_db c) = d_has_comp_inv (db_of e)"
    by (metis Db.select_convs(1,7,8,9) Db.surjective Db.update_convs(4))
  then show "same books e (en_client_update (\<lambda>_. c) e)" by (simp add: same_def books_def)
qed

lemmas market_reads [books_same] =
  on_client_books[OF reads_market] on_client_books[OF reads_calls(1)] on_client_books[OF reads_calls(2)]
  on_client_books[OF reads_calls(3)] on_client_books[OF reads_calls(4)] on_client_books[OF reads_basic(2)]

definition ledger_tables where
  "ledger_tables db = (d_account db, d_maker_quotes db, d_has_comp db, d_has_comp_inv db)"

lemma edb_books:
  assumes "obeys (same ledger_tables) m" shows "obeys (same books) (edb m)"
  unfolding edb_def on_client_def on_db_def
  by (rule on_part_obeys, rule on_part_obeys[OF assms, of cl_db "same (ledger_tables \<circ> cl_db)"])
     (auto simp: same_def books_def ledger_tables_def)

lemma db_reads_books:
  "obeys (same ledger_tables) get_account_row" "obeys (same ledger_tables) get_active_maker_quotes"
  "obeys (same ledger_tables) get_open_positions" "obeys (same ledger_tables) (get_maker_quote i)"
  "obeys (same ledger_tables) get_all_maker_quotes"
  unfolding get_account_row_def get_active_maker_quotes_def get_open_positions_def get_maker_quote_def get_all_maker_quotes_def
  by (intro same.pure same.sequenced)+

lemma equity_books: "obeys (same ledger_tables) (db_record_equity now x)"
  unfolding db_record_equity_def
  by (intro same.pure same.sequenced modify_same; simp add: ledger_tables_def)

lemmas edb_reads [books_same] = edb_books[OF db_reads_books(1)] edb_books[OF db_reads_books(2)]
  edb_books[OF db_reads_books(3)] edb_books[OF db_reads_books(4)] edb_books[OF db_reads_books(5)] edb_books[OF equity_books]

lemma account_books [books_same]: "obeys (same books) require_account" "obeys (same books) committed_maker_capital"
  unfolding require_account_def committed_maker_capital_def
  by (intro reads_intros edb_reads; simp)+

lemma record_equity_books [books_same]: "obeys (same books) (record_equity w mark)"
  unfolding record_equity_def catch_any_def edb_now_def
  by (intro reads_intros edb_reads market_reads account_books)

lemma record_equity_ok: "fst (record_equity w mark e) = Inr ()"
proof -
  have "fst (handled (\<lambda>_. ret ()) r) = Inr ()" for r :: "(sim_error + unit) \<times> Engine"
    by (cases "((\<lambda>_. ret ()) :: sim_error \<Rightarrow> unit enc, r)" rule: handled.cases) (auto simp: ret_def)
  then show ?thesis by (simp add: record_equity_def catch_any_def catch_def)
qed

lemma books_eq: "obeys (same books) m \<Longrightarrow> m e = (r, e') \<Longrightarrow> books e' = books e"
  by (auto simp: same_def dest: obeysD)

lemma record_equity_run: "\<exists>e'. record_equity w mark e = (Inr (), e') \<and> books e' = books e"
  using record_equity_ok[of w mark e] books_eq[OF record_equity_books] by (cases "record_equity w mark e") auto

section \<open>Running the database calls\<close>

definition set_db :: "Db \<Rightarrow> Engine \<Rightarrow> Engine" where
  "set_db d e = en_client_update (cl_db_update (\<lambda>_. d)) e"

lemma set_db_simps [simp]:
  "db_of (set_db d e) = d" "set_db d2 (set_db d e) = set_db d2 e" "en_sent (set_db d e) = en_sent e"
  "en_chain (set_db d e) = en_chain e" "en_crossing_cost_c (set_db d e) = en_crossing_cost_c e" "set_db (db_of e) e = e"
  by (simp_all add: set_db_def o_def)

lemma edb_run [comp_simps]: "edb m e = (case m (db_of e) of (r, d) \<Rightarrow> (r, set_db d e))"
  by (auto simp: edb_def on_client_def on_part_def on_db_def set_db_def split: prod.split intro!: arg_cong[where f = "\<lambda>f. en_client_update f e"])

lemma edb_Inr: "edb m e = (Inr x, e') \<longleftrightarrow> (\<exists>d. m (db_of e) = (Inr x, d) \<and> e' = set_db d e)"
  by (auto simp: edb_run split: prod.split)

lemma require_account_run [comp_simps]:
  "d_account (db_of e) = Some (Some a) \<Longrightarrow> require_account e = (Inr a, e)"
  by (simp add: require_account_def get_account_row_def comp_simps)

lemma require_account_Inr: "require_account e = (Inr a, e') \<longleftrightarrow> d_account (db_of e) = Some (Some a) \<and> e' = e"
proof
  assume *: "require_account e = (Inr a, e')"
  show "d_account (db_of e) = Some (Some a) \<and> e' = e"
  proof (cases "d_account (db_of e)")
    case None
    then show ?thesis using * by (simp add: require_account_def get_account_row_def comp_simps)
  next
    case (Some x)
    then show ?thesis using * by (cases x) (auto simp: require_account_def get_account_row_def comp_simps)
  qed
qed (auto simp: comp_simps)

definition with_cash :: "double \<Rightarrow> Account \<Rightarrow> Db \<Rightarrow> Db" where
  "with_cash c a db = db\<lparr>d_account := Some (Some (a\<lparr>ac_cash := c\<rparr>))\<rparr>"

lemma update_cash_run:
  assumes "d_account db = Some (Some a)"
  shows "update_cash c db = (if c = NaN then (Inl step_failed, db) else (Inr (), with_cash c a db))"
  using assms by (simp add: update_cash_def with_cash_def comp_simps)

lemma get_maker_quote_run: "d_maker_quotes db = Some t \<Longrightarrow> get_maker_quote i db = (Inr (tb_select q_id i t), db)"
  by (simp add: get_maker_quote_def comp_simps)

definition cancelled_row :: "MakerQuote \<Rightarrow> MakerQuote" where
  "cancelled_row q = q\<lparr>q_status := ''cancelled''\<rparr>"

definition cancel_in :: "int \<Rightarrow> MakerQuote table \<Rightarrow> MakerQuote table" where
  "cancel_in i t = tb_update (\<lambda>r. q_id r = i) (q_status_update (\<lambda>_. ''cancelled'')) t"

lemma cancel_in_select: "tb_ok q_id t \<Longrightarrow>
    tb_select q_id j (cancel_in i t) = (if j = i then map_option cancelled_row (tb_select q_id i t) else tb_select q_id j t)"
  by (simp add: cancel_in_def quotes.upd_one cancelled_row_def) (cases "tb_select q_id i t"; simp add: cancelled_row_def)

lemma cancel_in_ok: "tb_ok q_id t \<Longrightarrow> tb_ok q_id (cancel_in i t)"
  by (simp add: cancel_in_def tb_upd_inv)

lemma db_cancel_run:
  assumes "d_maker_quotes db = Some t" "tb_ok q_id t"
  shows "db_cancel_maker_quote i db = (case tb_select q_id i t of
      Some q \<Rightarrow> if q_status q = ''active'' then (Inr (Some (cancelled_row q)), db\<lparr>d_maker_quotes := Some (cancel_in i t)\<rparr>)
                else (Inr None, db)
    | None \<Rightarrow> (Inr None, db))"
  using assms cancel_in_select[OF assms(2), of i i]
  by (auto simp: db_cancel_maker_quote_def get_maker_quote_run set_quotes_def cancel_in_def comp_simps split: option.split)

section \<open>Cancelling\<close>

lemma with_cash_fields [simp]: "d_maker_quotes (with_cash c a db) = d_maker_quotes db"
    "d_account (with_cash c a db) = Some (Some (a\<lparr>ac_cash := c\<rparr>))"
  by (simp_all add: with_cash_def)

lemma books_fields:
  assumes "books e' = books e"
  shows "d_account (db_of e') = d_account (db_of e)" "d_maker_quotes (db_of e') = d_maker_quotes (db_of e)"
    "en_sent e' = en_sent e" "en_chain e' = en_chain e"
  using assms by (simp_all add: books_def)

lemma cancel_quote_run:
  assumes "d_account (db_of e) = Some (Some a)" "d_maker_quotes (db_of e) = Some t" "tb_ok q_id t"
    and "tb_select q_id i t = Some q" "q_status q = ''active''" "ac_cash a + q_committed_capital q \<noteq> NaN"
  shows "\<exists>e'. cancel_quote w i e = (Inr (Some (cancelled_row q)), e') \<and>
    d_account (db_of e') = Some (Some (a\<lparr>ac_cash := ac_cash a + q_committed_capital q\<rparr>)) \<and>
    d_maker_quotes (db_of e') = Some (cancel_in i t) \<and> en_sent e' = en_sent e"
proof -
  define e1 where "e1 = set_db (with_cash (ac_cash a + q_committed_capital q) a (db_of e)\<lparr>d_maker_quotes := Some (cancel_in i t)\<rparr>) e"
  obtain e' where e': "record_equity w None e1 = (Inr (), e')" "books e' = books e1"
    using record_equity_run[of w None e1] by blast
  have "cancel_quote w i e = (Inr (Some (cancelled_row q)), e')"
    using assms e'(1) by (simp add: cancel_quote_def comp_simps get_maker_quote_run update_cash_run db_cancel_run flip: e1_def)
  then show ?thesis using books_fields[OF e'(2)] by (auto simp: e1_def)
qed

text \<open>
  C2: cancelling refunds exactly once: the active quote is closed, its committed capital goes back
  to the cash, every other quote stays as it is, nothing is handed to the submitter, and
  cancelling the same quote again returns nothing and changes nothing.
\<close>

theorem cancel_refunds_once:
  assumes "d_account (db_of e) = Some (Some a)" "d_maker_quotes (db_of e) = Some t" "tb_ok q_id t"
    and "tb_select q_id i t = Some q" "q_status q = ''active''" "ac_cash a + q_committed_capital q \<noteq> NaN"
    and "cancel_quote w i e = (r, e')"
  shows "r = Inr (Some (q\<lparr>q_status := ''cancelled''\<rparr>)) \<and>
    d_account (db_of e') = Some (Some (a\<lparr>ac_cash := ac_cash a + q_committed_capital q\<rparr>)) \<and>
    (\<exists>t'. d_maker_quotes (db_of e') = Some t' \<and> tb_ok q_id t' \<and> tb_select q_id i t' = Some (q\<lparr>q_status := ''cancelled''\<rparr>) \<and>
       (\<forall>j. j = i \<or> tb_select q_id j t' = tb_select q_id j t)) \<and>
    en_sent e' = en_sent e \<and> cancel_quote w i e' = (Inr None, e')"
proof -
  have r: "r = Inr (Some (cancelled_row q))"
    and acc: "d_account (db_of e') = Some (Some (a\<lparr>ac_cash := ac_cash a + q_committed_capital q\<rparr>))"
    and qs: "d_maker_quotes (db_of e') = Some (cancel_in i t)" and sent: "en_sent e' = en_sent e"
    using cancel_quote_run[OF assms(1-6), of w] assms(7) by auto
  have t': "tb_ok q_id (cancel_in i t)" "tb_select q_id i (cancel_in i t) = Some (cancelled_row q)"
    using assms(3,4) by (simp_all add: cancel_in_ok cancel_in_select)
  have "cancel_quote w i e' = (Inr None, e')"
    using acc qs t'(2) by (simp add: cancel_quote_def comp_simps get_maker_quote_run cancelled_row_def)
  then show ?thesis using r acc qs sent t' assms(3) by (simp add: cancel_in_select cancelled_row_def)
qed

section \<open>Placing\<close>

lemma token_for_books: "obeys (same books) (token_for m oc)"
  unfolding token_for_def by (intro reads_intros)

lemma place_check_books: "obeys (same books) (place_check w s oc opts)"
  unfolding place_check_def check_opts_def reject_unless_def Let_def
  by (intro reads_intros books_same token_for_books)

lemma check_opts_Inr:
  assumes "check_opts pool opts e = (Inr (sz, half, caps), e')"
  shows "\<not> sz < rc_min_size pool \<and> \<not> half \<le> 0 \<and> \<not> rc_max_spread pool < half \<and> \<not> caps \<le> 0 \<and> e' = e"
  using assms by (auto simp: check_opts_def reject_unless_def Let_def bindc_Inr ensure_Inr ret_def)

text \<open>What a placement that passes its checks knows about the quote it enters\<close>

definition checked :: "MakerQuoteInput \<Rightarrow> bool" where
  "checked i \<longleftrightarrow> \<not> qi_size i < qi_min_size i \<and> \<not> qi_half_spread_c i \<le> 0 \<and> \<not> qi_max_spread_c i < qi_half_spread_c i \<and>
     \<not> qi_max_inventory i \<le> 0 \<and> in_unit (qi_entry_mid i) \<and> qi_last_mid i = qi_entry_mid i \<and>
     \<not> min_leg (qi_size i) (qi_entry_mid i) (qi_half_spread_c i / lit 100) < MIN_ORDER_USD \<and>
     qi_committed_capital i = committed_capital (qi_size i) (qi_half_spread_c i)"

lemma place_check_Inr:
  assumes "place_check w s oc opts e = (Inr (a, i), e')"
  shows "d_account (db_of e) = Some (Some a) \<and> \<not> ac_cash a < qi_committed_capital i \<and>
    checked i \<and> books e' = books e"
proof -
  have "books e' = books e" using books_eq[OF place_check_books assms] .
  moreover from assms have "d_account (db_of e) = Some (Some a) \<and> \<not> ac_cash a < qi_committed_capital i \<and> checked i"
    unfolding place_check_def Let_def
    by (elim bindcE; clarsimp simp: require_account_Inr ret_def ensure_Inr reject_unless_def split: prod.splits)
       (auto elim!: bindcE dest!: check_opts_Inr simp: ensure_Inr reject_unless_def ret_def checked_def quote_input_def
          Let_def split: prod.splits)
  ultimately show ?thesis by simp
qed

text \<open>Entering the quote in a table that is well formed\<close>

lemma create_quote_Inr:
  assumes "create_maker_quote now i db = (Inr q, db')" "d_maker_quotes db = Some t" "tb_ok q_id t"
  shows "q = quote_row now i (tb_seq t + 1) \<and>
    db' = db\<lparr>d_maker_quotes := Some (t\<lparr>tb_rows := tb_rows t @ [q], tb_seq := tb_seq t + 1\<rparr>)\<rparr>"
proof -
  obtain t' where t': "tb_insert (quote_row now i) t = (tb_seq t + 1, t')"
    "t' = t\<lparr>tb_rows := tb_rows t @ [quote_row now i (tb_seq t + 1)], tb_seq := tb_seq t + 1\<rparr>"
    by (simp add: tb_insert_def Let_def)
  have "tb_select q_id (tb_seq t + 1) t' = Some (quote_row now i (tb_seq t + 1))"
    using tb_ins_sel[OF assms(3) t'(1)] by (simp add: quote_row_def)
  then show ?thesis using assms(1,2) t' by (auto simp: create_quote_eq Let_def split: if_splits)
qed

lemma quote_now_books: "obeys (same books) (quote_now w u)"
  unfolding quote_now_def now_unix_default_def by (intro reads_intros)

lemma place_book_Inr:
  assumes "place_quote w s oc opts e = (Inr q, e')"
  obtains a i e1 e2 e3 e4 now clk where "place_check w s oc opts e = (Inr (a, i), e1)"
    "edb (update_cash (ac_cash a - qi_committed_capital i)) e1 = (Inr (), e2)" "books e3 = books e2"
    "edb (create_maker_quote clk (i\<lparr>qi_last_accrued_at := unix_to_iso now\<rparr>)) e3 = (Inr q, e4)" "books e' = books e4"
proof -
  from assms obtain a i e1 e2 now e25 clk e3 e4 where 1: "place_check w s oc opts e = (Inr (a, i), e1)"
    "edb (update_cash (ac_cash a - qi_committed_capital i)) e1 = (Inr (), e2)"
    and 2: "quote_now w (mo_now_unix opts) e2 = (Inr now, e25)" "on_client (clock w) e25 = (Inr clk, e3)"
    and 3: "edb (create_maker_quote clk (i\<lparr>qi_last_accrued_at := unix_to_iso now\<rparr>)) e3 = (Inr q, e4)"
    and 4: "record_equity w None e4 = (Inr (), e')"
    unfolding place_quote_def edb_now_def by (auto elim!: bindcE simp: ret_def)
  have "books e3 = books e2"
    using books_eq[OF quote_now_books 2(1)] books_eq[OF on_client_books[OF reads_basic(2)] 2(2)] by simp
  with that[OF 1 _ 3] show ?thesis using books_eq[OF record_equity_books 4] by blast
qed

lemma place_booked:
  assumes "place_quote w s oc opts e = (Inr q, e')" "d_maker_quotes (db_of e) = Some t" "tb_ok q_id t"
  shows "\<exists>a. d_account (db_of e) = Some (Some a) \<and> \<not> ac_cash a < q_committed_capital q \<and>
      d_account (db_of e') = Some (Some (a\<lparr>ac_cash := ac_cash a - q_committed_capital q\<rparr>)) \<and>
      d_maker_quotes (db_of e') = Some (t\<lparr>tb_rows := tb_rows t @ [q], tb_seq := tb_seq t + 1\<rparr>) \<and>
      q_id q = tb_seq t + 1 \<and> q_status q = ''active'' \<and>
      q_committed_capital q = committed_capital (q_size q) (q_half_spread_c q) \<and>
      \<not> q_size q < q_min_size q \<and> \<not> q_half_spread_c q \<le> 0 \<and> \<not> q_max_spread_c q < q_half_spread_c q \<and>
      in_unit (q_entry_mid q) \<and> en_sent e' = en_sent e \<and> en_chain e' = en_chain e"
proof -
  obtain a i e1 e2 e3 e4 now clk where 1: "place_check w s oc opts e = (Inr (a, i), e1)"
    and 2: "edb (update_cash (ac_cash a - qi_committed_capital i)) e1 = (Inr (), e2)" and 3: "books e3 = books e2"
    and 4: "edb (create_maker_quote clk (i\<lparr>qi_last_accrued_at := unix_to_iso now\<rparr>)) e3 = (Inr q, e4)"
    and 5: "books e' = books e4"
    by (rule place_book_Inr[OF assms(1)])
  have c: "d_account (db_of e) = Some (Some a)" "\<not> ac_cash a < qi_committed_capital i" "checked i" "books e1 = books e"
    using place_check_Inr[OF 1] by simp_all
  note f1 = books_fields[OF c(4)] and f3 = books_fields[OF 3] and f5 = books_fields[OF 5]
  have e2: "e2 = set_db (with_cash (ac_cash a - qi_committed_capital i) a (db_of e1)) e1"
    using 2 c(1) f1(1) by (simp add: comp_simps update_cash_run split: if_splits)
  obtain db4 where db4: "create_maker_quote clk (i\<lparr>qi_last_accrued_at := unix_to_iso now\<rparr>) (db_of e3) = (Inr q, db4)"
    "e4 = set_db db4 e3" using 4 by (auto simp: comp_simps split: prod.splits)
  have t3: "d_maker_quotes (db_of e3) = Some t" using f3(2) f1(2) assms(2) by (simp add: e2)
  note q = create_quote_Inr[OF db4(1) t3 assms(3)]
  have "d_account (db_of e') = Some (Some (a\<lparr>ac_cash := ac_cash a - qi_committed_capital i\<rparr>))"
    using f5(1) f3(1) q by (simp add: db4(2) e2)
  moreover have "d_maker_quotes (db_of e') = Some (t\<lparr>tb_rows := tb_rows t @ [q], tb_seq := tb_seq t + 1\<rparr>)"
    using f5(2) q by (simp add: db4(2))
  moreover have "en_sent e' = en_sent e" "en_chain e' = en_chain e"
    using f1(3,4) f3(3,4) f5(3,4) by (simp_all add: db4(2) e2)
  ultimately show ?thesis using q c(1-3) by (auto simp: quote_row_def checked_def)
qed



section \<open>Placing live\<close>

lemma catch_any_Inr: "\<exists>y e'. catch_any m (ret x) e = (Inr y, e')"
proof (cases "m e")
  case (Pair r e')
  then show ?thesis by (cases r) (simp_all add: catch_any_def comp_simps)
qed

lemma read_top_run: "\<exists>x e'. read_top w q mid e = (Inr x, e') \<and> books e' = books e"
proof -
  have "obeys (same books) (read_top w q mid)"
    unfolding read_top_def catch_any_def by (intro reads_intros books_same)
  moreover have "\<exists>x e'. read_top w q mid e = (Inr x, e')"
    unfolding read_top_def by (rule catch_any_Inr)
  ultimately show ?thesis using books_eq by blast
qed

definition sent_more :: "json list \<Rightarrow> Engine \<Rightarrow> Engine" where
  "sent_more as e = e\<lparr>en_sent := en_sent e @ as\<rparr>"

lemma sent_more_simps [simp]:
  "sent_more [] e = e" "sent_more bs (sent_more as e) = sent_more (as @ bs) e" "db_of (sent_more as e) = db_of e"
  "en_sent (sent_more as e) = en_sent e @ as"
  by (simp_all add: sent_more_def)

lemma send_run: "send_action sub a e = (sub (en_sent e) a, sent_more [a] e)"
  by (simp add: send_action_def sent_more_def)

lemma for_each_step:
  assumes "body x s = (Inr ys, s1)" "for_each body xs s1 = (Inr zs, s2)"
  shows "for_each body (x # xs) s = (Inr (ys @ zs), s2)"
  using assms by (simp add: bindc_def ret_def)

text \<open>What the submitter answers to a list of actions handed to it in order; a throw counts as an error reply.\<close>

fun acks_of :: "submitter \<Rightarrow> json list \<Rightarrow> json list \<Rightarrow> json list" where
  "acks_of sub sent [] = []"
| "acks_of sub sent (a # as) =
     (case sub sent a of Inl _ \<Rightarrow> JObj [(''status'', JStr ''ERROR'')] | Inr j \<Rightarrow> j) # acks_of sub (sent @ [a]) as"

lemma send_each_run:
  "for_each (\<lambda>ord. bindc (catch_any (send_action sub (f ord)) (ret (JObj [(''status'', JStr ''ERROR'')]))) (\<lambda>ack. ret [ack]))
     ords e = (Inr (acks_of sub (en_sent e) (map f ords)), sent_more (map f ords) e)"
proof (induction ords arbitrary: e)
  case (Cons ord ords)
  let ?body = "\<lambda>ord. bindc (catch_any (send_action sub (f ord)) (ret (JObj [(''status'', JStr ''ERROR'')]))) (\<lambda>ack. ret [ack])"
  let ?ack = "case sub (en_sent e) (f ord) of Inl _ \<Rightarrow> JObj [(''status'', JStr ''ERROR'')] | Inr j \<Rightarrow> j"
  have "?body ord e = (Inr [?ack], sent_more [f ord] e)"
    by (cases "sub (en_sent e) (f ord)") (simp_all add: comp_simps catch_any_def send_run)
  from for_each_step[of ?body, OF this Cons.IH] show ?case by simp
qed (simp add: comp_simps)

definition place_actions :: "Order list \<Rightarrow> json list" where
  "place_actions orders = map (\<lambda>ord. place_action_of (mo_token_id ord) ord) (filter (\<lambda>ord. mo_token_id ord \<noteq> []) orders)"

lemma place_acks_run: "place_acks sub orders e =
    (Inr (acks_of sub (en_sent e) (place_actions orders)), sent_more (place_actions orders) e)"
  unfolding place_acks_def place_actions_def by (rule send_each_run)

definition cancel_actions :: "MakerQuote \<Rightarrow> json list" where
  "cancel_actions q = cancel_all_action (q_token_id q) #
     (if q_complement_token_id q = [] then [] else [cancel_all_action (q_complement_token_id q)])"

text \<open>The submitter does not throw on a cancellation.\<close>

definition answers_cancels :: "submitter \<Rightarrow> bool" where
  "answers_cancels sub \<longleftrightarrow> (\<forall>h t. \<exists>j. sub h (cancel_all_action t) = Inr j)"

lemma roll_back_run:
  assumes "answers_cancels sub"
    and "d_account (db_of e) = Some (Some a)" "d_maker_quotes (db_of e) = Some t" "tb_ok q_id t"
    and "tb_select q_id (q_id q) t = Some q" "q_status q = ''active''" "ac_cash a + q_committed_capital q \<noteq> NaN"
  shows "\<exists>e'. roll_back w sub q e = (Inl (OrderRejectedError ''maker quote placement failed (rolled back)''), e') \<and>
    d_account (db_of e') = Some (Some (a\<lparr>ac_cash := ac_cash a + q_committed_capital q\<rparr>)) \<and>
    d_maker_quotes (db_of e') = Some (cancel_in (q_id q) t) \<and> en_sent e' = en_sent e @ cancel_actions q"
proof -
  define e1 where "e1 = sent_more (cancel_actions q) e"
  have e1: "d_account (db_of e1) = Some (Some a)" "d_maker_quotes (db_of e1) = Some t" using assms(2,3) by (simp_all add: e1_def)
  obtain e' where e': "cancel_quote w (q_id q) e1 = (Inr (Some (cancelled_row q)), e')"
    "d_account (db_of e') = Some (Some (a\<lparr>ac_cash := ac_cash a + q_committed_capital q\<rparr>))"
    "d_maker_quotes (db_of e') = Some (cancel_in (q_id q) t)" "en_sent e' = en_sent e1"
    using cancel_quote_run[OF e1 assms(4-7), of w] by blast
  obtain j1 where j1: "sub (en_sent e) (cancel_all_action (q_token_id q)) = Inr j1"
    using assms(1) unfolding answers_cancels_def by blast
  obtain j2 where j2: "sub (en_sent e @ [cancel_all_action (q_token_id q)]) (cancel_all_action (q_complement_token_id q)) = Inr j2"
    using assms(1) unfolding answers_cancels_def by blast
  have "roll_back w sub q e = (Inl (OrderRejectedError ''maker quote placement failed (rolled back)''), e')"
    using e'(1) by (auto simp: roll_back_def comp_simps send_run j1 j2 cancel_maker_quote_def e1_def cancel_actions_def split: if_splits)
  then show ?thesis using e'(2-4) by (simp add: e1_def)
qed

lemma quotes_need_unit: "in_unit mid \<Longrightarrow> \<exists>os. compute_two_sided_quotes_yes_no mid h sz tick v y n bb ba sk sh = Inr os"
  by (simp add: compute_two_sided_quotes_yes_no_def Let_def)

lemma anchor_unit: "in_unit (q_entry_mid q) \<Longrightarrow> anchor_mid q = q_entry_mid q"
  using less_le_trans_d[of 0 "q_entry_mid q" 0] by (auto simp: anchor_mid_def in_unit_def deq_def less_irrefl_d)

text \<open>The two legs around the anchor of the quote, for some reading of the top of the book\<close>

definition legs_of :: "MakerQuote \<Rightarrow> Order list \<Rightarrow> bool" where
  "legs_of q orders \<longleftrightarrow> (\<exists>bb ba shift. compute_two_sided_quotes_yes_no (anchor_mid q) (q_half_spread_c q) (q_size q) (q_tick q)
     (q_max_spread_c q) (q_token_id q) (q_complement_token_id q) bb ba 0 shift = Inr orders)"

text \<open>A live placement after the paper one, when no position of the market is held\<close>

lemma place_live_run:
  assumes "place_quote w s oc (opts\<lparr>mo_cancel_efficiency := 0\<rparr>) e = (Inr q, e1)" "in_unit (q_entry_mid q)"
    and "\<not> holds_position (en_chain e1) (q_token_id q)" "\<not> holds_position (en_chain e1) (q_complement_token_id q)"
  obtains orders acks e2 where "books e2 = books e1" "legs_of q orders"
    "acks = acks_of sub (en_sent e1) (place_actions orders)" "place_maker_quote_live w sub s oc opts e =
    (if list_all action_ok acks then (Inr (with_acks q acks), sent_more (place_actions orders) e2)
     else roll_back w sub q (sent_more (place_actions orders) e2))"
proof -
  obtain bb ba sh e2 where top: "read_top w q (anchor_mid q) e1 = (Inr (bb, ba, sh), e2)" "books e2 = books e1"
    using read_top_run[of w q "anchor_mid q" e1] by (metis prod_cases3)
  obtain orders where orders: "compute_two_sided_quotes_yes_no (anchor_mid q) (q_half_spread_c q) (q_size q) (q_tick q)
      (q_max_spread_c q) (q_token_id q) (q_complement_token_id q) bb ba 0 sh = Inr orders"
    using quotes_need_unit[of "anchor_mid q"] assms(2) anchor_unit[OF assms(2)] by metis
  define acks where "acks = acks_of sub (en_sent e1) (place_actions orders)"
  have acks: "place_acks sub orders e2 = (Inr acks, sent_more (place_actions orders) e2)"
    using place_acks_run books_fields(3)[OF top(2)] by (simp add: acks_def)
  have "place_maker_quote_live w sub s oc opts e =
    (if list_all action_ok acks then (Inr (with_acks q acks), sent_more (place_actions orders) e2)
     else roll_back w sub q (sent_more (place_actions orders) e2))"
    using assms(3,4) by (simp add: place_maker_quote_live_def comp_simps assms(1) top orders acks Let_def)
  then show ?thesis using that[OF top(2) _ acks_def] orders by (auto simp: legs_of_def)
qed

lemma select_new:
  assumes "tb_ok q_id t" "q_id q = tb_seq t + 1"
  shows "tb_ok q_id (t\<lparr>tb_rows := tb_rows t @ [q], tb_seq := tb_seq t + 1\<rparr>) \<and>
    tb_select q_id (q_id q) (t\<lparr>tb_rows := tb_rows t @ [q], tb_seq := tb_seq t + 1\<rparr>) = Some q"
proof -
  have "tb_insert (\<lambda>i. q\<lparr>q_id := i\<rparr>) t = (q_id q, t\<lparr>tb_rows := tb_rows t @ [q], tb_seq := tb_seq t + 1\<rparr>)"
    using assms(2) by (simp add: tb_insert_def Let_def)
  then show ?thesis using tb_ins_inv[OF assms(1)] tb_ins_sel[OF assms(1)] by fastforce
qed

lemma place_live_outcome:
  assumes "place_quote w s oc (opts\<lparr>mo_cancel_efficiency := 0\<rparr>) e = (Inr q, e1)"
    and "d_maker_quotes (db_of e) = Some t" "tb_ok q_id t" "d_account (db_of e) = Some (Some a)"
    and "\<not> holds_position (en_chain e) (q_token_id q)" "\<not> holds_position (en_chain e) (q_complement_token_id q)"
    and "answers_cancels sub"
    and "ac_cash a - q_committed_capital q + q_committed_capital q \<noteq> NaN"
    and "place_maker_quote_live w sub s oc opts e = (r, e')"
  shows "\<exists>orders acks. legs_of q orders \<and> acks = acks_of sub (en_sent e) (place_actions orders) \<and> (
     list_all action_ok acks \<and> r = Inr (with_acks q acks) \<and> d_account (db_of e') = d_account (db_of e1) \<and>
       d_maker_quotes (db_of e') = d_maker_quotes (db_of e1) \<and> en_sent e' = en_sent e @ place_actions orders
   \<or> \<not> list_all action_ok acks \<and> (\<exists>msg. r = Inl (OrderRejectedError msg)) \<and>
       d_account (db_of e') = Some (Some (a\<lparr>ac_cash := ac_cash a - q_committed_capital q + q_committed_capital q\<rparr>)) \<and>
       (\<exists>t'. d_maker_quotes (db_of e') = Some t' \<and> tb_select q_id (q_id q) t' = Some (q\<lparr>q_status := ''cancelled''\<rparr>)) \<and>
       en_sent e' = en_sent e @ place_actions orders @ cancel_actions q)"
proof -
  have p: "d_account (db_of e1) = Some (Some (a\<lparr>ac_cash := ac_cash a - q_committed_capital q\<rparr>))"
    "d_maker_quotes (db_of e1) = Some (t\<lparr>tb_rows := tb_rows t @ [q], tb_seq := tb_seq t + 1\<rparr>)"
    "q_id q = tb_seq t + 1" "q_status q = ''active''" "in_unit (q_entry_mid q)" "en_sent e1 = en_sent e" "en_chain e1 = en_chain e"
    using place_booked[OF assms(1-3)] assms(4) by auto
  note new = select_new[OF assms(3) p(3)]
  obtain orders acks e2 where e2: "books e2 = books e1"
    and legs: "legs_of q orders" "acks = acks_of sub (en_sent e1) (place_actions orders)" and run: "place_maker_quote_live w sub s oc opts e =
      (if list_all action_ok acks then (Inr (with_acks q acks), sent_more (place_actions orders) e2)
       else roll_back w sub q (sent_more (place_actions orders) e2))"
    by (rule place_live_run[OF assms(1) p(5), of sub]) (use assms(5,6) p(7) in auto)
  note f = books_fields[OF e2]
  let ?e3 = "sent_more (place_actions orders) e2"
  obtain e4 where e4: "roll_back w sub q ?e3 = (Inl (OrderRejectedError ''maker quote placement failed (rolled back)''), e4)"
    "d_account (db_of e4) = Some (Some (a\<lparr>ac_cash := ac_cash a - q_committed_capital q + q_committed_capital q\<rparr>))"
    "d_maker_quotes (db_of e4) = Some (cancel_in (q_id q) (t\<lparr>tb_rows := tb_rows t @ [q], tb_seq := tb_seq t + 1\<rparr>))"
    "en_sent e4 = en_sent ?e3 @ cancel_actions q"
    using roll_back_run[OF assms(7), of ?e3 "a\<lparr>ac_cash := ac_cash a - q_committed_capital q\<rparr>"
        "t\<lparr>tb_rows := tb_rows t @ [q], tb_seq := tb_seq t + 1\<rparr>" q w] new p(1,2,4) f assms(8) by auto
  show ?thesis
  proof (cases "list_all action_ok acks")
    case True
    then have "r = Inr (with_acks q acks)" "e' = ?e3" using run assms(9) by auto
    then show ?thesis using True f p(6) legs by (intro exI[of _ orders] exI[of _ acks]) simp
  next
    case False
    then have "r = Inl (OrderRejectedError ''maker quote placement failed (rolled back)'')" "e' = e4"
      using run assms(9) e4(1) by auto
    then show ?thesis using False e4 f(3) p(6) new legs
      by (intro exI[of _ orders] exI[of _ acks]) (auto simp: cancel_in_select cancelled_row_def)
  qed
qed

text \<open>
  A live placement is all or nothing.  When the paper quote was made, no position of the
  market is held on chain and the submitter answers cancellations, exactly the two legs around
  the anchor of the quote are handed to it.  Either it accepted each of them, and the accounts
  stay as the paper placement left them; or one was refused or threw, and the call fails with \<open>OrderRejectedError\<close>, both legs are cancelled after the orders,
  the quote is closed and its capital is back in the cash.
\<close>

theorem place_live_all_or_nothing:
  assumes "place_quote w s oc (opts\<lparr>mo_cancel_efficiency := 0\<rparr>) e = (Inr q, e1)"
    and "d_maker_quotes (db_of e) = Some t" "tb_ok q_id t" "d_account (db_of e) = Some (Some a)"
    and "\<not> holds_position (en_chain e) (q_token_id q)" "\<not> holds_position (en_chain e) (q_complement_token_id q)"
    and "answers_cancels sub"
    and "ac_cash a - q_committed_capital q + q_committed_capital q \<noteq> NaN"
    and "place_maker_quote_live w sub s oc opts e = (r, e')"
  shows "\<exists>orders acks. legs_of q orders \<and> acks = acks_of sub (en_sent e) (place_actions orders) \<and> (
     list_all action_ok acks \<and> r = Inr (with_acks q acks) \<and> d_account (db_of e') = d_account (db_of e1) \<and>
       d_maker_quotes (db_of e') = d_maker_quotes (db_of e1) \<and> en_sent e' = en_sent e @ place_actions orders
   \<or> \<not> list_all action_ok acks \<and> (\<exists>msg. r = Inl (OrderRejectedError msg)) \<and>
       d_account (db_of e') = Some (Some (a\<lparr>ac_cash := ac_cash a - q_committed_capital q + q_committed_capital q\<rparr>)) \<and>
       (\<exists>t'. d_maker_quotes (db_of e') = Some t' \<and> tb_select q_id (q_id q) t' = Some (q\<lparr>q_status := ''cancelled''\<rparr>)) \<and>
       en_sent e' = en_sent e @ place_actions orders @ cancel_actions q)"
  by (rule place_live_outcome[OF assms])

text \<open>
  The guard against quoting a market whose position is still held skips the orders but keeps
  the paper quote: the call returns the row "skipped_holding" and nothing is sent, yet the quote
  is active and its capital is gone from the cash.
\<close>

theorem holding_keeps_capital:
  assumes "place_quote w s oc (opts\<lparr>mo_cancel_efficiency := 0\<rparr>) e = (Inr q, e1)"
    and "d_maker_quotes (db_of e) = Some t" "tb_ok q_id t"
    and "holds_position (en_chain e) (q_token_id q) \<or> holds_position (en_chain e) (q_complement_token_id q)"
  shows "place_maker_quote_live w sub s oc opts e = (Inr (skipped_row q), e1) \<and> en_sent e1 = en_sent e \<and>
    (\<exists>a t'. d_account (db_of e) = Some (Some a) \<and>
       d_account (db_of e1) = Some (Some (a\<lparr>ac_cash := ac_cash a - q_committed_capital q\<rparr>)) \<and>
       d_maker_quotes (db_of e1) = Some t' \<and> tb_select q_id (q_id q) t' = Some q \<and> q_status q = ''active'')"
proof -
  obtain a where p: "d_account (db_of e) = Some (Some a)"
    "d_account (db_of e1) = Some (Some (a\<lparr>ac_cash := ac_cash a - q_committed_capital q\<rparr>))"
    "d_maker_quotes (db_of e1) = Some (t\<lparr>tb_rows := tb_rows t @ [q], tb_seq := tb_seq t + 1\<rparr>)"
    "q_id q = tb_seq t + 1" "q_status q = ''active''" "en_sent e1 = en_sent e" "en_chain e1 = en_chain e"
    using place_booked[OF assms(1-3)] by auto
  have "place_maker_quote_live w sub s oc opts e = (Inr (skipped_row q), e1)"
    using assms(4) p(7) by (simp add: place_maker_quote_live_def comp_simps assms(1) Let_def)
  then show ?thesis using p select_new[OF assms(3) p(4)] by blast
qed

section \<open>Reconciliation\<close>

lemma update_accrual_Inr:
  assumes "d_maker_quotes db = Some t" "tb_ok q_id t" "tb_select q_id i t = Some q"
  shows "update_maker_quote_accrual i u db = (Inr r, db') \<longleftrightarrow>
    d_has_comp_inv db \<and> accrual_reals u \<and> r = accrual u q \<and>
    db' = db\<lparr>d_maker_quotes := Some (tb_update (\<lambda>r. q_id r = i) (accrual u) t)\<rparr>"
proof -
  have "tb_select q_id i (tb_update (\<lambda>r. q_id r = i) (accrual u) t) = Some (accrual u q)"
    using quotes.upd_one[OF assms(2), of "accrual u" i i] assms(3) by (simp add: accrual_def)
  then show ?thesis using assms(1,3)
    by (cases "d_has_comp_inv db")
       (auto simp: update_maker_quote_accrual_def set_quotes_def get_maker_quote_run comp_simps)
qed

definition reconciled :: "(string, double) smap \<Rightarrow> MakerQuote \<Rightarrow> MakerQuote" where
  "reconciled chain q = (if chain_agrees chain q then q else accrual (reconcile_update chain q) q)"

lemma reconciled_id [simp]: "q_id (reconciled chain q) = q_id q" "q_status (reconciled chain q) = q_status q"
  by (simp_all add: reconciled_def accrual_def)

lemma same_id: "tb_ok q_id t \<Longrightarrow> r \<in> set (tb_rows t) \<Longrightarrow> q \<in> set (tb_rows t) \<Longrightarrow> q_id r = q_id q \<Longrightarrow> r = q"
  by (metis option.inject tb_select_row)

lemma tb_update_rows: "tb_rows (tb_update P f t) = map (\<lambda>r. if P r then f r else r) (tb_rows t)"
  by (simp add: tb_update_def)

lemma reconcile_quote_Inr:
  assumes "reconcile_quote chain q e = (Inr out, e')" "d_maker_quotes (db_of e) = Some t" "tb_ok q_id t"
    and q: "q \<in> set (tb_rows t)"
  shows "\<exists>t'. d_maker_quotes (db_of e') = Some t' \<and> tb_ok q_id t' \<and>
    tb_rows t' = map (\<lambda>r. if q_id r = q_id q then reconciled chain q else r) (tb_rows t) \<and>
    d_account (db_of e') = d_account (db_of e) \<and> en_sent e' = en_sent e \<and>
    length out = (if chain_agrees chain q then 0 else 1)"
proof (cases "chain_agrees chain q")
  case True
  then have "e' = e" "out = []" using assms(1) by (simp_all add: reconcile_quote_def comp_simps)
  moreover have "map (\<lambda>r. if q_id r = q_id q then reconciled chain q else r) (tb_rows t) = tb_rows t"
    using same_id[OF assms(3) _ q] True by (intro map_idI) (auto simp: reconciled_def)
  ultimately show ?thesis using True assms(2,3) by simp
next
  case False
  define u where "u = reconcile_update chain q"
  obtain r db' where r: "update_maker_quote_accrual (q_id q) u (db_of e) = (Inr r, db')" "e' = set_db db' e" "out = [()]"
    using assms(1) False by (auto simp: reconcile_quote_def edb_Inr u_def ret_def elim!: bindcE)
  have db': "db' = (db_of e)\<lparr>d_maker_quotes := Some (tb_update (\<lambda>r. q_id r = q_id q) (accrual u) t)\<rparr>"
    using r(1) update_accrual_Inr[OF assms(2,3) tb_select_row[OF assms(3) q]] by simp
  have "tb_rows (tb_update (\<lambda>r. q_id r = q_id q) (accrual u) t) =
      map (\<lambda>r. if q_id r = q_id q then reconciled chain q else r) (tb_rows t)"
    using same_id[OF assms(3) _ q] False by (auto simp: tb_update_rows reconciled_def u_def)
  then show ?thesis using False r(2,3) db' tb_upd_inv[OF assms(3), of "accrual u"] by (simp add: accrual_def)
qed

definition reconciled_from :: "(string, double) smap \<Rightarrow> MakerQuote list \<Rightarrow> MakerQuote \<Rightarrow> MakerQuote" where
  "reconciled_from chain qs r = (case find (\<lambda>q. q_id q = q_id r) qs of None \<Rightarrow> r | Some q \<Rightarrow> reconciled chain q)"

lemma for_each_Cons_Inr: "for_each body (x # xs) s = (Inr zs, s') \<longleftrightarrow>
    (\<exists>ys s1 ws. body x s = (Inr ys, s1) \<and> for_each body xs s1 = (Inr ws, s') \<and> zs = ys @ ws)"
  by (auto simp: bindc_Inr ret_def)

lemma reconcile_all_Inr:
  assumes "for_each (reconcile_quote chain) qs e = (Inr out, e')" "d_maker_quotes (db_of e) = Some t" "tb_ok q_id t"
    and "set qs \<subseteq> set (tb_rows t)" "distinct (map q_id qs)"
  shows "\<exists>t'. d_maker_quotes (db_of e') = Some t' \<and> tb_rows t' = map (reconciled_from chain qs) (tb_rows t) \<and>
    d_account (db_of e') = d_account (db_of e) \<and> en_sent e' = en_sent e \<and>
    length out = length (filter (\<lambda>q. \<not> chain_agrees chain q) qs)"
  using assms
proof (induction qs arbitrary: e t out)
  case Nil
  then show ?case by (simp add: ret_def reconciled_from_def)
next
  case (Cons q qs)
  obtain o1 e1 o2 where step: "reconcile_quote chain q e = (Inr o1, e1)"
    and rest: "for_each (reconcile_quote chain) qs e1 = (Inr o2, e')" "out = o1 @ o2"
    using Cons.prems(1) unfolding for_each_Cons_Inr by blast
  obtain t1 where t1: "d_maker_quotes (db_of e1) = Some t1" "tb_ok q_id t1"
    "tb_rows t1 = map (\<lambda>r. if q_id r = q_id q then reconciled chain q else r) (tb_rows t)"
    "d_account (db_of e1) = d_account (db_of e)" "en_sent e1 = en_sent e" "length o1 = (if chain_agrees chain q then 0 else 1)"
    using reconcile_quote_Inr[OF step Cons.prems(2,3)] Cons.prems(4) by auto
  have sub: "set qs \<subseteq> set (tb_rows t1)"
  proof
    fix x assume x: "x \<in> set qs"
    then have "q_id x \<noteq> q_id q" using Cons.prems(5) by (auto simp: image_iff)
    then show "x \<in> set (tb_rows t1)" using x Cons.prems(4) by (force simp: t1(3))
  qed
  have none: "find (\<lambda>x. q_id x = q_id q) qs = None" using Cons.prems(5) by (auto simp: find_None_iff image_iff)
  have "map (reconciled_from chain qs) (tb_rows t1) = map (reconciled_from chain (q # qs)) (tb_rows t)"
    using none by (auto simp: t1(3) reconciled_from_def)
  then show ?case using Cons.IH[OF rest(1) t1(1,2) sub] Cons.prems(5) t1(4-6) rest(2) by auto
qed

lemma finite_self: "finite_d x \<Longrightarrow> dabs (x - x) < lit (1 / 2)"
proof -
  assume "finite_d x"
  then obtain q where "x = Fin q" by (auto elim: finite_dE)
  then have "x - x = Fin 0" by (simp add: minus_double_def plus_double_def fl_def rnd_0)
  moreover have "lit (1 / 2) = Fin (1 / 2)" by code_simp
  ultimately show ?thesis by simp
qed

lemma chain_at_finite: "(\<And>tok x. smap_get chain tok = Some x \<Longrightarrow> finite_d x) \<Longrightarrow> finite_d (chain_at chain tok)"
  by (auto simp: chain_at_def zero_double_def split: option.split)

lemma reconciled_agrees:
  assumes "\<And>tok x. smap_get chain tok = Some x \<Longrightarrow> finite_d x" shows "chain_agrees chain (reconciled chain q)"
proof -
  have "finite_d (chain_no chain q)" using chain_at_finite[OF assms] by (simp add: chain_no_def zero_double_def)
  then show ?thesis using chain_at_finite[OF assms]
    by (auto simp: reconciled_def) (auto simp: chain_agrees_def accrual_def reconcile_update_def chain_no_def finite_self)
qed

lemma reconcile_rows:
  assumes "reconcile_inventory chain e = (Inr n, e')" "d_maker_quotes (db_of e) = Some t" "tb_ok q_id t"
    and "\<And>tok x. smap_get chain tok = Some x \<Longrightarrow> finite_d x"
  shows "\<exists>t'. d_maker_quotes (db_of e') = Some t' \<and>
    tb_rows t' = map (\<lambda>q. if q_status q = ''active'' then reconciled chain q else q) (tb_rows t) \<and>
    (\<forall>q \<in> set (active_rows t'). chain_agrees chain q) \<and>
    n = int (length (filter (\<lambda>q. \<not> chain_agrees chain q) (active_rows t))) \<and>
    d_account (db_of e') = d_account (db_of e) \<and> en_sent e' = en_sent e"
proof -
  obtain out where out: "for_each (reconcile_quote chain) (active_rows t) e = (Inr out, e')" "n = int (length out)"
    using assms(1,2) by (auto simp: reconcile_inventory_def get_active_maker_quotes_def comp_simps bindc_Inr ret_def continue_Inr)
  have "distinct (map q_id (tb_rows t))" using assms(3) by (auto simp: tb_ok_def strict_sorted_iff)
  then have "distinct (map q_id (active_rows t))" by (simp add: active_rows_def distinct_map_filter)
  from reconcile_all_Inr[OF out(1) assms(2,3) _ this] obtain t' where t': "d_maker_quotes (db_of e') = Some t'"
    "tb_rows t' = map (reconciled_from chain (active_rows t)) (tb_rows t)" "d_account (db_of e') = d_account (db_of e)"
    "en_sent e' = en_sent e" "length out = length (filter (\<lambda>q. \<not> chain_agrees chain q) (active_rows t))"
    by (auto simp: active_rows_def)
  have "reconciled_from chain (active_rows t) r = (if q_status r = ''active'' then reconciled chain r else r)"
    if "r \<in> set (tb_rows t)" for r
  proof (cases "find (\<lambda>q. q_id q = q_id r) (active_rows t)")
    case None
    then have "q_status r \<noteq> ''active''" using that by (auto simp: find_None_iff active_rows_def)
    then show ?thesis using None by (simp add: reconciled_from_def)
  next
    case (Some x)
    then have "x \<in> set (tb_rows t)" "q_id x = q_id r" "q_status x = ''active''"
      by (auto simp: find_Some_iff active_rows_def dest!: nth_mem)
    then show ?thesis using Some same_id[OF assms(3) _ that] by (auto simp: reconciled_from_def)
  qed
  then have rows: "tb_rows t' = map (\<lambda>q. if q_status q = ''active'' then reconciled chain q else q) (tb_rows t)"
    using t'(2) by simp
  then have "\<forall>q \<in> set (active_rows t'). chain_agrees chain q"
    using reconciled_agrees[OF assms(4)] by (auto simp: active_rows_def)
  then show ?thesis using t' rows out(2) by auto
qed

text \<open>
  C33: after a reconciliation every active quote's two inventories are within half a share of the
  positions on chain; exactly the quotes that were not are rewritten (their number is returned),
  only the inventories of those change, and neither the cash nor the submitter is touched.
\<close>

theorem reconcile_matches_chain:
  assumes "reconcile_inventory chain e = (Inr n, e')" "d_maker_quotes (db_of e) = Some t" "tb_ok q_id t"
    and "\<And>tok x. smap_get chain tok = Some x \<Longrightarrow> finite_d x"
  shows "\<exists>t'. d_maker_quotes (db_of e') = Some t' \<and>
    tb_rows t' = map (\<lambda>q. if q_status q = ''active'' then reconciled chain q else q) (tb_rows t) \<and>
    (\<forall>q \<in> set (active_rows t'). chain_agrees chain q) \<and>
    n = int (length (filter (\<lambda>q. \<not> chain_agrees chain q) (active_rows t))) \<and>
    d_account (db_of e') = d_account (db_of e) \<and> en_sent e' = en_sent e"
  using assms by (rule reconcile_rows)

section \<open>What a live accrual sends\<close>

definition sends :: "(json \<Rightarrow> bool) \<Rightarrow> Engine \<Rightarrow> Engine \<Rightarrow> bool" where
  "sends P e e' \<longleftrightarrow> (\<exists>as. en_sent e' = en_sent e @ as \<and> list_all P as)"

interpretation sending: evolution "sends P" for P
proof
  show "sends P s s" for s by (simp add: sends_def)
  show "sends P s u" if "sends P s t" "sends P t u" for s t u using that by (fastforce simp: sends_def)
qed

lemma send_sends: "P a \<Longrightarrow> obeys (sends P) (send_action sub a)"
  by (auto simp: obeys_def sends_def send_run)

lemma db_sends: "obeys (sends P) (edb m)" "obeys (sends P) (on_client c)"
  by (auto simp: obeys_def sends_def edb_run on_client_def on_part_def split: prod.split)

lemmas sends_intros = sending.pure sending.sequenced sending.branches sending.caught sending.repeated db_sends send_sends

lemma money_sends: "obeys (sends P) require_account" "obeys (sends P) (credit_maker x)" "obeys (sends P) (crossing_cost x)"
  "obeys (sends P) (exit_maker_quote q mid reason cost extra)"
  unfolding credit_maker_def require_account_def crossing_cost_def exit_maker_quote_def by (intro sends_intros)+

lemma flatten_not_place: "\<not> is_place (flatten_action t x)"
  by (simp add: is_place_def flatten_action_def jget_def)

lemma flatten_sends: "obeys (sends (\<lambda>a. \<not> is_place a)) (flatten_ok sub t x)"
  "obeys (sends (\<lambda>a. \<not> is_place a)) (flatten_no sub q x)"
  unfolding flatten_no_def flatten_ok_def flatten_live_def by (intro sends_intros flatten_not_place)+

lemma cancel_both_run: "\<exists>n > 0. \<exists>r. cancel_both sub q e = (r, sent_more (take n (cancel_actions q)) e) \<and>
    (\<forall>x. r = Inr x \<longrightarrow> take n (cancel_actions q) = cancel_actions q)"
proof -
  let ?a = "cancel_all_action (q_token_id q)" and ?b = "cancel_all_action (q_complement_token_id q)"
  show ?thesis
  proof (cases "sub (en_sent e) ?a")
    case (Inl err)
    then show ?thesis by (intro exI[of _ 1]) (simp add: cancel_both_def comp_simps send_run cancel_actions_def)
  next
    case (Inr x)
    then show ?thesis
      by (intro exI[of _ 2]; cases "sub (en_sent e @ [?a]) ?b")
         (simp_all add: cancel_both_def comp_simps send_run cancel_actions_def)
  qed
qed

text \<open>A computation that starts by cancelling both legs: what it sends\<close>

definition cancels_first :: "(json \<Rightarrow> bool) \<Rightarrow> MakerQuote \<Rightarrow> json list \<Rightarrow> bool" where
  "cancels_first P q as \<longleftrightarrow> (\<exists>n > 0. as = take n (cancel_actions q)) \<or> (\<exists>bs. as = cancel_actions q @ bs \<and> list_all P bs)"

lemma after_cancel:
  assumes "\<And>x. obeys (sends P) (k x)"
  shows "\<exists>as. en_sent (snd (bindc (cancel_both sub q) k e)) = en_sent e @ as \<and> cancels_first P q as"
proof -
  obtain n r where n: "n > 0" "cancel_both sub q e = (r, sent_more (take n (cancel_actions q)) e)"
    "\<And>x. r = Inr x \<Longrightarrow> take n (cancel_actions q) = cancel_actions q"
    using cancel_both_run by blast
  show ?thesis
  proof (cases r)
    case (Inl err)
    then show ?thesis using n(1,2) by (intro exI[of _ "take n (cancel_actions q)"]) (auto simp: bindc_def cancels_first_def)
  next
    case (Inr x)
    have "sends P (sent_more (cancel_actions q) e) (snd (k x (sent_more (cancel_actions q) e)))"
      using assms by (simp add: obeys_def)
    then show ?thesis using n(2) n(3)[OF Inr] by (auto simp: bindc_def Inr sends_def cancels_first_def)
  qed
qed

lemma leave_sends: "\<exists>as. en_sent (snd (leave_live sub q mid reason credit u row extra e)) = en_sent e @ as \<and>
    cancels_first (\<lambda>a. \<not> is_place a) q as"
  unfolding leave_live_def Let_def by (intro after_cancel sends_intros flatten_sends money_sends)

lemma drift_sends: "\<exists>as. en_sent (snd (drift_exit sub now q mid la e)) = en_sent e @ as \<and>
    cancels_first (\<lambda>a. \<not> is_place a) q as"
  unfolding drift_exit_def by (intro after_cancel sends_intros money_sends)

lemma recenter_sends: "\<exists>as. en_sent (snd (keep_quoting sub force n now q r la e)) = en_sent e @ as \<and>
    (if must_recenter force n q (qr_mid r) then cancels_first is_place q as else as = [])"
proof (cases "must_recenter force n q (qr_mid r)")
  case True
  have "\<exists>as. en_sent (snd (keep_quoting sub force n now q r la e)) = en_sent e @ as \<and> cancels_first is_place q as"
    using True unfolding keep_quoting_def recenter_def Let_def bindc_assoc
    by (simp add: bindc_assoc) (intro after_cancel sends_intros money_sends; simp)
  then show ?thesis using True by simp
next
  case False
  have "obeys (sends (\<lambda>_. False)) (keep_quoting sub force n now q r la)"
    using False unfolding keep_quoting_def Let_def by simp (intro sends_intros money_sends)
  then obtain as where "en_sent (snd (keep_quoting sub force n now q r la e)) = en_sent e @ as" "list_all (\<lambda>_. False) as"
    by (auto simp: obeys_def sends_def)
  then show ?thesis using False by (cases as) auto
qed

lemma cancels_first_places: "cancels_first P q as \<Longrightarrow> list_ex is_place as \<Longrightarrow>
    \<exists>bs. as = cancel_actions q @ bs \<and> list_all P bs \<and> list_ex is_place bs"
  by (auto simp: cancels_first_def cancel_actions_def list_ex_iff dest!: in_set_takeD split: if_splits)

lemma cancels_first_hd: "cancels_first P q as \<Longrightarrow> as \<noteq> [] \<and> hd as = cancel_all_action (q_token_id q)"
  by (auto simp: cancels_first_def cancel_actions_def split: if_splits)

lemma no_place: "list_all (\<lambda>a. \<not> is_place a) bs \<Longrightarrow> \<not> list_ex is_place bs"
  by (auto simp: list_ex_iff list_all_iff)

text \<open>
  C3: what one live accrual of a quote hands to the submitter, also when it fails part way.  The
  first action is always the cancellation of the YES leg.  Orders are placed only to move a quote:
  the pool still pays, the book was read, no leg was filled, no inventory of a share or more is
  left of an earlier cycle, the midpoint is inside the band, and before the first order both legs
  were cancelled and nothing was flattened.
\<close>

theorem live_quote_actions:
  assumes "accrue_live_quote sub fills force n reads now q e = (res, e')" and "r = read_of reads (q_id q)"
  shows "\<exists>as. en_sent e' = en_sent e @ as \<and> (as \<noteq> [] \<longrightarrow> hd as = cancel_all_action (q_token_id q)) \<and>
    (list_ex is_place as \<longrightarrow> qr_config_ok r \<and> \<not> rewards_over r \<and> qr_book_ok r \<and> in_unit (qr_mid r) \<and>
       fills_of fills (q_token_id q) = [] \<and> no_fills_of fills q = [] \<and>
       \<not> 1 \<le> dabs (q_inventory q) \<and> \<not> 1 \<le> dabs (q_complement_inventory q) \<and> \<not> drifted q (qr_mid r) \<and>
       must_recenter force n q (qr_mid r) \<and> (\<exists>bs. as = cancel_actions q @ bs \<and> list_all is_place bs))"
proof -
  have count: "snd (snd (snd (foldl (leg_fill m) (a, b, c, k) fs))) = k + int (length fs)" for m a b c k fs
    by (induction fs arbitrary: a b c k) (simp_all add: leg_fill_def Let_def)
  have fills: "fills_of fills (q_token_id q) = [] \<and> no_fills_of fills q = []"
    if "\<not> 0 < la_fills (live_accrual q r fills now)"
  proof -
    have "la_fills (live_accrual q r fills now) = int (length (fills_of fills (q_token_id q))) + int (length (no_fills_of fills q))"
      using count by (simp add: live_accrual_def both_legs_def Let_def split_beta)
    with that have "length (fills_of fills (q_token_id q)) = 0 \<and> length (no_fills_of fills q) = 0" by linarith
    then show ?thesis by simp
  qed
  let ?e' = "snd (accrue_live_quote sub fills force n reads now q e)"
  have e': "e' = ?e'" using assms(1) by simp
  have held: "\<exists>as. en_sent e' = en_sent e @ as \<and> (as \<noteq> [] \<longrightarrow> hd as = cancel_all_action (q_token_id q)) \<and> \<not> list_ex is_place as"
    if "\<exists>as. en_sent ?e' = en_sent e @ as \<and> cancels_first (\<lambda>a. \<not> is_place a) q as"
    using that cancels_first_hd cancels_first_places no_place unfolding e' by metis
  show ?thesis
  proof (cases "qr_config_ok r \<and> (rewards_over r \<or> qr_book_ok r \<and> in_unit (qr_mid r))")
    case False
    then have "?e' = e" by (auto simp: accrue_live_quote_def Let_def ret_def simp flip: assms(2))
    then show ?thesis using e' by auto
  next
    case True
    consider (leave) "rewards_over r" | (fill) "\<not> rewards_over r" "filled_or_holding q (live_accrual q r fills now)"
      | (drift) "\<not> rewards_over r" "\<not> filled_or_holding q (live_accrual q r fills now)" "drifted q (qr_mid r)"
      | (keep) "\<not> rewards_over r" "\<not> filled_or_holding q (live_accrual q r fills now)" "\<not> drifted q (qr_mid r)" by blast
    then show ?thesis
    proof cases
      case leave
      then have "accrue_live_quote sub fills force n reads now q = reconcile_ended sub fills now q"
        using True by (simp add: accrue_live_quote_def Let_def flip: assms(2))
      then show ?thesis using held leave_sends unfolding reconcile_ended_def Let_def split_beta by metis
    next
      case fill
      then show ?thesis using True held leave_sends
        by (simp add: accrue_live_quote_def Let_def flip: assms(2)) blast
    next
      case drift
      then have "accrue_live_quote sub fills force n reads now q = drift_exit sub now q (qr_mid r) (live_accrual q r fills now)"
        using True by (simp add: accrue_live_quote_def Let_def flip: assms(2))
      then show ?thesis using held drift_sends by metis
    next
      case keep
      then have eq: "accrue_live_quote sub fills force n reads now q =
          keep_quoting sub force n now q r (live_accrual q r fills now)"
        using True by (simp add: accrue_live_quote_def Let_def flip: assms(2))
      obtain as where as: "en_sent e' = en_sent e @ as"
        "if must_recenter force n q (qr_mid r) then cancels_first is_place q as else as = []"
        using recenter_sends[of sub force n now q r "live_accrual q r fills now" e] unfolding e' eq by blast
      have "as \<noteq> [] \<longrightarrow> hd as = cancel_all_action (q_token_id q)"
        using as(2) cancels_first_hd by (auto split: if_splits)
      moreover have "must_recenter force n q (qr_mid r) \<and> (\<exists>bs. as = cancel_actions q @ bs \<and> list_all is_place bs)"
        if "list_ex is_place as" using as(2) cancels_first_places that by (fastforce split: if_splits)
      ultimately show ?thesis using as(1) True keep fills unfolding filled_or_holding_def by blast
    qed
  qed
qed

section \<open>The engine as a client of the store\<close>

interpretation storing: evolution "db_step\<^sup>*\<^sup>*"
  by unfold_locales auto

definition cstores :: "Client \<Rightarrow> Client \<Rightarrow> bool" where
  "cstores c c' \<longleftrightarrow> db_step\<^sup>*\<^sup>* (cl_db c) (cl_db c')"

definition stores :: "Engine \<Rightarrow> Engine \<Rightarrow> bool" where
  "stores e e' \<longleftrightarrow> db_step\<^sup>*\<^sup>* (db_of e) (db_of e')"

interpretation cstores: evolution cstores
  by unfold_locales (auto simp: cstores_def)

interpretation stores: evolution stores
  by unfold_locales (auto simp: stores_def)

lemma store_reads:
  "obeys db_step\<^sup>*\<^sup>* get_account_row" "obeys db_step\<^sup>*\<^sup>* get_active_maker_quotes" "obeys db_step\<^sup>*\<^sup>* get_open_positions"
  "obeys db_step\<^sup>*\<^sup>* (get_maker_quote i)" "obeys db_step\<^sup>*\<^sup>* get_all_maker_quotes" "obeys db_step\<^sup>*\<^sup>* (get_cache_fresh now k ttl)"
  unfolding reads_grow by (intro storing.pure storing.sequenced)+

lemma store_writes:
  "obeys db_step\<^sup>*\<^sup>* (update_cash c)" "obeys db_step\<^sup>*\<^sup>* (db_record_equity now x)" "obeys db_step\<^sup>*\<^sup>* (set_cache now k j)"
  "obeys db_step\<^sup>*\<^sup>* (create_maker_quote now qi)" "obeys db_step\<^sup>*\<^sup>* (db_cancel_maker_quote i)"
  "obeys db_step\<^sup>*\<^sup>* (update_maker_quote_accrual i u)"
  by (auto simp: obeys_def intro!: r_into_rtranclp intro: db_step.intros)

lemma on_db_stores: "obeys db_step\<^sup>*\<^sup>* m \<Longrightarrow> obeys cstores (on_db m)"
  unfolding on_db_def by (rule on_part_obeys) (auto simp: cstores_def)

lemma on_client_stores: "obeys cstores m \<Longrightarrow> obeys stores (on_client m)"
  unfolding on_client_def by (rule on_part_obeys, assumption) (auto simp: cstores_def stores_def)

lemma edb_stores: "obeys db_step\<^sup>*\<^sup>* m \<Longrightarrow> obeys stores (edb m)"
  unfolding edb_def by (intro on_client_stores on_db_stores)

lemmas cstores_intros = cstores.pure cstores.sequenced cstores.caught cstores.branches cstores.repeated

lemma request_stores: "obeys cstores (request net path)" "obeys cstores (clock w)"
  unfolding request_def clock_def by (intro cstores_intros cstores.modified; simp add: cstores_def)+

lemma cache_stores: "obeys cstores (get_cached w k)" "obeys cstores (set_cached w k j)"
  unfolding get_cached_def set_cached_def
  by (intro cstores_intros request_stores on_db_stores store_reads store_writes)+

lemma api_stores:
  "obeys cstores (api_gamma_get w p ps)" "obeys cstores (api_clob_get w p ps)"
  unfolding api_gamma_get_def api_clob_get_def by (intro cstores_intros request_stores)+

lemma market_stores: "obeys cstores (get_market w s)"
  unfolding get_market_def market_by_condition_def clob_market_def cache_market_def catch_any_def catch_api_def Let_def
  by (intro cstores_intros cache_stores api_stores)

lemma reading_stores: "obeys cstores (get_order_book w t)" "obeys cstores (get_midpoint w t)"
  "obeys cstores (get_reward_config w c)" "obeys cstores (prices_history w t iv n)" "obeys cstores (token_for m oc)"
  unfolding get_order_book_def get_midpoint_def get_reward_config_def prices_history_def token_for_def
  by (intro cstores_intros api_stores)+

lemma read_one_stores: "obeys cstores (read_one w live q)"
  unfolding read_one_def rest_read_def catch_any_def Let_def by (intro cstores_intros reading_stores)

lemmas stores_intros = stores.pure stores.sequenced stores.caught stores.branches stores.repeated

lemma send_stores: "obeys stores (send_action sub a)"
  by (simp add: obeys_def stores_def send_run)

lemma money_stores: "obeys stores require_account" "obeys stores committed_maker_capital"
  "obeys stores (crossing_cost x)" "obeys stores (quote_now w u)"
  unfolding require_account_def committed_maker_capital_def crossing_cost_def quote_now_def now_unix_default_def
  by (intro stores_intros edb_stores store_reads)+

lemma edb_now_stores: "(\<And>now. obeys db_step\<^sup>*\<^sup>* (m now)) \<Longrightarrow> obeys stores (edb_now w m)"
  unfolding edb_now_def by (intro stores_intros on_client_stores request_stores edb_stores)

lemma account_stores: "obeys stores (record_equity w mark)" "obeys stores (credit_maker x)"
  "obeys stores (exit_maker_quote q mid reason cost extra)"
  unfolding record_equity_def credit_maker_def exit_maker_quote_def catch_any_def
  by (intro stores_intros edb_stores edb_now_stores money_stores store_reads store_writes)+

lemma place_stores: "obeys stores (place_quote w s oc opts)" "obeys stores (cancel_quote w i)"
  "obeys stores (cancel_maker_quote w i)"
  unfolding place_quote_def place_check_def check_opts_def reject_unless_def token_for_def cancel_quote_def cancel_maker_quote_def Let_def
  by (intro stores_intros edb_stores edb_now_stores money_stores account_stores on_client_stores market_stores
      reading_stores store_reads store_writes)+

lemma place_live_stores: "obeys stores (place_maker_quote_live w sub s oc opts)"
  unfolding place_maker_quote_live_def read_top_def place_acks_def roll_back_def catch_any_def Let_def
  by (intro stores_intros place_stores on_client_stores reading_stores send_stores)

lemma prefetch_stores: "obeys stores (prefetch_quote_reads w live qs)"
  unfolding prefetch_quote_reads_def by (intro on_client_stores cstores_intros read_one_stores)

lemma paper_stores: "obeys stores (accrue_maker_rewards w live u)"
  unfolding accrue_maker_rewards_def accrue_paper_quote_def Let_def
  by (intro stores_intros edb_stores money_stores account_stores prefetch_stores store_reads store_writes)

lemma leave_stores: "obeys stores (leave_live sub q mid reason credit u row extra)" "obeys stores (cancel_both sub q)"
  unfolding leave_live_def cancel_both_def flatten_ok_def flatten_no_def flatten_live_def Let_def
  by (intro stores_intros edb_stores money_stores account_stores send_stores store_writes)+

lemma live_stores: "obeys stores (accrue_maker_rewards_live w live sub fills u n force)"
  unfolding accrue_maker_rewards_live_def accrue_live_quote_def reconcile_ended_def drift_exit_def keep_quoting_def
    recenter_def Let_def
  by (intro stores_intros edb_stores money_stores account_stores prefetch_stores leave_stores send_stores
      store_reads store_writes)

lemma other_stores: "obeys stores (reconcile_inventory chain)" "obeys stores (sync_capital x)"
  "obeys stores (snapshot_equity w)" "obeys stores (suggest_maker_half_spread w lm s oc ce ps)"
  unfolding reconcile_inventory_def reconcile_quote_def sync_capital_def snapshot_equity_def live_price_def
    suggest_maker_half_spread_def reject_unless_def token_for_def catch_any_def Let_def
  by (intro stores_intros edb_stores edb_now_stores money_stores on_client_stores cstores_intros market_stores
      reading_stores store_reads store_writes)+

text \<open>One call of the engine by the runner, other than the two that wipe the store\<close>

inductive engine_step :: "Engine \<Rightarrow> Engine \<Rightarrow> bool" where
  e_place: "engine_step e (snd (place_maker_quote w s oc opts e))"
| e_place_live: "engine_step e (snd (place_maker_quote_live w sub s oc opts e))"
| e_cancel: "engine_step e (snd (cancel_maker_quote w i e))"
| e_accrue: "engine_step e (snd (accrue_maker_rewards w live u e))"
| e_accrue_live: "engine_step e (snd (accrue_maker_rewards_live w live sub fills u n force e))"
| e_reconcile: "engine_step e (snd (reconcile_inventory chain e))"
| e_sync: "engine_step e (snd (sync_capital x e))"
| e_snapshot: "engine_step e (snd (snapshot_equity w e))"
| e_suggest: "engine_step e (snd (suggest_maker_half_spread w lm s oc ce ps e))"
| e_chain: "engine_step e (set_chain_positions cp e)"
| e_calib: "engine_step e (set_reward_calib k e)"
| e_micro: "engine_step e (set_micro_center on g b e)"
| e_jump: "engine_step e (set_jump_vol_weight x e)"

inductive_cases engine_stepE: "engine_step e e'"

lemma paper_place_stores: "obeys stores (place_maker_quote w s oc opts)"
  unfolding place_maker_quote_def by (intro stores_intros place_stores)

lemma engine_step_stores: "engine_step e e' \<Longrightarrow> stores e e'"
proof (induction rule: engine_step.induct)
qed (use paper_place_stores place_live_stores place_stores(3) paper_stores live_stores other_stores in
      \<open>auto simp: obeys_def set_chain_positions_def set_reward_calib_def set_micro_center_def set_jump_vol_weight_def stores_def\<close>)

lemma engine_run_stores: "engine_step\<^sup>*\<^sup>* e e' \<Longrightarrow> stores e e'"
  by (induction rule: rtranclp_induct) (auto intro: stores.stays stores.follows engine_step_stores)


end
