(* ===== verification/EngineRuns.thy ===== *)
theory EngineRuns
  imports EngineProofs
begin

text \<open>Concrete runs of the engine: a small market document, pool and order book answer the client's requests, a store
holds one account and one quote, and every property of EngineProofs is applied to them. The answers of the JSON library
and of the HTTP services are given by tables; the submitter is a dry run that accepts or refuses.\<close>

section \<open>The demonstration market\<close>

definition demo_market_doc :: json where
  "demo_market_doc = JObj [(''clobTokenIds'', JArr [JStr ''11'', JStr ''12'']), (''conditionId'', JStr ''0x1''),
     (''outcomes'', JArr [JStr ''Yes'', JStr ''No'']), (''slug'', JStr ''m'')]"

definition demo_pool_doc :: json where
  "demo_pool_doc = JObj [(''condition_id'', JStr ''0x1''), (''minimum_tick_size'', JFloat (Fin (1 / 64))),
     (''rewards'', JObj [(''max_spread'', JInt 4), (''min_size'', JInt 64),
        (''rates'', JArr [JObj [(''rewards_daily_rate'', JInt 100)]])]),
     (''tokens'', JArr [JObj [(''token_id'', JStr ''11'')]])]"

definition demo_mid_doc :: json where
  "demo_mid_doc = JObj [(''mid'', JFloat (Fin (1 / 2)))]"

definition demo_world :: World where
  "demo_world = \<lparr>w_jl = \<lparr>jl_parse = (\<lambda>t. Some (if t = ''g'' then JArr [demo_market_doc] else if t = ''m'' then demo_mid_doc else demo_pool_doc)),
       jl_dump = (\<lambda>_. ''d'')\<rparr>,
     w_gamma = (\<lambda>_ _. \<lparr>hr_status = 200, hr_body = ''g''\<rparr>),
     w_clob = (\<lambda>_ path. \<lparr>hr_status = 200, hr_body = if take 9 path = ''/midpoint'' then ''m'' else ''p''\<rparr>),
     w_data = (\<lambda>_ _. \<lparr>hr_status = 0, hr_body = []\<rparr>), w_clock = (\<lambda>_. 0)\<rparr>"

definition demo_account :: Account where
  "demo_account = \<lparr>ac_id = 1, ac_starting_balance = Fin 100, ac_cash = Fin 100, ac_created_at = []\<rparr>"

definition engine_on :: "Db \<Rightarrow> (string, double) smap \<Rightarrow> Engine" where
  "engine_on db chain = \<lparr>en_client = \<lparr>cl_db = db, cl_requests = 0\<rparr>, en_crossing_cost_c = 0, en_micro_center = False,
     en_micro_gate_c = 0, en_micro_beta = 0, en_reward_calib = 1, en_chain = chain, en_jump_vol_weight = 0, en_sent = []\<rparr>"

definition demo_engine :: "(string, double) smap \<Rightarrow> Engine" where
  "demo_engine chain = engine_on (fresh_db\<lparr>d_account := Some (Some demo_account)\<rparr>) chain"

definition demo_opts :: MakerQuoteOpts where
  "demo_opts = \<lparr>mo_size_opt = None, mo_half_spread_cents = None, mo_cancel_efficiency = 0, mo_max_inventory = None,
     mo_skew_strength = 1, mo_now_unix = Some 0\<rparr>"

definition demo_market :: Market where
  "demo_market = \<lparr>mk_condition_id = ''0x1'', mk_slug = ''m'', mk_question = [], mk_description = [],
     mk_outcomes = [''Yes'', ''No''], mk_outcome_prices = [0, 0],
     mk_tokens = [\<lparr>tk_token_id = ''11'', tk_outcome = ''Yes''\<rparr>, \<lparr>tk_token_id = ''12'', tk_outcome = ''No''\<rparr>],
     mk_active = False, mk_closed = False, mk_volume = 0, mk_liquidity = 0, mk_end_date = [], mk_fee_rate_bps = 0,
     mk_tick_size = default_tick\<rparr>"

definition demo_reward :: RewardConfig where
  "demo_reward = \<lparr>rc_daily = Fin 100, rc_max_spread = Fin 4, rc_min_size = Fin 64, rc_tick = Fin (1 / 64),
     rc_token = ''11'', rc_question = [], rc_condition_id = ''0x1'', rc_end_date_unix = 0\<rparr>"

lemma demo_market_parsed: "parse_market (w_jl demo_world) demo_market_doc = Inr demo_market"
  by (simp add: parse_market_def tokens_of_def outcomes_of_def prices_of_def found_items_def demo_market_doc_def jfind_def
      jfind2_def not_null_def as_container_def clob_token_ids_def items_def is_array_def clob_token_def flag_of_def jget_def
      find_str_def find_double_def end_date_of_def tick_or_default_def demo_market_def)

lemma demo_ints: "of_i 4 = Fin 4" "of_i 64 = Fin 64" "of_i 100 = Fin 100" "(0::double) + Fin 100 = Fin 100"
  by code_simp+

lemma demo_pool_parsed: "parse_rewards (w_jl demo_world) demo_pool_doc = Some demo_reward"
proof -
  have d: "daily_of (JObj [(''max_spread'', JInt 4), (''min_size'', JInt 64),
        (''rates'', JArr [JObj [(''rewards_daily_rate'', JInt 100)]])]) = Fin 100"
    by (simp add: daily_of_def find_elements_def jfind_def jfind2_def not_null_def elements_def demo_ints)
  have t: "first_token (w_jl demo_world) demo_pool_doc = ''11''"
    by (simp add: first_token_def find_elements_def demo_pool_doc_def jfind_def jfind2_def not_null_def elements_def
        found_truthy_def truthy_def find_str_def)
  have f: "\<not> Fin 100 \<le> 0" "\<not> deq (Fin 4) 0" "\<not> deq (Fin 64) 0" "\<not> deq (Fin (1 / 64)) 0" by code_simp+
  show ?thesis unfolding parse_rewards_def Let_def t
    by (simp add: demo_pool_doc_def jfind_def jfind2_def not_null_def is_object_def d f py_float_or_def truthy_def demo_ints
        find_str_def demo_reward_def utf8_prefix_def)
qed

lemma on_client_run: "on_client m e = (case m (en_client e) of (r, c) \<Rightarrow> (r, en_client_update (\<lambda>_. c) e))"
  by (simp add: on_client_def on_part_def)

lemma demo_get_market: "\<exists>e1. on_client (get_market demo_world ''m'') (demo_engine chain) = (Inr demo_market, e1) \<and>
    books e1 = books (demo_engine chain)"
proof -
  let ?e = "demo_engine chain"
  have c: "d_cache (cl_db (en_client ?e)) = Some []" by (simp add: demo_engine_def engine_on_def fresh_db_eq)
  then have c1: "d_cache (cl_db (cl_requests_update Suc (en_client ?e))) = Some []" by simp
  have "fst (get_market demo_world ''m'' (en_client ?e)) = Inr demo_market"
    by (simp add: get_market_def Let_def comp_simps get_cached_run[OF c] cache_find_def api_get_run json_reply_def
        demo_world_def[THEN arg_cong, of w_gamma] demo_world_def[THEN arg_cong, of "\<lambda>w. jl_parse (w_jl w)"]
        nonempty_array_def is_array_def elements_def cache_market_def set_cached_run[OF c1] demo_market_parsed)
  then obtain c2 where "get_market demo_world ''m'' (en_client ?e) = (Inr demo_market, c2)" by (metis prod.collapse)
  then have r: "on_client (get_market demo_world ''m'') ?e = (Inr demo_market, en_client_update (\<lambda>_. c2) ?e)"
    by (simp add: on_client_run)
  then show ?thesis using books_eq[OF on_client_books[OF reads_market] r] by blast
qed

lemma demo_get_pool: "on_client (get_reward_config demo_world cid) e =
    (Inr (Some demo_reward), en_client_update (cl_requests_update Suc) e)"
proof -
  have "json_reply (w_jl demo_world) ''CLOB API'' (w_clob demo_world n (''/markets/'' @ cid @ build_query [])) = Inr demo_pool_doc" for n
    by (simp add: json_reply_def demo_world_def)
  moreover have "is_object demo_pool_doc" by (simp add: demo_pool_doc_def is_object_def)
  ultimately show ?thesis
    by (simp add: on_client_run get_reward_config_def comp_simps api_get_run demo_pool_parsed)
qed

lemma demo_get_mid: "on_client (get_midpoint demo_world tok) e = (Inr (Fin (1 / 2)), en_client_update (cl_requests_update Suc) e)"
proof -
  have "json_reply (w_jl demo_world) ''CLOB API'' (w_clob demo_world n (''/midpoint'' @ build_query ps)) = Inr demo_mid_doc" for n ps
    by (simp add: json_reply_def demo_world_def)
  moreover have "find_double demo_mid_doc ''mid'' 0 = Fin (1 / 2)"
    by (simp add: find_double_def demo_mid_doc_def jfind_def jfind2_def not_null_def)
  ultimately show ?thesis by (simp add: on_client_run get_midpoint_def comp_simps api_get_run)
qed

lemma demo_numbers: "Fin (1 / 64) * Fin 100 = Fin (25 / 16)" "MAKER_CAP_MULT * Fin 64 = Fin 256"
  "\<not> Fin 64 < Fin 64" "\<not> (Fin (25 / 16) \<le> 0 \<or> Fin 4 < Fin (25 / 16))" "(0::double) \<le> 0 \<and> (0::double) \<le> 1" "\<not> (1::double) < 0"
  "\<not> Fin 256 \<le> 0" "in_unit (Fin (1 / 2))" "\<not> min_leg (Fin 64) (Fin (1 / 2)) (Fin (25 / 16) / lit 100) < MIN_ORDER_USD"
  "committed_capital (Fin 64) (Fin (25 / 16)) = Fin 62" "\<not> Fin 100 < Fin 62" "Fin 100 - Fin 62 = Fin 38"
  by code_simp+

lemma demo_check_opts: "check_opts demo_reward demo_opts e = (Inr (Fin 64, Fin (25 / 16), Fin 256), e)"
  using demo_numbers(3-7)
  by (simp add: check_opts_def reject_unless_def demo_reward_def demo_opts_def demo_numbers(1,2) comp_simps Let_def)

lemma demo_place_check: "\<exists>e1. place_check demo_world ''m'' ''yes'' demo_opts (demo_engine chain) = (Inr (demo_account,
      quote_input demo_market demo_reward demo_opts ''yes'' ''11'' (Fin (1 / 2)) (Fin 64) (Fin (25 / 16)) (Fin 256)), e1) \<and>
    books e1 = books (demo_engine chain)"
proof -
  obtain e1 where e1: "on_client (get_market demo_world ''m'') (demo_engine chain) = (Inr demo_market, e1)"
    using demo_get_market by blast
  have o: "validate_outcome ''yes'' (Some demo_market) = Inr ''yes''" by code_simp
  have t: "get_token_id demo_market ''yes'' = Some ''11''" by code_simp
  have c: "\<not> mk_closed demo_market" by (simp add: demo_market_def)
  have "d_account (db_of (demo_engine chain)) = Some (Some demo_account)" by (simp add: demo_engine_def engine_on_def)
  then have "fst (place_check demo_world ''m'' ''yes'' demo_opts (demo_engine chain)) = Inr (demo_account,
      quote_input demo_market demo_reward demo_opts ''yes'' ''11'' (Fin (1 / 2)) (Fin 64) (Fin (25 / 16)) (Fin 256))"
    using demo_numbers(8,9,11)
    by (simp add: place_check_def reject_unless_def Let_def comp_simps e1 o c demo_get_pool demo_check_opts token_for_def t
        demo_get_mid demo_numbers(10)) (simp add: demo_account_def)
  then show ?thesis using books_eq[OF place_check_books] by (metis prod.collapse)
qed

lemma demo_placed: "\<exists>q e'. place_quote demo_world ''m'' ''yes'' demo_opts (demo_engine chain) = (Inr q, e') \<and>
    q_token_id q = ''11'' \<and> q_committed_capital q = Fin 62"
proof -
  let ?i = "quote_input demo_market demo_reward demo_opts ''yes'' ''11'' (Fin (1 / 2)) (Fin 64) (Fin (25 / 16)) (Fin 256)"
  obtain e1 where e1: "place_check demo_world ''m'' ''yes'' demo_opts (demo_engine chain) = (Inr (demo_account, ?i), e1)"
    "books e1 = books (demo_engine chain)" using demo_place_check by blast
  have b: "d_account (db_of e1) = Some (Some demo_account)" "d_maker_quotes (db_of e1) = Some empty_table" "d_has_comp (db_of e1)"
    using e1(2) by (simp_all add: books_def demo_engine_def engine_on_def fresh_db_eq)
  let ?e2 = "set_db (with_cash (Fin 38) demo_account (db_of e1)) e1"
  have u: "edb (update_cash (ac_cash demo_account - qi_committed_capital ?i)) e1 = (Inr (), ?e2)"
    by (simp add: comp_simps update_cash_run[OF b(1)] quote_input_def demo_numbers(10))
       (simp add: demo_account_def demo_numbers(12))
  have n: "quote_now demo_world (mo_now_unix demo_opts) ?e2 = (Inr 0, ?e2)" by (simp add: quote_now_def demo_opts_def comp_simps)
  let ?inp = "?i\<lparr>qi_last_accrued_at := unix_to_iso 0\<rparr>"
  have clk: "on_client (clock demo_world) ?e2 = (Inr 0, ?e2)" by (simp add: on_client_run clock_def comp_simps demo_world_def)
  have q: "quote_checks (quote_row 0 ?inp 1)"
    by (simp add: quote_checks_def quote_row_def quote_input_def demo_numbers(10) demo_opts_def demo_reward_def zero_double_def one_double_def)
  have ok: "tb_ok q_id empty_table" by (simp add: tb_ok_def empty_table_def)
  have d: "create_maker_quote 0 ?inp (db_of ?e2) = (Inr (quote_row 0 ?inp 1),
      (db_of ?e2)\<lparr>d_maker_quotes := Some \<lparr>tb_rows = [quote_row 0 ?inp 1], tb_seq = 1\<rparr>\<rparr>)"
    using q by (simp add: create_quote_eq b with_cash_def tb_insert_def tb_select_def empty_table_def Let_def)
       (simp add: quote_row_def)
  let ?e3 = "set_db ((db_of ?e2)\<lparr>d_maker_quotes := Some \<lparr>tb_rows = [quote_row 0 ?inp 1], tb_seq = 1\<rparr>\<rparr>) ?e2"
  obtain e4 where e4: "record_equity demo_world None ?e3 = (Inr (), e4)"
    using record_equity_run by blast
  have "edb_now demo_world (\<lambda>t. create_maker_quote t ?inp) ?e2 = (Inr (quote_row 0 ?inp 1), ?e3)"
    unfolding edb_now_def by (simp only: bindc_def clk continue_with.simps edb_run d prod.case)
  then have "place_quote demo_world ''m'' ''yes'' demo_opts (demo_engine chain) = (Inr (quote_row 0 ?inp 1), e4)"
    unfolding place_quote_def by (simp only: bindc_def e1(1) continue_with.simps prod.case u n e4 ret_def)
  then show ?thesis by (auto simp: quote_row_def quote_input_def demo_numbers(10))
qed

section \<open>The properties on these runs\<close>

lemma demo_fields: "d_account (db_of (demo_engine chain)) = Some (Some demo_account)"
  "d_maker_quotes (db_of (demo_engine chain)) = Some empty_table" "tb_ok q_id empty_table" "en_chain (demo_engine chain) = chain"
  "demo_opts\<lparr>mo_cancel_efficiency := 0\<rparr> = demo_opts"
  by (simp_all add: demo_engine_def engine_on_def fresh_db_eq tb_ok_def empty_table_def demo_opts_def)


lemma dry_answers: "answers_cancels dry_echo"
  by (simp add: answers_cancels_def dry_echo_def cancel_all_action_def jset_def)

lemma place_live_all_or_nothing_witness:
  "\<exists>q r e'. place_maker_quote_live demo_world dry_echo ''m'' ''yes'' demo_opts (demo_engine []) = (r, e') \<and>
     (\<exists>orders. en_sent e' = place_actions orders \<or> en_sent e' = place_actions orders @ cancel_actions q)"
proof -
  obtain q e1 where q: "place_quote demo_world ''m'' ''yes'' demo_opts (demo_engine []) = (Inr q, e1)" "q_committed_capital q = Fin 62"
    using demo_placed by blast
  obtain r e' where r: "place_maker_quote_live demo_world dry_echo ''m'' ''yes'' demo_opts (demo_engine []) = (r, e')" by fastforce
  have n: "ac_cash demo_account - q_committed_capital q + q_committed_capital q \<noteq> NaN"
    unfolding q(2) demo_account_def Account.select_convs by code_simp
  have h: "\<not> holds_position (en_chain (demo_engine [])) tok" for tok
    by (simp add: demo_fields(4) holds_position_def smap_get_def)
  have "en_sent (demo_engine []) = []" by (simp add: demo_engine_def engine_on_def)
  then show ?thesis
    using place_live_all_or_nothing[where opts = demo_opts, unfolded demo_fields(5), OF q(1) demo_fields(2,3,1) h h dry_answers n r] r by auto
qed

lemma holding_keeps_capital_witness:
  "\<exists>q e1. place_maker_quote_live demo_world dry_echo ''m'' ''yes'' demo_opts (demo_engine [(''11'', Fin 5)]) = (Inr (skipped_row q), e1) \<and>
     d_account (db_of e1) = Some (Some (demo_account\<lparr>ac_cash := Fin 38\<rparr>))"
proof -
  let ?e = "demo_engine [(''11'', Fin 5)]"
  obtain q e1 where q: "place_quote demo_world ''m'' ''yes'' demo_opts ?e = (Inr q, e1)" "q_committed_capital q = Fin 62"
    "q_token_id q = ''11''" using demo_placed by blast
  have "holds_position (en_chain ?e) (q_token_id q)"
    by (simp add: demo_fields(4) q(3) holds_position_def smap_get_def one_double_def)
  then have "holds_position (en_chain ?e) (q_token_id q) \<or> holds_position (en_chain ?e) (q_complement_token_id q)" ..
  from holding_keeps_capital[where opts = demo_opts, unfolded demo_fields(5), OF q(1) demo_fields(2,3) this, of dry_echo]
  have "place_maker_quote_live demo_world dry_echo ''m'' ''yes'' demo_opts ?e = (Inr (skipped_row q), e1)"
    "d_account (db_of e1) = Some (Some (demo_account\<lparr>ac_cash := ac_cash demo_account - Fin 62\<rparr>))"
    using demo_fields(1)[of "[(''11'', Fin 5)]"] q(2) by auto
  moreover have "ac_cash demo_account - Fin 62 = Fin 38" by (simp add: demo_account_def demo_numbers(12))
  ultimately show ?thesis by auto
qed

definition quoted_engine :: Engine where
  "quoted_engine = engine_on (quoted_db\<lparr>d_account := Some (Some demo_account)\<rparr>) []"

lemma quoted_row_fields: "q_id (quote_row 0 demo_quote 1) = 1" "q_status (quote_row 0 demo_quote 1) = ''active''"
  "q_committed_capital (quote_row 0 demo_quote 1) = Fin 96" "q_token_id (quote_row 0 demo_quote 1) = ''11''"
  by (simp_all add: quote_row_def demo_quote_def)

lemma quoted_fields: "d_account (db_of quoted_engine) = Some (Some demo_account)"
  "d_maker_quotes (db_of quoted_engine) = Some \<lparr>tb_rows = [quote_row 0 demo_quote 1], tb_seq = 1\<rparr>"
  "tb_ok q_id \<lparr>tb_rows = [quote_row 0 demo_quote 1], tb_seq = 1\<rparr>"
  "tb_select q_id 1 \<lparr>tb_rows = [quote_row 0 demo_quote 1], tb_seq = 1\<rparr> = Some (quote_row 0 demo_quote 1)"
  "q_status (quote_row 0 demo_quote 1) = ''active''" "q_committed_capital (quote_row 0 demo_quote 1) = Fin 96"
  "en_sent quoted_engine = []"
  by (simp_all add: quoted_engine_def engine_on_def quoted_db_quotes tb_ok_def tb_select_def quoted_row_fields)

lemma quoted_has_inv: "d_has_comp_inv (db_of quoted_engine)"
proof -
  have "d_has_comp_inv quoted_db" by (simp add: quoted_db_def demo_quote_made) (simp add: fresh_db_eq)
  then show ?thesis by (simp add: quoted_engine_def engine_on_def)
qed

lemma cancel_refunds_once_witness:
  "let e' = snd (cancel_quote demo_world 1 quoted_engine)
   in d_account (db_of e') = Some (Some (demo_account\<lparr>ac_cash := Fin 196\<rparr>)) \<and> cancel_quote demo_world 1 e' = (Inr None, e')"
proof -
  obtain r e' where r: "cancel_quote demo_world 1 quoted_engine = (r, e')" by fastforce
  have s: "ac_cash demo_account + q_committed_capital (quote_row 0 demo_quote 1) = Fin 196"
    unfolding quoted_fields(6) demo_account_def Account.select_convs by code_simp
  then have "ac_cash demo_account + q_committed_capital (quote_row 0 demo_quote 1) \<noteq> NaN" by simp
  from cancel_refunds_once[OF quoted_fields(1-5) this r] show ?thesis using r s by simp
qed

lemma live_quote_actions_witness:
  "\<exists>as. en_sent (snd (accrue_live_quote dry_echo [] None 1
       [(1, empty_read\<lparr>qr_config_ok := True\<rparr>)] 0 (quote_row 0 demo_quote 1) quoted_engine)) = as \<and>
     (as \<noteq> [] \<longrightarrow> hd as = cancel_all_action ''11'') \<and> \<not> list_ex is_place as"
proof -
  let ?q = "quote_row 0 demo_quote 1" and ?reads = "[(1, empty_read\<lparr>qr_config_ok := True\<rparr>)]"
  obtain res e' where r: "accrue_live_quote dry_echo [] None 1 ?reads 0 ?q quoted_engine = (res, e')" by fastforce
  have "read_of ?reads (q_id ?q) = empty_read\<lparr>qr_config_ok := True\<rparr>" by (simp add: read_of_def quote_row_def)
  moreover have "rewards_over (empty_read\<lparr>qr_config_ok := True\<rparr>)" by (simp add: rewards_over_def empty_read_def)
  ultimately show ?thesis using live_quote_actions[OF r refl] r quoted_fields(7)
    by (auto simp: quote_row_def demo_quote_def)
qed


definition held_chain :: "(string, double) smap" where
  "held_chain = [(''11'', Fin 5)]"

lemma reconcile_matches_chain_witness:
  "\<exists>n e' t'. reconcile_inventory held_chain quoted_engine = (Inr n, e') \<and> d_maker_quotes (db_of e') = Some t' \<and>
     (\<forall>q \<in> set (active_rows t'). chain_agrees held_chain q)"
proof -
  let ?t = "\<lparr>tb_rows = [quote_row 0 demo_quote 1], tb_seq = 1\<rparr>" and ?q = "quote_row 0 demo_quote 1"
  have fin: "finite_d x" if "smap_get held_chain tok = Some x" for tok x
    using that by (auto simp: held_chain_def smap_get_def split: if_splits)
  have "accrual_reals (reconcile_update held_chain ?q)"
    using fin by (auto simp: accrual_reals_def reconcile_update_def quote_row_def demo_quote_def chain_no_def chain_at_def
        zero_double_def held_chain_def smap_get_def)
  then have u: "update_maker_quote_accrual 1 (reconcile_update held_chain ?q) (db_of quoted_engine) =
      (Inr (accrual (reconcile_update held_chain ?q) ?q), (db_of quoted_engine)\<lparr>d_maker_quotes :=
         Some (tb_update (\<lambda>r. q_id r = 1) (accrual (reconcile_update held_chain ?q)) ?t)\<rparr>)"
    using update_accrual_Inr[OF quoted_fields(2-4)] quoted_has_inv by blast
  have "active_rows ?t = [?q]" by (simp add: active_rows_def quoted_fields(5))
  then have "fst (reconcile_inventory held_chain quoted_engine) = Inr (if chain_agrees held_chain ?q then 0 else 1)"
    using u by (auto simp: reconcile_inventory_def get_active_maker_quotes_def comp_simps quoted_fields(2) reconcile_quote_def)
       (auto simp: quote_row_def comp_simps)
  then obtain n e' where n: "reconcile_inventory held_chain quoted_engine = (Inr n, e')" by (metis prod.collapse)
  have "\<exists>t'. d_maker_quotes (db_of e') = Some t' \<and> (\<forall>q \<in> set (active_rows t'). chain_agrees held_chain q)"
    using reconcile_matches_chain[OF n quoted_fields(2,3)] fin by blast
  with n show ?thesis by blast
qed

end
