(* ===== verification/Config.thy ===== *)
theory Config
  imports Http
begin

text \<open>
  The runner's configuration (\<open>config.hpp\<close>, \<open>config.cpp\<close>): the defaults of the structure and
  the settings read from the process environment, after the file \<open>.env\<close> has been loaded into it.
  The banner that is printed at the start is left out.
\<close>

record RunnerConfig =
  cf_live :: bool
  cf_dry_live :: bool
  cf_capital :: double
  cf_min_daily :: double
  cf_scan_top :: int
  cf_half_spread_ticks :: int
  cf_use_optimal_spread :: bool
  cf_micro_center :: bool
  cf_micro_gate_c :: double
  cf_micro_beta :: double
  cf_reward_calib :: double
  cf_waterfill :: bool
  cf_max_competitiveness :: double
  cf_extreme_mid_margin :: double
  cf_pool_whitelist :: "string set"
  cf_jump_vol_weight :: double
  cf_net_edge_gate :: bool
  cf_orphan_sweep :: bool
  cf_tail_budget :: double
  cf_tail_k_sigma :: double
  cf_recenter_ticks :: int
  cf_fade_micro_c :: double
  cf_fade_obi :: double
  cf_fade_cooldown_s :: double
  cf_fade_toxic_streak :: int
  cf_min_days_to_resolution :: double
  cf_max_vol_mult :: double
  cf_crossing_cost_c :: double
  cf_risk_tolerance_days :: double
  cf_max_token_overlap :: int
  cf_poll_seconds :: double
  cf_discovery_interval_s :: double
  cf_cooldown_rounds :: int
  cf_max_loss :: double
  cf_min_wallet_usdc :: double
  cf_reeval_enabled :: bool
  cf_reeval_interval_s :: double
  cf_min_pool_reward :: double
  cf_size_share_cap :: double
  cf_quality_floor_frac :: double
  cf_max_pool_frac :: double
  cf_order_expiry_s :: double
  cf_chop_aversion :: double
  cf_max_mid_vel_cps :: double
  cf_min_hold_s :: double
  cf_state_dir :: string
  cf_kill_file :: string
  cf_retention_days :: int
  cf_events_enabled :: bool
  cf_event_poll_every_s :: double
  cf_stats_every_s :: double
  cf_max_req_per_sec :: double
  cf_ws_enabled :: bool
  cf_resync_workers :: int

definition default_config :: RunnerConfig where
  "default_config =
     \<lparr>cf_live = False, cf_dry_live = True, cf_capital = lit 200, cf_min_daily = lit 80, cf_scan_top = 0,
      cf_half_spread_ticks = 1, cf_use_optimal_spread = False, cf_micro_center = False, cf_micro_gate_c = lit (3 / 10),
      cf_micro_beta = lit (1 / 10), cf_reward_calib = lit (237 / 1000), cf_waterfill = True,
      cf_max_competitiveness = lit (3 / 2), cf_extreme_mid_margin = lit (2 / 10), cf_pool_whitelist = {},
      cf_jump_vol_weight = lit (7 / 10), cf_net_edge_gate = True, cf_orphan_sweep = True, cf_tail_budget = lit 20,
      cf_tail_k_sigma = lit 3, cf_recenter_ticks = 1, cf_fade_micro_c = 1, cf_fade_obi = lit (7 / 10),
      cf_fade_cooldown_s = lit 10, cf_fade_toxic_streak = 4, cf_min_days_to_resolution = lit 10,
      cf_max_vol_mult = lit (5 / 2), cf_crossing_cost_c = 0, cf_risk_tolerance_days = lit 7, cf_max_token_overlap = 1,
      cf_poll_seconds = lit 60, cf_discovery_interval_s = lit 600, cf_cooldown_rounds = 3, cf_max_loss = lit 20,
      cf_min_wallet_usdc = 0, cf_reeval_enabled = True, cf_reeval_interval_s = lit 300, cf_min_pool_reward = lit (1 / 2),
      cf_size_share_cap = lit (33 / 100), cf_quality_floor_frac = lit (1 / 10), cf_max_pool_frac = lit (1 / 4),
      cf_order_expiry_s = 0, cf_chop_aversion = lit (7 / 10), cf_max_mid_vel_cps = lit 4, cf_min_hold_s = lit 600,
      cf_state_dir = ''state'', cf_kill_file = ''KILL'', cf_retention_days = 30, cf_events_enabled = True,
      cf_event_poll_every_s = lit 10, cf_stats_every_s = lit 60, cf_max_req_per_sec = lit 149, cf_ws_enabled = False,
      cf_resync_workers = 8\<rparr>"

text \<open>
  The comma-separated ids of the whitelist, with the blanks around them cut off: the loop of
  \<open>getline\<close> in the configuration and in the curator's callback
\<close>

definition blank :: "char \<Rightarrow> bool" where
  "blank c \<longleftrightarrow> c = CHR '' '' \<or> c = CHR 0x09"

definition trim_blanks :: "string \<Rightarrow> string" where
  "trim_blanks s = rev (dropWhile blank (rev (dropWhile blank s)))"

definition csv_ids :: "string \<Rightarrow> string set" where
  "csv_ids csv = set (filter (\<lambda>s. s \<noteq> []) (map trim_blanks (split_on (CHR '','') csv)))"

definition config_of_env :: "environ \<Rightarrow> RunnerConfig" where
  "config_of_env ev = default_config
     \<lparr>cf_live := flag_eq ev ''PM_TRADER_LIVE'' ''1'' ''0'',
      cf_dry_live := flag_ne ev ''LM_DRY_LIVE'' ''0'' ''1'',
      cf_capital := env_f ev ''LM_CAPITAL'' (lit 200),
      cf_min_daily := env_f ev ''LM_MIN_DAILY'' (lit 15),
      cf_half_spread_ticks := env_i ev ''LM_HALF_SPREAD_TICKS'' 1,
      cf_risk_tolerance_days := env_f ev ''LM_RISK_TOLERANCE_DAYS'' (lit 5),
      cf_scan_top := env_i ev ''LM_SCAN_TOP'' 0,
      cf_max_token_overlap := env_i ev ''LM_MAX_TOKEN_OVERLAP'' 1,
      cf_poll_seconds := env_f ev ''LM_POLL_SECONDS'' 1,
      cf_discovery_interval_s := env_f ev ''LM_DISCOVERY_INTERVAL_S'' (lit 600),
      cf_cooldown_rounds := env_i ev ''LM_COOLDOWN_ROUNDS'' 3,
      cf_max_loss := env_f ev ''LM_MAX_LOSS_PER_DAY'' (lit 20),
      cf_retention_days := env_i ev ''LM_RETENTION_DAYS'' 30,
      cf_events_enabled := flag_ne ev ''LM_EVENTS'' ''0'' ''1'',
      cf_event_poll_every_s := env_f ev ''LM_EVENT_POLL_EVERY_S'' (lit 10),
      cf_stats_every_s := env_f ev ''LM_STATS_EVERY_S'' (lit 60),
      cf_max_req_per_sec := env_f ev ''LM_MAX_REQ_PER_SEC'' (lit 149),
      cf_ws_enabled := flag_ne ev ''LM_WS'' ''0'' ''1'',
      cf_resync_workers := env_i ev ''LM_BOOK_RESYNC_WORKERS'' 8,
      cf_reeval_enabled := flag_ne ev ''LM_REEVAL'' ''0'' ''1'',
      cf_reeval_interval_s := env_f ev ''LM_REEVAL_INTERVAL_S'' (lit 300),
      cf_min_pool_reward := env_f ev ''LM_MIN_POOL_REWARD'' (lit (3 / 2)),
      cf_chop_aversion := env_f ev ''LM_CHOP_AVERSION'' (lit (3 / 2)),
      cf_size_share_cap := env_f ev ''LM_SIZE_SHARE_CAP'' (lit (30 / 100)),
      cf_quality_floor_frac := env_f ev ''LM_QUALITY_FLOOR_FRAC'' (lit (10 / 100)),
      cf_max_pool_frac := env_f ev ''LM_MAX_POOL_FRAC'' (lit (12 / 100)),
      cf_order_expiry_s := env_f ev ''LM_ORDER_EXPIRY_S'' (lit 120),
      cf_max_mid_vel_cps := env_f ev ''LM_MAX_MID_VEL_CPS'' 1,
      cf_min_hold_s := env_f ev ''LM_MIN_HOLD_S'' (lit 300),
      cf_min_wallet_usdc := env_f ev ''LM_MIN_WALLET_USDC'' 0,
      cf_use_optimal_spread := flag_ne ev ''LM_OPTIMAL_SPREAD'' ''0'' ''1'',
      cf_micro_center := flag_eq ev ''LM_MICRO_CENTER'' ''1'' ''0'',
      cf_micro_gate_c := env_f ev ''LM_MICRO_GATE_C'' (lit (3 / 10)),
      cf_micro_beta := env_f ev ''LM_MICRO_BETA'' (lit (1 / 10)),
      cf_reward_calib := env_f ev ''LM_REWARD_CALIB'' (lit (237 / 1000)),
      cf_waterfill := flag_ne ev ''LM_WATERFILL'' ''0'' ''1'',
      cf_max_competitiveness := env_f ev ''LM_MAX_COMPETITIVENESS'' (lit (3 / 2)),
      cf_extreme_mid_margin := env_f ev ''LM_EXTREME_MID_MARGIN'' (lit (2 / 10)),
      cf_jump_vol_weight := env_f ev ''LM_JUMP_VOL_WEIGHT'' (lit (7 / 10)),
      cf_net_edge_gate := flag_ne ev ''LM_NET_EDGE_GATE'' ''0'' ''1'',
      cf_orphan_sweep := flag_ne ev ''LM_ORPHAN_SWEEP'' ''0'' ''1'',
      cf_tail_budget := env_f ev ''LM_TAIL_BUDGET'' (lit 10),
      cf_tail_k_sigma := env_f ev ''LM_TAIL_K_SIGMA'' (lit 3),
      cf_recenter_ticks := env_i ev ''LM_RECENTER_TICKS'' 1,
      cf_fade_micro_c := env_f ev ''LM_FADE_MICRO_C'' 1,
      cf_fade_obi := env_f ev ''LM_FADE_OBI'' (lit (7 / 10)),
      cf_fade_cooldown_s := env_f ev ''LM_FADE_COOLDOWN_S'' (lit 10),
      cf_fade_toxic_streak := env_i ev ''LM_FADE_TOXIC_STREAK'' 4,
      cf_pool_whitelist := csv_ids (env_str ev ''LM_POOL_WHITELIST'' []),
      cf_min_days_to_resolution := env_f ev ''LM_MIN_DAYS_TO_RESOLUTION'' (lit 10),
      cf_max_vol_mult := env_f ev ''LM_MAX_VOL_MULT'' (lit (5 / 2)),
      cf_crossing_cost_c := env_f ev ''LM_CROSSING_COST_C'' 0\<rparr>"

text \<open>\<open>from_env\<close>: the file goes into the environment first.\<close>

definition from_env :: "string list option \<Rightarrow> environ \<Rightarrow> RunnerConfig" where
  "from_env file_rows ev = config_of_env (fst (LoadDotEnv file_rows False ev))"

section \<open>Properties\<close>

lemma split_on_chars: "w \<in> set (split_on d s) \<Longrightarrow> d \<notin> set w"
proof (induction d s arbitrary: w rule: split_on.induct)
  case (2 d c s)
  then show ?case by (cases "split_on d s") (auto split: if_splits)
qed simp

lemma dropWhile_head: "dropWhile p xs = x # ys \<Longrightarrow> \<not> p x"
  by (induction xs) (auto split: if_splits)

lemma trim_blanks_ends:
  assumes "trim_blanks s \<noteq> []"
  shows "\<not> blank (hd (trim_blanks s)) \<and> \<not> blank (last (trim_blanks s))"
proof -
  let ?f = "dropWhile blank s"
  let ?r = "dropWhile blank (rev ?f)"
  have r: "?r \<noteq> []" using assms by (simp add: trim_blanks_def)
  then have f: "?f \<noteq> []" by (metis dropWhile.simps(1) rev.simps(1))
  have "\<not> blank (hd ?r)" using r by (meson hd_dropWhile)
  then have "\<not> blank (last (trim_blanks s))" using r by (simp add: trim_blanks_def last_rev)
  moreover have "last ?r = hd ?f"
  proof -
    have "\<not> blank (hd ?f)" using f by (meson hd_dropWhile)
    then have "\<not> blank (last (rev ?f))" using f by (simp add: last_rev)
    then obtain ys where "rev ?f = ys @ ?r" by (metis takeWhile_dropWhile_id)
    then show ?thesis using r f by (metis last_appendR last_rev)
  qed
  then have "hd (trim_blanks s) = hd ?f" using r by (simp add: trim_blanks_def hd_rev)
  then have "\<not> blank (hd (trim_blanks s))" using f by (simp add: hd_dropWhile)
  ultimately show ?thesis by simp
qed

text \<open>
  The runner trades for real exactly when \<open>PM_TRADER_LIVE\<close>, which the file \<open>.env\<close> can set
  only where the process does not, is \<open>1\<close> up to white space; and every id of the whitelist is a
  non-empty text without commas and without blanks at its ends.
\<close>

theorem from_env_live:
  "(cf_live (from_env file_rows ev) \<longleftrightarrow>
      strip (case ev ''PM_TRADER_LIVE'' of Some v \<Rightarrow> v
        | None \<Rightarrow> env_str (fst (LoadDotEnv file_rows False ev)) ''PM_TRADER_LIVE'' ''0'') = ''1'') \<and>
   (\<forall>w \<in> cf_pool_whitelist (from_env file_rows ev).
      w \<noteq> [] \<and> CHR '','' \<notin> set w \<and> \<not> blank (hd w) \<and> \<not> blank (last w))"
proof -
  have live: "cf_live (from_env file_rows ev) \<longleftrightarrow> flag_eq (fst (LoadDotEnv file_rows False ev)) ''PM_TRADER_LIVE'' ''1'' ''0''"
    by (simp add: from_env_def config_of_env_def)
  have keeps: "fst (LoadDotEnv file_rows False ev) k = Some v" if "ev k = Some v" for k v
    using that env_load_keeps by (simp add: LoadDotEnv_def split: option.split)
  have "set (trim_blanks s) \<subseteq> set s" for s
    unfolding trim_blanks_def by (metis set_dropWhileD set_rev subsetI)
  then have ids: "w \<noteq> [] \<and> CHR '','' \<notin> set w \<and> \<not> blank (hd w) \<and> \<not> blank (last w)" if "w \<in> csv_ids csv" for w csv
    using that trim_blanks_ends split_on_chars by (fastforce simp: csv_ids_def)
  show ?thesis using keeps live
    by (auto simp: flag_eq_def env_str_def from_env_def config_of_env_def dest: ids split: option.splits)
qed

lemma from_env_live_witness:
  "cf_pool_whitelist (from_env (Some [''LM_POOL_WHITELIST= 0xa, 0xb ,,'']) Map.empty) = {''0xa'', ''0xb''} \<and>
   (\<forall>w \<in> cf_pool_whitelist (from_env (Some [''LM_POOL_WHITELIST= 0xa, 0xb ,,'']) Map.empty). CHR '','' \<notin> set w)"
proof -
  have "csv_ids (env_str (fst (LoadDotEnv (Some [''LM_POOL_WHITELIST= 0xa, 0xb ,,'']) False Map.empty)) ''LM_POOL_WHITELIST'' [])
      = {''0xa'', ''0xb''}" by code_simp
  then show ?thesis using from_env_live[of "Some [''LM_POOL_WHITELIST= 0xa, 0xb ,,'']" Map.empty]
    by (simp add: from_env_def config_of_env_def)
qed

end
