(* ===== verification/Ws.thy ===== *)
theory Ws
  imports Http OrderBook
begin

text \<open>
  The websocket channels (\<open>ws.cpp\<close>): the market channel, which keeps an order book per token from
  snapshots and price changes, and the user channel, which queues the account's fills once each.
  The clock is a function of the number of its readings so far, which the channel counts.  The
  socket (\<open>WsConnection\<close>) is operating-system code: the reader thread is a step relation whose
  labels carry what the socket answers.  The price callback is the list of the calls it receives.
\<close>

section \<open>Books by price\<close>

text \<open>
  \<open>std::map<double, double>\<close> in ascending order: a key equivalent to a stored one (neither is less)
  is that key, as in the library; a NaN is equivalent to every key, so an erasure by it empties the
  map.
\<close>

type_synonym dmap = "(double \<times> double) list"

fun dmap_put :: "double \<Rightarrow> double \<Rightarrow> dmap \<Rightarrow> dmap" where
  "dmap_put k v [] = [(k, v)]"
| "dmap_put k v ((k', v') # m) =
     (if k' < k then (k', v') # dmap_put k v m
      else if k < k' then (k, v) # (k', v') # m
      else (k', v) # m)"

definition dmap_erase :: "double \<Rightarrow> dmap \<Rightarrow> dmap" where
  "dmap_erase k m = filter (\<lambda>(k', _). k' < k \<or> k < k') m"

record Levels =
  ml_bids :: dmap
  ml_asks :: dmap

definition no_levels :: Levels where
  "no_levels = \<lparr>ml_bids = [], ml_asks = []\<rparr>"

definition parse_levels :: "json \<Rightarrow> dmap" where
  "parse_levels arr = foldl (\<lambda>m l. dmap_put (find_double l ''price'' 0) (find_double l ''size'' 0) m) [] (elements arr)"

definition found_levels :: "json \<Rightarrow> string \<Rightarrow> dmap" where
  "found_levels ev key = (case jfind ev key of None \<Rightarrow> [] | Some b \<Rightarrow> parse_levels b)"

definition levels_in :: "json \<Rightarrow> Levels" where
  "levels_in ev = \<lparr>ml_bids = found_levels ev ''bids'', ml_asks = found_levels ev ''asks''\<rparr>"

section \<open>The market channel\<close>

record MarketChannel =
  mc_levels :: "(string, Levels) smap"
  mc_ts :: "(string, double) smap"
  mc_subs :: "string list"
  mc_updates :: "(string, int) smap"
  mc_last_recv :: double
  mc_callback :: bool
  mc_reads :: nat

definition new_market :: MarketChannel where
  "new_market = \<lparr>mc_levels = [], mc_ts = [], mc_subs = [], mc_updates = [], mc_last_recv = 0, mc_callback = False,
     mc_reads = 0\<rparr>"

type_synonym mono_clock = "nat \<Rightarrow> double"

definition set_price_callback :: "MarketChannel \<Rightarrow> MarketChannel" where
  "set_price_callback ch = ch\<lparr>mc_callback := True\<rparr>"

text \<open>\<open>ts_[token] = mono_now()\<close>\<close>

definition stamp :: "mono_clock \<Rightarrow> string \<Rightarrow> MarketChannel \<Rightarrow> MarketChannel" where
  "stamp clk token ch = ch\<lparr>mc_ts := smap_put token (clk (mc_reads ch)) (mc_ts ch), mc_reads := mc_reads ch + 1\<rparr>"

definition put_book :: "mono_clock \<Rightarrow> string \<Rightarrow> Levels \<Rightarrow> MarketChannel \<Rightarrow> MarketChannel" where
  "put_book clk token lv ch = stamp clk token (ch\<lparr>mc_levels := smap_put token lv (mc_levels ch)\<rparr>)"

definition on_book :: "jlib \<Rightarrow> mono_clock \<Rightarrow> json \<Rightarrow> MarketChannel \<Rightarrow> string \<times> MarketChannel" where
  "on_book jl clk ev ch =
     (let token = find_str jl ev ''asset_id'' in
      if token = [] then ([], ch) else (token, put_book clk token (levels_in ev) ch))"

definition is_buy :: "jlib \<Rightarrow> json \<Rightarrow> bool" where
  "is_buy jl ch = (case jfind ch ''side'' of None \<Rightarrow> False | Some s \<Rightarrow> to_upper (to_str (jl_dump jl) s) = ''BUY'')"

definition change_side :: "double \<Rightarrow> double \<Rightarrow> dmap \<Rightarrow> dmap" where
  "change_side price sz m = (if sz \<le> 0 then dmap_erase price m else dmap_put price sz m)"

definition price_change :: "jlib \<Rightarrow> mono_clock \<Rightarrow> json \<Rightarrow> string set \<times> MarketChannel \<Rightarrow> string set \<times> MarketChannel" where
  "price_change jl clk change = (\<lambda>(touched, ch).
     let token = find_str jl change ''asset_id'' in
     if token = [] then (touched, ch)
     else
       let book = smap_at no_levels (mc_levels ch) token;
           apply_side = change_side (find_double change ''price'' 0) (find_double change ''size'' 0);
           book' = (if is_buy jl change then ml_bids_update apply_side book else ml_asks_update apply_side book)
       in (insert token touched, put_book clk token book' ch))"

definition on_price_change :: "jlib \<Rightarrow> mono_clock \<Rightarrow> json \<Rightarrow> MarketChannel \<Rightarrow> string set \<times> MarketChannel" where
  "on_price_change jl clk ev ch = foldl (\<lambda>s change. price_change jl clk change s) ({}, ch) (find_elements ev ''price_changes'')"

definition handle_ev :: "jlib \<Rightarrow> mono_clock \<Rightarrow> json \<Rightarrow> string set \<times> MarketChannel \<Rightarrow> string set \<times> MarketChannel" where
  "handle_ev jl clk ev = (\<lambda>(touched, ch).
     let type = find_str jl ev ''event_type'' in
     if \<not> is_object ev then (touched, ch)
     else if type = ''book''
     then (case on_book jl clk ev ch of (t, ch') \<Rightarrow> (if t \<noteq> [] then insert t touched else touched, ch'))
     else if type = ''price_change''
     then (case on_price_change jl clk ev ch of (tt, ch') \<Rightarrow> (touched \<union> tt, ch'))
     else (touched, ch))"

definition get_book :: "MarketChannel \<Rightarrow> string \<Rightarrow> OrderBook option" where
  "get_book ch token =
     (case smap_get (mc_levels ch) token of
        None \<Rightarrow> None
      | Some lv \<Rightarrow>
          let side = (\<lambda>m. map (\<lambda>(p, s). \<lparr>lv_price = p, lv_size = s\<rparr>) (filter (\<lambda>(p, s). 0 < s) m));
              bids = side (ml_bids lv); asks = side (ml_asks lv)
          in if bids = [] \<or> asks = [] then None else Some \<lparr>ob_bids = bids, ob_asks = asks\<rparr>)"

definition ws_midpoint :: "MarketChannel \<Rightarrow> string \<Rightarrow> double" where
  "ws_midpoint ch token =
     (case smap_get (mc_levels ch) token of
        None \<Rightarrow> 0
      | Some lv \<Rightarrow> if ml_bids lv = [] \<or> ml_asks lv = [] then 0
          else (fst (last (ml_bids lv)) + fst (hd (ml_asks lv))) / lit 2)"

definition count_update :: "string \<Rightarrow> MarketChannel \<Rightarrow> MarketChannel" where
  "count_update t ch = ch\<lparr>mc_updates := smap_put t (smap_at 0 (mc_updates ch) t + 1) (mc_updates ch)\<rparr>"

text \<open>The calls of the price callback, in the order of the token set\<close>

definition price_calls :: "string list \<Rightarrow> MarketChannel \<Rightarrow> (string \<times> double) list" where
  "price_calls touched ch =
     (if mc_callback ch
      then filter (\<lambda>(t, m). 0 < m) (map (\<lambda>t. (t, ws_midpoint ch t)) (filter (\<lambda>t. t \<in> set (mc_subs ch)) touched))
      else [])"

definition frame_events :: "json \<Rightarrow> json list" where
  "frame_events data = (case data of JArr evs \<Rightarrow> evs | _ \<Rightarrow> [data])"

definition handle_message :: "jlib \<Rightarrow> mono_clock \<Rightarrow> string \<Rightarrow> MarketChannel \<Rightarrow> (string \<times> double) list \<times> MarketChannel" where
  "handle_message jl clk raw ch =
     (let ch0 = ch\<lparr>mc_last_recv := clk (mc_reads ch), mc_reads := mc_reads ch + 1\<rparr> in
      case jl_parse jl raw of
        None \<Rightarrow> ([], ch0)
      | Some data \<Rightarrow>
          let (touched, ch1) = foldl (\<lambda>s ev. handle_ev jl clk ev s) ({}, ch0) (frame_events data);
              ts = sorted_list_of_set touched;
              ch2 = foldl (\<lambda>c t. count_update t c) ch1 ts
          in (price_calls ts ch2, ch2))"

definition fresh :: "double \<Rightarrow> MarketChannel \<Rightarrow> string \<Rightarrow> double \<Rightarrow> bool" where
  "fresh now ch token max_age_s = (case smap_get (mc_ts ch) token of None \<Rightarrow> False | Some t \<Rightarrow> now - t \<le> max_age_s)"

definition ws_updates :: "MarketChannel \<Rightarrow> string \<Rightarrow> int" where
  "ws_updates ch token = smap_at 0 (mc_updates ch) token"

definition is_live :: "double \<Rightarrow> MarketChannel \<Rightarrow> double \<Rightarrow> bool" where
  "is_live now ch max_silence_s \<longleftrightarrow> 0 < mc_last_recv ch \<and> now - mc_last_recv ch \<le> max_silence_s"

definition apply_rest_snapshot :: "mono_clock \<Rightarrow> string \<Rightarrow> json \<Rightarrow> MarketChannel \<Rightarrow> MarketChannel" where
  "apply_rest_snapshot clk token book ch =
     (let lv = levels_in book in
      if token = [] \<or> \<not> is_object book \<or> ml_bids lv = [] \<or> ml_asks lv = [] then ch
      else put_book clk token lv ch)"

text \<open>\<open>std::set<std::string>\<close> of the non-empty ids, in order\<close>

definition id_set :: "string list \<Rightarrow> string list" where
  "id_set ids = foldl (\<lambda>s t. insort_insert t s) [] (filter (\<lambda>t. t \<noteq> []) ids)"

definition set_tokens :: "string list \<Rightarrow> MarketChannel \<Rightarrow> MarketChannel" where
  "set_tokens ids ch =
     (let new_set = id_set ids;
          dropped = filter (\<lambda>t. t \<notin> set new_set) (map fst (mc_levels ch))
      in ch\<lparr>mc_subs := new_set, mc_levels := filter (\<lambda>(t, _). t \<in> set new_set) (mc_levels ch),
            mc_ts := filter (\<lambda>(t, _). t \<notin> set dropped) (mc_ts ch)\<rparr>)"

text \<open>\<open>subscribe_msg\<close>\<close>

definition market_subscribe :: "jlib \<Rightarrow> string list \<Rightarrow> string" where
  "market_subscribe jl tokens = jl_dump jl (JObj [(''assets_ids'', JArr (map JStr tokens)),
     (''custom_feature_enabled'', JBool True), (''type'', JStr ''market'')])"

section \<open>The user channel\<close>

record Creds =
  cr_api_key :: string
  cr_secret :: string
  cr_passphrase :: string

record UserChannel =
  uc_creds :: Creds
  uc_invert :: bool
  uc_queue :: "json list"
  uc_seen :: "string set"
  uc_fifo :: "string list"
  uc_markets :: "string list"

definition new_user :: "Creds \<Rightarrow> bool \<Rightarrow> UserChannel" where
  "new_user creds invert_side = \<lparr>uc_creds = creds, uc_invert = invert_side, uc_queue = [], uc_seen = {}, uc_fifo = [],
     uc_markets = []\<rparr>"

definition user_subscribe :: "jlib \<Rightarrow> Creds \<Rightarrow> string list \<Rightarrow> string" where
  "user_subscribe jl creds markets = jl_dump jl (JObj
     [(''auth'', JObj [(''apiKey'', JStr (cr_api_key creds)), (''passphrase'', JStr (cr_passphrase creds)),
                       (''secret'', JStr (cr_secret creds))]),
      (''markets'', JArr (map JStr markets)), (''type'', JStr ''user'')])"

definition seen_limit :: nat where "seen_limit = 5000"

text \<open>The bounded memory of trade ids, the oldest forgotten first (the runner keeps one of its own)\<close>

definition remember :: "string \<Rightarrow> string set \<times> string list \<Rightarrow> string set \<times> string list" where
  "remember tid = (\<lambda>(seen, fifo).
     let seen1 = insert tid seen; fifo1 = fifo @ [tid] in
     if seen_limit < length fifo1 then (seen1 - {hd fifo1}, tl fifo1) else (seen1, fifo1))"

definition fill_side :: "bool \<Rightarrow> string \<Rightarrow> string" where
  "fill_side invert side = (if invert then (if side = ''BUY'' then ''SELL'' else ''BUY'') else side)"

definition fill_row :: "jlib \<Rightarrow> bool \<Rightarrow> string \<Rightarrow> json \<Rightarrow> json" where
  "fill_row jl invert tid ev = JObj [(''id'', JStr tid), (''price'', JFloat (find_double ev ''price'' 0)),
     (''side'', JStr (fill_side invert (to_upper (find_str jl ev ''side'')))),
     (''size'', JFloat (find_double ev ''size'' 0)), (''token_id'', JStr (find_str jl ev ''asset_id''))]"

definition user_ev :: "jlib \<Rightarrow> json \<Rightarrow> UserChannel \<Rightarrow> UserChannel" where
  "user_ev jl ev ch =
     (let tid = find_str jl ev ''id'' in
      if \<not> is_object ev \<or> find_str jl ev ''event_type'' \<noteq> ''trade'' then ch
      else if tid \<noteq> [] \<and> tid \<in> uc_seen ch then ch
      else
        let (seen, fifo) = (if tid \<noteq> [] then remember tid (uc_seen ch, uc_fifo ch) else (uc_seen ch, uc_fifo ch))
        in ch\<lparr>uc_seen := seen, uc_fifo := fifo, uc_queue := uc_queue ch @ [fill_row jl (uc_invert ch) tid ev]\<rparr>)"

definition user_message :: "jlib \<Rightarrow> string \<Rightarrow> UserChannel \<Rightarrow> UserChannel" where
  "user_message jl raw ch =
     (case jl_parse jl raw of None \<Rightarrow> ch | Some data \<Rightarrow> foldl (\<lambda>c ev. user_ev jl ev c) ch (frame_events data))"

definition ws_poll_fills :: "UserChannel \<Rightarrow> json list \<times> UserChannel" where
  "ws_poll_fills ch = (uc_queue ch, ch\<lparr>uc_queue := []\<rparr>)"

definition set_markets :: "string list \<Rightarrow> UserChannel \<Rightarrow> UserChannel" where
  "set_markets ids ch = ch\<lparr>uc_markets := id_set ids\<rparr>"

section \<open>The reader thread\<close>

definition PING_INTERVAL_S :: double where "PING_INTERVAL_S = lit 10"

text \<open>What \<open>recv\<close> gives\<close>

datatype WsMessage = WsText string | WsTimeout | WsClosed

text \<open>
  Where the thread is: joined or never started, between two connections, in the inner loop with
  the set it last subscribed to, the time of its last ping and everything it sent on the
  connection, or past its loop.
\<close>

datatype reader = Absent | Between | Serving "string list" double "string list" | Finished

record 's rstate =
  rs_channel :: 's
  rs_stop :: bool
  rs_reader :: reader

text \<open>One round of the inner loop, from its tests to the handling of what was received\<close>

definition serve_round ::
  "(string list \<Rightarrow> string) \<Rightarrow> ('s \<Rightarrow> string list) \<Rightarrow> (string \<Rightarrow> 's \<Rightarrow> 's) \<Rightarrow> double \<Rightarrow> WsMessage \<Rightarrow> string list \<Rightarrow> double \<Rightarrow>
   string list \<Rightarrow> 's \<Rightarrow> reader \<times> 's" where
  "serve_round subscribe wanted handle now msg subscribed last_ping sent s =
     (let cur = wanted s in
      if cur = [] then (Between, s)
      else
        let sent1 = (if cur \<noteq> subscribed then sent @ [subscribe cur] else sent);
            ping = PING_INTERVAL_S \<le> now - last_ping;
            sent2 = (if ping then sent1 @ [''PING''] else sent1);
            next_round = Serving cur (if ping then now else last_ping) sent2
        in case msg of
             WsClosed \<Rightarrow> (Between, s)
           | WsText txt \<Rightarrow> (next_round, if txt = [] then s else handle txt s)
           | WsTimeout \<Rightarrow> (next_round, s))"

text \<open>
  The steps of the reader and of the threads that use the channel (\<open>other\<close> is a call of theirs);
  \<open>connect\<close> fails or succeeds as the network likes.  A step is what the reader does between two
  tests of its stop flag.
\<close>

inductive reader_step ::
  "(string list \<Rightarrow> string) \<Rightarrow> ('s \<Rightarrow> string list) \<Rightarrow> (string \<Rightarrow> 's \<Rightarrow> 's) \<Rightarrow> ('s \<Rightarrow> 's \<Rightarrow> bool) \<Rightarrow> 's rstate \<Rightarrow> 's rstate \<Rightarrow> bool"
  for subscribe wanted handle other where
  start: "rs_reader r = Absent \<Longrightarrow>
    reader_step subscribe wanted handle other r (r\<lparr>rs_stop := False, rs_reader := Between\<rparr>)"
| idle: "rs_reader r = Between \<Longrightarrow> \<not> rs_stop r \<Longrightarrow> wanted (rs_channel r) = [] \<Longrightarrow>
    reader_step subscribe wanted handle other r r"
| no_connection: "rs_reader r = Between \<Longrightarrow> \<not> rs_stop r \<Longrightarrow> wanted (rs_channel r) \<noteq> [] \<Longrightarrow>
    reader_step subscribe wanted handle other r r"
| connected: "rs_reader r = Between \<Longrightarrow> \<not> rs_stop r \<Longrightarrow> wanted (rs_channel r) = toks \<Longrightarrow> toks \<noteq> [] \<Longrightarrow>
    reader_step subscribe wanted handle other r (r\<lparr>rs_reader := Serving toks now [subscribe toks]\<rparr>)"
| round: "rs_reader r = Serving subscribed last_ping sent \<Longrightarrow> \<not> rs_stop r \<Longrightarrow>
    serve_round subscribe wanted handle now msg subscribed last_ping sent (rs_channel r) = (rd, s) \<Longrightarrow>
    reader_step subscribe wanted handle other r (r\<lparr>rs_reader := rd, rs_channel := s\<rparr>)"
| disconnect: "rs_reader r = Serving subscribed last_ping sent \<Longrightarrow> rs_stop r \<Longrightarrow>
    reader_step subscribe wanted handle other r (r\<lparr>rs_reader := Finished\<rparr>)"
| finish: "rs_reader r = Between \<Longrightarrow> rs_stop r \<Longrightarrow>
    reader_step subscribe wanted handle other r (r\<lparr>rs_reader := Finished\<rparr>)"
| stop: "reader_step subscribe wanted handle other r (r\<lparr>rs_stop := True\<rparr>)"
| join: "rs_reader r = Finished \<Longrightarrow> reader_step subscribe wanted handle other r (r\<lparr>rs_reader := Absent\<rparr>)"
| other: "other (rs_channel r) s \<Longrightarrow> reader_step subscribe wanted handle other r (r\<lparr>rs_channel := s\<rparr>)"

section \<open>Books stay sorted\<close>

definition dmap_ok :: "dmap \<Rightarrow> bool" where
  "dmap_ok m \<longleftrightarrow> sorted_wrt (<) (map fst m)"

lemma dmap_put_keys: "fst ` set (dmap_put k v m) \<subseteq> insert k (fst ` set m)"
  by (induction k v m rule: dmap_put.induct) auto

lemma dmap_put_ok: "dmap_ok m \<Longrightarrow> dmap_ok (dmap_put k v m)"
proof (induction k v m rule: dmap_put.induct)
  case (2 k v k' v' m)
  have *: "k' < x" if "k' < k" "x \<in> fst ` set (dmap_put k v m)" for x
    using "2.prems" that dmap_put_keys[of k v m] by (fastforce simp: dmap_ok_def)
  show ?case using 2 * by (auto simp: dmap_ok_def intro: less_trans_d)
qed (simp add: dmap_ok_def)

lemma dmap_erase_ok: "dmap_ok m \<Longrightarrow> dmap_ok (dmap_erase k m)"
  unfolding dmap_ok_def dmap_erase_def by (induction m) auto

lemma parse_levels_ok: "dmap_ok (parse_levels arr)"
proof -
  have "dmap_ok m \<Longrightarrow> dmap_ok (foldl (\<lambda>m l. dmap_put (f l) (g l) m) m ls)" for f g m and ls :: "json list"
    by (induction ls arbitrary: m) (auto simp: dmap_put_ok)
  then show ?thesis by (simp add: parse_levels_def dmap_ok_def)
qed

definition levels_ok :: "Levels \<Rightarrow> bool" where
  "levels_ok lv \<longleftrightarrow> dmap_ok (ml_bids lv) \<and> dmap_ok (ml_asks lv)"

lemma levels_in_ok: "levels_ok (levels_in ev)"
  by (auto simp: levels_ok_def levels_in_def found_levels_def parse_levels_ok dmap_ok_def[of "[]"] split: option.split)

lemma change_side_ok: "dmap_ok m \<Longrightarrow> dmap_ok (change_side p sz m)"
  by (simp add: change_side_def dmap_put_ok dmap_erase_ok)

definition mc_ok :: "MarketChannel \<Rightarrow> bool" where
  "mc_ok ch \<longleftrightarrow> smap_ok (mc_levels ch) \<and> map fst (mc_levels ch) = map fst (mc_ts ch) \<and>
     (\<forall>(t, lv) \<in> set (mc_levels ch). levels_ok lv)"

lemma smap_put_same_keys: "map fst m = map fst m' \<Longrightarrow> map fst (smap_put k v m) = map fst (smap_put k w m')"
proof (induction k v m arbitrary: m' rule: smap_put.induct)
  case (2 k v k' v' m)
  then show ?case by (cases m') auto
qed auto

lemma smap_put_set: "(t, x) \<in> set (smap_put k v m) \<Longrightarrow> (t, x) = (k, v) \<or> (t, x) \<in> set m"
  by (induction k v m rule: smap_put.induct) (auto split: if_splits)

lemma put_book_ok: "mc_ok ch \<Longrightarrow> levels_ok lv \<Longrightarrow> mc_ok (put_book clk token lv ch)"
  by (auto simp: mc_ok_def put_book_def stamp_def smap_ok_put smap_put_same_keys dest!: smap_put_set)

lemma book_at_ok: "mc_ok ch \<Longrightarrow> levels_ok (smap_at no_levels (mc_levels ch) token)"
  by (auto simp: mc_ok_def smap_at_def smap_get_mem levels_ok_def no_levels_def dmap_ok_def split: option.split)

lemma price_change_ok: "mc_ok (snd s) \<Longrightarrow> mc_ok (snd (price_change jl clk change s))"
  using book_at_ok by (cases s) (auto simp: price_change_def Let_def levels_ok_def intro!: put_book_ok change_side_ok)

lemma foldl_keeps: "(\<And>s x. P s \<Longrightarrow> P (f s x)) \<Longrightarrow> P s \<Longrightarrow> P (foldl f s xs)"
  by (induction xs arbitrary: s) auto

lemma handle_ev_ok: "mc_ok (snd s) \<Longrightarrow> mc_ok (snd (handle_ev jl clk ev s))"
proof (cases s)
  case (Pair touched ch)
  assume "mc_ok (snd s)"
  then have ch: "mc_ok ch" using Pair by simp
  have "mc_ok (snd (on_price_change jl clk ev ch))" unfolding on_price_change_def
    by (rule foldl_keeps[where P = "\<lambda>s. mc_ok (snd s)"]) (simp_all add: price_change_ok ch)
  moreover have "mc_ok (snd (on_book jl clk ev ch))"
    by (simp add: on_book_def Let_def put_book_ok levels_in_ok ch)
  ultimately show ?thesis using ch Pair by (auto simp: handle_ev_def Let_def split: prod.split)
qed

lemma handle_message_ok: "mc_ok ch \<Longrightarrow> mc_ok (snd (handle_message jl clk raw ch))"
proof -
  assume ch: "mc_ok ch"
  let ?ch0 = "ch\<lparr>mc_last_recv := clk (mc_reads ch), mc_reads := mc_reads ch + 1\<rparr>"
  have ch0: "mc_ok ?ch0" using ch by (simp add: mc_ok_def)
  then have ch0': "mc_ok (ch\<lparr>mc_last_recv := clk (mc_reads ch), mc_reads := Suc (mc_reads ch)\<rparr>)" by simp
  have "mc_ok (snd (foldl (\<lambda>s ev. handle_ev jl clk ev s) ({}, ?ch0) evs))" for evs
    by (rule foldl_keeps[where P = "\<lambda>s. mc_ok (snd s)"]) (simp_all add: handle_ev_ok ch0')
  moreover have "mc_ok (foldl (\<lambda>c t. count_update t c) c ts)" if "mc_ok c" for c ts
    by (rule foldl_keeps) (use that in \<open>simp_all add: mc_ok_def count_update_def\<close>)
  ultimately show ?thesis using ch0
    by (auto simp: handle_message_def Let_def split: option.split prod.split) (metis snd_conv)
qed

lemma smap_ok_filter: "smap_ok m \<Longrightarrow> smap_ok (filter P m)"
  unfolding smap_ok_def by (induction m) auto

lemma filter_same_keys: "map fst m = map fst m' \<Longrightarrow>
    map fst (filter (\<lambda>(t, _). P t) m) = map fst (filter (\<lambda>(t, _). P t) m')"
proof (induction m arbitrary: m')
  case (Cons x m)
  then show ?case by (cases m') (auto simp: case_prod_beta)
qed simp

lemma set_tokens_ok: "mc_ok ch \<Longrightarrow> mc_ok (set_tokens ids ch)"
proof -
  assume ch: "mc_ok ch"
  let ?new = "set (id_set ids)"
  have "fst x \<in> set (map fst (mc_levels ch))" if "x \<in> set (mc_ts ch)" for x
    using ch that by (auto simp: mc_ok_def)
  then have "filter (\<lambda>(t, _). t \<notin> set (filter (\<lambda>t. t \<notin> ?new) (map fst (mc_levels ch)))) (mc_ts ch) =
      filter (\<lambda>(t, _). t \<in> ?new) (mc_ts ch)"
    by (intro filter_cong) auto
  then have ts: "mc_ts (set_tokens ids ch) = filter (\<lambda>(t, _). t \<in> ?new) (mc_ts ch)"
    unfolding set_tokens_def Let_def by simp
  have lv: "mc_levels (set_tokens ids ch) = filter (\<lambda>(t, _). t \<in> ?new) (mc_levels ch)"
    by (simp add: set_tokens_def Let_def)
  show ?thesis using ch filter_same_keys[of "mc_levels ch" "mc_ts ch" "\<lambda>t. t \<in> ?new"]
    unfolding mc_ok_def ts lv by (auto simp: smap_ok_filter)
qed

text \<open>The calls of the other threads and of the reader on the market channel\<close>

inductive market_call :: "jlib \<Rightarrow> mono_clock \<Rightarrow> MarketChannel \<Rightarrow> MarketChannel \<Rightarrow> bool" for jl clk where
  call_message: "market_call jl clk ch (snd (handle_message jl clk raw ch))"
| call_snapshot: "market_call jl clk ch (apply_rest_snapshot clk token book ch)"
| call_tokens: "market_call jl clk ch (set_tokens ids ch)"
| call_callback: "market_call jl clk ch (set_price_callback ch)"

lemma market_call_ok: "market_call jl clk ch ch' \<Longrightarrow> mc_ok ch \<Longrightarrow> mc_ok ch'"
  by (induction rule: market_call.induct)
     (auto simp: handle_message_ok set_tokens_ok apply_rest_snapshot_def Let_def put_book_ok levels_in_ok,
      auto simp: mc_ok_def set_price_callback_def)

lemma market_calls_ok: "(market_call jl clk)\<^sup>*\<^sup>* new_market ch \<Longrightarrow> mc_ok ch"
  by (induction rule: rtranclp_induct) (auto simp: market_call_ok, simp add: mc_ok_def new_market_def)

section \<open>The midpoint and the book\<close>

definition price_list :: "OrderBookLevel list \<Rightarrow> double set" where
  "price_list ls = lv_price ` set ls"

lemma get_book_sides:
  assumes "get_book ch t = Some b" "smap_get (mc_levels ch) t = Some lv"
  shows "price_list (ob_bids b) = fst ` {x \<in> set (ml_bids lv). 0 < snd x}"
    "price_list (ob_asks b) = fst ` {x \<in> set (ml_asks lv). 0 < snd x}" "ml_bids lv \<noteq> []" "ml_asks lv \<noteq> []"
  using assms by (force simp: get_book_def Let_def price_list_def image_iff split: if_splits)+

lemma dmap_last: "dmap_ok (m @ [x]) \<Longrightarrow> y \<in> set m \<Longrightarrow> fst y < fst x"
  by (auto simp: dmap_ok_def sorted_wrt_append)

lemma dmap_extremes:
  assumes "dmap_ok m" "x \<in> set m"
  shows "\<not> fst (last m) < fst x" "\<not> fst x < fst (hd m)"
proof -
  obtain y ys where "m = y # ys" using assms(2) by (cases m) auto
  then show "\<not> fst x < fst (hd m)" using assms less_trans_d[of "fst x" "fst y" "fst x"] by (auto simp: dmap_ok_def)
  obtain zs z where "m = zs @ [z]" using assms(2) by (cases m rule: rev_cases) auto
  then show "\<not> fst (last m) < fst x" using assms dmap_last[of zs z x] less_trans_d[of "fst x" "fst z" "fst x"] by auto
qed

text \<open>
  Whatever messages, snapshots and subscription changes the market channel has seen, its
  midpoint lies between the highest stored bid and the lowest stored ask; and when no stored level
  is empty these are the best prices of the book \<open>get_book\<close> gives out at the same moment.
\<close>

theorem ws_midpoint_of_book:
  assumes "(market_call jl clk)\<^sup>*\<^sup>* new_market ch"
    and "get_book ch t = Some b" "smap_get (mc_levels ch) t = Some lv"
  shows "\<exists>bid ask. ws_midpoint ch t = (bid + ask) / lit 2 \<and>
    (\<forall>x \<in> set (ml_bids lv). \<not> bid < fst x) \<and> (\<forall>x \<in> set (ml_asks lv). \<not> fst x < ask) \<and>
    (list_all (\<lambda>x. 0 < snd x) (ml_bids lv @ ml_asks lv) \<longrightarrow>
       bid \<in> price_list (ob_bids b) \<and> ask \<in> price_list (ob_asks b))"
proof -
  have ok: "levels_ok lv"
    using market_calls_ok[OF assms(1)] assms(3) by (auto simp: mc_ok_def smap_get_mem)
  note sides = get_book_sides[OF assms(2,3)]
  let ?bid = "fst (last (ml_bids lv))" and ?ask = "fst (hd (ml_asks lv))"
  have "ws_midpoint ch t = (?bid + ?ask) / lit 2" using assms(3) sides(3,4) by (simp add: ws_midpoint_def)
  moreover have "\<forall>x \<in> set (ml_bids lv). \<not> ?bid < fst x" "\<forall>x \<in> set (ml_asks lv). \<not> fst x < ?ask"
    using ok dmap_extremes by (auto simp: levels_ok_def)
  moreover have "?bid \<in> price_list (ob_bids b) \<and> ?ask \<in> price_list (ob_asks b)"
    if "list_all (\<lambda>x. 0 < snd x) (ml_bids lv @ ml_asks lv)"
    using that sides by (auto simp: list_all_iff)
  ultimately show ?thesis by blast
qed

definition level_doc :: "double \<Rightarrow> double \<Rightarrow> json" where
  "level_doc p sz = JObj [(''price'', JFloat p), (''size'', JFloat sz)]"

definition book_doc :: "json list \<Rightarrow> json list \<Rightarrow> json" where
  "book_doc bids asks = JObj [(''asks'', JArr asks), (''bids'', JArr bids)]"

definition demo_channel :: MarketChannel where
  "demo_channel = apply_rest_snapshot (\<lambda>_. 1) ''11''
     (book_doc [level_doc (Fin (1 / 4)) 1] [level_doc (Fin (3 / 4)) 1]) new_market"

lemma demo_channel_levels: "mc_levels demo_channel = [(''11'', \<lparr>ml_bids = [(Fin (1 / 4), 1)], ml_asks = [(Fin (3 / 4), 1)]\<rparr>)]"
  by (simp add: demo_channel_def apply_rest_snapshot_def Let_def levels_in_def found_levels_def parse_levels_def book_doc_def
      level_doc_def jfind_def jfind2_def not_null_def find_double_def elements_def is_object_def put_book_def stamp_def
      new_market_def)

lemma ws_midpoint_of_book_witness:
  "\<exists>bid ask. ws_midpoint demo_channel ''11'' = (bid + ask) / lit 2 \<and> bid \<in> {Fin (1 / 4)} \<and> ask \<in> {Fin (3 / 4)}"
proof -
  have calls: "(market_call jl (\<lambda>_. 1))\<^sup>*\<^sup>* new_market demo_channel" for jl
    unfolding demo_channel_def by (rule r_into_rtranclp) (rule call_snapshot)
  have pos: "(0::double) < 1" by code_simp
  have "get_book demo_channel ''11'' = Some \<lparr>ob_bids = [\<lparr>lv_price = Fin (1 / 4), lv_size = 1\<rparr>],
      ob_asks = [\<lparr>lv_price = Fin (3 / 4), lv_size = 1\<rparr>]\<rparr>"
    by (simp add: get_book_def demo_channel_levels smap_get_def Let_def pos)
  from ws_midpoint_of_book[OF calls this, of "\<lparr>ml_bids = [(Fin (1 / 4), 1)], ml_asks = [(Fin (3 / 4), 1)]\<rparr>"]
  show ?thesis by (auto simp: demo_channel_levels smap_get_def pos price_list_def)
qed

text \<open>
  A level of size zero in a snapshot is stored (only a price change removes one): \<open>get_book\<close> leaves
  it out, but it still moves the midpoint, which is then computed from a bid at which nobody buys
  and lies above the one of the book given out.
\<close>

theorem empty_level_moves_midpoint:
  assumes "mc_ok ch" "get_book ch t = Some b" "smap_get (mc_levels ch) t = Some lv"
    and "ml_bids lv = bs @ [(p, s)]" "\<not> 0 < s" "ml_asks lv = (q, s') # as"
  shows "ws_midpoint ch t = (p + q) / lit 2 \<and> (\<forall>bid \<in> price_list (ob_bids b). bid < p)"
proof -
  have "levels_ok lv" using assms(1,3) by (auto simp: mc_ok_def smap_get_mem)
  then have "fst x < p" if "x \<in> set bs" for x using assms(4) dmap_last[of bs "(p, s)" x] that by (auto simp: levels_ok_def)
  then show ?thesis using get_book_sides[OF assms(2,3)] assms(3-6) by (auto simp: ws_midpoint_def)
qed

definition ghost_channel :: MarketChannel where
  "ghost_channel = apply_rest_snapshot (\<lambda>_. 1) ''11''
     (book_doc [level_doc (Fin (1 / 4)) 1, level_doc (Fin (1 / 2)) 0] [level_doc (Fin (3 / 4)) 1]) new_market"

lemma empty_level_moves_midpoint_witness:
  "ws_midpoint ghost_channel ''11'' = (Fin (1 / 2) + Fin (3 / 4)) / lit 2 \<and>
   get_book ghost_channel ''11'' = Some \<lparr>ob_bids = [\<lparr>lv_price = Fin (1 / 4), lv_size = 1\<rparr>],
     ob_asks = [\<lparr>lv_price = Fin (3 / 4), lv_size = 1\<rparr>]\<rparr>"
proof -
  have pos: "(0::double) < 1" by code_simp
  have cmp: "Fin (1 / 4) < Fin (1 / 2)" "\<not> Fin (1 / 2) < Fin (1 / 4)" by code_simp+
  let ?lv = "\<lparr>ml_bids = [(Fin (1 / 4), 1)] @ [(Fin (1 / 2), 0)], ml_asks = [(Fin (3 / 4), 1)]\<rparr>"
  have lv: "mc_levels ghost_channel = [(''11'', ?lv)]"
    by (simp add: ghost_channel_def apply_rest_snapshot_def Let_def levels_in_def found_levels_def parse_levels_def book_doc_def
      level_doc_def jfind_def jfind2_def not_null_def find_double_def elements_def is_object_def put_book_def stamp_def
      new_market_def cmp)
  have ok: "mc_ok ghost_channel"
    unfolding ghost_channel_def by (rule market_call_ok[OF call_snapshot]) (simp add: mc_ok_def new_market_def)
  have b: "get_book ghost_channel ''11'' = Some \<lparr>ob_bids = [\<lparr>lv_price = Fin (1 / 4), lv_size = 1\<rparr>],
      ob_asks = [\<lparr>lv_price = Fin (3 / 4), lv_size = 1\<rparr>]\<rparr>"
    by (simp add: get_book_def lv smap_get_def Let_def pos)
  show ?thesis using empty_level_moves_midpoint[OF ok b, of ?lv "[(Fin (1 / 4), 1)]" "Fin (1 / 2)" 0 "Fin (3 / 4)" 1 "[]"] b
    by (simp add: lv smap_get_def)
qed

section \<open>Fills are queued once\<close>

definition fill_id :: "json \<Rightarrow> string" where
  "fill_id r = (case jget r ''id'' of Some (JStr s) \<Rightarrow> s | _ \<Rightarrow> [])"

definition named_ids :: "json list \<Rightarrow> string list" where
  "named_ids rows = filter (\<lambda>i. i \<noteq> []) (map fill_id rows)"

definition last_ids :: "string list \<Rightarrow> string list" where
  "last_ids h = drop (length h - seen_limit) h"

text \<open>The memory holds the last \<open>seen_limit\<close> of the ids queued so far, and no id came back sooner.\<close>

definition once_each :: "string list \<Rightarrow> bool" where
  "once_each h \<longleftrightarrow> (\<forall>i j. i < j \<and> j < length h \<and> h ! i = h ! j \<longrightarrow> seen_limit < j - i)"

definition memory_ok :: "string list \<Rightarrow> string set \<times> string list \<Rightarrow> bool" where
  "memory_ok h m \<longleftrightarrow> snd m = last_ids h \<and> fst m = set (last_ids h) \<and> once_each h"

lemma once_each_snoc:
  assumes "once_each h" "tid \<notin> set (last_ids h)" shows "once_each (h @ [tid])"
  unfolding once_each_def
proof (intro allI impI)
  fix i j assume ij: "i < j \<and> j < length (h @ [tid]) \<and> (h @ [tid]) ! i = (h @ [tid]) ! j"
  show "seen_limit < j - i"
  proof (cases "j < length h")
    case True
    then show ?thesis using assms(1) ij by (auto simp: once_each_def nth_append)
  next
    case False
    then have j: "j = length h" "h ! i = tid" "i < length h" using ij by (auto simp: nth_append)
    have "h ! i \<in> set (last_ids h)" if "length h - seen_limit \<le> i"
      unfolding last_ids_def using that j(3) nth_mem[of "i - (length h - seen_limit)" "drop (length h - seen_limit) h"] by auto
    then show ?thesis using assms(2) j by fastforce
  qed
qed

lemma once_each_distinct: "once_each h \<Longrightarrow> distinct (last_ids h)"
  unfolding distinct_conv_nth
proof (intro allI impI)
  fix i j assume h: "once_each h" and ij: "i < length (last_ids h)" "j < length (last_ids h)" "i \<noteq> j"
  let ?d = "length h - seen_limit"
  have *: False if "i < j" "j < length (last_ids h)" "last_ids h ! i = last_ids h ! j" for i j
  proof -
    have "?d + i < ?d + j" "?d + j < length h" "h ! (?d + i) = h ! (?d + j)"
      using that by (auto simp: last_ids_def)
    then have "seen_limit < (?d + j) - (?d + i)" using h unfolding once_each_def by blast
    then show False using that(2) by (auto simp: last_ids_def)
  qed
  show "last_ids h ! i \<noteq> last_ids h ! j" using *[of i j] *[of j i] ij by (cases "i < j") auto
qed

lemma remember_ok:
  assumes "memory_ok h m" "tid \<notin> fst m" shows "memory_ok (h @ [tid]) (remember tid m)"
proof -
  obtain seen fifo where m: "m = (seen, fifo)" by (cases m)
  have f: "fifo = last_ids h" "seen = set fifo" and o': "once_each (h @ [tid])"
    using assms m once_each_snoc by (auto simp: memory_ok_def)
  have d: "distinct (fifo @ [tid])" using once_each_distinct assms m f by (auto simp: memory_ok_def)
  show ?thesis
  proof (cases "seen_limit < length (fifo @ [tid])")
    case True
    then have long: "seen_limit \<le> length h" by (auto simp: f last_ids_def)
    have pos: "0 < seen_limit" by (simp add: seen_limit_def)
    have "fifo \<noteq> []" using long pos by (auto simp: f last_ids_def)
    then have "tl (fifo @ [tid]) = drop (Suc (length h - seen_limit)) h @ [tid]"
      by (simp add: f(1) last_ids_def drop_Suc tl_drop)
    then have "tl (fifo @ [tid]) = last_ids (h @ [tid])"
      using long pos by (simp add: last_ids_def Suc_diff_le)
    moreover have "insert tid seen - {hd (fifo @ [tid])} = set (tl (fifo @ [tid]))"
      using d f(2) by (cases fifo) auto
    ultimately show ?thesis using o' True m by (simp add: memory_ok_def remember_def Let_def)
  next
    case False
    then have "length h < seen_limit" unfolding f(1) last_ids_def by (auto split: if_splits)
    then have "last_ids (h @ [tid]) = fifo @ [tid]" by (simp add: f(1) last_ids_def)
    then show ?thesis using o' False m f by (simp add: memory_ok_def remember_def Let_def)
  qed
qed

lemma fill_row_id [simp]: "fill_id (fill_row jl invert tid ev) = tid"
  by (simp add: fill_id_def fill_row_def jget_def)

lemma named_ids_append [simp]: "named_ids (rows @ rows') = named_ids rows @ named_ids rows'"
  by (simp add: named_ids_def)

definition user_memory :: "json list \<Rightarrow> UserChannel \<Rightarrow> bool" where
  "user_memory polled ch \<longleftrightarrow> memory_ok (named_ids (polled @ uc_queue ch)) (uc_seen ch, uc_fifo ch)"

lemma user_ev_memory: "user_memory polled ch \<Longrightarrow> user_memory polled (user_ev jl ev ch)"
proof -
  assume m: "user_memory polled ch"
  let ?tid = "find_str jl ev ''id''"
  have "memory_ok (named_ids (polled @ uc_queue ch) @ [?tid]) (remember ?tid (uc_seen ch, uc_fifo ch))" if "?tid \<notin> uc_seen ch"
    using remember_ok[OF m[unfolded user_memory_def], of ?tid] that by simp
  then show ?thesis using m
    by (auto simp: user_ev_def Let_def user_memory_def split: prod.split) (auto simp: named_ids_def)
qed

lemma user_message_memory: "user_memory polled ch \<Longrightarrow> user_memory polled (user_message jl raw ch)"
  by (auto simp: user_message_def split: option.split intro!: foldl_keeps[where P = "user_memory polled"] user_ev_memory)

text \<open>The calls on the user channel, with everything that was ever polled from it\<close>

inductive user_call :: "jlib \<Rightarrow> UserChannel \<times> json list \<Rightarrow> UserChannel \<times> json list \<Rightarrow> bool" for jl where
  user_frame: "user_call jl (ch, polled) (user_message jl raw ch, polled)"
| user_poll: "user_call jl (ch, polled) (snd (ws_poll_fills ch), polled @ fst (ws_poll_fills ch))"
| user_markets: "user_call jl (ch, polled) (set_markets ids ch, polled)"

inductive_cases user_callE: "user_call jl (ch, polled) s"

text \<open>
  C35: however often the server repeats a trade, its fill is queued once: among all fills ever handed
  out or still queued, two with the same trade id are more than \<open>seen_limit\<close> fills with an id
  apart, and within that distance every id is remembered.
\<close>

theorem fills_queued_once:
  assumes "(user_call jl)\<^sup>*\<^sup>* (new_user creds invert, []) (ch, polled)"
  shows "once_each (named_ids (polled @ uc_queue ch)) \<and> uc_seen ch = set (last_ids (named_ids (polled @ uc_queue ch))) \<and>
    length (uc_fifo ch) \<le> seen_limit"
proof -
  have "user_memory polled ch" using assms
  proof (induction "(ch, polled)" arbitrary: ch polled rule: rtranclp_induct)
    case base
    then show ?case by (simp add: user_memory_def memory_ok_def new_user_def named_ids_def last_ids_def once_each_def)
  next
    case (step s)
    obtain ch1 polled1 where s: "s = (ch1, polled1)" by (cases s)
    have "user_memory polled1 ch1" using step(3)[OF s] .
    then show ?case using step(2) unfolding s
      by (auto elim!: user_callE intro: user_message_memory)
         (auto simp: user_memory_def ws_poll_fills_def set_markets_def)
  qed
  then show ?thesis by (auto simp: user_memory_def memory_ok_def last_ids_def)
qed

definition demo_jl :: jlib where
  "demo_jl = \<lparr>jl_parse = (\<lambda>_. Some (JObj [(''asset_id'', JStr ''11''), (''event_type'', JStr ''trade''), (''id'', JStr ''t1''),
     (''price'', JStr ''0.5''), (''side'', JStr ''BUY''), (''size'', JStr ''10'')])), jl_dump = (\<lambda>_. [])\<rparr>"

lemma fills_queued_once_witness:
  "let ch = user_message demo_jl ''x'' (user_message demo_jl ''x'' (new_user \<lparr>cr_api_key = [], cr_secret = [], cr_passphrase = []\<rparr> True))
   in once_each (named_ids (uc_queue ch)) \<and> length (uc_queue ch) = 1 \<and> uc_seen ch = {''t1''}"
proof -
  let ?new = "new_user \<lparr>cr_api_key = [], cr_secret = [], cr_passphrase = []\<rparr> True"
  let ?one = "user_message demo_jl ''x'' ?new" and ?two = "user_message demo_jl ''x'' (user_message demo_jl ''x'' ?new)"
  have calls: "(user_call demo_jl)\<^sup>*\<^sup>* (?new, []) (?two, [])"
    by (meson user_frame rtranclp.intros)
  have eq: "?two = ?one"
    by (simp add: user_message_def demo_jl_def frame_events_def user_ev_def Let_def find_str_def jfind_def jfind2_def
        not_null_def is_object_def new_user_def remember_def seen_limit_def split: prod.split)
  have rows: "named_ids (uc_queue ?one) = [''t1'']" "length (uc_queue ?one) = 1"
    by (simp_all add: user_message_def demo_jl_def frame_events_def user_ev_def Let_def find_str_def jfind_def jfind2_def
        not_null_def is_object_def new_user_def remember_def seen_limit_def named_ids_def split: prod.split)
  show ?thesis using fills_queued_once[OF calls] rows eq by (auto simp: Let_def last_ids_def seen_limit_def)
qed

section \<open>The reader keeps its subscription\<close>

text \<open>The last subscription sent on the connection is the one in force.\<close>

definition in_force :: "(string list \<Rightarrow> string) \<Rightarrow> string list \<Rightarrow> string list \<Rightarrow> bool" where
  "in_force subscribe subscribed sent \<longleftrightarrow> subscribed \<noteq> [] \<and>
     (\<exists>pre post. sent = pre @ subscribe subscribed # post \<and> set post \<subseteq> {''PING''})"

definition reader_ok :: "(string list \<Rightarrow> string) \<Rightarrow> reader \<Rightarrow> bool" where
  "reader_ok subscribe rd = (case rd of Serving subscribed _ sent \<Rightarrow> in_force subscribe subscribed sent | _ \<Rightarrow> True)"

lemma in_force_ping: "in_force subscribe toks sent \<Longrightarrow> in_force subscribe toks (sent @ [''PING''])"
proof -
  assume "in_force subscribe toks sent"
  then obtain pre post where "toks \<noteq> []" "sent = pre @ subscribe toks # post" "set post \<subseteq> {''PING''}"
    by (auto simp: in_force_def)
  then show ?thesis unfolding in_force_def by (intro conjI exI[of _ pre] exI[of _ "post @ [''PING'']"]) auto
qed

lemma in_force_new: "toks \<noteq> [] \<Longrightarrow> in_force subscribe toks (sent @ [subscribe toks])"
  unfolding in_force_def by (intro conjI exI[of _ sent] exI[of _ "[]"]) auto

lemma serve_round_ok:
  assumes "serve_round subscribe wanted handle now msg subscribed last_ping sent s = (rd, s')" "in_force subscribe subscribed sent"
  shows "reader_ok subscribe rd \<and> (\<forall>toks lp log. rd = Serving toks lp log \<longrightarrow> toks = wanted s)"
proof -
  have "in_force subscribe (wanted s) (if wanted s \<noteq> subscribed then sent @ [subscribe (wanted s)] else sent)" if "wanted s \<noteq> []"
    using that assms(2) in_force_new by auto
  note f = this this[THEN in_force_ping]
  then show ?thesis using assms(1)
    by (auto simp: serve_round_def Let_def reader_ok_def split: if_splits WsMessage.splits)
qed

inductive_cases reader_stepE: "reader_step subscribe wanted handle other r r'"

lemma reader_step_ok:
  "reader_step subscribe wanted handle other r r' \<Longrightarrow> reader_ok subscribe (rs_reader r) \<Longrightarrow> reader_ok subscribe (rs_reader r')"
proof (induction rule: reader_step.induct)
  case (connected r toks now)
  then show ?case using in_force_new[of toks subscribe "[]"] by (simp add: reader_ok_def)
next
  case (round r subscribed last_ping sent now msg rd s)
  then show ?case using serve_round_ok by (fastforce simp: reader_ok_def)
qed (simp_all add: reader_ok_def)

text \<open>
  While a channel's reader is in its inner loop, the last subscription message it sent on the
  connection names exactly the set it believes to be subscribed, and that set is never empty;
  after a round it is the set the channel wanted at the round's start; and once the stop flag is
  set, the reader sends nothing more and can only leave the loop.
\<close>

theorem reader_subscription:
  assumes "(reader_step subscribe wanted handle other)\<^sup>*\<^sup>* \<lparr>rs_channel = s, rs_stop = b, rs_reader = Absent\<rparr> r"
    and "rs_reader r = Serving subscribed last_ping sent"
  shows "in_force subscribe subscribed sent \<and>
    (\<forall>now msg toks lp log s'. serve_round subscribe wanted handle now msg subscribed last_ping sent (rs_channel r) =
       (Serving toks lp log, s') \<longrightarrow> toks = wanted (rs_channel r)) \<and>
    (\<forall>r'. rs_stop r \<and> reader_step subscribe wanted handle other r r' \<longrightarrow> rs_reader r' \<in> {rs_reader r, Finished})"
proof -
  have "reader_ok subscribe (rs_reader r)" using assms(1)
  proof (induction rule: rtranclp_induct)
    case base
    show ?case by (simp add: reader_ok_def)
  next
    case (step r1 r2)
    show ?case by (rule reader_step_ok[OF step(2,3)])
  qed
  then have f: "in_force subscribe subscribed sent" using assms(2) by (simp add: reader_ok_def)
  have "rs_reader r' \<in> {rs_reader r, Finished}" if "rs_stop r" "reader_step subscribe wanted handle other r r'" for r'
    using that assms(2) by (elim reader_stepE) simp_all
  moreover have "toks = wanted (rs_channel r)"
    if "serve_round subscribe wanted handle now msg subscribed last_ping sent (rs_channel r) = (Serving toks lp log, s')"
    for now msg toks lp log s' using serve_round_ok[OF that f] by simp
  ultimately show ?thesis using f by (intro conjI allI impI) simp_all
qed

text \<open>The market channel's reader on a set of one token\<close>

definition market_reader :: "jlib \<Rightarrow> mono_clock \<Rightarrow> MarketChannel rstate \<Rightarrow> MarketChannel rstate \<Rightarrow> bool" where
  "market_reader jl clk = reader_step (market_subscribe jl) mc_subs (\<lambda>txt s. snd (handle_message jl clk txt s)) (market_call jl clk)"

definition user_reader :: "jlib \<Rightarrow> UserChannel rstate \<Rightarrow> UserChannel rstate \<Rightarrow> bool" where
  "user_reader jl r = reader_step (user_subscribe jl (uc_creds (rs_channel r))) uc_markets (user_message jl)
     (\<lambda>c c'. \<exists>p p'. user_call jl (c, p) (c', p')) r"

lemma reader_subscription_witness:
  "\<exists>r. (market_reader demo_jl (\<lambda>_. 1))\<^sup>*\<^sup>* \<lparr>rs_channel = set_tokens [''11''] new_market, rs_stop = False, rs_reader = Absent\<rparr> r \<and>
     rs_reader r = Serving [''11''] 0 [market_subscribe demo_jl [''11'']] \<and>
     in_force (market_subscribe demo_jl) [''11''] [market_subscribe demo_jl [''11'']]"
proof -
  let ?s = "set_tokens [''11''] new_market"
  let ?r0 = "\<lparr>rs_channel = ?s, rs_stop = False, rs_reader = Absent\<rparr>"
  let ?r1 = "\<lparr>rs_channel = ?s, rs_stop = False, rs_reader = Between\<rparr>"
  let ?r2 = "\<lparr>rs_channel = ?s, rs_stop = False, rs_reader = Serving [''11''] 0 [market_subscribe demo_jl [''11'']]\<rparr>"
  have w: "mc_subs ?s = [''11'']" by (simp add: set_tokens_def id_set_def Let_def insort_insert_key_def)
  have "market_reader demo_jl (\<lambda>_. 1) ?r0 ?r1"
    unfolding market_reader_def using reader_step.start[of ?r0] by simp
  moreover have "market_reader demo_jl (\<lambda>_. 1) ?r1 ?r2"
    unfolding market_reader_def using reader_step.connected[of ?r1 mc_subs "[''11'']"] w by simp
  ultimately have steps: "(market_reader demo_jl (\<lambda>_. 1))\<^sup>*\<^sup>* ?r0 ?r2" by (meson rtranclp.intros)
  have "in_force (market_subscribe demo_jl) [''11''] [market_subscribe demo_jl [''11'']]"
    using reader_subscription[OF steps[unfolded market_reader_def]] by simp
  with steps show ?thesis by (intro exI[of _ ?r2]) simp
qed

end
