(* ===== verification/Portfolio.thy ===== *)
theory Portfolio
  imports Rewards "HOL-Library.While_Combinator" "HOL-Library.Sublist"
begin

text \<open>
  Choosing and funding the pools (\<open>portfolio.cpp\<close>): the filters on the scanned reports, the
  risk-adjusted score, the quality floor, the tests for correlated markets, and the two ways of
  funding: greedily in proportion to the score, or by water-filling, whose loop is a
  \<open>while_option\<close> (\<open>None\<close> if it does not end; \<open>waterfill_returns\<close> shows that it does).
\<close>

section \<open>Words of a question\<close>

definition stopwords :: "string set" where
  "stopwords = {''will'', ''the'', ''be'', ''in'', ''on'', ''at'', ''a'', ''an'', ''of'', ''to'',
     ''and'', ''or'', ''by'', ''win'', ''wins'', ''won'', ''most'', ''next'', ''for'', ''vs'',
     ''end'', ''up'', ''down'', ''above'', ''below'', ''before'', ''after'', ''into'', ''out'', ''as'',
     ''is'', ''are'', ''reach'', ''hit'', ''with'', ''who'', ''what'', ''when'', ''which'', ''than'',
     ''then'', ''over'', ''under'', ''between''}"

definition cluster_rules :: "(string \<times> string list) list" where
  "cluster_rules =
     [(''us-fed'', [''fed'', ''fomc'', ''federal reserve'']),
      (''romania'', [''romania'', ''grindeanu'', ''bolojan'', ''ciolacu'']),
      (''colombia'', [''colombia'', ''petro'']),
      (''israel'', [''israel'', ''netanyahu'', ''knesset'', ''eizenkot'', ''bennett'']),
      (''france'', [''france'', ''french'', ''bardella'', ''macron'', ''philippe'', ''melenchon'']),
      (''ecb'', [''ecb'', ''european central bank'', ''lagarde'']),
      (''boe'', [''bank of england'', ''boe''])]"

definition all_digits :: "string \<Rightarrow> bool" where
  "all_digits s \<longleftrightarrow> s \<noteq> [] \<and> list_all is_digit s"

definition significant_word :: "string \<Rightarrow> bool" where
  "significant_word cur \<longleftrightarrow> 2 < length cur \<and> \<not> all_digits cur \<and> cur \<notin> stopwords"

definition flush_word :: "string \<Rightarrow> string set \<Rightarrow> string set" where
  "flush_word cur out = (if significant_word cur then insert cur out else out)"

definition word_char :: "char \<Rightarrow> bool" where
  "word_char c \<longleftrightarrow> in_range (CHR ''a'') c (CHR ''z'') \<or> in_range (CHR ''0'') c (CHR ''9'')"

fun scan_words :: "string \<Rightarrow> string \<Rightarrow> string set \<Rightarrow> string set" where
  "scan_words [] cur out = flush_word cur out"
| "scan_words (c # s) cur out =
     (if word_char c then scan_words s (cur @ [c]) out else scan_words s [] (flush_word cur out))"

definition significant_tokens :: "string \<Rightarrow> string set" where
  "significant_tokens question = scan_words (to_lower question) [] {}"

text \<open>The empty string when no rule matches\<close>

definition cluster_key :: "string \<Rightarrow> string" where
  "cluster_key question =
     (let q = to_lower question in
      case find (\<lambda>(name, keywords). list_ex (\<lambda>kw. contains kw q) keywords) cluster_rules of
        None \<Rightarrow> [] | Some (name, _) \<Rightarrow> name)"

section \<open>Scores and sizes\<close>

record SelectedPool =
  sp_question :: string
  sp_condition_id :: string
  sp_token :: string
  sp_daily :: double
  sp_share :: double
  sp_min_size :: double
  sp_size :: double
  sp_tick :: double
  sp_max_spread_c :: double
  sp_half_spread_c :: double
  sp_committed_capital :: double
  sp_est_daily_reward :: double
  sp_risk_adj_score :: double

record SelectParams =
  se_capital :: double
  se_require_safe :: bool
  se_half_spread_ticks :: int
  se_risk_tolerance_days :: double
  se_chop_aversion :: double
  se_max_token_overlap :: int
  se_size_share_cap :: double
  se_loss_budget :: double
  se_quality_floor_frac :: double
  se_max_pool_frac :: double
  se_waterfill :: bool
  se_reward_calib :: double
  se_max_competitiveness :: double
  se_extreme_mid_margin :: double
  se_pool_whitelist :: "string set"
  se_cooldown :: "string set"

definition opt_d :: "double option \<Rightarrow> double \<Rightarrow> double" where
  "opt_d x d = (case x of None \<Rightarrow> d | Some v \<Rightarrow> v)"

definition deploy_size :: "PoolReport \<Rightarrow> double \<Rightarrow> double \<Rightarrow> double \<Rightarrow> double \<Rightarrow> double" where
  "deploy_size p half_spread_c target_cap share_cap loss_budget =
     (let min_size = pr_min_size p;
          per_share = committed_capital min_size half_spread_c / min_size;
          cap_capital = (if 0 < per_share then target_cap / per_share else min_size);
          w = maker_quote_score 1 half_spread_c (pr_max_spread_c p);
          comp = pr_min_side_score p;
          cap_share = (if 0 < w \<and> 0 < share_cap \<and> share_cap < 1
                       then share_cap / (1 - share_cap) * comp / w else cap_capital);
          mj = opt_d (pr_max_jump_c p) 0 / lit 100;
          cap_risk = (if 0 < mj then loss_budget / mj else cap_capital)
      in cmax min_size (cmin (cmin cap_capital cap_share) cap_risk))"

definition risk_adjusted_score :: "PoolReport \<Rightarrow> double \<Rightarrow> double \<Rightarrow> double" where
  "risk_adjusted_score p risk_tolerance_days chop_aversion =
     (let days_wiped = opt_d (pr_days_wiped p) (lit 9999);
          jump_disc = 1 + days_wiped / risk_tolerance_days;
          vol = opt_d (pr_daily_vol_c p) 0;
          band = pr_max_spread_c p;
          chop_disc = 1 + chop_aversion * (if 0 < band then vol / band else 0)
      in pr_reward_per_day p / (jump_disc * chop_disc))"

section \<open>Candidates\<close>

definition extreme_mid :: "double \<Rightarrow> double \<Rightarrow> bool" where
  "extreme_mid margin mid \<longleftrightarrow> 0 < margin \<and> 0 < mid \<and> (mid < margin \<or> 1 - margin < mid)"

definition eligible :: "SelectParams \<Rightarrow> PoolReport \<Rightarrow> bool" where
  "eligible ps p \<longleftrightarrow>
     \<not> (pr_condition_id p \<in> se_cooldown ps \<or> pr_token p \<in> se_cooldown ps) \<and>
     (se_pool_whitelist ps = {} \<or> pr_condition_id p \<in> se_pool_whitelist ps) \<and>
     \<not> pr_empty_band p \<and>
     \<not> extreme_mid (se_extreme_mid_margin ps) (pr_mid p) \<and>
     (se_pool_whitelist ps = {} \<longrightarrow>
        \<not> (se_require_safe ps \<and> pr_jump_verdict p \<noteq> ''SAFE'') \<and>
        \<not> (0 < se_max_competitiveness ps \<and> 0 \<le> pr_competitiveness p \<and>
           se_max_competitiveness ps < pr_competitiveness p))"

definition score_before :: "PoolReport \<times> double \<Rightarrow> PoolReport \<times> double \<Rightarrow> bool" where
  "score_before a b \<longleftrightarrow> snd b < snd a"

definition scored_pools :: "SelectParams \<Rightarrow> PoolReport list \<Rightarrow> (PoolReport \<times> double) list" where
  "scored_pools ps pools = sort_by score_before
     (map (\<lambda>p. (p, risk_adjusted_score p (se_risk_tolerance_days ps) (se_chop_aversion ps))) (filter (eligible ps) pools))"

definition quality_cutoff :: "SelectParams \<Rightarrow> (PoolReport \<times> double) list \<Rightarrow> double" where
  "quality_cutoff ps scored =
     (let best = (case scored of [] \<Rightarrow> 0 | x # _ \<Rightarrow> snd x)
      in if 0 < se_quality_floor_frac ps then se_quality_floor_frac ps * best else 0)"

definition elig_pools :: "SelectParams \<Rightarrow> PoolReport list \<Rightarrow> (PoolReport \<times> double) list" where
  "elig_pools ps pools =
     (let scored = scored_pools ps pools; cutoff = quality_cutoff ps scored
      in filter (\<lambda>(p, score). cutoff \<le> score) scored)"

definition total_score :: "(PoolReport \<times> double) list \<Rightarrow> double" where
  "total_score elig = (let s = foldl (\<lambda>a x. a + snd x) 0 elig in if deq s 0 then 1 else s)"

section \<open>Correlated markets\<close>

text \<open>The words and clusters of the pools taken so far\<close>

definition overlaps :: "int \<Rightarrow> string set list \<Rightarrow> string set \<Rightarrow> bool" where
  "overlaps max_overlap chosen_tokens toks \<longleftrightarrow> list_ex (\<lambda>ct. max_overlap < int (card (toks \<inter> ct))) chosen_tokens"

definition clustered :: "string set \<Rightarrow> string \<Rightarrow> bool" where
  "clustered chosen_clusters cluster \<longleftrightarrow> cluster \<noteq> [] \<and> cluster \<in> chosen_clusters"

definition add_cluster :: "string \<Rightarrow> string set \<Rightarrow> string set" where
  "add_cluster cluster s = (if cluster \<noteq> [] then insert cluster s else s)"

definition pool_half_spread :: "SelectParams \<Rightarrow> PoolReport \<Rightarrow> double" where
  "pool_half_spread ps p = pr_tick p * lit 100 * of_i (se_half_spread_ticks ps)"

definition selected_pool :: "PoolReport \<Rightarrow> double \<Rightarrow> double \<Rightarrow> double \<Rightarrow> double \<Rightarrow> double \<Rightarrow> SelectedPool" where
  "selected_pool p half_spread_c share sz cap score =
     \<lparr>sp_question = pr_question p, sp_condition_id = pr_condition_id p, sp_token = pr_token p, sp_daily = pr_daily p,
      sp_share = round_to share 4, sp_min_size = pr_min_size p, sp_size = round_to sz 2, sp_tick = pr_tick p,
      sp_max_spread_c = pr_max_spread_c p, sp_half_spread_c = half_spread_c, sp_committed_capital = round_to cap 2,
      sp_est_daily_reward = round_to (share * pr_daily p) 4, sp_risk_adj_score = round_to score 4\<rparr>"

section \<open>Greedy funding\<close>

record Greedy =
  gr_selected :: "SelectedPool list"
  gr_taken :: "(PoolReport \<times> double) list"
  gr_tokens :: "string set list"
  gr_clusters :: "string set"
  gr_spent :: double

definition no_greedy :: Greedy where
  "no_greedy = \<lparr>gr_selected = [], gr_taken = [], gr_tokens = [], gr_clusters = {}, gr_spent = 0\<rparr>"

definition greedy_size :: "SelectParams \<Rightarrow> double \<Rightarrow> PoolReport \<times> double \<Rightarrow> double" where
  "greedy_size ps tot = (\<lambda>(p, score).
     let weight = score / tot;
         target = cmin (se_max_pool_frac ps * se_capital ps) (se_capital ps * weight);
         rp = (if 0 < se_loss_budget ps then se_loss_budget ps * weight else 0)
     in deploy_size p (pool_half_spread ps p) target (se_size_share_cap ps) rp)"

definition greedy_step :: "SelectParams \<Rightarrow> double \<Rightarrow> PoolReport \<times> double \<Rightarrow> Greedy \<Rightarrow> Greedy" where
  "greedy_step ps tot x g =
     (let p = fst x; hs = pool_half_spread ps p; sz = greedy_size ps tot x;
          share = maker_reward_share sz hs (pr_max_spread_c p) (pr_min_side_score p);
          cap = committed_capital sz hs; cluster = cluster_key (pr_question p);
          toks = significant_tokens (pr_question p)
      in if cap \<le> 0 \<or> se_capital ps < gr_spent g + cap then g
         else if clustered (gr_clusters g) cluster then g
         else if toks \<noteq> {} \<and> overlaps (se_max_token_overlap ps) (gr_tokens g) toks then g
         else \<lparr>gr_selected = gr_selected g @ [selected_pool p hs share sz cap (snd x)], gr_taken = gr_taken g @ [(p, cap)],
               gr_tokens = gr_tokens g @ [toks], gr_clusters = add_cluster cluster (gr_clusters g),
               gr_spent = gr_spent g + cap\<rparr>)"

definition greedy :: "SelectParams \<Rightarrow> (PoolReport \<times> double) list \<Rightarrow> Greedy" where
  "greedy ps elig = foldl (\<lambda>g x. greedy_step ps (total_score elig) x g) no_greedy elig"

section \<open>Water-filling\<close>

record WF =
  wf_pool :: PoolReport
  wf_hs :: double
  wf_per_share :: double
  wf_size :: double
  wf_cap :: double
  wf_max_size :: double
  wf_score :: double

record Choice =
  ch_pools :: "WF list"
  ch_tokens :: "string set list"
  ch_clusters :: "string set"
  ch_spent :: double

definition no_choice :: Choice where
  "no_choice = \<lparr>ch_pools = [], ch_tokens = [], ch_clusters = {}, ch_spent = 0\<rparr>"

text \<open>4a. In the order of the scores, each at its minimal size\<close>

definition choose_step :: "SelectParams \<Rightarrow> nat \<Rightarrow> PoolReport \<times> double \<Rightarrow> Choice \<Rightarrow> Choice" where
  "choose_step ps n x c =
     (let p = fst x; hs = pool_half_spread ps p; min_cap = committed_capital (pr_min_size p) hs;
          per_share = min_cap / pr_min_size p; cluster = cluster_key (pr_question p);
          toks = significant_tokens (pr_question p);
          rp = (if 0 < se_loss_budget ps then se_loss_budget ps / of_i (int n) else lit (10 ^ 18));
          max_size = cmax (deploy_size p hs (se_capital ps) (se_size_share_cap ps) rp) (pr_min_size p)
      in if min_cap \<le> 0 \<or> se_capital ps < ch_spent c + min_cap then c
         else if clustered (ch_clusters c) cluster then c
         else if overlaps (se_max_token_overlap ps) (ch_tokens c) toks then c
         else \<lparr>ch_pools = ch_pools c @ [\<lparr>wf_pool = p, wf_hs = hs, wf_per_share = per_share, wf_size = pr_min_size p,
                 wf_cap = min_cap, wf_max_size = max_size, wf_score = snd x\<rparr>],
               ch_tokens = ch_tokens c @ [toks], ch_clusters = add_cluster cluster (ch_clusters c),
               ch_spent = ch_spent c + min_cap\<rparr>)"

definition choose_pools :: "SelectParams \<Rightarrow> (PoolReport \<times> double) list \<Rightarrow> Choice" where
  "choose_pools ps elig = foldl (\<lambda>c x. choose_step ps (length elig) x c) no_choice elig"

definition wf_share :: "double \<Rightarrow> WF \<Rightarrow> double \<Rightarrow> double" where
  "wf_share infl a sz = maker_reward_share sz (wf_hs a) (pr_max_spread_c (wf_pool a)) (pr_min_side_score (wf_pool a) * infl)"

definition wf_dsize :: "double \<Rightarrow> WF \<Rightarrow> double" where
  "wf_dsize chunk a = cmin (chunk / wf_per_share a) (wf_max_size a - wf_size a)"

definition nano :: double where "nano = lit (1 / 10 ^ 9)"

text \<open>The gain of the next chunk per dollar\<close>

definition marg :: "double \<Rightarrow> double \<Rightarrow> WF \<Rightarrow> double" where
  "marg infl chunk a =
     (if wf_max_size a - nano \<le> wf_size a \<or> wf_per_share a \<le> nano then 0
      else
        let dsize = wf_dsize chunk a; s0 = wf_share infl a (wf_size a); s1 = wf_share infl a (wf_size a + dsize)
        in (s1 - s0) * pr_daily (wf_pool a) / (dsize * wf_per_share a))"

text \<open>The first pool with the largest positive gain\<close>

fun best_gain :: "('a \<Rightarrow> double) \<Rightarrow> 'a list \<Rightarrow> nat \<Rightarrow> nat option \<times> double \<Rightarrow> nat option \<times> double" where
  "best_gain f [] i b = b"
| "best_gain f (a # as) i b = best_gain f as (i + 1) (if snd b < f a then (Some i, f a) else b)"

definition best_index :: "double \<Rightarrow> double \<Rightarrow> WF list \<Rightarrow> nat option" where
  "best_index infl chunk wfs = fst (best_gain (marg infl chunk) wfs 0 (None, 0))"

definition wf_dcap :: "double \<Rightarrow> WF \<Rightarrow> double" where
  "wf_dcap chunk a = wf_dsize chunk a * wf_per_share a"

text \<open>The test of the loop, with its two breaks\<close>

definition wf_goes_on :: "SelectParams \<Rightarrow> double \<Rightarrow> double \<Rightarrow> WF list \<times> double \<Rightarrow> bool" where
  "wf_goes_on ps infl chunk = (\<lambda>(wfs, spent). chunk < se_capital ps - spent \<and> wfs \<noteq> [] \<and>
     (case best_index infl chunk wfs of None \<Rightarrow> False | Some i \<Rightarrow> \<not> wf_dcap chunk (wfs ! i) \<le> nano))"

definition wf_round :: "double \<Rightarrow> double \<Rightarrow> WF list \<times> double \<Rightarrow> WF list \<times> double" where
  "wf_round infl chunk = (\<lambda>(wfs, spent). case best_index infl chunk wfs of
       None \<Rightarrow> (wfs, spent)
     | Some i \<Rightarrow> let a = wfs ! i; dsize = wf_dsize chunk a; dcap = wf_dcap chunk a in
         (wfs[i := a\<lparr>wf_size := wf_size a + dsize, wf_cap := wf_cap a + dcap\<rparr>], spent + dcap))"

definition waterfill :: "SelectParams \<Rightarrow> double \<Rightarrow> double \<Rightarrow> WF list \<times> double \<Rightarrow> (WF list \<times> double) option" where
  "waterfill ps infl chunk = while_option (wf_goes_on ps infl chunk) (wf_round infl chunk)"

definition wf_infl :: "SelectParams \<Rightarrow> double" where
  "wf_infl ps = 1 / cmax (se_reward_calib ps) (lit (1 / 10 ^ 6))"

definition wf_chunk :: "SelectParams \<Rightarrow> double" where
  "wf_chunk ps = cmax 1 (se_capital ps * lit (5 / 1000))"

definition wf_selected :: "double \<Rightarrow> WF \<Rightarrow> SelectedPool" where
  "wf_selected infl a =
     selected_pool (wf_pool a) (wf_hs a) (wf_share infl a (wf_size a)) (wf_size a) (wf_cap a) (wf_score a)"

text \<open>\<open>None\<close>: the water-filling loop does not end\<close>

definition select_pools :: "PoolReport list \<Rightarrow> SelectParams \<Rightarrow> SelectedPool list option" where
  "select_pools pools ps =
     (let elig = elig_pools ps pools in
      if se_waterfill ps
      then
        let c = choose_pools ps elig in
        map_option (\<lambda>(wfs, _). map (wf_selected (wf_infl ps)) wfs)
          (waterfill ps (wf_infl ps) (wf_chunk ps) (ch_pools c, ch_spent c))
      else Some (gr_selected (greedy ps elig)))"

section \<open>The water-filling loop ends\<close>

text \<open>There are finitely many doubles, and every round makes one size strictly larger.\<close>

lemma finite_doubles: "finite {d. isD d}"
proof -
  have grid: "\<exists>k. q = of_int k / 2 ^ 1074 \<and> \<bar>k\<bar> \<le> 2 ^ 2098" if "isD (Fin q)" for q
  proof (cases "q = 0")
    case False
    have q: "q = of_int (rne (q / ulp q)) * ulp q" using that False by (simp add: rnd_def)
    define m where "m = nat (expo q + 1022)"
    have "- 1022 \<le> expo q" by (simp add: expo_def)
    then have "expo q = int m - 1022" by (simp add: m_def)
    then have "ulp q = 2 powi (int m - 1074)" by (simp add: ulp_def)
    also have "\<dots> = 2 ^ m / 2 ^ 1074" by (simp add: power_int_diff)
    finally have u: "ulp q = 2 ^ m / 2 ^ 1074" .
    have "q = of_int (rne (q / ulp q)) * (2 ^ m / 2 ^ 1074)" using q unfolding u .
    then have k: "q = of_int (rne (q / ulp q) * 2 ^ m) / 2 ^ 1074"
      by (simp only: of_int_mult of_int_power of_int_numeral times_divide_eq_right u)
    let ?k = "rne (q / ulp q) * 2 ^ m"
    have "\<bar>q\<bar> < 2 ^ 1024" using that by simp
    then have "\<bar>of_int ?k\<bar> < (2 ^ 1024 * 2 ^ 1074 :: rat)" using k by (simp add: abs_divide divide_less_eq)
    then have "of_int \<bar>?k\<bar> < (of_int (2 ^ 2098) :: rat)" by (simp flip: power_add)
    then have "\<bar>?k\<bar> < 2 ^ 2098" by (simp only: of_int_less_iff)
    then show ?thesis using k by (intro exI[of _ ?k]) simp
  qed (intro exI[of _ 0], simp)
  have "{d. isD d} \<subseteq> (\<lambda>k. Fin (of_int k / 2 ^ 1074)) ` {- (2 ^ 2098) .. 2 ^ 2098} \<union> {PInf, NInf, NaN}"
  proof
    fix d assume "d \<in> {d. isD d}"
    then show "d \<in> (\<lambda>k. Fin (of_int k / 2 ^ 1074)) ` {- (2 ^ 2098) .. 2 ^ 2098} \<union> {PInf, NInf, NaN}"
      using grid by (cases d) (fastforce simp: abs_le_iff simp del: power_numeral)+
  qed
  then show ?thesis by (rule finite_subset) simp
qed

definition proper_size :: "double \<Rightarrow> bool" where
  "proper_size x \<longleftrightarrow> isD x \<and> x \<noteq> NaN \<and> x \<noteq> NInf"

lemma no_gain: "\<not> 0 < (x - x) * (y::double) / z"
  by (cases x; cases y; cases z)
     (auto simp: minus_double_def plus_double_def times_double_def divide_double_def sinf_def less_double_def zero_double_def
       fl_def rnd_def)

lemma gain_grows:
  assumes "0 < marg infl chunk a" "proper_size (wf_size a)" "isD (wf_max_size a)" "0 \<le> chunk" "finite_d chunk"
  shows "wf_size a < wf_size a + wf_dsize chunk a \<and> proper_size (wf_size a + wf_dsize chunk a)"
proof -
  let ?sz = "wf_size a" and ?ds = "wf_dsize chunk a" and ?ps = "wf_per_share a"
  have room: "\<not> wf_max_size a - nano \<le> ?sz" and share: "\<not> ?ps \<le> nano" and
    gain: "0 < (wf_share infl a (?sz + ?ds) - wf_share infl a ?sz) * pr_daily (wf_pool a) / (?ds * ?ps)"
    using assms(1) by (auto simp: marg_def Let_def split: if_splits)
  have "?ds * ?ps \<noteq> NaN" using gain by (auto simp: divide_double_def less_double_def split: double.splits)
  then have nn: "?ds \<noteq> NaN" "?ps \<noteq> NaN" by (auto simp: times_double_def split: double.splits)
  have nano: "nano \<noteq> NaN" "0 \<le> nano" by code_simp+
  then have "nano < ?ps" using share nn(2) not_le_d[of ?ps nano] by simp
  then have "0 < ?ps" using nano(2) le_less_trans_d by blast
  then have q: "0 \<le> chunk / ?ps" using div_nonneg_d[OF assms(4) _ assms(5)] by simp
  have d: "isD ?ds" using assms(2,3) by (simp add: wf_dsize_def proper_size_def)
  have "0 \<le> ?ds"
  proof (cases "wf_max_size a - ?sz < chunk / ?ps")
    case True
    then have ds: "?ds = wf_max_size a - ?sz" by (simp add: wf_dsize_def cmin_def)
    have sz: "?sz \<noteq> NaN" "?sz \<noteq> NInf" using assms(2) by (auto simp: proper_size_def)
    have mx: "wf_max_size a \<noteq> NaN" using nn(1) ds by (auto simp: minus_double_def plus_double_def)
    have fin: "finite_d nano" by code_simp
    then obtain n where n: "nano = Fin n" by (cases nano) auto
    have "wf_max_size a - nano \<noteq> NaN" using mx unfolding n
      by (cases "wf_max_size a") (auto simp: minus_double_def plus_double_def fl_def Let_def)
    then have "?sz < wf_max_size a - nano" using room sz(1) not_le_d by blast
    moreover have "wf_max_size a - nano \<le> wf_max_size a"
    proof (cases "finite_d (wf_max_size a)")
      case True
      then show ?thesis using sub_le_d[OF assms(3) _ nano(2)] by simp
    next
      case False
      then show ?thesis using mx unfolding n
        by (cases "wf_max_size a") (auto simp: minus_double_def plus_double_def)
    qed
    ultimately have less: "?sz < wf_max_size a" using less_le_trans_d by blast
    then have "finite_d ?sz" using sz by (cases ?sz; cases "wf_max_size a") (auto simp: less_double_def)
    then show ?thesis using sub_nonneg_d[OF less_le_d[OF less]] ds by simp
  qed (use q in \<open>simp add: wf_dsize_def cmin_def\<close>)
  then have le: "?sz \<le> ?sz + ?ds" using assms(2) add_ge_d by (simp add: proper_size_def)
  have "?sz + ?ds \<noteq> ?sz" using gain no_gain by metis
  then have "?sz < ?sz + ?ds" using le le_antisym_d by (auto simp: less_double_def)
  moreover have "isD (?sz + ?ds)" using d assms(2) by (simp add: proper_size_def)
  ultimately show ?thesis using le assms(2)
    by (cases ?sz; cases "?sz + ?ds") (auto simp: proper_size_def less_double_def)
qed

lemma best_gain_found:
  "best_gain f xs n b = (r, m) \<Longrightarrow> r = fst b \<and> m = snd b \<or> (\<exists>k < length xs. r = Some (n + k) \<and> snd b < f (xs ! k))"
proof (induction xs arbitrary: n b)
  case (Cons a as)
  let ?b = "if snd b < f a then (Some n, f a) else b"
  from Cons.IH[of "n + 1" ?b] Cons.prems
  have "r = fst ?b \<and> m = snd ?b \<or> (\<exists>k < length as. r = Some (n + 1 + k) \<and> snd ?b < f (as ! k))" by simp
  then show ?case
  proof (elim disjE exE conjE)
    fix k assume k: "k < length as" "r = Some (n + 1 + k)" "snd ?b < f (as ! k)"
    then have "snd b < f (as ! k)" by (auto split: if_splits intro: less_trans_d)
    then show ?thesis using k by (intro disjI2 exI[of _ "Suc k"]) simp
  qed (auto split: if_splits)
qed simp

lemma best_index_found:
  assumes "best_index infl chunk wfs = Some i" shows "i < length wfs \<and> 0 < marg infl chunk (wfs ! i)"
proof -
  obtain r m where b: "best_gain (marg infl chunk) wfs 0 (None, 0) = (r, m)" by fastforce
  then have "r = Some i" using assms by (simp add: best_index_def)
  then show ?thesis using best_gain_found[OF b] by auto
qed

definition bigger :: "double \<Rightarrow> nat" where
  "bigger x = card {d. isD d \<and> x < d}"

lemma bigger_less: "x < y \<Longrightarrow> isD y \<Longrightarrow> bigger y < bigger x"
  unfolding bigger_def
proof (rule psubset_card_mono)
  show "finite {d. isD d \<and> x < d}" using finite_doubles by (rule rev_finite_subset) auto
  assume xy: "x < y" "isD y"
  then have "y \<in> {d. isD d \<and> x < d}" "y \<notin> {d. isD d \<and> y < d}" by auto
  then show "{d. isD d \<and> y < d} \<subset> {d. isD d \<and> x < d}" using xy less_trans_d by blast
qed

text \<open>Everything but the size and the capital of a pool stays, and the size only grows.\<close>

definition wf_grown :: "WF \<Rightarrow> WF \<Rightarrow> bool" where
  "wf_grown a b \<longleftrightarrow> b = a\<lparr>wf_size := wf_size b, wf_cap := wf_cap b\<rparr> \<and> (wf_size b = wf_size a \<or> wf_size a < wf_size b)"

lemma wf_grown_refl: "wf_grown a a"
  by (simp add: wf_grown_def)

lemma wf_grown_trans:
  assumes "wf_grown a b" "wf_grown b c" shows "wf_grown a c"
proof -
  have "c = b\<lparr>wf_size := wf_size c, wf_cap := wf_cap c\<rparr>" "b = a\<lparr>wf_size := wf_size b, wf_cap := wf_cap b\<rparr>"
    using assms by (auto simp: wf_grown_def)
  then have "c = a\<lparr>wf_size := wf_size c, wf_cap := wf_cap c\<rparr>" by (cases a; cases b; cases c) simp
  then show ?thesis using assms by (auto simp: wf_grown_def intro: less_trans_d)
qed

definition wf_sizes_ok :: "WF list \<Rightarrow> bool" where
  "wf_sizes_ok wfs \<longleftrightarrow> list_all (\<lambda>a. proper_size (wf_size a) \<and> isD (wf_max_size a)) wfs"

lemma wf_round_grows:
  assumes go: "wf_goes_on ps infl chunk (wfs, spent)" and ok: "wf_sizes_ok wfs" and chunk: "0 \<le> chunk"
    and r: "wf_round infl chunk (wfs, spent) = (wfs', spent')"
  shows "wf_sizes_ok wfs' \<and> list_all2 wf_grown wfs wfs' \<and>
    sum_list (map (\<lambda>a. bigger (wf_size a)) wfs') < sum_list (map (\<lambda>a. bigger (wf_size a)) wfs)"
proof -
  obtain i where i: "best_index infl chunk wfs = Some i" and c: "chunk < se_capital ps - spent"
    using go by (auto simp: wf_goes_on_def split: option.splits)
  note b = best_index_found[OF i]
  let ?a = "wfs ! i"
  let ?b = "?a\<lparr>wf_size := wf_size ?a + wf_dsize chunk ?a, wf_cap := wf_cap ?a + wf_dcap chunk ?a\<rparr>"
  have w: "wfs' = wfs[i := ?b]" using r i by (simp add: wf_round_def Let_def)
  have fin: "finite_d chunk" using c chunk by (cases chunk; cases "se_capital ps - spent") (auto simp: less_double_def zero_double_def)
  have "proper_size (wf_size ?a) \<and> isD (wf_max_size ?a)" using ok b by (simp add: wf_sizes_ok_def list_all_length)
  then have g: "wf_size ?a < wf_size ?b" "proper_size (wf_size ?b)" using gain_grows[OF conjunct2[OF b] _ _ chunk fin] by auto
  then have "bigger (wf_size ?b) < bigger (wf_size ?a)" using bigger_less by (simp add: proper_size_def)
  moreover have "bigger (wf_size ?a) \<le> sum_list (map (\<lambda>a. bigger (wf_size a)) wfs)"
    using b by (intro member_le_sum_list) auto
  ultimately have "sum_list (map (\<lambda>a. bigger (wf_size a)) wfs') < sum_list (map (\<lambda>a. bigger (wf_size a)) wfs)"
    using b by (simp add: w map_update sum_list_update)
  moreover have "wf_sizes_ok wfs'" using ok g(2) b
    by (auto simp: w wf_sizes_ok_def list_all_length nth_list_update)
  moreover have "wf_grown ?a ?b" using g(1) by (simp add: wf_grown_def)
  then have "list_all2 wf_grown wfs wfs'"
    unfolding w using b by (simp add: list_all2_conv_all_nth nth_list_update wf_grown_refl)
  ultimately show ?thesis by blast
qed

lemma wf_chunk_nonneg: "0 \<le> wf_chunk ps"
proof -
  have "(0::double) \<le> 1" by code_simp
  then show ?thesis by (auto simp: wf_chunk_def cmax_def less_double_def intro: le_trans_d)
qed

lemma waterfill_returns:
  assumes ok: "wf_sizes_ok wfs" and chunk: "0 \<le> chunk"
  shows "\<exists>wfs' spent'. waterfill ps infl chunk (wfs, spent) = Some (wfs', spent') \<and> list_all2 wf_grown wfs wfs' \<and>
    \<not> wf_goes_on ps infl chunk (wfs', spent')"
proof -
  define P where "P = (\<lambda>s::WF list \<times> double. wf_sizes_ok (fst s) \<and> list_all2 wf_grown wfs (fst s))"
  define m where "m = (\<lambda>s::WF list \<times> double. sum_list (map (\<lambda>a. bigger (wf_size a)) (fst s)))"
  have step: "P (wf_round infl chunk s) \<and> m (wf_round infl chunk s) < m s" if "P s" "wf_goes_on ps infl chunk s" for s
  proof (cases s)
    case (Pair ws c)
    obtain ws' c' where r: "wf_round infl chunk (ws, c) = (ws', c')" by fastforce
    have p: "wf_sizes_ok ws" "list_all2 wf_grown wfs ws" using that(1) Pair by (auto simp: P_def)
    have g: "wf_goes_on ps infl chunk (ws, c)" using that(2) Pair by simp
    note w = wf_round_grows[OF g p(1) chunk r]
    have "list_all2 wf_grown wfs ws'"
      by (rule list_all2_trans[OF _ p(2) conjunct1[OF conjunct2[OF w]]]) (rule wf_grown_trans)
    then show ?thesis using w by (simp add: Pair r P_def m_def)
  qed
  have start: "P (wfs, spent)" using ok by (simp add: P_def list_all2_refl wf_grown_refl)
  obtain s where s: "waterfill ps infl chunk (wfs, spent) = Some s"
    using measure_while_option_Some[of P "wf_goes_on ps infl chunk" "wf_round infl chunk" m, OF step start]
    unfolding waterfill_def by blast
  have "P s"
    by (rule while_option_rule[of P "wf_goes_on ps infl chunk" "wf_round infl chunk", OF _ s[unfolded waterfill_def] start])
       (use step in blast)
  moreover have "\<not> wf_goes_on ps infl chunk s" by (rule while_option_stop[OF s[unfolded waterfill_def]])
  ultimately show ?thesis using s by (cases s) (auto simp: P_def)
qed

section \<open>What is selected\<close>

text \<open>Two markets that may be funded together: neither in one cluster nor sharing too many words\<close>

definition apart :: "int \<Rightarrow> string \<Rightarrow> string \<Rightarrow> bool" where
  "apart max_overlap p q \<longleftrightarrow>
     (cluster_key q = [] \<or> cluster_key p \<noteq> cluster_key q) \<and>
     (significant_tokens q = {} \<or> int (card (significant_tokens q \<inter> significant_tokens p)) \<le> max_overlap)"

definition all_apart :: "int \<Rightarrow> PoolReport list \<Rightarrow> bool" where
  "all_apart max_overlap taken = sorted_wrt (\<lambda>p q. apart max_overlap (pr_question p) (pr_question q)) taken"

definition books_of :: "PoolReport list \<Rightarrow> string set list" where
  "books_of taken = map (\<lambda>p. significant_tokens (pr_question p)) taken"

definition clusters_of :: "PoolReport list \<Rightarrow> string set" where
  "clusters_of taken = set (map (\<lambda>p. cluster_key (pr_question p)) taken) - {[]}"

lemma taken_apart:
  assumes "all_apart m taken" "\<not> clustered (clusters_of taken) (cluster_key (pr_question p))"
    and "significant_tokens (pr_question p) = {} \<or> \<not> overlaps m (books_of taken) (significant_tokens (pr_question p))"
  shows "all_apart m (taken @ [p])"
proof -
  let ?q = "pr_question p"
  have "cluster_key ?q = [] \<or> cluster_key (pr_question r) \<noteq> cluster_key ?q" if "r \<in> set taken" for r
    using assms(2) that by (fastforce simp: clustered_def clusters_of_def image_iff)
  moreover have "significant_tokens ?q = {} \<or>
      int (card (significant_tokens ?q \<inter> significant_tokens (pr_question r))) \<le> m" if "r \<in> set taken" for r
    using assms(3) that by (auto simp: overlaps_def books_of_def list_ex_iff not_less)
  ultimately show ?thesis using assms(1) by (simp add: all_apart_def apart_def sorted_wrt_append)
qed

lemma clusters_of_snoc: "clusters_of (taken @ [p]) = add_cluster (cluster_key (pr_question p)) (clusters_of taken)"
  by (auto simp: clusters_of_def add_cluster_def)

lemma books_of_snoc: "books_of (taken @ [p]) = books_of taken @ [significant_tokens (pr_question p)]"
  by (simp add: books_of_def)

text \<open>The entry that stands for a report\<close>

definition stands_for :: "PoolReport \<Rightarrow> SelectedPool \<Rightarrow> bool" where
  "stands_for p x \<longleftrightarrow> sp_condition_id x = pr_condition_id p \<and> sp_token x = pr_token p \<and> sp_question x = pr_question p \<and>
     sp_daily x = pr_daily p \<and> sp_min_size x = pr_min_size p \<and> sp_tick x = pr_tick p \<and> sp_max_spread_c x = pr_max_spread_c p"

lemma stands_for_selected [simp]: "stands_for p (selected_pool p hs share sz cap score)"
  by (simp add: stands_for_def selected_pool_def)

definition running_sum :: "double list \<Rightarrow> double" where
  "running_sum caps = foldl (+) 0 caps"

definition within_budget :: "double \<Rightarrow> double list \<Rightarrow> bool" where
  "within_budget capital caps \<longleftrightarrow> (\<forall>n \<in> {1..length caps}. \<not> capital < running_sum (take n caps)) \<and> list_all (\<lambda>c. \<not> c \<le> 0) caps"

lemma within_budget_snoc:
  assumes "within_budget capital caps" "\<not> c \<le> 0" "\<not> capital < running_sum caps + c"
  shows "within_budget capital (caps @ [c])"
proof -
  have "\<not> capital < running_sum (take n (caps @ [c]))" if "n \<in> {1..length caps + 1}" for n
  proof (cases "n = length caps + 1")
    case True
    then show ?thesis using assms(3) by (simp add: running_sum_def)
  next
    case False
    then have "n \<in> {1..length caps}" using that by auto
    then show ?thesis using assms(1) by (simp add: within_budget_def)
  qed
  then show ?thesis using assms(1,2) by (simp add: within_budget_def)
qed

lemma running_sum_snoc: "running_sum (caps @ [c]) = running_sum caps + c"
  by (simp add: running_sum_def)

lemma subseq_snoc: "subseq ys xs \<Longrightarrow> subseq (ys @ [x]) (xs @ [x])" and subseq_skip: "subseq ys xs \<Longrightarrow> subseq ys (xs @ [x])"
  using list_emb_append_mono[of "(=)" ys xs "[x]" "[x]"] list_emb_append2[of "(=)" ys xs "[x]"]
  by (auto intro: subseq_order.trans)

definition greedy_ok :: "SelectParams \<Rightarrow> (PoolReport \<times> double) list \<Rightarrow> Greedy \<Rightarrow> bool" where
  "greedy_ok ps xs g \<longleftrightarrow>
     subseq (map fst (gr_taken g)) (map fst xs) \<and> list_all2 stands_for (map fst (gr_taken g)) (gr_selected g) \<and>
     all_apart (se_max_token_overlap ps) (map fst (gr_taken g)) \<and>
     gr_tokens g = books_of (map fst (gr_taken g)) \<and> gr_clusters g = clusters_of (map fst (gr_taken g)) \<and>
     gr_spent g = running_sum (map snd (gr_taken g)) \<and> within_budget (se_capital ps) (map snd (gr_taken g))"

lemma greedy_step_ok:
  assumes "greedy_ok ps xs g" shows "greedy_ok ps (xs @ [x]) (greedy_step ps tot x g)"
proof (cases "greedy_step ps tot x g = g")
  case True
  then show ?thesis using assms by (simp add: greedy_ok_def subseq_skip)
next
  case False
  then show ?thesis using assms
    by (auto simp: greedy_step_def greedy_ok_def Let_def subseq_snoc taken_apart clusters_of_snoc books_of_snoc
        within_budget_snoc running_sum_snoc list_all2_appendI split: if_splits)
qed

lemma greedy_sound: "greedy_ok ps xs (foldl (\<lambda>g x. greedy_step ps tot x g) no_greedy xs)"
proof (induction xs rule: rev_induct)
  case Nil
  show ?case by (simp add: greedy_ok_def no_greedy_def all_apart_def books_of_def clusters_of_def running_sum_def within_budget_def)
qed (simp add: greedy_step_ok)

definition min_caps :: "SelectParams \<Rightarrow> PoolReport list \<Rightarrow> double list" where
  "min_caps ps taken = map (\<lambda>p. committed_capital (pr_min_size p) (pool_half_spread ps p)) taken"

definition choice_ok :: "SelectParams \<Rightarrow> (PoolReport \<times> double) list \<Rightarrow> Choice \<Rightarrow> bool" where
  "choice_ok ps xs c \<longleftrightarrow> (let taken = map wf_pool (ch_pools c) in
     subseq taken (map fst xs) \<and> all_apart (se_max_token_overlap ps) taken \<and>
     ch_tokens c = books_of taken \<and> ch_clusters c = clusters_of taken \<and>
     ch_spent c = running_sum (min_caps ps taken) \<and> within_budget (se_capital ps) (min_caps ps taken) \<and>
     list_all (\<lambda>a. wf_size a = pr_min_size (wf_pool a) \<and> wf_cap a = committed_capital (wf_size a) (pool_half_spread ps (wf_pool a)) \<and>
       (isD (pr_min_size (wf_pool a)) \<longrightarrow> isD (wf_max_size a))) (ch_pools c))"

lemma choose_step_ok:
  assumes "choice_ok ps xs c" shows "choice_ok ps (xs @ [x]) (choose_step ps n x c)"
proof (cases "choose_step ps n x c = c")
  case True
  then show ?thesis using assms by (simp add: choice_ok_def subseq_skip Let_def)
next
  case False
  then show ?thesis using assms
    by (auto simp: choose_step_def choice_ok_def Let_def subseq_snoc taken_apart clusters_of_snoc books_of_snoc
        within_budget_snoc running_sum_snoc min_caps_def deploy_size_def split: if_splits)
qed

lemma choose_sound: "choice_ok ps xs (foldl (\<lambda>c x. choose_step ps n x c) no_choice xs)"
proof (induction xs rule: rev_induct)
  case Nil
  show ?case by (simp add: choice_ok_def no_choice_def all_apart_def books_of_def clusters_of_def running_sum_def within_budget_def
      min_caps_def)
qed (simp add: choose_step_ok)

lemma select_pools_ok:
  assumes sizes: "\<forall>p \<in> set pools. proper_size (pr_min_size p)"
  shows "\<exists>sel taken caps. select_pools pools ps = Some sel \<and> list_all2 stands_for taken sel \<and>
    subseq taken (map fst (elig_pools ps pools)) \<and>
    (\<forall>p \<in> set taken. p \<in> set pools \<and> eligible ps p \<and> quality_cutoff ps (scored_pools ps pools)
        \<le> risk_adjusted_score p (se_risk_tolerance_days ps) (se_chop_aversion ps)) \<and>
    all_apart (se_max_token_overlap ps) taken \<and>
    length caps = length taken \<and> within_budget (se_capital ps) caps \<and> (se_waterfill ps \<longrightarrow> caps = min_caps ps taken)"
proof -
  let ?elig = "elig_pools ps pools"
  have passed: "p \<in> set pools \<and> eligible ps p \<and> quality_cutoff ps (scored_pools ps pools)
        \<le> risk_adjusted_score p (se_risk_tolerance_days ps) (se_chop_aversion ps)"
    if "subseq taken (map fst ?elig)" "p \<in> set taken" for taken p
  proof -
    have "p \<in> set (map fst ?elig)" using list_emb_set[OF that, of "p \<in> set (map fst ?elig)"] by simp
    then obtain x where "x \<in> set ?elig" "p = fst x" by auto
    then show ?thesis by (auto simp: elig_pools_def scored_pools_def Let_def)
  qed
  show ?thesis
  proof (cases "se_waterfill ps")
    case False
    let ?g = "greedy ps ?elig"
    have g: "greedy_ok ps ?elig ?g" unfolding greedy_def by (rule greedy_sound)
    then have "subseq (map fst (gr_taken ?g)) (map fst ?elig)" by (simp add: greedy_ok_def)
    note passed[OF this]
    moreover have "select_pools pools ps = Some (gr_selected ?g)" using False by (simp add: select_pools_def)
    ultimately show ?thesis using g False
      by (intro exI[of _ "gr_selected ?g"] exI[of _ "map fst (gr_taken ?g)"] exI[of _ "map snd (gr_taken ?g)"])
        (simp add: greedy_ok_def)
  next
    case True
    let ?c = "choose_pools ps ?elig"
    let ?taken = "map wf_pool (ch_pools ?c)"
    have c: "choice_ok ps ?elig ?c" unfolding choose_pools_def by (rule choose_sound)
    then have sub: "subseq ?taken (map fst ?elig)" by (simp add: choice_ok_def Let_def)
    have "wf_sizes_ok (ch_pools ?c)"
      using c sizes passed[OF sub] by (auto simp: wf_sizes_ok_def choice_ok_def Let_def list_all_iff proper_size_def)
    then obtain ws sp where w: "waterfill ps (wf_infl ps) (wf_chunk ps) (ch_pools ?c, ch_spent ?c) = Some (ws, sp)"
        "list_all2 wf_grown (ch_pools ?c) ws"
      using waterfill_returns[OF _ wf_chunk_nonneg] by metis
    have "wf_pool b = wf_pool a" if "wf_grown a b" for a b
      using that unfolding wf_grown_def by (metis WF.select_convs(1) WF.surjective WF.update_convs(4) WF.update_convs(5))
    then have "list_all2 (\<lambda>a b. stands_for (wf_pool a) (wf_selected (wf_infl ps) b)) (ch_pools ?c) ws"
      by (intro list_all2_mono[OF w(2)]) (simp add: wf_selected_def)
    then have "list_all2 stands_for ?taken (map (wf_selected (wf_infl ps)) ws)" by (simp add: list_all2_map1 list_all2_map2)
    moreover have "select_pools pools ps = Some (map (wf_selected (wf_infl ps)) ws)"
      using True w(1) by (simp add: select_pools_def Let_def)
    ultimately show ?thesis using c sub passed[OF sub]
      by (intro exI[of _ "map (wf_selected (wf_infl ps)) ws"] exI[of _ ?taken] exI[of _ "min_caps ps ?taken"])
        (simp add: choice_ok_def Let_def min_caps_def)
  qed
qed

text \<open>
  C34: selecting the pools always ends, however the water is filled. What it returns stands, in the
  order of the scores, for reports of the scan that passed every filter and the quality floor; no
  two of them are in one cluster or share more words than allowed; and the capital they start with
  never exceeds the budget.
\<close>

theorem select_pools_sound:
  assumes sizes: "\<forall>p \<in> set pools. proper_size (pr_min_size p)"
  shows "\<exists>sel taken caps. select_pools pools ps = Some sel \<and> list_all2 stands_for taken sel \<and>
    subseq taken (map fst (elig_pools ps pools)) \<and>
    (\<forall>p \<in> set taken. p \<in> set pools \<and> eligible ps p \<and> quality_cutoff ps (scored_pools ps pools)
        \<le> risk_adjusted_score p (se_risk_tolerance_days ps) (se_chop_aversion ps)) \<and>
    all_apart (se_max_token_overlap ps) taken \<and>
    length caps = length taken \<and> within_budget (se_capital ps) caps \<and> (se_waterfill ps \<longrightarrow> caps = min_caps ps taken)"
  using assms by (rule select_pools_ok)

definition wit_report :: "string \<Rightarrow> string \<Rightarrow> PoolReport" where
  "wit_report cid question =
     \<lparr>pr_question = question, pr_condition_id = cid, pr_token = cid @ ''t'', pr_daily = lit 100, pr_max_spread_c = lit 3,
      pr_min_size = lit 20, pr_tick = lit (1/100), pr_mid = lit (1/2), pr_spread_c = 1, pr_inband_notional = lit 500,
      pr_share = lit (1/10), pr_min_side_score = lit 300, pr_empty_band = False, pr_reward_per_day = lit 10,
      pr_gross_ann_pct = lit 50, pr_jump_verdict = ''SAFE'', pr_max_jump_c = None, pr_daily_vol_c = None,
      pr_recent_vol_c = None, pr_days_wiped = None, pr_competitiveness = - 1, pr_remaining_reward = - 1,
      pr_volume_24hr = 0\<rparr>"

definition wit_select :: SelectParams where
  "wit_select =
     \<lparr>se_capital = lit 500, se_require_safe = True, se_half_spread_ticks = 2, se_risk_tolerance_days = lit 30,
      se_chop_aversion = lit (1/2), se_max_token_overlap = 1, se_size_share_cap = lit (1/2), se_loss_budget = 0,
      se_quality_floor_frac = lit (1/10), se_max_pool_frac = lit (1/2), se_waterfill = True, se_reward_calib = 1,
      se_max_competitiveness = 0, se_extreme_mid_margin = 0, se_pool_whitelist = {}, se_cooldown = {}\<rparr>"

text \<open>Two markets of one cluster: at most one is funded.\<close>

lemma select_pools_sound_witness:
  "\<exists>sel. select_pools [wit_report ''0xa'' ''Will the Fed cut rates in May?'', wit_report ''0xb'' ''FOMC surprise in June?'']
     wit_select = Some sel \<and> length sel \<le> 1"
proof -
  let ?ps = "[wit_report ''0xa'' ''Will the Fed cut rates in May?'', wit_report ''0xb'' ''FOMC surprise in June?'']"
  have m: "proper_size (lit 20)" by code_simp
  have c: "cluster_key ''Will the Fed cut rates in May?'' = ''us-fed''" "cluster_key ''FOMC surprise in June?'' = ''us-fed''"
    by code_simp+
  have "\<forall>p \<in> set ?ps. proper_size (pr_min_size p)" using m by (simp add: wit_report_def)
  from select_pools_sound[OF this, of wit_select] obtain sel taken where
    s: "select_pools ?ps wit_select = Some sel" "list_all2 stands_for taken sel" "set taken \<subseteq> set ?ps"
      "all_apart (se_max_token_overlap wit_select) taken" by blast
  have "cluster_key (pr_question p) = ''us-fed''" if "p \<in> set taken" for p
    using that s(3) c by (auto simp: wit_report_def)
  then have "length taken \<le> 1" using s(4)
    by (cases taken rule: list.exhaust; cases "tl taken") (auto simp: all_apart_def apart_def)
  then show ?thesis using s(1,2) by (auto dest: list_all2_lengthD)
qed

end
