(* ===== verification/Runner.thy ===== *)
theory Runner
  imports Engine Config Ws Portfolio
begin

text \<open>
  The trading loop (\<open>runner.cpp\<close>): the kill switches, discovery, the selection and placing of
  pools, the re-evaluation of what is held, the polling of fills, the pulling of quotes when the
  book moves, start and shutdown.  The runner's state contains the engine, the two channels and
  the maps of the class; its environment has the exchange, the clock, the files and the services
  as parameters, asked with the number of questions put so far.  The engine pointer is set, as it
  is after \<open>ensure_engine\<close>.  Events, telemetry and the texts on standard error are left out, and
  with them the numbers in the texts of the kill reasons.  Threads are modelled by the step
  relation at the end: each callback and each round of the main loop is one step.
\<close>

section \<open>State and environment\<close>

record Runner =
  ru_engine :: Engine
  ru_calls :: nat
  ru_submitter :: bool
  ru_report :: "PoolReport list"
  ru_last_scan_ok :: "double option"
  ru_dyn_whitelist :: "string set"
  ru_placed :: "(string, json) smap"
  ru_placed_at :: "(string, double) smap"
  ru_cooldown :: "(string, int) smap"
  ru_stop :: bool
  ru_kill_reason :: string
  ru_latch :: "string option"
  ru_market :: "MarketChannel option"
  ru_user :: "UserChannel option"
  ru_mid_hist :: "(string, (double \<times> double) list) smap"
  ru_refresh_at :: "(string, double) smap"
  ru_share_ewma :: "(string, double) smap"
  ru_reflex_refs :: "(string, double \<times> double) smap"
  ru_reflex_complement :: "(string, string) smap"
  ru_reflex_cancelled :: "string set"
  ru_signal_v :: "(string, double) smap"
  ru_fade_last_s :: "(string, double) smap"
  ru_fade_since_poll :: "(string, int) smap"
  ru_fade_streak :: "(string, int) smap"
  ru_wake :: bool
  ru_force_reselect :: bool
  ru_seen :: "string set \<times> string list"
  ru_usdc_start :: "double option"
  ru_inv_pnl_start :: "double option"
  ru_last_usdc :: double
  ru_last_pos_value :: double
  ru_last_usdc_check :: double
  ru_equity_dd_count :: int
  ru_chain :: "(string, double) smap"
  ru_fill_times :: "(string, double list) smap"
  ru_orders_cancelled :: "string list"
  ru_baseline_file :: "json option"
  ru_last_reeval :: double

text \<open>\<open>rx_scanned n\<close> are the CLOB and Gamma services as the scanner's \<open>n\<close>-th call finds them.\<close>

record RunnerEnv =
  rx_world :: World
  rx_libm :: libm
  rx_mono :: "nat \<Rightarrow> double"
  rx_sub :: submitter
  rx_fills :: "nat \<Rightarrow> sim_error + json list"
  rx_orders :: "nat \<Rightarrow> sim_error + json list"
  rx_cancel :: "nat \<Rightarrow> string \<Rightarrow> sim_error + unit"
  rx_balance :: "nat \<Rightarrow> double option"
  rx_creds :: json
  rx_invert :: bool
  rx_kill_file :: "nat \<Rightarrow> bool"
  rx_funder :: string
  rx_scanned :: "nat \<Rightarrow> network \<times> network"
  rx_wall :: "nat \<Rightarrow> double"
  rx_today :: string

type_synonym 'a ruc = "(Runner, 'a) comp"

definition asked :: "nat ruc" where
  "asked s = (Inr (ru_calls s), s\<lparr>ru_calls := ru_calls s + 1\<rparr>)"

definition mono_time :: "RunnerEnv \<Rightarrow> double ruc" where
  "mono_time x = bindc asked (\<lambda>n. ret (rx_mono x n))"

definition on_engine :: "'a enc \<Rightarrow> 'a ruc" where
  "on_engine m = on_part ru_engine (\<lambda>e. ru_engine_update (\<lambda>_. e)) m"

definition ignoring :: "('s, 'a) comp \<Rightarrow> ('s, unit) comp" where
  "ignoring m = bindc m (\<lambda>_. ret ())"

text \<open>A step under a lock: it reads and writes the state and returns something.\<close>

definition transact :: "('s \<Rightarrow> 'a \<times> 's) \<Rightarrow> ('s, 'a) comp" where
  "transact f s = (case f s of (r, s') \<Rightarrow> (Inr r, s'))"

text \<open>\<open>try { m } catch (...) { }\<close>, and its value when there is one\<close>

definition attempt :: "('s, 'a) comp \<Rightarrow> ('s, 'a option) comp" where
  "attempt m = catch_any (bindc m (\<lambda>a. ret (Some a))) (ret None)"

definition smap_erase :: "'k \<Rightarrow> ('k, 'v) smap \<Rightarrow> ('k, 'v) smap" where
  "smap_erase k m = filter (\<lambda>kv. fst kv \<noteq> k) m"

text \<open>Fields of the rows the engine and the runner itself make, which have the types asked for\<close>

definition num_of :: "json \<Rightarrow> string \<Rightarrow> double" where
  "num_of j key = (case jvalue_num j key of Some d \<Rightarrow> d | None \<Rightarrow> 0)"

definition text_of :: "json \<Rightarrow> string \<Rightarrow> string" where
  "text_of j key = (case jvalue_str j key [] of Some t \<Rightarrow> t | None \<Rightarrow> [])"

definition id_of :: "json \<Rightarrow> int" where
  "id_of j = (case jget j ''id'' of Some (JInt i) \<Rightarrow> i | _ \<Rightarrow> 0)"

text \<open>\<open>value(key, default)\<close> on rows of others, which may throw\<close>

definition text_field :: "json \<Rightarrow> string \<Rightarrow> ('s, string) comp" where
  "text_field j key = (case jvalue_str j key [] of Some t \<Rightarrow> ret t | None \<Rightarrow> throw type_error)"

definition num_field :: "json \<Rightarrow> string \<Rightarrow> ('s, double) comp" where
  "num_field j key = (case jvalue_num j key of Some d \<Rightarrow> ret d | None \<Rightarrow> throw type_error)"

text \<open>\<open>jget\<close> of the source: any value that is not a number counts as missing.\<close>

definition num_or :: "json \<Rightarrow> string \<Rightarrow> double \<Rightarrow> double" where
  "num_or j key def = (case jget j key of Some v \<Rightarrow> if is_number v then to_double v else def | None \<Rightarrow> def)"

definition selected_to_json :: "SelectedPool \<Rightarrow> json" where
  "selected_to_json p = jobj
     [(''question'', JStr (sp_question p)), (''condition_id'', JStr (sp_condition_id p)), (''token'', JStr (sp_token p)),
      (''daily'', JFloat (sp_daily p)), (''share'', JFloat (sp_share p)), (''min_size'', JFloat (sp_min_size p)),
      (''size'', JFloat (sp_size p)), (''tick'', JFloat (sp_tick p)), (''max_spread_c'', JFloat (sp_max_spread_c p)),
      (''half_spread_c'', JFloat (sp_half_spread_c p)), (''committed_capital'', JFloat (sp_committed_capital p)),
      (''est_daily_reward'', JFloat (sp_est_daily_reward p)), (''risk_adj_score'', JFloat (sp_risk_adj_score p))]"

definition pool_report_to_json :: "PoolReport \<Rightarrow> json" where
  "pool_report_to_json p = jobj
     ([(''question'', JStr (pr_question p)), (''condition_id'', JStr (pr_condition_id p)), (''token'', JStr (pr_token p)),
       (''daily'', JFloat (pr_daily p)), (''max_spread_c'', JFloat (pr_max_spread_c p)),
       (''min_size'', JFloat (pr_min_size p)), (''tick'', JFloat (pr_tick p)), (''mid'', JFloat (pr_mid p)),
       (''spread_c'', JFloat (pr_spread_c p)), (''inband_notional'', JFloat (pr_inband_notional p)),
       (''share'', JFloat (pr_share p)), (''min_side_score'', JFloat (pr_min_side_score p)),
       (''empty_band'', JBool (pr_empty_band p)), (''reward_per_day'', JFloat (pr_reward_per_day p)),
       (''gross_ann_pct'', JFloat (pr_gross_ann_pct p)), (''jump_verdict'', JStr (pr_jump_verdict p))] @
      List.map_filter (\<lambda>(k, v). map_option (\<lambda>d. (k, JFloat d)) v)
        [(''max_jump_c'', pr_max_jump_c p), (''daily_vol_c'', pr_daily_vol_c p), (''days_wiped'', pr_days_wiped p)])"

section \<open>The exchange and the kill switch\<close>

definition locked_submit :: "RunnerEnv \<Rightarrow> json \<Rightarrow> json ruc" where
  "locked_submit x action =
     bindc (reading ru_submitter) (\<lambda>have. if have then on_engine (send_action (rx_sub x) action) else ret JNull)"

definition use_live_path :: "RunnerConfig \<Rightarrow> Runner \<Rightarrow> bool" where
  "use_live_path c s \<longleftrightarrow> (cf_live c \<or> cf_dry_live c) \<and> ru_submitter s"

text \<open>A risk kill of a live run leaves the latch file behind.\<close>

definition latching :: "RunnerConfig \<Rightarrow> string \<Rightarrow> bool" where
  "latching c reason \<longleftrightarrow> cf_live c \<and> reason \<noteq> ''signal'' \<and> reason \<noteq> ''kill-latch''"

definition tripped :: "RunnerConfig \<Rightarrow> string \<Rightarrow> Runner \<Rightarrow> Runner" where
  "tripped c reason s =
     (if ru_stop s then s
      else s\<lparr>ru_kill_reason := reason, ru_stop := True,
             ru_latch := (if latching c reason then Some reason else ru_latch s)\<rparr>)"

definition trip_kill :: "RunnerConfig \<Rightarrow> string \<Rightarrow> unit ruc" where
  "trip_kill c reason = modify (tripped c reason)"

definition wake_loop :: "unit ruc" where
  "wake_loop = modify (ru_wake_update (\<lambda>_. True))"

definition ensure_engine :: "RunnerConfig \<Rightarrow> RunnerEnv \<Rightarrow> unit ruc" where
  "ensure_engine c x = on_engine
     (catch (bindc require_account (\<lambda>_. sync_capital (cf_capital c)))
       (\<lambda>e. if e = NotInitializedError then ignoring (init_account (rx_world x) (cf_capital c)) else throw e))"

definition is_effectively_whitelisted :: "RunnerConfig \<Rightarrow> Runner \<Rightarrow> string \<Rightarrow> bool" where
  "is_effectively_whitelisted c s cond \<longleftrightarrow> cond \<in> cf_pool_whitelist c \<or> cond \<in> ru_dyn_whitelist s"

text \<open>The curator's command\<close>

definition apply_curator :: "string \<Rightarrow> Runner \<Rightarrow> Runner" where
  "apply_curator csv s = s\<lparr>ru_dyn_whitelist := csv_ids csv, ru_force_reselect := True, ru_wake := True\<rparr>"

section \<open>Quotes by token\<close>

definition held_tokens :: "string list ruc" where
  "held_tokens = bindc (attempt (on_engine get_maker_quotes)) (\<lambda>qs. case qs of
       None \<Rightarrow> ret [] | Some rows \<Rightarrow> ret (map (\<lambda>q. text_of q ''token_id'') rows))"

text \<open>\<open>std::map\<close> built by assignment: the last row of a key stays.\<close>

definition keyed :: "(json \<Rightarrow> string) \<Rightarrow> (json \<Rightarrow> 'v) \<Rightarrow> json list \<Rightarrow> (string, 'v) smap" where
  "keyed key val rows = foldl (\<lambda>m q. smap_put (key q) (val q) m) [] rows"

definition quotes_by_cond :: "json list \<Rightarrow> (string, json) smap" where
  "quotes_by_cond rows = keyed (\<lambda>q. text_of q ''market_condition_id'') id rows"

definition row_tick :: "json \<Rightarrow> double" where
  "row_tick q = (let t = num_or q ''tick'' default_tick in if deq t 0 then default_tick else t)"

definition reflex_band :: "RunnerConfig \<Rightarrow> json \<Rightarrow> double" where
  "reflex_band c q = of_i (max 1 (cf_recenter_ticks c)) * row_tick q"

definition refresh_reflex_refs :: "RunnerConfig \<Rightarrow> unit ruc" where
  "refresh_reflex_refs c =
     bindc (attempt (on_engine get_maker_quotes)) (\<lambda>qs. case qs of
       None \<Rightarrow> ret ()
     | Some rows \<Rightarrow>
         let tok = (\<lambda>q. text_of q ''token_id'') in
         modify (\<lambda>s. s\<lparr>ru_reflex_refs := keyed tok (\<lambda>q. (num_of q ''last_mid'', reflex_band c q)) rows,
                       ru_reflex_complement := keyed tok (\<lambda>q. text_of q ''complement_token_id'') rows,
                       ru_signal_v := keyed tok (\<lambda>q. num_or q ''max_spread_c'' (lit (9 / 2))) rows\<rparr>))"

definition sync_ws_subscriptions :: "RunnerConfig \<Rightarrow> unit ruc" where
  "sync_ws_subscriptions c =
     bindc (reading ru_market) (\<lambda>m.
     bindc (if m = None then ret ()
            else bindc held_tokens (\<lambda>toks. modify (ru_market_update (map_option (set_tokens toks))))) (\<lambda>_.
     bindc (modify (\<lambda>s. s\<lparr>ru_user := map_option (set_markets (map fst (ru_placed s))) (ru_user s)\<rparr>)) (\<lambda>_.
     refresh_reflex_refs c)))"

definition rehydrated :: "json \<Rightarrow> json" where
  "rehydrated q = jobj
     [(''condition_id'', JStr (text_of q ''market_condition_id'')), (''token'', JStr (text_of q ''token_id'')),
      (''question'', JStr (text_of q ''market_slug'')), (''half_spread_c'', JFloat (num_of q ''half_spread_c'')),
      (''daily'', JFloat (num_of q ''daily_rate'')), (''share'', JFloat 0),
      (''committed_capital'', JFloat (num_of q ''committed_capital'')), (''est_daily_reward'', JFloat 0)]"

definition adopt :: "double \<Rightarrow> json \<Rightarrow> Runner \<Rightarrow> Runner" where
  "adopt now q s =
     (let cond = text_of q ''market_condition_id'' in
      if cond = [] \<or> smap_get (ru_placed s) cond \<noteq> None then s
      else s\<lparr>ru_placed := smap_put cond (rehydrated q) (ru_placed s), ru_placed_at := smap_put cond now (ru_placed_at s)\<rparr>)"

definition rehydrate :: "RunnerEnv \<Rightarrow> unit ruc" where
  "rehydrate x =
     bindc (mono_time x) (\<lambda>now.
     bindc (on_engine get_maker_quotes) (\<lambda>rows.
     modify (\<lambda>s. foldl (\<lambda>s q. adopt now q s) s rows)))"

section \<open>Leaving and entering a pool\<close>

definition reward_or_jump_exits :: "string set" where
  "reward_or_jump_exits = {''reward_collapsed'', ''daily_cut'', ''share_collapsed'', ''jump_risk_rose''}"

definition cooldown_reasons :: "string set" where
  "cooldown_reasons = {''jump_risk_rose'', ''empty_band'', ''reward_collapsed'', ''daily_cut'', ''one_sided'', ''fast_book'',
     ''share_collapsed'', ''fade_toxic''}"

definition forget_pool :: "string \<Rightarrow> Runner \<Rightarrow> Runner" where
  "forget_pool cond s = s\<lparr>ru_placed := smap_erase cond (ru_placed s), ru_placed_at := smap_erase cond (ru_placed_at s)\<rparr>"

definition cool_down :: "RunnerConfig \<Rightarrow> string \<Rightarrow> Runner \<Rightarrow> Runner" where
  "cool_down c cond s = s\<lparr>ru_cooldown := smap_put cond (cf_cooldown_rounds c) (ru_cooldown s)\<rparr>"

text \<open>Both legs off the book, and in a live run the inventory of the first leg sold\<close>

definition pull_legs :: "RunnerConfig \<Rightarrow> RunnerEnv \<Rightarrow> json \<Rightarrow> unit ruc" where
  "pull_legs c x q =
     (let token = text_of q ''token_id''; no_token = text_of q ''complement_token_id''; stock = num_of q ''inventory'' in
      bindc (locked_submit x (cancel_all_action token)) (\<lambda>_.
      bindc (if no_token \<noteq> [] then ignoring (locked_submit x (cancel_all_action no_token)) else ret ()) (\<lambda>_.
      if cf_live c \<and> lit (1 / 10 ^ 9) \<le> dabs stock then ignoring (locked_submit x (flatten_action token stock)) else ret ())))"

definition exit_held :: "RunnerConfig \<Rightarrow> RunnerEnv \<Rightarrow> string \<Rightarrow> json \<Rightarrow> string \<Rightarrow> unit ruc" where
  "exit_held c x cond q reason =
     bindc (reading (\<lambda>s. is_effectively_whitelisted c s cond)) (\<lambda>listed.
     if reason \<in> reward_or_jump_exits \<and> listed then ret ()
     else
       bindc (reading (use_live_path c)) (\<lambda>live.
       bindc (if live then pull_legs c x q else ret ()) (\<lambda>_.
       bindc (on_engine (cancel_maker_quote (rx_world x) (id_of q))) (\<lambda>_.
       modify (\<lambda>s. (if reason \<in> cooldown_reasons then cool_down c cond else id) (forget_pool cond s))))))"

definition ticked :: "(string, int) smap \<Rightarrow> (string, int) smap" where
  "ticked m = filter (\<lambda>kv. \<not> snd kv \<le> 0) (map (\<lambda>(k, v). (k, v - 1)) m)"

definition tick_cooldowns :: "unit ruc" where
  "tick_cooldowns = modify (ru_cooldown_update ticked)"

text \<open>
  What the optimal half spread says before a placement: \<open>None\<close> refuses the pool, otherwise the half
  spread to quote and the volatility.
\<close>

definition spread_for :: "RunnerConfig \<Rightarrow> RunnerEnv \<Rightarrow> string \<Rightarrow> json \<Rightarrow> (double \<times> double) option ruc" where
  "spread_for c x cond pool =
     (let hs0 = num_of pool ''half_spread_c'' in
      if \<not> cf_use_optimal_spread c then ret (Some (hs0, 0))
      else
        bindc (attempt (on_engine (suggest_maker_half_spread (rx_world x) (rx_libm x) cond ''yes'' 0 (cf_poll_seconds c))))
        (\<lambda>rec. case rec of
           None \<Rightarrow> ret (Some (hs0, 0))
         | Some r \<Rightarrow>
             bindc (reading (\<lambda>s. is_effectively_whitelisted c s cond)) (\<lambda>listed.
             let v = num_of r ''half_spread_c'' in
             ret (if cf_net_edge_gate c \<and> \<not> listed \<and> num_or r ''net_per_day'' 1 \<le> 0 then None
                  else Some (if 0 < v then v else hs0, num_of r ''sigma_c'')))))"

text \<open>The size that keeps the worst fill in the budget; \<open>None\<close> refuses the pool.\<close>

definition tail_size :: "RunnerConfig \<Rightarrow> double \<Rightarrow> double \<Rightarrow> double \<Rightarrow> double option" where
  "tail_size c sigma_c min_size sz =
     (let worst_move = cf_tail_k_sigma c * sigma_c / lit 100 in
      if 0 < cf_tail_budget c \<and> 0 < sigma_c \<and> lit (1 / 10 ^ 9) < worst_move
      then if cf_tail_budget c < min_size * worst_move then None
           else let max_sz = cf_tail_budget c / worst_move in Some (if max_sz < sz then cmax min_size max_sz else sz)
      else Some sz)"

definition quote_opts :: "double \<Rightarrow> double \<Rightarrow> MakerQuoteOpts" where
  "quote_opts hs sz = \<lparr>mo_size_opt = (if 0 < sz then Some sz else None), mo_half_spread_cents = Some hs,
     mo_cancel_efficiency = 0, mo_max_inventory = None, mo_skew_strength = MAKER_SKEW_STRENGTH, mo_now_unix = None\<rparr>"

text \<open>\<open>False\<close>: a gate refused the pool and nothing was placed.\<close>

definition place_pool :: "RunnerConfig \<Rightarrow> RunnerEnv \<Rightarrow> string \<Rightarrow> json \<Rightarrow> bool ruc" where
  "place_pool c x cond pool =
     bindc (spread_for c x cond pool) (\<lambda>spread. case spread of
       None \<Rightarrow> ret False
     | Some (hs, sigma_c) \<Rightarrow>
         (case tail_size c sigma_c (num_of pool ''min_size'') (num_of pool ''size'') of
            None \<Rightarrow> ret False
          | Some sz \<Rightarrow>
              bindc (reading (use_live_path c)) (\<lambda>live.
              bindc (on_engine
                (if live then place_maker_quote_live (rx_world x) (rx_sub x) cond ''yes'' (quote_opts hs sz)
                 else place_maker_quote (rx_world x) cond ''yes'' (quote_opts hs sz))) (\<lambda>_.
              ret True))))"

section \<open>Discovery and selection\<close>

text \<open>Any exception keeps the report of the last good scan.\<close>

definition rediscover :: "RunnerConfig \<Rightarrow> RunnerEnv \<Rightarrow> unit ruc" where
  "rediscover c x =
     bindc asked (\<lambda>n.
     let (clob, gamma) = rx_scanned x n in
     case scan (rx_libm x) (w_jl (rx_world x)) clob gamma (rx_wall x n) (cf_min_daily c) (cf_scan_top c) True
            (cf_min_days_to_resolution c) (cf_max_vol_mult c) (cf_reward_calib c) (cf_pool_whitelist c) of
       Inl _ \<Rightarrow> ret ()
     | Inr res \<Rightarrow>
         bindc (mono_time x) (\<lambda>t. modify (\<lambda>s. s\<lparr>ru_report := sr_pools res, ru_last_scan_ok := Some t\<rparr>)))"

definition report_stale :: "RunnerConfig \<Rightarrow> RunnerEnv \<Rightarrow> bool ruc" where
  "report_stale c x = bindc (reading ru_last_scan_ok) (\<lambda>ok. case ok of
       None \<Rightarrow> ret True
     | Some t \<Rightarrow> bindc (mono_time x) (\<lambda>now. ret (lit 2 * cf_discovery_interval_s c < now - t)))"

definition cooling :: "Runner \<Rightarrow> string set" where
  "cooling s = fst ` set (filter (\<lambda>kv. 0 < snd kv) (ru_cooldown s))"

definition select_params :: "RunnerConfig \<Rightarrow> Runner \<Rightarrow> SelectParams" where
  "select_params c s =
     \<lparr>se_capital = cf_capital c, se_require_safe = True, se_half_spread_ticks = cf_half_spread_ticks c,
      se_risk_tolerance_days = cf_risk_tolerance_days c, se_chop_aversion = cf_chop_aversion c,
      se_max_token_overlap = cf_max_token_overlap c, se_size_share_cap = cf_size_share_cap c,
      se_loss_budget = cf_max_loss c, se_quality_floor_frac = cf_quality_floor_frac c,
      se_max_pool_frac = cf_max_pool_frac c, se_waterfill = cf_waterfill c, se_reward_calib = cf_reward_calib c,
      se_max_competitiveness = cf_max_competitiveness c, se_extreme_mid_margin = cf_extreme_mid_margin c,
      se_pool_whitelist = cf_pool_whitelist c \<union> ru_dyn_whitelist s, se_cooldown = cooling s\<rparr>"

definition wanted :: "SelectedPool list \<Rightarrow> (string, json) smap" where
  "wanted sel = foldl (\<lambda>m p. smap_put (sp_condition_id p) (selected_to_json p) m) [] sel"

text \<open>Held pools that are no longer wanted are left, or forgotten when the engine has no quote of theirs.\<close>

definition drop_pool :: "RunnerConfig \<Rightarrow> RunnerEnv \<Rightarrow> (string, json) smap \<Rightarrow> (string, json) smap \<Rightarrow> string \<Rightarrow> unit list ruc" where
  "drop_pool c x want quotes cond =
     (if smap_get want cond \<noteq> None then ret []
      else case smap_get quotes cond of
             Some q \<Rightarrow> bindc (exit_held c x cond q ''deselected'') (\<lambda>_. ret [])
           | None \<Rightarrow> bindc (modify (forget_pool cond)) (\<lambda>_. ret []))"

definition epsilon6 :: double where "epsilon6 = lit (1 / 10 ^ 6)"

text \<open>One wanted pool: the capital committed so far goes in and comes out.\<close>

definition add_pool :: "RunnerConfig \<Rightarrow> RunnerEnv \<Rightarrow> string \<times> json \<Rightarrow> double \<Rightarrow> double ruc" where
  "add_pool c x = (\<lambda>(cond, pool) committed.
     bindc (reading id) (\<lambda>s.
     let cap = num_of pool ''committed_capital'' in
     if smap_get (ru_placed s) cond \<noteq> None then ret committed
     else if \<not> is_effectively_whitelisted c s cond \<and> num_of pool ''est_daily_reward'' < cf_min_pool_reward c then ret committed
     else if cf_capital c + epsilon6 < committed + cap then ret committed
     else
       bindc (attempt (place_pool c x cond pool)) (\<lambda>done. case done of
         Some True \<Rightarrow>
           bindc (mono_time x) (\<lambda>now.
           bindc (modify (\<lambda>s. s\<lparr>ru_placed := smap_put cond pool (ru_placed s), ru_placed_at := smap_put cond now (ru_placed_at s)\<rparr>))
             (\<lambda>_. ret (committed + cap)))
       | _ \<Rightarrow> ret committed)))"

fun add_pools :: "RunnerConfig \<Rightarrow> RunnerEnv \<Rightarrow> (string \<times> json) list \<Rightarrow> double \<Rightarrow> double ruc" where
  "add_pools c x [] committed = ret committed"
| "add_pools c x (p # ps) committed = bindc (add_pool c x p committed) (add_pools c x ps)"

definition placed_capital :: "Runner \<Rightarrow> double" where
  "placed_capital s = foldl (\<lambda>a kv. a + num_of (snd kv) ''committed_capital'') 0 (ru_placed s)"

text \<open>
  The allocation always ends when the minimal sizes are numbers (\<open>select_pools_sound\<close>); a loop that
  does not end would be the error.
\<close>

definition chosen_pools :: "RunnerConfig \<Rightarrow> SelectedPool list ruc" where
  "chosen_pools c = bindc (reading id) (\<lambda>s. case select_pools (ru_report s) (select_params c s) of
       None \<Rightarrow> throw (StdError ''the allocation does not end'') | Some sel \<Rightarrow> ret sel)"

definition reselect :: "RunnerConfig \<Rightarrow> RunnerEnv \<Rightarrow> unit ruc" where
  "reselect c x =
     bindc (report_stale c x) (\<lambda>stale.
     if stale then ret ()
     else
       bindc (chosen_pools c) (\<lambda>sel.
       let want = wanted sel in
       bindc (on_engine get_maker_quotes) (\<lambda>rows.
       bindc (reading (\<lambda>s. map fst (ru_placed s))) (\<lambda>conds.
       bindc (for_each (drop_pool c x want (quotes_by_cond rows)) conds) (\<lambda>_.
       bindc (reading placed_capital) (\<lambda>committed.
       bindc (add_pools c x want committed) (\<lambda>_.
       sync_ws_subscriptions c)))))))"

section \<open>Re-evaluating what is held\<close>

definition jset :: "string \<Rightarrow> json \<Rightarrow> json \<Rightarrow> json" where
  "jset key v j = (case j of JObj kvs \<Rightarrow> JObj (smap_put key v kvs) | _ \<Rightarrow> j)"

text \<open>The share of the pool with the own orders taken out of the book\<close>

definition own_share :: "RewardConfig \<Rightarrow> double \<Rightarrow> double \<Rightarrow> PoolReport \<Rightarrow> json" where
  "own_share cfg own_size own_hs p =
     (let fresh = pool_report_to_json p; c = pr_max_spread_c p in
      if 0 < own_size \<and> 0 < own_hs \<and> 0 < c
      then
        let own_q = own_size * ((c - own_hs) / c) * ((c - own_hs) / c);
            competitor = cmax 0 (pr_min_side_score p - own_q);
            share = reward_share (rc_min_size cfg) (rc_tick cfg) c competitor
        in jset ''reward_per_day'' (JFloat (round_to (share * rc_daily cfg) 2))
             (jset ''share'' (JFloat (round_to share 4)) fresh)
      else fresh)"

definition rescore :: "RunnerEnv \<Rightarrow> string \<Rightarrow> json \<Rightarrow> json option ruc" where
  "rescore x cond q =
     bindc (attempt (on_engine (on_client (get_reward_config (rx_world x) cond)))) (\<lambda>config. case config of
       None \<Rightarrow> ret None
     | Some pool \<Rightarrow>
         (case pool of
            None \<Rightarrow> ret (Some (JObj [(''daily'', JFloat 0)]))
          | Some cfg \<Rightarrow>
              if rc_daily cfg \<le> 0 then ret (Some (JObj [(''daily'', JFloat 0)]))
              else
                bindc asked (\<lambda>n.
                let (clob, gamma) = rx_scanned x n; jl = w_jl (rx_world x); token = text_of q ''token_id'' in
                case (rewards_book jl clob token, rewards_history jl clob token ''max'' 60) of
                  (Inr book, Inr history) \<Rightarrow>
                    ret (Some (case score_pool (rx_libm x) cfg book history 1 of
                      None \<Rightarrow> JObj [(''one_sided'', JBool True)]
                    | Some p \<Rightarrow> own_share cfg (num_of q ''size'') (num_of q ''half_spread_c'') p))
                | _ \<Rightarrow> ret None)))"

definition flag_in :: "json \<Rightarrow> string \<Rightarrow> bool" where
  "flag_in j key \<longleftrightarrow> jget j key = Some (JBool True)"

definition degrade_reason :: "RunnerConfig \<Rightarrow> json \<Rightarrow> string option" where
  "degrade_reason c now_row =
     (let daily = num_or now_row ''daily'' 0; jv = text_of now_row ''jump_verdict'';
          reward = num_or now_row ''reward_per_day'' (num_or now_row ''share'' 1 * daily)
      in if flag_in now_row ''one_sided'' then Some ''one_sided''
         else if daily \<le> 0 then Some ''rewards_ended''
         else if daily < cf_min_daily c then Some ''daily_cut''
         else if jv = ''WATCH'' \<or> jv = ''KILL'' then Some ''jump_risk_rose''
         else if flag_in now_row ''empty_band'' then Some ''empty_band''
         else if reward < cf_min_pool_reward c then Some ''reward_collapsed''
         else None)"

definition mid_velocity :: "Runner \<Rightarrow> string \<Rightarrow> double" where
  "mid_velocity s token =
     (case smap_get (ru_mid_hist s) token of
        None \<Rightarrow> 0
      | Some h \<Rightarrow>
          if length h < 2 \<or> fst (last h) \<le> fst (hd h) then 0
          else foldl (\<lambda>a (p, q). a + dabs (snd q - snd p)) 0 (zip h (tl h)) / (fst (last h) - fst (hd h)) * lit 100)"

definition due_row :: "RunnerConfig \<Rightarrow> double \<Rightarrow> (string, json) smap \<Rightarrow> string \<Rightarrow> (string \<times> json) list ruc" where
  "due_row c now quotes cond =
     (case smap_get quotes cond of
        None \<Rightarrow> bindc (modify (forget_pool cond)) (\<lambda>_. ret [])
      | Some q \<Rightarrow> bindc (reading ru_placed_at) (\<lambda>at_time.
          ret (if now - smap_at 0 at_time cond < cf_min_hold_s c then [] else [(cond, q)])))"

text \<open>How many polls in a row have seen a fade, with this one\<close>

definition fade_count :: "string \<Rightarrow> string \<Rightarrow> Runner \<Rightarrow> Runner" where
  "fade_count cond tok s =
     (let faded = smap_at 0 (ru_fade_since_poll s) tok;
          since = (if smap_get (ru_fade_since_poll s) tok = None then ru_fade_since_poll s
                   else smap_put tok 0 (ru_fade_since_poll s));
          streak = (if 0 < faded then smap_at 0 (ru_fade_streak s) cond + 1 else 0)
      in s\<lparr>ru_fade_since_poll := since, ru_fade_streak := smap_put cond streak (ru_fade_streak s)\<rparr>)"

definition fade_toxic :: "RunnerConfig \<Rightarrow> string \<Rightarrow> string \<Rightarrow> bool ruc" where
  "fade_toxic c cond tok =
     (if cf_fade_toxic_streak c \<le> 0 then ret False
      else
        bindc (modify (fade_count cond tok)) (\<lambda>_.
        bindc (reading (\<lambda>s. smap_at 0 (ru_fade_streak s) cond)) (\<lambda>n.
        if cf_fade_toxic_streak c \<le> n
        then bindc (modify (ru_fade_streak_update (smap_put cond 0))) (\<lambda>_. ret True)
        else ret False)))"

definition share_collapsed :: "RunnerConfig \<Rightarrow> Runner \<Rightarrow> string \<Rightarrow> string \<Rightarrow> json option \<Rightarrow> bool" where
  "share_collapsed c s cond tok now_row =
     (case smap_get (ru_share_ewma s) tok of
        None \<Rightarrow> False
      | Some e \<Rightarrow>
          let daily0 = (case now_row of Some f \<Rightarrow> num_or f ''daily'' 0 | None \<Rightarrow> 0);
              daily = (if daily0 \<le> 0 then (case smap_get (ru_placed s) cond of
                          Some p \<Rightarrow> num_or p ''daily'' 0 | None \<Rightarrow> daily0) else daily0)
          in 0 < daily \<and> e * daily < cf_min_pool_reward c)"

definition exit_reason :: "RunnerConfig \<Rightarrow> Runner \<Rightarrow> string \<Rightarrow> json \<Rightarrow> string option" where
  "exit_reason c s tok now_row =
     (case degrade_reason c now_row of
        Some r \<Rightarrow> Some r
      | None \<Rightarrow> if 0 < cf_max_mid_vel_cps c \<and> cf_max_mid_vel_cps c < mid_velocity s tok then Some ''fast_book'' else None)"

definition judge :: "RunnerConfig \<Rightarrow> RunnerEnv \<Rightarrow> (string \<times> json) \<times> json option \<Rightarrow> unit list ruc" where
  "judge c x = (\<lambda>((cond, q), fresh).
     let tok = text_of q ''token_id'' in
     bindc (fade_toxic c cond tok) (\<lambda>toxic.
     if toxic then bindc (exit_held c x cond q ''fade_toxic'') (\<lambda>_. ret [])
     else
       bindc (reading id) (\<lambda>s.
       if share_collapsed c s cond tok fresh then bindc (exit_held c x cond q ''share_collapsed'') (\<lambda>_. ret [])
       else case fresh of
              None \<Rightarrow> ret []
            | Some f \<Rightarrow> (case exit_reason c s tok f of
                None \<Rightarrow> ret []
              | Some r \<Rightarrow> bindc (exit_held c x cond q r) (\<lambda>_. ret [])))))"

text \<open>The workers fill one slot per pool; here in the order of the slots.\<close>

definition reevaluate_held :: "RunnerConfig \<Rightarrow> RunnerEnv \<Rightarrow> unit ruc" where
  "reevaluate_held c x =
     bindc (reading (\<lambda>s. map fst (ru_placed s))) (\<lambda>conds.
     if \<not> cf_reeval_enabled c \<or> conds = [] then ret ()
     else
       bindc (on_engine get_maker_quotes) (\<lambda>rows.
       bindc (mono_time x) (\<lambda>now.
       bindc (for_each (due_row c now (quotes_by_cond rows)) conds) (\<lambda>worklist.
       bindc (for_each (\<lambda>(cond, q). bindc (rescore x cond q) (\<lambda>f. ret [f])) worklist) (\<lambda>fresh.
       ignoring (for_each (judge c x) (zip worklist fresh)))))))"

section \<open>Fills and the poll\<close>

definition churn_window :: "double \<Rightarrow> double list \<Rightarrow> double list" where
  "churn_window now stamps = dropWhile (\<lambda>t. lit 60 < now - t) (stamps @ [now])"

text \<open>Eight fills of one token within a minute stop the run.\<close>

definition note_churn :: "RunnerConfig \<Rightarrow> RunnerEnv \<Rightarrow> string \<Rightarrow> unit ruc" where
  "note_churn c x tok =
     bindc (mono_time x) (\<lambda>now.
     bindc (modify (\<lambda>s. s\<lparr>ru_fill_times := smap_put tok (churn_window now (smap_at [] (ru_fill_times s) tok)) (ru_fill_times s)\<rparr>)) (\<lambda>_.
     bindc (reading (\<lambda>s. smap_at [] (ru_fill_times s) tok)) (\<lambda>stamps.
     if 8 \<le> length stamps then trip_kill c (''churn: maker-fills/60s on token '' @ take 12 tok) else ret ())))"

definition new_fill :: "RunnerConfig \<Rightarrow> RunnerEnv \<Rightarrow> json \<Rightarrow> (string \<times> RealFill) list ruc" where
  "new_fill c x f =
     bindc (text_field f ''side'') (\<lambda>side.
     bindc (num_field f ''size'') (\<lambda>sz.
     bindc (num_field f ''price'') (\<lambda>price.
     bindc (text_field f ''token_id'') (\<lambda>tok.
     bindc (if tok \<noteq> [] then note_churn c x tok else ret ()) (\<lambda>_.
     ret [(tok, \<lparr>rf_side = side, rf_size = sz, rf_price = price\<rparr>)])))))"

definition count_fill :: "RunnerConfig \<Rightarrow> RunnerEnv \<Rightarrow> json \<Rightarrow> (string \<times> RealFill) list ruc" where
  "count_fill c x f =
     bindc (text_field f ''id'') (\<lambda>tid.
     bindc (reading ru_seen) (\<lambda>seen.
     if tid \<noteq> [] \<and> tid \<in> fst seen then ret []
     else bindc (modify (ru_seen_update (if tid \<noteq> [] then remember tid else id))) (\<lambda>_. new_fill c x f)))"

definition by_token :: "(string \<times> RealFill) list \<Rightarrow> FillsByToken" where
  "by_token fills = foldl (\<lambda>m (tok, rf). smap_put tok (smap_at [] m tok @ [rf]) m) [] fills"

text \<open>Both sources; an exception of the first leaves no fills.\<close>

definition fetch_fills :: "RunnerEnv \<Rightarrow> json list ruc" where
  "fetch_fills x =
     bindc (reading ru_submitter) (\<lambda>have.
     bindc (if have then bindc asked (\<lambda>n. of_sum (rx_fills x n)) else ret []) (\<lambda>rest.
     bindc (reading (\<lambda>s. case ru_user s of None \<Rightarrow> [] | Some u \<Rightarrow> fst (ws_poll_fills u))) (\<lambda>ws.
     bindc (modify (ru_user_update (map_option (\<lambda>u. snd (ws_poll_fills u))))) (\<lambda>_.
     ret (rest @ ws)))))"

definition poll_fills :: "RunnerConfig \<Rightarrow> RunnerEnv \<Rightarrow> FillsByToken ruc" where
  "poll_fills c x =
     bindc (attempt (fetch_fills x)) (\<lambda>fills. case fills of
       None \<Rightarrow> ret []
     | Some fs \<Rightarrow> bindc (for_each (count_fill c x) fs) (\<lambda>counted. ret (by_token counted)))"

text \<open>The book source of the engine; the connection counts as live for the whole accrual.\<close>

definition book_source :: "RunnerEnv \<Rightarrow> Runner \<Rightarrow> live_source" where
  "book_source x s = (\<lambda>_ token. case ru_market s of
       None \<Rightarrow> None
     | Some ch \<Rightarrow> if is_live (rx_mono x (ru_calls s)) ch (lit 15) then Some (get_book ch token, ws_midpoint ch token) else None)"

text \<open>Orders that expire are replaced at half their life.\<close>

definition refresh_token :: "double \<Rightarrow> double \<Rightarrow> string \<Rightarrow> string set \<times> Runner \<Rightarrow> string set \<times> Runner" where
  "refresh_token interval now tok = (\<lambda>(forced, s).
     case smap_get (ru_refresh_at s) tok of
       None \<Rightarrow> (forced, s\<lparr>ru_refresh_at := smap_put tok now (ru_refresh_at s)\<rparr>)
     | Some t \<Rightarrow>
         if interval \<le> now - t then (insert tok forced, s\<lparr>ru_refresh_at := smap_put tok now (ru_refresh_at s)\<rparr>)
         else (forced, s))"

definition placed_tokens :: "Runner \<Rightarrow> string list" where
  "placed_tokens s = filter (\<lambda>t. t \<noteq> []) (map (\<lambda>kv. text_of (snd kv) ''token'') (ru_placed s))"

definition refreshed :: "RunnerConfig \<Rightarrow> double \<Rightarrow> string set \<Rightarrow> Runner \<Rightarrow> string set \<times> Runner" where
  "refreshed c now forced s =
     (let held = sorted_list_of_set (set (placed_tokens s));
          (forced', s') = foldl (\<lambda>a tok. refresh_token (cf_order_expiry_s c / lit 2) now tok a) (forced, s) held
      in (forced', s'\<lparr>ru_refresh_at := filter (\<lambda>kv. fst kv \<in> set held) (ru_refresh_at s')\<rparr>))"

definition taking_forced :: "RunnerConfig \<Rightarrow> RunnerEnv \<Rightarrow> string set ruc" where
  "taking_forced c x =
     bindc (reading ru_reflex_cancelled) (\<lambda>forced.
     bindc (modify (ru_reflex_cancelled_update (\<lambda>_. {}))) (\<lambda>_.
     if 0 < cf_order_expiry_s c
     then bindc (mono_time x) (\<lambda>now. transact (refreshed c now forced))
     else ret forced))"

definition recent_mids :: "(double \<times> double) list \<Rightarrow> (double \<times> double) list" where
  "recent_mids h = drop (length h - 120) h"

definition ewma :: "double option \<Rightarrow> double \<Rightarrow> double" where
  "ewma old s = (case old of None \<Rightarrow> s | Some e \<Rightarrow> lit (8 / 10) * e + lit (2 / 10) * s)"

definition note_mid :: "double \<Rightarrow> string \<Rightarrow> json \<Rightarrow> Runner \<Rightarrow> Runner" where
  "note_mid now tok row s =
     (case jget row ''mid'' of None \<Rightarrow> s
      | Some m \<Rightarrow>
          if is_number m \<and> 0 < to_double m \<and> tok \<noteq> []
          then s\<lparr>ru_mid_hist := smap_put tok (recent_mids (smap_at [] (ru_mid_hist s) tok @ [(now, to_double m)])) (ru_mid_hist s)\<rparr>
          else s)"

definition note_share :: "string \<Rightarrow> json \<Rightarrow> Runner \<Rightarrow> Runner" where
  "note_share tok row s =
     (case jget row ''share'' of None \<Rightarrow> s
      | Some v \<Rightarrow>
          if is_number v \<and> tok \<noteq> []
          then s\<lparr>ru_share_ewma := smap_put tok (ewma (smap_get (ru_share_ewma s) tok) (to_double v)) (ru_share_ewma s)\<rparr>
          else s)"

text \<open>The engine has left the market: so does the runner.\<close>

definition note_exit :: "RunnerConfig \<Rightarrow> string \<Rightarrow> json \<Rightarrow> Runner \<Rightarrow> Runner" where
  "note_exit c cond row s =
     (if jget row ''exit_failed'' \<noteq> None then s
      else case jget row ''reconciled'' of
             Some (JStr r) \<Rightarrow> (if r \<noteq> ''rewards_ended'' then cool_down c cond else id) (forget_pool cond s)
           | _ \<Rightarrow> s)"

definition note_row :: "RunnerConfig \<Rightarrow> double \<Rightarrow> json \<Rightarrow> Runner \<Rightarrow> Runner" where
  "note_row c now row s =
     (let q = (case jget row ''quote'' of Some v \<Rightarrow> v | None \<Rightarrow> JObj []); tok = text_of q ''token_id''
      in note_exit c (text_of q ''market_condition_id'') row (note_share tok row (note_mid now tok row s)))"

definition accrue :: "RunnerConfig \<Rightarrow> RunnerEnv \<Rightarrow> json list ruc" where
  "accrue c x =
     bindc (reading (use_live_path c)) (\<lambda>live.
     if live then
       bindc (poll_fills c x) (\<lambda>fills.
       bindc (taking_forced c x) (\<lambda>forced.
       bindc (reading (book_source x)) (\<lambda>source.
       on_engine (accrue_maker_rewards_live (rx_world x) source (rx_sub x) fills None (cf_recenter_ticks c) (Some forced)))))
     else bindc (reading (book_source x)) (\<lambda>source. on_engine (accrue_maker_rewards (rx_world x) source None)))"

definition poll_once :: "RunnerConfig \<Rightarrow> RunnerEnv \<Rightarrow> json list ruc" where
  "poll_once c x =
     bindc (accrue c x) (\<lambda>rows.
     bindc (mono_time x) (\<lambda>now.
     bindc (modify (\<lambda>s. foldl (\<lambda>s row. note_row c now row s) s rows)) (\<lambda>_.
     bindc (refresh_reflex_refs c) (\<lambda>_. ret rows))))"

section \<open>Kill checks\<close>

text \<open>The drop of the ledger's inventory result since the first check of the run\<close>

definition ledger_drop :: "RunnerConfig \<Rightarrow> bool ruc" where
  "ledger_drop c =
     bindc (attempt (on_engine get_maker_summary)) (\<lambda>sum.
     let pnl = (case sum of Some j \<Rightarrow> num_of j ''inventory_pnl'' | None \<Rightarrow> 0) in
     bindc (modify (ru_inv_pnl_start_update (\<lambda>b. if b = None then Some pnl else b))) (\<lambda>_.
     bindc (reading ru_inv_pnl_start) (\<lambda>b. ret (case b of None \<Rightarrow> False | Some b0 \<Rightarrow> pnl - b0 \<le> - cf_max_loss c))))"

definition active_tokens :: "json list \<Rightarrow> string set" where
  "active_tokens rows = set (filter (\<lambda>t. t \<noteq> [])
     (concat (map (\<lambda>q. [text_of q ''token_id'', text_of q ''complement_token_id'']) rows)))"

definition sweep_orphan :: "RunnerEnv \<Rightarrow> string set \<Rightarrow> string \<times> double \<Rightarrow> unit list ruc" where
  "sweep_orphan x tracked = (\<lambda>(tok, sz).
     if dabs sz < 1 \<or> tok \<in> tracked then ret []
     else bindc (attempt (locked_submit x (flatten_action tok sz))) (\<lambda>_. ret []))"

text \<open>The chain's view of the positions replaces the ledger's, and positions nobody quotes are sold.\<close>

definition refresh_chain :: "RunnerConfig \<Rightarrow> RunnerEnv \<Rightarrow> unit ruc" where
  "refresh_chain c x =
     bindc (on_engine (on_client (chain_position_value (rx_world x) (rx_funder x)))) (\<lambda>pos_value.
     bindc (modify (ru_last_pos_value_update (\<lambda>_. pos_value))) (\<lambda>_.
     bindc (on_engine (on_client (chain_positions (rx_world x) (rx_funder x)))) (\<lambda>chain.
     bindc (modify (ru_chain_update (\<lambda>_. chain))) (\<lambda>_.
     bindc (on_engine (reconcile_inventory chain)) (\<lambda>_.
     bindc (on_engine (modify (set_chain_positions chain))) (\<lambda>_.
     bindc (on_engine get_maker_quotes) (\<lambda>rows.
     if cf_orphan_sweep c then ignoring (for_each (sweep_orphan x (active_tokens rows)) chain) else ret ())))))))"

definition equity :: "Runner \<Rightarrow> double" where
  "equity s = ru_last_usdc s + ru_last_pos_value s"

definition below_floor :: "RunnerConfig \<Rightarrow> double \<Rightarrow> Runner \<Rightarrow> bool" where
  "below_floor c start s \<longleftrightarrow> 0 < ru_last_usdc s \<and> equity s < start - cf_max_loss c"

definition count_drawdown :: "RunnerConfig \<Rightarrow> double \<Rightarrow> Runner \<Rightarrow> Runner" where
  "count_drawdown c start s =
     s\<lparr>ru_equity_dd_count := (if below_floor c start s then ru_equity_dd_count s + 1 else 0)\<rparr>"

text \<open>One sample of the real equity every 15 seconds\<close>

definition sample_equity :: "RunnerConfig \<Rightarrow> RunnerEnv \<Rightarrow> double \<Rightarrow> unit ruc" where
  "sample_equity c x start =
     bindc (mono_time x) (\<lambda>now.
     bindc (reading ru_last_usdc_check) (\<lambda>before.
     if \<not> lit 15 \<le> now - before then ret ()
     else
       bindc asked (\<lambda>n.
       bindc (modify (\<lambda>s. s\<lparr>ru_last_usdc_check := now,
           ru_last_usdc := (case rx_balance x n of Some b \<Rightarrow> if 0 \<le> b then b else ru_last_usdc s | None \<Rightarrow> ru_last_usdc s)\<rparr>)) (\<lambda>_.
       bindc (refresh_chain c x) (\<lambda>_.
       modify (count_drawdown c start))))))"

definition equity_drawdown :: "RunnerConfig \<Rightarrow> RunnerEnv \<Rightarrow> bool ruc" where
  "equity_drawdown c x =
     bindc (reading id) (\<lambda>s.
     case ru_usdc_start s of
       Some start \<Rightarrow>
         if cf_live c \<and> ru_submitter s
         then bindc (sample_equity c x start) (\<lambda>_. reading (\<lambda>s. 3 \<le> ru_equity_dd_count s))
         else ret False
     | None \<Rightarrow> ret False)"

definition wallet_low :: "RunnerConfig \<Rightarrow> RunnerEnv \<Rightarrow> bool ruc" where
  "wallet_low c x =
     bindc (reading ru_submitter) (\<lambda>have.
     if cf_live c \<and> 0 < cf_min_wallet_usdc c \<and> have
     then bindc asked (\<lambda>n. ret (case rx_balance x n of Some b \<Rightarrow> b < cf_min_wallet_usdc c | None \<Rightarrow> False))
     else ret False)"

definition kill_check :: "RunnerConfig \<Rightarrow> RunnerEnv \<Rightarrow> string option ruc" where
  "kill_check c x =
     bindc asked (\<lambda>n.
     if rx_kill_file x n then ret (Some ''kill-file'')
     else bindc (ledger_drop c) (\<lambda>drop.
     if drop then ret (Some ''max-loss'')
     else bindc (equity_drawdown c x) (\<lambda>down.
     if down then ret (Some ''real-equity-drawdown'')
     else bindc (wallet_low c x) (\<lambda>low. ret (if low then Some ''wallet-floor'' else None)))))"

section \<open>The book moves\<close>

text \<open>Claiming a token before the slow calls: the other leg, when it was still free\<close>

definition claim_pull :: "string \<Rightarrow> Runner \<Rightarrow> string option \<times> Runner" where
  "claim_pull token s =
     (if smap_get (ru_reflex_refs s) token = None \<or> token \<in> ru_reflex_cancelled s then (None, s)
      else (Some (smap_at [] (ru_reflex_complement s) token), s\<lparr>ru_reflex_cancelled := insert token (ru_reflex_cancelled s)\<rparr>))"

definition reflex_pull :: "RunnerEnv \<Rightarrow> string \<Rightarrow> unit ruc" where
  "reflex_pull x token =
     bindc (transact (claim_pull token)) (\<lambda>claim. case claim of
       None \<Rightarrow> ret ()
     | Some no_token \<Rightarrow>
         catch_any
           (bindc (locked_submit x (cancel_all_action token)) (\<lambda>_.
            bindc (if no_token \<noteq> [] then ignoring (locked_submit x (cancel_all_action no_token)) else ret ()) (\<lambda>_.
            wake_loop)))
           (modify (ru_reflex_cancelled_update (\<lambda>m. m - {token}))))"

definition crossed :: "Runner \<Rightarrow> string \<Rightarrow> double \<Rightarrow> bool" where
  "crossed s token mid \<longleftrightarrow> (case smap_get (ru_reflex_refs s) token of
       None \<Rightarrow> False | Some (ref_mid, band) \<Rightarrow> \<not> dabs (mid - ref_mid) < band)"

definition on_ws_price :: "RunnerEnv \<Rightarrow> string \<Rightarrow> double \<Rightarrow> unit ruc" where
  "on_ws_price x token mid =
     bindc (reading id) (\<lambda>s.
     if token \<in> ru_reflex_cancelled s \<or> \<not> crossed s token mid then ret () else reflex_pull x token)"

definition top_bid :: "OrderBookLevel list \<Rightarrow> double" where
  "top_bid ls = foldl (\<lambda>b l. if 0 < lv_size l \<and> b < lv_price l then lv_price l else b) 0 ls"

definition top_ask :: "OrderBookLevel list \<Rightarrow> double" where
  "top_ask ls = foldl (\<lambda>a l. if 0 < lv_size l \<and> (deq a 0 \<or> lv_price l < a) then lv_price l else a) 0 ls"

definition imbalanced :: "RunnerConfig \<Rightarrow> BookSignals \<Rightarrow> double \<Rightarrow> bool" where
  "imbalanced c sig mid \<longleftrightarrow>
     0 < cf_fade_micro_c c \<and> cf_fade_micro_c c \<le> dabs (bs_micro_price sig - mid) * lit 100 \<or>
     0 < cf_fade_obi c \<and> cf_fade_obi c \<le> dabs (bs_obi_band sig)"

text \<open>A token fades again only after the cooldown.\<close>

definition claim_fade :: "RunnerConfig \<Rightarrow> double \<Rightarrow> string \<Rightarrow> Runner \<Rightarrow> bool \<times> Runner" where
  "claim_fade c now token s =
     (if (case smap_get (ru_fade_last_s s) token of None \<Rightarrow> True | Some t \<Rightarrow> cf_fade_cooldown_s c \<le> now - t)
      then (True, s\<lparr>ru_fade_last_s := smap_put token now (ru_fade_last_s s),
                     ru_fade_since_poll := smap_put token (smap_at 0 (ru_fade_since_poll s) token + 1) (ru_fade_since_poll s)\<rparr>)
      else (False, s))"

definition fade :: "RunnerConfig \<Rightarrow> RunnerEnv \<Rightarrow> string \<Rightarrow> unit ruc" where
  "fade c x token =
     bindc (mono_time x) (\<lambda>now.
     bindc (transact (claim_fade c now token)) (\<lambda>due.
     if due then reflex_pull x token else ret ()))"

text \<open>The strict test of the wake-up on the price crossing the band, with a reference midpoint\<close>

definition moved :: "Runner \<Rightarrow> string \<Rightarrow> double \<Rightarrow> bool" where
  "moved s token mid \<longleftrightarrow> (case smap_get (ru_reflex_refs s) token of
       None \<Rightarrow> False | Some (ref_mid, band) \<Rightarrow> 0 < ref_mid \<and> band \<le> dabs (mid - ref_mid))"

definition signal_band :: "Runner \<Rightarrow> string \<Rightarrow> double" where
  "signal_band s token = (case smap_get (ru_signal_v s) token of
       Some v \<Rightarrow> if 0 < v then v else lit (9 / 2) | None \<Rightarrow> lit (9 / 2))"

definition compute_and_store_signals :: "RunnerConfig \<Rightarrow> RunnerEnv \<Rightarrow> string \<Rightarrow> unit ruc" where
  "compute_and_store_signals c x token =
     bindc (reading id) (\<lambda>s.
     case (case ru_market s of None \<Rightarrow> None | Some ch \<Rightarrow> get_book ch token) of
       None \<Rightarrow> ret ()
     | Some book \<Rightarrow>
         let bb = top_bid (ob_bids book); ba = top_ask (ob_asks book); mid = (bb + ba) / lit 2;
             sig = compute_book_signals book mid (signal_band s token)
         in if ob_bids book = [] \<or> ob_asks book = [] \<or> bb \<le> 0 \<or> ba \<le> 0 then ret ()
            else bindc (if moved s token mid then wake_loop else ret ()) (\<lambda>_.
              if bs_valid sig \<and> imbalanced c sig mid then fade c x token else ret ()))"

definition json_empty :: "json \<Rightarrow> bool" where
  "json_empty j \<longleftrightarrow> j = JNull \<or> j = JArr [] \<or> j = JObj []"

definition resync_once :: "RunnerConfig \<Rightarrow> RunnerEnv \<Rightarrow> mono_clock \<Rightarrow> string \<Rightarrow> unit ruc" where
  "resync_once c x clk token = ignoring (attempt (
     bindc asked (\<lambda>n.
     bindc (of_sum (rewards_book (w_jl (rx_world x)) (fst (rx_scanned x n)) token)) (\<lambda>book.
     bindc (reading ru_market) (\<lambda>ch.
     if json_empty book \<or> ch = None then ret ()
     else bindc (modify (ru_market_update (map_option (apply_rest_snapshot clk token book)))) (\<lambda>_.
       compute_and_store_signals c x token))))))"

section \<open>Shutdown\<close>

definition order_token :: "json \<Rightarrow> ('s, string) comp" where
  "order_token o1 = bindc (text_field o1 ''asset_id'') (\<lambda>t. if t = [] then text_field o1 ''token_id'' else ret t)"

definition order_oid :: "json \<Rightarrow> ('s, string) comp" where
  "order_oid o1 = bindc (text_field o1 ''id'') (\<lambda>i. if i \<noteq> [] then ret i
     else bindc (text_field o1 ''order_id'') (\<lambda>d. case jvalue_str o1 ''orderID'' d of Some t \<Rightarrow> ret t | None \<Rightarrow> throw type_error))"

definition cancel_order_at :: "RunnerEnv \<Rightarrow> string \<Rightarrow> unit ruc" where
  "cancel_order_at x oid =
     bindc asked (\<lambda>n. bindc (modify (ru_orders_cancelled_update (\<lambda>l. l @ [oid]))) (\<lambda>_. of_sum (rx_cancel x n oid)))"

text \<open>Orders on the exchange that no adopted pool accounts for, at the start\<close>

definition reconcile_order :: "RunnerConfig \<Rightarrow> RunnerEnv \<Rightarrow> string set \<Rightarrow> json \<Rightarrow> unit list ruc" where
  "reconcile_order c x held o1 =
     bindc (order_token o1) (\<lambda>tok.
     bindc (order_oid o1) (\<lambda>oid.
     if cf_orphan_sweep c \<and> oid \<noteq> [] \<and> tok \<notin> held
     then bindc (attempt (cancel_order_at x oid)) (\<lambda>_. ret []) else ret []))"

definition reconcile_broker_orders :: "RunnerConfig \<Rightarrow> RunnerEnv \<Rightarrow> unit ruc" where
  "reconcile_broker_orders c x =
     bindc (reading id) (\<lambda>s.
     if \<not> cf_live c \<or> \<not> ru_submitter s then ret ()
     else
       bindc (attempt (bindc asked (\<lambda>n. of_sum (rx_orders x n)))) (\<lambda>open. case open of
         None \<Rightarrow> ret ()
       | Some orders \<Rightarrow>
           ignoring (for_each (reconcile_order c x (set (map (\<lambda>kv. text_of (snd kv) ''token'') (ru_placed s)))) orders)))"

definition close_quote :: "RunnerConfig \<Rightarrow> RunnerEnv \<Rightarrow> json \<Rightarrow> unit list ruc" where
  "close_quote c x q =
     bindc (reading (use_live_path c)) (\<lambda>live.
     bindc (if live then pull_legs c x q else ret ()) (\<lambda>_.
     bindc (on_engine (cancel_maker_quote (rx_world x) (id_of q))) (\<lambda>_. ret [])))"

definition sweep_order :: "RunnerConfig \<Rightarrow> RunnerEnv \<Rightarrow> string set \<Rightarrow> json \<Rightarrow> unit list ruc" where
  "sweep_order c x own o1 =
     bindc (order_token o1) (\<lambda>tok.
     if \<not> cf_orphan_sweep c \<and> tok \<notin> own then ret []
     else bindc (order_oid o1) (\<lambda>oid.
       if oid \<noteq> [] then bindc (cancel_order_at x oid) (\<lambda>_. ret []) else ret []))"

text \<open>\<open>own\<close>: the tokens of the quotes still active, both legs, and of the pools in the map\<close>

definition sweep_book :: "RunnerConfig \<Rightarrow> RunnerEnv \<Rightarrow> unit ruc" where
  "sweep_book c x =
     bindc (on_engine get_maker_quotes) (\<lambda>rows.
     bindc (reading (\<lambda>s. set (map (\<lambda>kv. text_of (snd kv) ''token'') (ru_placed s)))) (\<lambda>toks.
     let own = toks \<union> set (concat (map (\<lambda>q. [text_of q ''token_id'', text_of q ''complement_token_id'']) rows)) in
     bindc (bindc asked (\<lambda>n. of_sum (rx_orders x n))) (\<lambda>orders.
     ignoring (for_each (sweep_order c x own) orders))))"

definition net_fill :: "RealFill list \<Rightarrow> double" where
  "net_fill fs = foldl (\<lambda>a f. a + (if rf_side f = ''BUY'' then 1 else - 1) * rf_size f) 0 fs"

definition residual_of :: "FillsByToken \<Rightarrow> (string \<times> double) list" where
  "residual_of fills = filter (\<lambda>kv. lit (1 / 10 ^ 9) \<le> dabs (snd kv)) (map (\<lambda>(tok, fs). (tok, net_fill fs)) fills)"

definition flatten_one :: "RunnerEnv \<Rightarrow> string \<times> double \<Rightarrow> (string \<times> double) list ruc" where
  "flatten_one x r =
     bindc (locked_submit x (flatten_action (fst r) (snd r))) (\<lambda>res.
     bindc (text_field res ''status'') (\<lambda>st. ret (if st \<noteq> ''FLATTENED'' then [r] else [])))"

fun flatten_rounds :: "RunnerEnv \<Rightarrow> nat \<Rightarrow> (string \<times> double) list \<Rightarrow> (string \<times> double) list ruc" where
  "flatten_rounds x 0 residual = ret residual"
| "flatten_rounds x (Suc k) residual =
     (if residual = [] then ret []
      else bindc (for_each (flatten_one x) residual) (flatten_rounds x k))"

definition shutdown :: "RunnerConfig \<Rightarrow> RunnerEnv \<Rightarrow> unit ruc" where
  "shutdown c x = ignoring (attempt (
     bindc (on_engine get_maker_quotes) (\<lambda>rows.
     bindc (for_each (close_quote c x) rows) (\<lambda>_.
     bindc (reading (use_live_path c)) (\<lambda>live.
     bindc (if live then ignoring (attempt (sweep_book c x)) else ret ()) (\<lambda>_.
     if live \<and> cf_live c
     then bindc (poll_fills c x) (\<lambda>fills. ignoring (flatten_rounds x 4 (residual_of fills)))
     else ret ()))))))"

section \<open>Start and main loop\<close>

definition configure_engine :: "RunnerConfig \<Rightarrow> Engine \<Rightarrow> Engine" where
  "configure_engine c e = set_jump_vol_weight (cf_jump_vol_weight c) (set_reward_calib (cf_reward_calib c)
     (set_micro_center (cf_micro_center c) (cf_micro_gate_c c) (cf_micro_beta c)
       (e\<lparr>en_crossing_cost_c := cf_crossing_cost_c c\<rparr>)))"

text \<open>The day's baseline: the one saved today, or the equity found now, which is then saved\<close>

definition saved_baseline :: "RunnerEnv \<Rightarrow> double \<Rightarrow> json option \<Rightarrow> double option" where
  "saved_baseline x eq0 saved =
     (case saved of None \<Rightarrow> None
      | Some j \<Rightarrow> if jvalue_str j ''date'' [] = Some (rx_today x)
          then (if jget j ''eq'' = None then Some eq0 else jvalue_num j ''eq'') else None)"

definition arm_baseline :: "RunnerEnv \<Rightarrow> double \<Rightarrow> unit ruc" where
  "arm_baseline x bal =
     bindc (attempt (on_engine (on_client (chain_position_value (rx_world x) (rx_funder x))))) (\<lambda>pos.
     let eq0 = bal + (case pos of Some p \<Rightarrow> p | None \<Rightarrow> 0) in
     modify (\<lambda>s. case saved_baseline x eq0 (ru_baseline_file s) of
         Some eq \<Rightarrow> s\<lparr>ru_usdc_start := Some eq, ru_last_usdc := bal\<rparr>
       | None \<Rightarrow> s\<lparr>ru_usdc_start := Some eq0, ru_last_usdc := bal,
                   ru_baseline_file := Some (JObj [(''date'', JStr (rx_today x)), (''eq'', JFloat eq0)])\<rparr>))"

definition arm :: "RunnerConfig \<Rightarrow> RunnerEnv \<Rightarrow> unit ruc" where
  "arm c x =
     (if cf_live c
      then
        bindc (reading ru_latch) (\<lambda>latch.
        bindc (if latch \<noteq> None then trip_kill c ''kill-latch'' else ret ()) (\<lambda>_.
        bindc (modify (ru_submitter_update (\<lambda>_. True))) (\<lambda>_.
        bindc asked (\<lambda>n. case rx_balance x n of
          Some b \<Rightarrow> if 0 < b then arm_baseline x b else ret () | None \<Rightarrow> ret ()))))
      else if cf_dry_live c then modify (ru_submitter_update (\<lambda>_. True)) else ret ())"

definition start_ws :: "RunnerConfig \<Rightarrow> RunnerEnv \<Rightarrow> unit ruc" where
  "start_ws c x =
     (if \<not> cf_ws_enabled c then ret ()
      else modify (\<lambda>s. s\<lparr>ru_market := Some (set_price_callback new_market),
        ru_user := (if cf_live c \<and> ru_submitter s \<and> jget (rx_creds x) ''apiKey'' \<noteq> None
          then Some (new_user \<lparr>cr_api_key = text_of (rx_creds x) ''apiKey'', cr_secret = text_of (rx_creds x) ''secret'',
                               cr_passphrase = text_of (rx_creds x) ''passphrase''\<rparr> (rx_invert x))
          else ru_user s)\<rparr>))"

definition reconcile_start :: "RunnerConfig \<Rightarrow> RunnerEnv \<Rightarrow> unit ruc" where
  "reconcile_start c x =
     bindc (reading (use_live_path c)) (\<lambda>live.
     if live \<and> rx_funder x \<noteq> []
     then bindc (on_engine (on_client (chain_positions (rx_world x) (rx_funder x)))) (\<lambda>chain.
       ignoring (on_engine (reconcile_inventory chain)))
     else ret ())"

text \<open>Fills from before the start are marked as seen; here without the bound of the memory.\<close>

definition prime_fill :: "json \<Rightarrow> unit list ruc" where
  "prime_fill f = bindc (text_field f ''id'') (\<lambda>tid.
     bindc (modify (ru_seen_update (\<lambda>(seen, fifo). if tid \<noteq> [] then (insert tid seen, fifo @ [tid]) else (seen, fifo))))
     (\<lambda>_. ret []))"

definition prime_fills :: "RunnerConfig \<Rightarrow> RunnerEnv \<Rightarrow> unit ruc" where
  "prime_fills c x =
     bindc (reading (use_live_path c)) (\<lambda>live.
     if live then ignoring (attempt (bindc asked (\<lambda>n. bindc (of_sum (rx_fills x n)) (for_each prime_fill)))) else ret ())"

definition start_up :: "RunnerConfig \<Rightarrow> RunnerEnv \<Rightarrow> unit ruc" where
  "start_up c x =
     bindc (ensure_engine c x) (\<lambda>_.
     bindc (on_engine (modify (configure_engine c))) (\<lambda>_.
     bindc (arm c x) (\<lambda>_.
     bindc (start_ws c x) (\<lambda>_.
     bindc (rehydrate x) (\<lambda>_.
     bindc (reconcile_broker_orders c x) (\<lambda>_.
     bindc (reconcile_start c x) (\<lambda>_.
     prime_fills c x)))))))"

text \<open>The first selection: \<open>False\<close> when a kill check stops the run before it.\<close>

definition first_selection :: "RunnerConfig \<Rightarrow> RunnerEnv \<Rightarrow> bool ruc" where
  "first_selection c x =
     bindc (kill_check c x) (\<lambda>kill. case kill of
       Some r \<Rightarrow> bindc (trip_kill c r) (\<lambda>_. ret False)
     | None \<Rightarrow>
         bindc (rediscover c x) (\<lambda>_.
         bindc (reselect c x) (\<lambda>_.
         bindc (mono_time x) (\<lambda>now.
         bindc (modify (ru_last_reeval_update (\<lambda>_. now))) (\<lambda>_. ret True)))))"

definition reselection_due :: "RunnerConfig \<Rightarrow> double \<Rightarrow> bool ruc" where
  "reselection_due c now =
     bindc (reading (\<lambda>s. ru_force_reselect s \<or> cf_reeval_interval_s c \<le> now - ru_last_reeval s)) (\<lambda>due.
     bindc (modify (ru_force_reselect_update (\<lambda>_. False))) (\<lambda>_. ret due))"

text \<open>One round of the loop; \<open>False\<close> when it leaves the loop.  \<open>sig\<close>: a signal has arrived.\<close>

definition main_round :: "RunnerConfig \<Rightarrow> RunnerEnv \<Rightarrow> bool \<Rightarrow> bool ruc" where
  "main_round c x sig =
     bindc (if sig then trip_kill c ''signal'' else ret ()) (\<lambda>_.
     bindc (reading ru_stop) (\<lambda>stop.
     if stop then ret False
     else
       bindc (kill_check c x) (\<lambda>kill. case kill of
         Some r \<Rightarrow> bindc (trip_kill c r) (\<lambda>_. ret False)
       | None \<Rightarrow>
           bindc (mono_time x) (\<lambda>now.
           bindc (reselection_due c now) (\<lambda>due.
           bindc (if due then
                    bindc tick_cooldowns (\<lambda>_.
                    bindc (reevaluate_held c x) (\<lambda>_.
                    bindc (reselect c x) (\<lambda>_. modify (ru_last_reeval_update (\<lambda>_. now)))))
                  else ret ()) (\<lambda>_.
           bindc (poll_once c x) (\<lambda>_.
           bindc (modify (ru_wake_update (\<lambda>_. False))) (\<lambda>_. ret True))))))))"

section \<open>The threads as steps\<close>

datatype run_phase = Selecting | Looping | Down

text \<open>A frame of the market channel, and the price callbacks it makes\<close>

definition market_frame :: "RunnerEnv \<Rightarrow> mono_clock \<Rightarrow> string \<Rightarrow> unit ruc" where
  "market_frame x clk raw =
     bindc (reading ru_market) (\<lambda>m. case m of
       None \<Rightarrow> ret ()
     | Some ch \<Rightarrow>
         let (calls, ch') = handle_message (w_jl (rx_world x)) clk raw ch in
         bindc (modify (ru_market_update (\<lambda>_. Some ch'))) (\<lambda>_.
         ignoring (for_each (\<lambda>(t, mid). bindc (on_ws_price x t mid) (\<lambda>_. ret [()])) calls)))"

text \<open>
  The callbacks of the threads run between the rounds: frames of the two channels, the book
  snapshots of the resync workers, the discovery thread and the curator.
\<close>

inductive thread_call :: "RunnerConfig \<Rightarrow> RunnerEnv \<Rightarrow> Runner \<Rightarrow> Runner \<Rightarrow> bool" for c x where
  "thread_call c x s (snd (market_frame x clk raw s))"
| "thread_call c x s (snd (resync_once c x clk tok s))"
| "thread_call c x s (snd (rediscover c x s))"
| "thread_call c x s (s\<lparr>ru_user := map_option (user_message (w_jl (rx_world x)) raw) (ru_user s)\<rparr>)"
| "thread_call c x s (apply_curator csv s)"

text \<open>An exception in the first selection or in a round ends the run as a stop does.\<close>

inductive runner_step :: "RunnerConfig \<Rightarrow> RunnerEnv \<Rightarrow> run_phase \<times> Runner \<Rightarrow> run_phase \<times> Runner \<Rightarrow> bool" for c x where
  selected: "first_selection c x s = (Inr True, s') \<Longrightarrow> runner_step c x (Selecting, s) (Looping, s')"
| not_selected: "first_selection c x s = (r, s') \<Longrightarrow> r \<noteq> Inr True \<Longrightarrow> runner_step c x (Selecting, s) (Down, snd (shutdown c x s'))"
| round: "main_round c x sig s = (Inr True, s') \<Longrightarrow> runner_step c x (Looping, s) (Looping, s')"
| round_ends: "main_round c x sig s = (r, s') \<Longrightarrow> r \<noteq> Inr True \<Longrightarrow> runner_step c x (Looping, s) (Down, snd (shutdown c x s'))"
| threads: "ph \<noteq> Down \<Longrightarrow> thread_call c x s s' \<Longrightarrow> runner_step c x (ph, s) (ph, s')"

end
