(* ===== verification/RunnerLaws.thy ===== *)
theory RunnerLaws
  imports Runner EngineProofs
begin

text \<open>
  Laws of the trading loop: what every operation, every callback of a thread and every step keeps.
  A relation on runners that the loop's few kinds of change satisfy holds along every run; the
  finality of a kill, the settings a run was armed with and the memory of counted fills are
  instances.  The last part is the order in which a pool is left.
\<close>

section \<open>Rules for the loop's combinators\<close>

context evolution begin

lemma wrapped: "obeys R m \<Longrightarrow> obeys R (attempt m)" "obeys R m \<Longrightarrow> obeys R (ignoring m)"
  unfolding attempt_def ignoring_def catch_any_def by (intro sequenced pure caught; assumption)+

lemma more_branches:
  "(\<And>a b. p = (a, b) \<Longrightarrow> obeys R (l a b y)) \<Longrightarrow> obeys R ((case p of (a, b) \<Rightarrow> l a b) y)"
  "(\<And>e. r = Inl e \<Longrightarrow> obeys R (f e)) \<Longrightarrow> (\<And>v. r = Inr v \<Longrightarrow> obeys R (g v)) \<Longrightarrow>
     obeys R (case r of Inl e \<Rightarrow> f e | Inr v \<Rightarrow> g v)"
  "obeys R m \<Longrightarrow> obeys R n \<Longrightarrow> obeys R (case b of True \<Rightarrow> m | False \<Rightarrow> n)"
  by (auto split: prod.split sum.split bool.split)

lemma fields: "obeys R (text_field j k)" "obeys R (num_field j k)" "obeys R (order_token o1)" "obeys R (order_oid o1)"
proof -
  show t: "obeys R (text_field j k)" "obeys R (num_field j k)" for j k
    unfolding text_field_def num_field_def by (intro branches pure)+
  show "obeys R (order_token o1)" "obeys R (order_oid o1)"
    unfolding order_token_def order_oid_def by (intro sequenced branches pure t)+
qed

end

section \<open>Laws of the whole loop\<close>

definition vital :: "Runner \<Rightarrow> bool \<times> string \<times> string option \<times> double option \<times> bool \<times> string set \<times> string list" where
  "vital s = (ru_stop s, ru_kill_reason s, ru_latch s, ru_usdc_start s, ru_submitter s, ru_seen s)"

locale runner_law = evolution R for R :: "Runner \<Rightarrow> Runner \<Rightarrow> bool" +
  fixes c :: RunnerConfig
  assumes unrelated: "vital t = vital s \<Longrightarrow> R s t"
    and killed: "R s (tripped c reason s)"
    and remembered: "tid \<noteq> [] \<Longrightarrow> tid \<notin> fst (ru_seen s) \<Longrightarrow> R s (s\<lparr>ru_seen := remember tid (ru_seen s)\<rparr>)"
begin

lemma quiet: "(\<And>s. vital (f s) = vital s) \<Longrightarrow> obeys R (modify f)"
  by (rule modified) (rule unrelated)

lemma transacted: "(\<And>s. vital (snd (f s)) = vital s) \<Longrightarrow> obeys R (transact f)"
  unfolding obeys_def transact_def by (auto split: prod.split intro!: unrelated) (metis snd_conv)

lemma engine_calls: "obeys R (on_engine m)"
  unfolding on_engine_def
  by (rule on_part_obeys[where Q = "\<lambda>_ _. True"]) (auto simp: obeys_def vital_def intro!: unrelated)

lemma asking: "obeys R asked" "obeys R (mono_time x)"
proof -
  show a: "obeys R asked" by (auto simp: obeys_def asked_def vital_def intro!: unrelated)
  show "obeys R (mono_time x)" unfolding mono_time_def by (intro sequenced pure a)
qed

lemma killing_obeys: "obeys R (trip_kill c reason)"
  unfolding trip_kill_def by (intro modified killed)

lemmas base = pure sequenced caught repeated branches more_branches engine_calls asking wrapped fields killing_obeys

lemma submits: "obeys R (locked_submit x a)" "obeys R wake_loop" "obeys R held_tokens" "obeys R (refresh_reflex_refs c)"
  "obeys R (sync_ws_subscriptions c)"
proof -
  show "obeys R (locked_submit x a)" "obeys R wake_loop" and h: "obeys R held_tokens" and r: "obeys R (refresh_reflex_refs c)"
    unfolding locked_submit_def wake_loop_def held_tokens_def refresh_reflex_refs_def
    by (intro base quiet; simp add: vital_def)+
  show "obeys R (sync_ws_subscriptions c)"
    unfolding sync_ws_subscriptions_def by (intro base quiet h r; simp add: vital_def)
qed

lemma exits: "obeys R (pull_legs c x q)" "obeys R (exit_held c x cond q reason)" "obeys R tick_cooldowns"
proof -
  show p: "obeys R (pull_legs c x q)" unfolding pull_legs_def by (intro base submits)
  show "obeys R (exit_held c x cond q reason)" "obeys R tick_cooldowns"
    unfolding exit_held_def tick_cooldowns_def
    by (intro base quiet p; simp add: vital_def forget_pool_def cool_down_def)+
qed

lemma places: "obeys R (spread_for c x cond pool)" "obeys R (place_pool c x cond pool)" "obeys R (add_pool c x p committed)"
  "obeys R (add_pools c x ps committed)"
proof -
  show f: "obeys R (spread_for c x cond pool)" for cond pool unfolding spread_for_def by (intro base)
  show p: "obeys R (place_pool c x cond pool)" for cond pool unfolding place_pool_def by (intro base f)
  show a: "obeys R (add_pool c x p committed)" for p committed
    unfolding add_pool_def by (intro base quiet p; simp add: vital_def)
  show "obeys R (add_pools c x ps committed)" by (induction ps arbitrary: committed) (auto intro!: base a)
qed

lemma selects: "obeys R (rediscover c x)" "obeys R (reselect c x)"
proof -
  show "obeys R (rediscover c x)" unfolding rediscover_def by (intro base quiet; simp add: vital_def)
  have d: "obeys R (drop_pool c x want quotes cond)" for want quotes cond
    unfolding drop_pool_def by (intro base exits quiet; simp add: vital_def forget_pool_def)
  show "obeys R (reselect c x)"
    unfolding reselect_def report_stale_def chosen_pools_def by (intro base d places submits)
qed

lemma judges: "obeys R (rescore x cond q)" "obeys R (judge c x p)" "obeys R (reevaluate_held c x)"
proof -
  show r: "obeys R (rescore x cond q)" for cond q unfolding rescore_def by (intro base)
  have f: "obeys R (fade_toxic c cond tok)" for cond tok
    unfolding fade_toxic_def by (intro base quiet; simp add: vital_def fade_count_def Let_def)
  show j: "obeys R (judge c x p)" for p unfolding judge_def by (intro base exits f)
  have d: "obeys R (due_row c now quotes cond)" for now quotes cond
    unfolding due_row_def by (intro base quiet; simp add: vital_def forget_pool_def)
  show "obeys R (reevaluate_held c x)" unfolding reevaluate_held_def by (intro base j r d)
qed

lemma counts: "obeys R (count_fill c x f)"
proof -
  have churn: "obeys R (note_churn c x tok)" for tok
    unfolding note_churn_def by (intro base quiet; simp add: vital_def)
  have rest: "obeys R (new_fill c x f)" unfolding new_fill_def by (intro base churn)
  have new: "R s (snd (bindc (modify (ru_seen_update (if tid \<noteq> [] then remember tid else id))) (\<lambda>_. new_fill c x f) s))"
    if new: "\<not> (tid \<noteq> [] \<and> tid \<in> fst (ru_seen s))" for tid s
  proof -
    let ?t = "ru_seen_update (if tid \<noteq> [] then remember tid else id) s"
    have "R s ?t"
    proof (cases "tid = []")
      case True
      then show ?thesis using unrelated[of ?t s] by (simp add: vital_def)
    next
      case False
      then have "?t = s\<lparr>ru_seen := remember tid (ru_seen s)\<rparr>" by (cases s) simp
      moreover have "R s (s\<lparr>ru_seen := remember tid (ru_seen s)\<rparr>)" using new False by (intro remembered) auto
      ultimately show ?thesis by metis
    qed
    moreover have "R ?t (snd (new_fill c x f ?t))" using rest by (simp add: obeys_def)
    ultimately show ?thesis by (auto simp: bindc_def modify_def intro: follows)
  qed
  have "obeys R (bindc (reading ru_seen) (\<lambda>seen. if tid \<noteq> [] \<and> tid \<in> fst seen then ret [] else
       bindc (modify (ru_seen_update (if tid \<noteq> [] then remember tid else id))) (\<lambda>_. new_fill c x f)))" for tid
    unfolding obeys_def
  proof
    fix s
    show "R s (snd (bindc (reading ru_seen) (\<lambda>seen. if tid \<noteq> [] \<and> tid \<in> fst seen then ret [] else
       bindc (modify (ru_seen_update (if tid \<noteq> [] then remember tid else id))) (\<lambda>_. new_fill c x f)) s))"
      using new[of tid s] unfolding bindc_def[of "reading ru_seen"] reading_def continue_with.simps
      by (cases "tid \<noteq> [] \<and> tid \<in> fst (ru_seen s)") (simp_all only: if_True if_False ret_def snd_conv stays simp_thms)
  qed
  then show ?thesis unfolding count_fill_def by (rule sequenced[OF fields(1)])
qed

lemma polls: "obeys R (poll_fills c x)" "obeys R (poll_once c x)" "obeys R (taking_forced c x)"
proof -
  have ff: "obeys R (fetch_fills x)" unfolding fetch_fills_def by (intro base quiet; simp add: vital_def)
  show p: "obeys R (poll_fills c x)" unfolding poll_fills_def by (intro base ff counts)
  have tok: "vital (snd (refresh_token i now tok a)) = vital (snd a)" for i now tok a
    by (cases a) (auto simp: refresh_token_def vital_def split: option.split)
  have "vital (snd (foldl (\<lambda>a tok. refresh_token i now tok a) a toks)) = vital (snd a)" for i now a toks
    by (induction toks arbitrary: a) (simp_all add: tok)
  then have "vital (snd (refreshed c now forced s)) = vital s" for now forced s
    by (simp add: refreshed_def Let_def vital_def split: prod.split) (metis snd_conv)
  then have t: "obeys R (taking_forced c x)"
    unfolding taking_forced_def by (intro base transacted quiet; simp add: vital_def)
  have a: "obeys R (accrue c x)" unfolding accrue_def by (intro base p t)
  have "vital (note_mid now tok row s) = vital s" "vital (note_share tok row s) = vital s" for now tok row s
    by (simp_all add: note_mid_def note_share_def vital_def split: option.split)
  moreover have "vital (note_exit c cond row s) = vital s" for cond row s
    by (simp add: note_exit_def vital_def cool_down_def forget_pool_def split: option.split json.split)
  ultimately have n: "vital (note_row c now row s) = vital s" for now row s by (simp add: note_row_def Let_def)
  have "vital (foldl (\<lambda>s row. note_row c now row s) s rows) = vital s" for now s rows
    by (induction rows arbitrary: s) (simp_all add: n)
  then show "obeys R (poll_once c x)" unfolding poll_once_def by (intro base a quiet submits)
  show "obeys R (taking_forced c x)" by (rule t)
qed

lemmas forced = polls(3)

lemma checks: "obeys R (kill_check c x)"
proof -
  have o: "obeys R (sweep_orphan x tracked p)" for tracked p unfolding sweep_orphan_def by (intro base submits)
  have ch: "obeys R (refresh_chain c x)"
    unfolding refresh_chain_def by (intro base o quiet; simp add: vital_def)
  have "obeys R (sample_equity c x start)" for start
    unfolding sample_equity_def by (intro base ch quiet; simp add: vital_def count_drawdown_def)
  then have e: "obeys R (equity_drawdown c x)" unfolding equity_drawdown_def by (intro base)
  have "obeys R (ledger_drop c)" "obeys R (wallet_low c x)"
    unfolding ledger_drop_def wallet_low_def by (intro base quiet; simp add: vital_def)+
  then show ?thesis unfolding kill_check_def by (intro base e)
qed

lemma pulls: "obeys R (reflex_pull x token)" "obeys R (on_ws_price x token mid)" "obeys R (compute_and_store_signals c x token)"
proof -
  show p: "obeys R (reflex_pull x token)"
    unfolding reflex_pull_def catch_any_def
    by (intro base submits transacted quiet; simp add: vital_def claim_pull_def)
  show "obeys R (on_ws_price x token mid)" unfolding on_ws_price_def by (intro base p)
  have "obeys R (fade c x token)"
    unfolding fade_def by (intro base p transacted; simp add: vital_def claim_fade_def)
  then show "obeys R (compute_and_store_signals c x token)"
    unfolding compute_and_store_signals_def by (intro base submits)
qed

lemma shuts: "obeys R (shutdown c x)"
proof -
  have co: "obeys R (cancel_order_at x oid)" for oid unfolding cancel_order_at_def by (intro base quiet; simp add: vital_def)
  have "obeys R (close_quote c x q)" "obeys R (sweep_order c x own o1)" "obeys R (flatten_one x r)" for q own o1 r
    unfolding close_quote_def sweep_order_def flatten_one_def by (intro base exits co submits)+
  note parts = this
  then have "obeys R (sweep_book c x)" unfolding sweep_book_def by (intro base)
  moreover have "obeys R (flatten_rounds x k rs)" for k rs
    by (induction k arbitrary: rs) (auto intro!: base parts)
  ultimately show ?thesis unfolding shutdown_def by (intro base parts polls)
qed

lemma rounds: "obeys R (first_selection c x)" "obeys R (main_round c x sig)"
proof -
  show "obeys R (first_selection c x)"
    unfolding first_selection_def by (intro base checks selects quiet; simp add: vital_def)
  have "obeys R (reselection_due c now)" for now
    unfolding reselection_due_def by (intro base quiet; simp add: vital_def)
  then show "obeys R (main_round c x sig)"
    unfolding main_round_def by (intro base checks exits judges selects polls quiet; simp add: vital_def)
qed

lemma thread_law: "thread_call c x s s' \<Longrightarrow> R s s'"
proof (induction rule: thread_call.induct)
  case (1 s clk raw)
  have "obeys R (market_frame x clk raw)" unfolding market_frame_def by (intro base pulls quiet; simp add: vital_def)
  then show ?case by (simp add: obeys_def)
next
  case (2 s clk tok)
  have "obeys R (resync_once c x clk tok)" unfolding resync_once_def by (intro base pulls quiet; simp add: vital_def)
  then show ?case by (simp add: obeys_def)
next
  case 3
  then show ?case using selects by (simp add: obeys_def)
qed (auto intro!: unrelated simp: vital_def apply_curator_def)

lemma step_law: "runner_step c x (ph, s) (ph', s') \<Longrightarrow> R s s'"
proof (induction "(ph, s)" "(ph', s')" rule: runner_step.induct)
  case (not_selected r s1)
  then show ?case using obeysD[OF rounds(1) not_selected(1)] obeysD[OF shuts, of x s1 _ s'] by (metis follows prod.collapse)
next
  case (round_ends sig r s1)
  then show ?case using obeysD[OF rounds(2) round_ends(1)] obeysD[OF shuts, of x s1 _ s'] by (metis follows prod.collapse)
qed (auto dest: obeysD[OF rounds(1)] obeysD[OF rounds(2)] thread_law)

lemma run_law: "(runner_step c x)\<^sup>*\<^sup>* p p' \<Longrightarrow> R (snd p) (snd p')"
proof (induction rule: rtranclp_induct)
  case base
  show ?case by (rule stays)
next
  case (step q r)
  then have "R (snd q) (snd r)" using step_law by (cases q; cases r) auto
  then show ?case using step.IH by (rule follows[rotated])
qed

end

section \<open>A kill is final\<close>

definition kill_part :: "Runner \<Rightarrow> bool \<times> string \<times> string option" where
  "kill_part s = (ru_stop s, ru_kill_reason s, ru_latch s)"

definition kill_once :: "RunnerConfig \<Rightarrow> Runner \<Rightarrow> Runner \<Rightarrow> bool" where
  "kill_once c s t \<longleftrightarrow> kill_part t = kill_part s \<or> (\<exists>reason. kill_part t = kill_part (tripped c reason s))"

interpretation killing: runner_law "kill_once c" c for c
proof
  show "kill_once c s u" if "kill_once c s t" "kill_once c t u" for s t u
    using that by (fastforce simp: kill_once_def kill_part_def tripped_def split: if_splits)
qed (auto simp: kill_once_def kill_part_def vital_def)

text \<open>
  C9: whatever the rounds and the threads do, the first kill of a run is its last: once the stop flag
  is set it stays set, with the reason and the latch file of that kill; and a run that was not
  stopped before has, when it is stopped, left the latch file exactly if it is a live run and the
  reason is neither a signal nor the latch itself.
\<close>

theorem kill_is_final:
  assumes "(runner_step c x)\<^sup>*\<^sup>* (ph, s) (ph', s')"
  shows "(ru_stop s \<longrightarrow> ru_stop s' \<and> ru_kill_reason s' = ru_kill_reason s \<and> ru_latch s' = ru_latch s) \<and>
    (\<not> ru_stop s \<longrightarrow> ru_latch s' =
       (if ru_stop s' \<and> latching c (ru_kill_reason s') then Some (ru_kill_reason s') else ru_latch s))"
proof -
  have "kill_once c s s'" using killing.run_law[OF assms] by simp
  then show ?thesis by (auto simp: kill_once_def kill_part_def tripped_def)
qed

section \<open>What the run was armed with\<close>

definition armed_same :: "Runner \<Rightarrow> Runner \<Rightarrow> bool" where
  "armed_same s t \<longleftrightarrow> ru_usdc_start t = ru_usdc_start s \<and> ru_submitter t = ru_submitter s"

interpretation arming: runner_law armed_same c for c
  by unfold_locales (auto simp: armed_same_def vital_def tripped_def)

section \<open>A fill is counted once\<close>

definition memory_grows :: "Runner \<Rightarrow> Runner \<Rightarrow> bool" where
  "memory_grows s t \<longleftrightarrow> (\<forall>h. memory_ok h (ru_seen s) \<longrightarrow> (\<exists>h'. memory_ok (h @ h') (ru_seen t)))"

interpretation remembering: runner_law memory_grows c for c
proof
  show "memory_grows s u" if "memory_grows s t" "memory_grows t u" for s t u
    using that unfolding memory_grows_def by (metis append.assoc)
  show "memory_grows s t" if "vital t = vital s" for s t
    using that by (auto simp: memory_grows_def vital_def intro: exI[of _ "[]"])
  show "memory_grows s s" for s by (auto simp: memory_grows_def intro: exI[of _ "[]"])
  show "memory_grows s (tripped c reason s)" for c reason s
    by (auto simp: memory_grows_def tripped_def intro: exI[of _ "[]"])
  show "memory_grows s (s\<lparr>ru_seen := remember tid (ru_seen s)\<rparr>)" if "tid \<notin> fst (ru_seen s)" for tid s
    unfolding memory_grows_def
  proof (intro allI impI)
    fix h assume "memory_ok h (ru_seen s)"
    then have "memory_ok (h @ [tid]) (remember tid (ru_seen s))" by (rule remember_ok[OF _ that])
    then show "\<exists>h'. memory_ok (h @ h') (ru_seen (s\<lparr>ru_seen := remember tid (ru_seen s)\<rparr>))" by auto
  qed
qed

section \<open>Leaving a pool\<close>

definition sent :: "Runner \<Rightarrow> json list" where
  "sent s = en_sent (ru_engine s)"

lemma on_engine_run: "on_engine m s = (case m (ru_engine s) of (r, e) \<Rightarrow> (r, s\<lparr>ru_engine := e\<rparr>))"
  by (simp add: on_engine_def on_part_def)

lemma submit_run: "locked_submit x a s =
    (if ru_submitter s then (rx_sub x (sent s) a, s\<lparr>ru_engine := (ru_engine s)\<lparr>en_sent := sent s @ [a]\<rparr>\<rparr>) else (Inr JNull, s))"
  by (simp add: locked_submit_def comp_simps on_engine_run send_action_def sent_def)

text \<open>What is handed to the submitter when a pool is left\<close>

definition pull_actions :: "RunnerConfig \<Rightarrow> json \<Rightarrow> json list" where
  "pull_actions c q =
     cancel_all_action (text_of q ''token_id'') #
     (if text_of q ''complement_token_id'' \<noteq> [] then [cancel_all_action (text_of q ''complement_token_id'')] else []) @
     (if cf_live c \<and> lit (1 / 10 ^ 9) \<le> dabs (num_of q ''inventory'')
      then [flatten_action (text_of q ''token_id'') (num_of q ''inventory'')] else [])"

lemma engine_only: "obeys (same (\<lambda>s. s\<lparr>ru_engine := e\<rparr>)) (locked_submit x a)" "obeys (same (\<lambda>s. s\<lparr>ru_engine := e\<rparr>)) (pull_legs c x q)"
proof -
  show l: "obeys (same (\<lambda>s. s\<lparr>ru_engine := e\<rparr>)) (locked_submit x a)" for a
    by (simp add: obeys_def same_def submit_run)
  show "obeys (same (\<lambda>s. s\<lparr>ru_engine := e\<rparr>)) (pull_legs c x q)"
    unfolding pull_legs_def ignoring_def by (intro same.pure same.sequenced same.branches l)
qed

text \<open>What a computation hands to the submitter: all of the list, or a first part when it throws\<close>

definition emits :: "json list \<Rightarrow> 'a ruc \<Rightarrow> bool" where
  "emits as m \<longleftrightarrow> (\<forall>s. ru_submitter s \<longrightarrow> ru_submitter (snd (m s)) \<and>
     (case fst (m s) of Inl _ \<Rightarrow> \<exists>n. sent (snd (m s)) = sent s @ take n as | Inr _ \<Rightarrow> sent (snd (m s)) = sent s @ as))"

lemma emitsD:
  assumes "emits as m" "ru_submitter s" "m s = (r, s')"
  shows "\<exists>n. sent s' = sent s @ take n as" "r = Inr v \<Longrightarrow> sent s' = sent s @ as" "ru_submitter s'"
proof -
  have e: "ru_submitter s' \<and> (case r of Inl _ \<Rightarrow> \<exists>n. sent s' = sent s @ take n as | Inr _ \<Rightarrow> sent s' = sent s @ as)"
    using assms unfolding emits_def by (metis fst_conv snd_conv)
  then show "ru_submitter s'" ..
  show "\<exists>n. sent s' = sent s @ take n as" using e by (cases r) (auto intro: exI[of _ "length as"])
  show "sent s' = sent s @ as" if "r = Inr v" using e that by simp
qed

lemma emits_submit: "emits [a] (locked_submit x a)"
  by (auto simp: emits_def submit_run sent_def split: sum.split intro: exI[of _ "Suc 0"])

lemma emits_none: "emits [] (ret v)" "emits [] (reading f)"
  "(\<And>s. sent (f s) = sent s \<and> ru_submitter (f s) = ru_submitter s) \<Longrightarrow> emits [] (modify f)"
  by (simp_all add: emits_def comp_simps)

lemma silent_run:
  assumes "obeys (sends (\<lambda>_. False)) m" "m e = (r, e')" shows "en_sent e' = en_sent e"
proof -
  obtain as where "en_sent e' = en_sent e @ as" "list_all (\<lambda>_. False) as"
    using obeysD[OF assms] by (auto simp: sends_def)
  then show ?thesis by (cases as) auto
qed

lemma emits_engine:
  assumes "obeys (sends (\<lambda>_. False)) m" shows "emits [] (on_engine m)"
  by (auto simp: emits_def on_engine_run sent_def silent_run[OF assms] split: prod.split sum.split)

lemma emits_bind:
  assumes "emits as m" "\<And>v. emits bs (k v)" shows "emits (as @ bs) (bindc m k)"
  unfolding emits_def
proof (intro allI impI)
  fix s :: Runner
  assume s: "ru_submitter s"
  obtain r t where m: "m s = (r, t)" by fastforce
  have t: "ru_submitter t" using emitsD(3)[OF assms(1) s m] .
  show "ru_submitter (snd (bindc m k s)) \<and> (case fst (bindc m k s) of Inl _ \<Rightarrow> \<exists>n. sent (snd (bindc m k s)) = sent s @ take n (as @ bs)
      | Inr _ \<Rightarrow> sent (snd (bindc m k s)) = sent s @ as @ bs)"
  proof (cases r)
    case (Inl e)
    obtain n where "sent t = sent s @ take n as" using emitsD(1)[OF assms(1) s m] by blast
    then have "sent t = sent s @ take (min n (length as)) (as @ bs)" by (simp add: take_all_iff min_def)
    then have "\<exists>n. sent t = sent s @ take n (as @ bs)" ..
    then show ?thesis using Inl m t by (simp add: bindc_def)
  next
    case (Inr v)
    have as: "sent t = sent s @ as" using emitsD(2)[OF assms(1) s m Inr] .
    obtain r' u where k: "k v t = (r', u)" by fastforce
    have u: "ru_submitter u" using emitsD(3)[OF assms(2) t k] .
    obtain n where "sent u = sent t @ take n bs" using emitsD(1)[OF assms(2) t k] by blast
    then have "sent u = sent s @ take (length as + n) (as @ bs)" using as by simp
    then have "\<exists>n. sent u = sent s @ take n (as @ bs)" ..
    then show ?thesis using Inr m k u as emitsD(2)[OF assms(2) t k]
      by (auto simp: bindc_def simp del: take_append split: sum.split)
  qed
qed

lemma emits_if: "(b \<Longrightarrow> emits as m) \<Longrightarrow> (\<not> b \<Longrightarrow> emits [] n) \<Longrightarrow> emits (if b then as else []) (if b then m else n)"
  by simp

lemma emits_ignoring: "emits as m \<Longrightarrow> emits as (ignoring m)"
  unfolding ignoring_def using emits_bind[of as m "[]" "\<lambda>_. ret ()", OF _ emits_none(1)] by simp

lemma pull_legs_emits: "emits (pull_actions c q) (pull_legs c x q)"
proof -
  have "emits ([cancel_all_action (text_of q ''token_id'')] @
     (if text_of q ''complement_token_id'' \<noteq> [] then [cancel_all_action (text_of q ''complement_token_id'')] else []) @
     (if cf_live c \<and> lit (1 / 10 ^ 9) \<le> dabs (num_of q ''inventory'')
      then [flatten_action (text_of q ''token_id'') (num_of q ''inventory'')] else [])) (pull_legs c x q)"
    unfolding pull_legs_def Let_def by (intro emits_bind emits_submit emits_if emits_ignoring emits_none)
  then show ?thesis by (simp add: pull_actions_def)
qed

lemma cancel_quote_silent: "obeys (sends (\<lambda>_. False)) (cancel_maker_quote w i)"
  unfolding cancel_maker_quote_def cancel_quote_def record_equity_def edb_now_def committed_maker_capital_def require_account_def
    catch_any_def by (intro sends_intros)

text \<open>Which fields an operation leaves alone\<close>

lemma engine_same: "(\<And>s e. p (s\<lparr>ru_engine := e\<rparr>) = p s) \<Longrightarrow> obeys (same p) (on_engine m)"
  by (auto simp: obeys_def same_def on_engine_run split: prod.split)

lemma exit_heldE:
  assumes "exit_held c x cond q reason s = (r, s')"
    and "\<not> (reason \<in> reward_or_jump_exits \<and> is_effectively_whitelisted c s cond)"
  obtains r1 s1 where "(if use_live_path c s then pull_legs c x q else ret ()) s = (r1, s1)"
    "case r1 of Inl e \<Rightarrow> r = Inl e \<and> s' = s1
      | Inr _ \<Rightarrow> (case on_engine (cancel_maker_quote (rx_world x) (id_of q)) s1 of (r2, s2) \<Rightarrow> (case r2 of
          Inl e \<Rightarrow> r = Inl e \<and> s' = s2
        | Inr _ \<Rightarrow> r = Inr () \<and> s' = (if reason \<in> cooldown_reasons then cool_down c cond else id) (forget_pool cond s2)))"
proof -
  obtain r1 s1 where 1: "(if use_live_path c s then pull_legs c x q else ret ()) s = (r1, s1)" by fastforce
  obtain r2 s2 where 2: "on_engine (cancel_maker_quote (rx_world x) (id_of q)) s1 = (r2, s2)" by fastforce
  show ?thesis
  proof (rule that[OF 1])
    show "case r1 of Inl e \<Rightarrow> r = Inl e \<and> s' = s1
      | Inr _ \<Rightarrow> (case on_engine (cancel_maker_quote (rx_world x) (id_of q)) s1 of (r2, s2) \<Rightarrow> (case r2 of
          Inl e \<Rightarrow> r = Inl e \<and> s' = s2
        | Inr _ \<Rightarrow> r = Inr () \<and> s' = (if reason \<in> cooldown_reasons then cool_down c cond else id) (forget_pool cond s2)))"
      using assms 1 2 by (cases r1; cases r2) (auto simp: exit_held_def comp_simps)
  qed
qed

lemma exit_held_run:
  assumes run: "exit_held c x cond q reason s = (r, s')"
  shows "if reason \<in> reward_or_jump_exits \<and> is_effectively_whitelisted c s cond then r = Inr () \<and> s' = s
    else (\<exists>n. sent s' = sent s @ take n (if use_live_path c s then pull_actions c q else [])) \<and>
      (r = Inr () \<longrightarrow> sent s' = sent s @ (if use_live_path c s then pull_actions c q else []) \<and>
         ru_placed s' = smap_erase cond (ru_placed s) \<and> ru_placed_at s' = smap_erase cond (ru_placed_at s) \<and>
         ru_cooldown s' = (if reason \<in> cooldown_reasons then smap_put cond (cf_cooldown_rounds c) (ru_cooldown s)
                           else ru_cooldown s))"
proof (cases "reason \<in> reward_or_jump_exits \<and> is_effectively_whitelisted c s cond")
  case True
  then show ?thesis using run by (simp add: exit_held_def comp_simps)
next
  case False
  let ?as = "if use_live_path c s then pull_actions c q else []"
  from exit_heldE[OF run False] obtain r1 s1 where 1: "(if use_live_path c s then pull_legs c x q else ret ()) s = (r1, s1)"
    and 2: "case r1 of Inl e \<Rightarrow> r = Inl e \<and> s' = s1
      | Inr _ \<Rightarrow> (case on_engine (cancel_maker_quote (rx_world x) (id_of q)) s1 of (r2, s2) \<Rightarrow> (case r2 of
          Inl e \<Rightarrow> r = Inl e \<and> s' = s2
        | Inr _ \<Rightarrow> r = Inr () \<and> s' = (if reason \<in> cooldown_reasons then cool_down c cond else id) (forget_pool cond s2)))"
    by blast
  have s1: "(\<exists>n. sent s1 = sent s @ take n ?as) \<and> (\<forall>v. r1 = Inr v \<longrightarrow> sent s1 = sent s @ ?as)"
  proof (cases "use_live_path c s")
    case True
    then have "pull_legs c x q s = (r1, s1)" "ru_submitter s" using 1 by (auto simp: use_live_path_def)
    then show ?thesis using emitsD(1,2)[OF pull_legs_emits] True by (metis (full_types))
  qed (use 1 in \<open>simp add: ret_def\<close>)
  define e1 where "e1 = ru_engine s1"
  have "s1\<lparr>ru_engine := e1\<rparr> = s\<lparr>ru_engine := e1\<rparr>"
  proof (cases "use_live_path c s")
    case True
    then have "pull_legs c x q s = (r1, s1)" using 1 by simp
    from obeysD[OF engine_only(2) this] show ?thesis by (simp add: same_def)
  qed (use 1 in \<open>simp add: ret_def\<close>)
  moreover have "s1\<lparr>ru_engine := e1\<rparr> = s1" by (simp add: e1_def)
  ultimately have rest: "s1 = s\<lparr>ru_engine := e1\<rparr>" by metis
  show ?thesis
  proof (cases r1)
    case (Inl e)
    then show ?thesis using 2 s1 False by auto
  next
    case (Inr u)
    obtain r2 s2 where r2: "on_engine (cancel_maker_quote (rx_world x) (id_of q)) s1 = (r2, s2)" by fastforce
    then obtain e2 where e2: "cancel_maker_quote (rx_world x) (id_of q) (ru_engine s1) = (r2, e2)" "s2 = s1\<lparr>ru_engine := e2\<rparr>"
      by (auto simp: on_engine_run split: prod.splits)
    have s2: "sent s2 = sent s @ ?as" "ru_placed s2 = ru_placed s" "ru_placed_at s2 = ru_placed_at s" "ru_cooldown s2 = ru_cooldown s"
      using silent_run[OF cancel_quote_silent e2(1)] s1 Inr e2(2) by (simp_all add: sent_def rest)
    then show ?thesis using 2 Inr r2 False
      by (cases r2) (auto simp: forget_pool_def cool_down_def sent_def intro: exI[of _ "length ?as"])
  qed
qed

text \<open>
  C12: a pool the curator or the operator listed is not left for its rewards or its jumps. Otherwise
  leaving a pool hands the submitter, when there is a live path, the cancellations of both legs and
  then, in a live run with inventory, the sale of the first leg's inventory, in this order and all
  of it unless an exception cuts it short; only then is the quote cancelled in the ledger. When it
  succeeds the pool is forgotten and cools down exactly for the reasons that ask for it.
\<close>

theorem exit_held_order:
  assumes run: "exit_held c x cond q reason s = (r, s')"
  shows "if reason \<in> reward_or_jump_exits \<and> is_effectively_whitelisted c s cond then r = Inr () \<and> s' = s
    else (\<exists>n. sent s' = sent s @ take n (if use_live_path c s then pull_actions c q else [])) \<and>
      (r = Inr () \<longrightarrow> sent s' = sent s @ (if use_live_path c s then pull_actions c q else []) \<and>
         ru_placed s' = smap_erase cond (ru_placed s) \<and> ru_placed_at s' = smap_erase cond (ru_placed_at s) \<and>
         ru_cooldown s' = (if reason \<in> cooldown_reasons then smap_put cond (cf_cooldown_rounds c) (ru_cooldown s)
                           else ru_cooldown s))"
  using assms by (rule exit_held_run)

end
