(* ===== verification/RunnerSelect.thy ===== *)
theory RunnerSelect
  imports RunnerLaws
begin

text \<open>
  Selecting and placing pools: what a selection leaves placed, within the capital and outside of the
  cooldowns, and that the first selection takes no notice of the kill latch.
\<close>

section \<open>Selecting and placing\<close>

lemma attempt_same: "obeys (same p) m \<Longrightarrow> obeys (same p) (attempt m)"
  unfolding attempt_def catch_any_def by (intro same.pure same.sequenced same.caught; assumption)

lemma attempt_run: "attempt m s = (case m s of (Inl e, t) \<Rightarrow> (Inr None, t) | (Inr v, t) \<Rightarrow> (Inr (Some v), t))"
  by (simp add: attempt_def catch_any_def comp_simps) (cases "m s"; cases "fst (m s)"; simp add: comp_simps)

lemma place_same:
  assumes "\<And>s e. p (s\<lparr>ru_engine := e\<rparr>) = p s" shows "obeys (same p) (place_pool c x cond pool)"
proof -
  have "obeys (same p) (spread_for c x cond pool)"
    unfolding spread_for_def by (intro same.pure same.sequenced same.branches attempt_same engine_same assms)
  then show ?thesis
    unfolding place_pool_def by (intro same.pure same.sequenced same.branches engine_same assms)
qed

lemma dropped_placed:
  assumes "drop_pool c x want quotes cond s = (Inr u, s')"
  shows "ru_placed s' = (if smap_get want cond = None then smap_erase cond (ru_placed s) else ru_placed s)"
proof (cases "smap_get want cond = None \<and> smap_get quotes cond \<noteq> None")
  case True
  then obtain q where "exit_held c x cond q ''deselected'' s = (Inr (), s')"
    using assms by (auto simp: drop_pool_def comp_simps bindc_Inr ret_def continue_Inr)
  from exit_held_run[OF this] show ?thesis using True by (simp add: reward_or_jump_exits_def)
next
  case False
  then show ?thesis using assms by (auto simp: drop_pool_def comp_simps forget_pool_def split: if_splits)
qed

lemma drops_placed:
  assumes "for_each (drop_pool c x want quotes) conds s = (Inr u, s')"
  shows "ru_placed s' = filter (\<lambda>kv. smap_get want (fst kv) \<noteq> None \<or> fst kv \<notin> set conds) (ru_placed s)"
  using assms
proof (induction conds arbitrary: s u)
  case (Cons cond conds)
  obtain u1 s1 u2 where "drop_pool c x want quotes cond s = (Inr u1, s1)" "for_each (drop_pool c x want quotes) conds s1 = (Inr u2, s')"
    using Cons.prems unfolding for_each_Cons_Inr by blast
  then show ?case using Cons.IH dropped_placed by (auto simp: smap_erase_def intro!: filter_cong)
qed (simp add: comp_simps)

definition pool_caps :: "(string \<times> json) list \<Rightarrow> double list" where
  "pool_caps ps = map (\<lambda>kv. num_of (snd kv) ''committed_capital'') ps"

definition put_all :: "(string \<times> json) list \<Rightarrow> (string, json) smap \<Rightarrow> (string, json) smap" where
  "put_all ps m = foldl (\<lambda>m kv. smap_put (fst kv) (snd kv) m) m ps"

lemma added_pool:
  assumes "add_pool c x (cond, pool) committed s = (Inr tot, s')"
  shows "tot = committed \<and> ru_placed s' = ru_placed s \<or>
    tot = committed + num_of pool ''committed_capital'' \<and> \<not> cf_capital c + epsilon6 < tot \<and>
    ru_placed s' = smap_put cond pool (ru_placed s)"
proof -
  obtain r t where p: "place_pool c x cond pool s = (r, t)" by fastforce
  have "ru_placed t = ru_placed s"
    using obeysD[OF place_same[of ru_placed] p] by (simp add: same_def)
  then show ?thesis using assms p
    by (cases r) (auto simp: add_pool_def comp_simps Let_def attempt_run mono_time_def asked_def split: if_splits bool.splits)
qed

lemma added_pools:
  assumes "add_pools c x ps committed s = (Inr tot, s')"
  shows "\<exists>added. subseq added ps \<and> ru_placed s' = put_all added (ru_placed s) \<and>
    (\<forall>n \<in> {1..length added}. \<not> cf_capital c + epsilon6 < foldl (+) committed (take n (pool_caps added)))"
  using assms
proof (induction ps arbitrary: committed s)
  case Nil
  then show ?case by (auto simp: comp_simps put_all_def intro: exI[of _ "[]"])
next
  case (Cons p ps)
  obtain cond pool where p: "p = (cond, pool)" by fastforce
  obtain mid s1 where a: "add_pool c x p committed s = (Inr mid, s1)" and r: "add_pools c x ps mid s1 = (Inr tot, s')"
    using Cons.prems by (auto simp: bindc_Inr)
  obtain added where IH: "subseq added ps" "ru_placed s' = put_all added (ru_placed s1)"
    "\<forall>n \<in> {1..length added}. \<not> cf_capital c + epsilon6 < foldl (+) mid (take n (pool_caps added))"
    using Cons.IH[OF r] by blast
  consider "mid = committed" "ru_placed s1 = ru_placed s"
    | "mid = committed + num_of pool ''committed_capital''" "\<not> cf_capital c + epsilon6 < mid" "ru_placed s1 = smap_put cond pool (ru_placed s)"
    using added_pool a p by blast
  then show ?case
  proof cases
    case 1
    then show ?thesis using IH by (intro exI[of _ added]) auto
  next
    case 2
    have "\<not> cf_capital c + epsilon6 < foldl (+) committed (take n (pool_caps (p # added)))" if "n \<in> {1..length (p # added)}" for n
    proof (cases n)
      case (Suc m)
      then show ?thesis using 2 IH(3) that p by (cases "m = 0") (auto simp: pool_caps_def)
    qed (use that in simp)
    moreover have "ru_placed s' = put_all (p # added) (ru_placed s)" using IH(2) 2(3) p by (simp add: put_all_def)
    ultimately show ?thesis using IH(1) by (intro exI[of _ "p # added"]) auto
  qed
qed

lemma put_all_keys: "fst ` set (put_all ps m) = fst ` set m \<union> fst ` set ps"
  unfolding put_all_def by (induction ps arbitrary: m) (auto simp: smap_put_keys)

lemma wanted_keys: "fst ` set (wanted sel) = sp_condition_id ` set sel"
proof -
  have "fst ` set (foldl (\<lambda>m p. smap_put (sp_condition_id p) (selected_to_json p) m) m sel) = fst ` set m \<union> sp_condition_id ` set sel" for m
    by (induction sel arbitrary: m) (auto simp: smap_put_keys)
  then show ?thesis by (simp add: wanted_def)
qed

lemma smap_get_None: "smap_get m k = None \<longleftrightarrow> k \<notin> fst ` set m"
  by (simp add: smap_get_def map_of_eq_None_iff)

lemma sync_same:
  assumes "\<And>s e. p (s\<lparr>ru_engine := e\<rparr>) = p s" "\<And>s f. p (ru_market_update f s) = p s" "\<And>s u. p (s\<lparr>ru_user := u\<rparr>) = p s"
    and "\<And>s a b d. p (s\<lparr>ru_reflex_refs := a, ru_reflex_complement := b, ru_signal_v := d\<rparr>) = p s"
  shows "obeys (same p) (sync_ws_subscriptions c)"
  unfolding sync_ws_subscriptions_def held_tokens_def refresh_reflex_refs_def Let_def
  by (intro same.pure same.sequenced same.branches attempt_same engine_same modify_same assms)

text \<open>
  C11: what a completed selection leaves behind.  Every pool in the map belongs to a report of the last
  scan that passes all filters of the selection, so none of them is cooling down or off an active
  whitelist; the pools are those kept from before and those added now, and every added one still
  fitted into the capital, counted together with what was kept and added before it.
\<close>

theorem reselect_sound:
  assumes run: "reselect c x s = (Inr (), s')" and current: "fst (report_stale c x s) = Inr False"
    and sizes: "\<forall>p \<in> set (ru_report s). proper_size (pr_min_size p)"
  shows "\<exists>kept added. set kept \<subseteq> set (ru_placed s) \<and> ru_placed s' = put_all added kept \<and>
    (\<forall>cond \<in> fst ` set (ru_placed s'). cond \<notin> cooling s \<and>
       (\<exists>p \<in> set (ru_report s). pr_condition_id p = cond \<and> eligible (select_params c s) p)) \<and>
    (\<forall>n \<in> {1..length added}. \<not> cf_capital c + epsilon6 < foldl (+) (running_sum (pool_caps kept)) (take n (pool_caps added)))"
proof -
  obtain s1 where s1: "report_stale c x s = (Inr False, s1)" using current by (metis prod.collapse)
  have same1: "ru_placed s1 = ru_placed s" "ru_report s1 = ru_report s" "select_params c s1 = select_params c s"
    using s1 by (auto simp: report_stale_def comp_simps mono_time_def asked_def select_params_def cooling_def split: option.splits)
  obtain sel taken where sel: "select_pools (ru_report s) (select_params c s) = Some sel" "list_all2 stands_for taken sel"
    "\<forall>p \<in> set taken. p \<in> set (ru_report s) \<and> eligible (select_params c s) p"
    using select_pools_ok[OF sizes, of "select_params c s"] by blast
  obtain rows s2 where s2: "on_engine get_maker_quotes s1 = (Inr rows, s2)"
    and s3: "\<exists>u s3 tot s4. for_each (drop_pool c x (wanted sel) (quotes_by_cond rows)) (map fst (ru_placed s2)) s2 = (Inr u, s3) \<and>
      add_pools c x (wanted sel) (placed_capital s3) s3 = (Inr tot, s4) \<and> sync_ws_subscriptions c s4 = (Inr (), s')"
    using run s1 sel(1) same1
    by (auto simp: reselect_def comp_simps chosen_pools_def bindc_Inr continue_Inr Let_def)
  then obtain u s3 tot s4 where s3: "for_each (drop_pool c x (wanted sel) (quotes_by_cond rows)) (map fst (ru_placed s2)) s2 = (Inr u, s3)"
    and s4: "add_pools c x (wanted sel) (placed_capital s3) s3 = (Inr tot, s4)" and s5: "sync_ws_subscriptions c s4 = (Inr (), s')"
    by blast
  have p2: "ru_placed s2 = ru_placed s" using s2 same1 by (auto simp: on_engine_run split: prod.splits)
  have p5: "ru_placed s' = ru_placed s4"
    using obeysD[OF sync_same[of ru_placed] s5] by (simp add: same_def)
  let ?kept = "ru_placed s3"
  have p3: "?kept = filter (\<lambda>kv. fst kv \<in> fst ` set (wanted sel)) (ru_placed s)"
    using drops_placed[OF s3] p2 by (auto simp: smap_get_None intro!: filter_cong)
  obtain added where added: "subseq added (wanted sel)" "ru_placed s4 = put_all added ?kept"
    "\<forall>n \<in> {1..length added}. \<not> cf_capital c + epsilon6 < foldl (+) (placed_capital s3) (take n (pool_caps added))"
    using added_pools[OF s4] by blast
  have caps: "placed_capital s3 = running_sum (pool_caps ?kept)"
  proof -
    have "foldl (\<lambda>a kv. a + num_of (snd kv) ''committed_capital'') z ps = foldl (+) z (pool_caps ps)" for z ps
      by (induction ps arbitrary: z) (auto simp: pool_caps_def)
    then show ?thesis by (simp add: placed_capital_def running_sum_def)
  qed
  have found: "\<exists>p \<in> set (ru_report s). pr_condition_id p = cond \<and> eligible (select_params c s) p"
    if "cond \<in> fst ` set (ru_placed s')" for cond
  proof -
    have "set added \<subseteq> set (wanted sel)" using added(1) by (auto elim: list_emb_set)
    then have "cond \<in> fst ` set (wanted sel)" using that p5 added(2) p3 by (auto simp: put_all_keys)
    then have "cond \<in> sp_condition_id ` set sel" by (simp add: wanted_keys)
    then obtain i where i: "i < length sel" "cond = sp_condition_id (sel ! i)" by (auto simp: in_set_conv_nth)
    then have "stands_for (taken ! i) (sel ! i)" "taken ! i \<in> set taken" using sel(2) by (auto simp: list_all2_conv_all_nth)
    then show ?thesis using sel(3) i(2) by (auto simp: stands_for_def)
  qed
  have ok: "\<forall>cond \<in> fst ` set (ru_placed s'). cond \<notin> cooling s \<and>
      (\<exists>p \<in> set (ru_report s). pr_condition_id p = cond \<and> eligible (select_params c s) p)"
  proof
    fix cond assume "cond \<in> fst ` set (ru_placed s')"
    then obtain p where p: "p \<in> set (ru_report s)" "pr_condition_id p = cond" "eligible (select_params c s) p" using found by blast
    then have "cond \<notin> cooling s" by (simp add: eligible_def select_params_def)
    then show "cond \<notin> cooling s \<and> (\<exists>p \<in> set (ru_report s). pr_condition_id p = cond \<and> eligible (select_params c s) p)"
      using p by auto
  qed
  show ?thesis
  proof (rule exI[of _ ?kept], rule exI[of _ added], intro conjI)
    show "set ?kept \<subseteq> set (ru_placed s)" by (auto simp: p3)
    show "ru_placed s' = put_all added ?kept" using p5 added(2) by simp
    show "\<forall>n \<in> {1..length added}. \<not> cf_capital c + epsilon6 < foldl (+) (running_sum (pool_caps ?kept)) (take n (pool_caps added))"
      using added(3) by (simp only: caps)
  qed (rule ok)
qed

section \<open>The latch does not stop the first selection\<close>

text \<open>A computation that a change of the state goes through unnoticed\<close>

definition blind :: "(Runner \<Rightarrow> Runner) \<Rightarrow> 'a ruc \<Rightarrow> bool" where
  "blind f m \<longleftrightarrow> (\<forall>s. m (f s) = (fst (m s), f (snd (m s))))"

definition latched :: "Runner \<Rightarrow> Runner" where
  "latched s = s\<lparr>ru_stop := True, ru_kill_reason := ''kill-latch''\<rparr>"

lemma latched_fields [simp]: "is_effectively_whitelisted c (latched s) cond = is_effectively_whitelisted c s cond"
  "use_live_path c (latched s) = use_live_path c s" "ru_placed (latched s) = ru_placed s"
  by (simp_all add: latched_def is_effectively_whitelisted_def use_live_path_def)

lemma blind_pure: "blind f (ret v)" "blind f (throw e)" "(\<And>s. g (f s) = g s) \<Longrightarrow> blind f (reading g)"
  "(\<And>s. h (f s) = f (h s)) \<Longrightarrow> blind f (modify h)" "blind f (of_sum r)"
  by (simp_all add: blind_def comp_simps)

lemma blind_bind: "blind f m \<Longrightarrow> (\<And>v. blind f (k v)) \<Longrightarrow> blind f (bindc m k)"
  unfolding blind_def
proof
  fix s assume m: "\<forall>s. m (f s) = (fst (m s), f (snd (m s)))" and k: "\<And>v. \<forall>s. k v (f s) = (fst (k v s), f (snd (k v s)))"
  show "bindc m k (f s) = (fst (bindc m k s), f (snd (bindc m k s)))"
    by (cases "m s"; cases "fst (m s)") (simp_all add: bindc_def m k)
qed

lemma blind_catch: "blind f m \<Longrightarrow> (\<And>e. blind f (h e)) \<Longrightarrow> blind f (catch m h)"
  unfolding blind_def
proof
  fix s assume m: "\<forall>s. m (f s) = (fst (m s), f (snd (m s)))" and k: "\<And>e. \<forall>s. h e (f s) = (fst (h e s), f (snd (h e s)))"
  show "catch m h (f s) = (fst (catch m h s), f (snd (catch m h s)))"
    by (cases "m s"; cases "fst (m s)") (simp_all add: catch_def m k)
qed

lemma blind_branches:
  "blind f m \<Longrightarrow> blind f n \<Longrightarrow> blind f (if b then m else n)"
  "(y = None \<Longrightarrow> blind f m) \<Longrightarrow> (\<And>v. y = Some v \<Longrightarrow> blind f (k v)) \<Longrightarrow> blind f (case y of None \<Rightarrow> m | Some v \<Rightarrow> k v)"
  "(\<And>a b. p = (a, b) \<Longrightarrow> blind f (l a b)) \<Longrightarrow> blind f (case p of (a, b) \<Rightarrow> l a b)"
  "(\<And>a b. p = (a, b) \<Longrightarrow> blind f (l' a b y')) \<Longrightarrow> blind f ((case p of (a, b) \<Rightarrow> l' a b) y')"
  "blind f m \<Longrightarrow> blind f n \<Longrightarrow> blind f (case b of True \<Rightarrow> m | False \<Rightarrow> n)"
  "blind f (g v) \<Longrightarrow> blind f (Let v g)"
  by (auto split: option.split prod.split bool.split)

lemma blind_each: "(\<And>v. blind f (body v)) \<Longrightarrow> blind f (for_each body xs)"
  by (induction xs) (auto intro!: blind_pure blind_bind)

lemma latched_engine: "blind latched (on_engine m)"
  by (simp add: blind_def on_engine_run latched_def split: prod.split)

lemma latched_asks: "blind latched asked" "blind latched (mono_time x)"
proof -
  show a: "blind latched asked" by (simp add: blind_def asked_def latched_def)
  show "blind latched (mono_time x)" unfolding mono_time_def by (intro blind_bind blind_pure a)
qed

lemma latched_wraps: "blind f m \<Longrightarrow> blind f (attempt m)" "blind f m \<Longrightarrow> blind f (ignoring m)"
  unfolding attempt_def ignoring_def catch_any_def by (intro blind_bind blind_pure blind_catch; assumption)+

lemmas latched_intros = blind_pure blind_bind blind_branches blind_each latched_engine latched_asks latched_wraps

lemma latched_submit: "blind latched (locked_submit x a)" "blind latched (sync_ws_subscriptions c)"
  unfolding locked_submit_def sync_ws_subscriptions_def held_tokens_def refresh_reflex_refs_def
  by (intro latched_intros; simp add: latched_def)+

lemma latched_place: "blind latched (place_pool c x cond pool)"
  unfolding place_pool_def spread_for_def
  by (intro latched_intros; simp add: latched_def is_effectively_whitelisted_def use_live_path_def)

lemma latched_drop: "blind latched (drop_pool c x want quotes cond)"
  unfolding drop_pool_def exit_held_def pull_legs_def
  by (intro latched_intros latched_submit;
      simp add: latched_def is_effectively_whitelisted_def use_live_path_def forget_pool_def cool_down_def)

text \<open>Reading the whole state, where the change does not matter\<close>

lemma blind_state:
  assumes "\<And>s. k (f s) = k s" "\<And>s. blind f (k s)" shows "blind f (bindc (reading id) k)"
  using assms by (simp add: blind_def comp_simps)

lemma latched_add: "blind latched (add_pools c x ps committed)"
proof (induction ps arbitrary: committed)
  case (Cons p ps)
  have "blind latched (add_pool c x (cond, pool) committed)" for cond pool
    unfolding add_pool_def split_conv
  proof (rule blind_state)
    show "blind latched (let cap = num_of pool ''committed_capital'' in
      if smap_get (ru_placed s) cond \<noteq> None then ret committed
      else if \<not> is_effectively_whitelisted c s cond \<and> num_of pool ''est_daily_reward'' < cf_min_pool_reward c then ret committed
      else if cf_capital c + epsilon6 < committed + cap then ret committed
      else bindc (attempt (place_pool c x cond pool)) (\<lambda>done. case done of
         Some True \<Rightarrow>
           bindc (mono_time x) (\<lambda>now.
           bindc (modify (\<lambda>s. s\<lparr>ru_placed := smap_put cond pool (ru_placed s), ru_placed_at := smap_put cond now (ru_placed_at s)\<rparr>))
             (\<lambda>_. ret (committed + cap)))
       | _ \<Rightarrow> ret committed))" for s
      by (intro latched_intros latched_place; simp add: latched_def)
  qed (simp only: latched_fields)
  then show ?case using Cons by (cases p) (auto intro: blind_bind)
qed (simp add: latched_intros)


end
