(* ===== verification/RunnerPaper.thy ===== *)
theory RunnerPaper
  imports RunnerSelect
begin

text \<open>
  A run on paper: without the live settings no submitter is ever armed, and without a submitter no
  operation of the loop hands an order to the exchange.
\<close>

section \<open>On paper nothing is sent\<close>

definition paper_silent :: "Runner \<Rightarrow> Runner \<Rightarrow> bool" where
  "paper_silent s t \<longleftrightarrow> ru_submitter t = ru_submitter s \<and> (\<not> ru_submitter s \<longrightarrow> sent t = sent s)"

interpretation paper: evolution paper_silent
  by unfold_locales (auto simp: paper_silent_def)

lemma paper_modify: "(\<And>s. ru_submitter (f s) = ru_submitter s \<and> ru_engine (f s) = ru_engine s) \<Longrightarrow> obeys paper_silent (modify f)"
  by (rule paper.modified) (simp add: paper_silent_def sent_def)

lemma paper_transact: "(\<And>s. ru_submitter (snd (f s)) = ru_submitter s \<and> ru_engine (snd (f s)) = ru_engine s) \<Longrightarrow>
    obeys paper_silent (transact f)"
  by (simp add: obeys_def transact_def paper_silent_def sent_def split_beta)

lemma paper_engine: assumes "obeys (sends (\<lambda>_. False)) m" shows "obeys paper_silent (on_engine m)"
  unfolding obeys_def
proof
  fix s :: Runner
  obtain r e where m: "m (ru_engine s) = (r, e)" by fastforce
  then show "paper_silent s (snd (on_engine m s))"
    using silent_run[OF assms m] by (simp add: on_engine_run paper_silent_def sent_def)
qed

lemma paper_submit: "obeys paper_silent (locked_submit x a)"
  by (auto simp: obeys_def paper_silent_def submit_run sent_def)

text \<open>Where the code asks for the live path, only its other branch runs without a submitter.\<close>

lemma paper_choice:
  assumes "obeys paper_silent (k False)" "obeys armed_same (k True)"
  shows "obeys paper_silent (bindc (reading (use_live_path c)) k)"
  unfolding obeys_def
proof
  fix s
  have "paper_silent s (snd (k False s))" "armed_same s (snd (k True s))" using assms by (auto simp: obeys_def)
  then show "paper_silent s (snd (bindc (reading (use_live_path c)) k s))"
    by (cases "use_live_path c s") (auto simp: comp_simps paper_silent_def armed_same_def use_live_path_def)
qed

lemma paper_asks: "obeys paper_silent asked" "obeys paper_silent (mono_time x)"
proof -
  show a: "obeys paper_silent asked" by (auto simp: obeys_def asked_def paper_silent_def sent_def)
  show "obeys paper_silent (mono_time x)" unfolding mono_time_def by (intro paper.sequenced paper.pure a)
qed

lemma silent_calls:
  "obeys (sends P) get_maker_quotes" "obeys (sends P) get_maker_summary" "obeys (sends P) (reconcile_inventory chain)"
  "obeys (sends P) (suggest_maker_half_spread w lm s oc ce ps)" "obeys (sends P) (place_maker_quote w s oc opts)"
  "obeys (sends P) (cancel_maker_quote w i)" "obeys (sends P) (accrue_maker_rewards w live u)"
  "obeys (sends P) (modify (set_chain_positions chain))"
proof -
  show "obeys (sends P) (modify (set_chain_positions chain))"
    by (rule sending.modified) (simp add: sends_def set_chain_positions_def)
qed (unfold get_maker_quotes_def get_maker_summary_def reconcile_inventory_def reconcile_quote_def suggest_maker_half_spread_def
     place_maker_quote_def place_quote_def place_check_def quote_now_def check_opts_def reject_unless_def token_for_def
     cancel_maker_quote_def cancel_quote_def accrue_maker_rewards_def accrue_paper_quote_def prefetch_quote_reads_def
     now_unix_default_def record_equity_def edb_now_def committed_maker_capital_def catch_any_def Let_def,
     (intro sends_intros money_sends)+)

lemmas paper_intros = paper.pure paper.repeated paper.caught paper.branches paper.more_branches paper.wrapped paper.fields
  paper_engine paper_submit paper_asks silent_calls

lemma paper_refs: "obeys paper_silent wake_loop" "obeys paper_silent held_tokens" "obeys paper_silent (refresh_reflex_refs c)"
  "obeys paper_silent (sync_ws_subscriptions c)"
proof -
  show "obeys paper_silent wake_loop" and h: "obeys paper_silent held_tokens" and r: "obeys paper_silent (refresh_reflex_refs c)"
    unfolding wake_loop_def held_tokens_def refresh_reflex_refs_def
    by (intro paper_intros paper.sequenced paper_modify; simp)+
  show "obeys paper_silent (sync_ws_subscriptions c)"
    unfolding sync_ws_subscriptions_def by (intro paper_intros paper.sequenced paper_modify h r; simp)
qed

lemma paper_exits: "obeys paper_silent (pull_legs c x q)" "obeys paper_silent (exit_held c x cond q reason)"
  "obeys paper_silent (close_quote c x q)" "obeys paper_silent tick_cooldowns"
proof -
  show p: "obeys paper_silent (pull_legs c x q)"
    unfolding pull_legs_def by (intro paper_intros paper.sequenced)
  show "obeys paper_silent (exit_held c x cond q reason)" "obeys paper_silent (close_quote c x q)" "obeys paper_silent tick_cooldowns"
    unfolding exit_held_def close_quote_def tick_cooldowns_def
    by (intro paper_intros paper.sequenced p paper_modify; simp add: forget_pool_def cool_down_def)+
qed

lemma paper_places: "obeys paper_silent (add_pools c x ps committed)"
proof -
  have s: "obeys paper_silent (spread_for c x cond pool)" for cond pool
    unfolding spread_for_def by (intro paper_intros paper.sequenced)
  have "obeys paper_silent (bindc (reading (use_live_path c)) (\<lambda>live. bindc (on_engine
      (if live then place_maker_quote_live (rx_world x) (rx_sub x) cond ''yes'' opts
       else place_maker_quote (rx_world x) cond ''yes'' opts)) (\<lambda>_. ret True)))" for cond opts
    by (rule paper_choice) (simp_all only: if_True if_False, (intro paper.sequenced paper_intros arming.base)+)
  then have p: "obeys paper_silent (place_pool c x cond pool)" for cond pool
    unfolding place_pool_def by (intro paper.sequenced[OF s] paper_intros)
  have "obeys paper_silent (add_pool c x p committed)" for p committed
    unfolding add_pool_def by (intro paper_intros paper.sequenced p paper_modify; simp)
  then show ?thesis by (induction ps arbitrary: committed) (auto intro!: paper.sequenced paper.pure)
qed

lemma paper_selects: "obeys paper_silent (rediscover c x)" "obeys paper_silent (reselect c x)"
proof -
  show "obeys paper_silent (rediscover c x)"
    unfolding rediscover_def by (intro paper_intros paper.sequenced paper_modify; simp)
  have d: "obeys paper_silent (drop_pool c x want quotes cond)" for want quotes cond
    unfolding drop_pool_def by (intro paper_intros paper.sequenced paper_exits paper_modify; simp add: forget_pool_def)
  show "obeys paper_silent (reselect c x)"
    unfolding reselect_def report_stale_def chosen_pools_def
    by (intro paper_intros paper.sequenced d paper_places paper_refs)
qed

lemma paper_judges: "obeys paper_silent (reevaluate_held c x)"
proof -
  have "obeys (sends P) (on_client m)" for P m by (rule db_sends)
  note client = paper_engine[OF this]
  have r: "obeys paper_silent (rescore x cond q)" for cond q
    unfolding rescore_def by (intro paper_intros client paper.sequenced)
  have f: "obeys paper_silent (fade_toxic c cond tok)" for cond tok
    unfolding fade_toxic_def by (intro paper_intros paper.sequenced paper_modify; simp add: fade_count_def Let_def)
  have j: "obeys paper_silent (judge c x p)" for p
    unfolding judge_def by (intro paper_intros paper.sequenced paper_exits f)
  have d: "obeys paper_silent (due_row c now quotes cond)" for now quotes cond
    unfolding due_row_def by (intro paper_intros paper.sequenced paper_modify; simp add: forget_pool_def)
  show ?thesis unfolding reevaluate_held_def by (intro paper_intros paper.sequenced j r d)
qed

lemma paper_kill: "obeys paper_silent (trip_kill c reason)"
  unfolding trip_kill_def by (rule paper_modify) (simp add: tripped_def)

lemma paper_polls: "obeys paper_silent (poll_fills c x)" "obeys paper_silent (poll_once c x)"
proof -
  have f: "obeys paper_silent (fetch_fills x)"
    unfolding fetch_fills_def by (intro paper_intros paper.sequenced paper_modify; simp)
  have churn: "obeys paper_silent (note_churn c x tok)" for tok
    unfolding note_churn_def by (intro paper_intros paper.sequenced paper_kill paper_modify; simp)
  have seen: "obeys paper_silent (modify (ru_seen_update g))" for g by (rule paper_modify) simp
  have cf: "obeys paper_silent (count_fill c x fl)" for fl
    unfolding count_fill_def new_fill_def by (intro paper_intros paper.sequenced churn seen)
  show p: "obeys paper_silent (poll_fills c x)"
    unfolding poll_fills_def by (intro paper_intros paper.sequenced f cf)
  have a: "obeys paper_silent (accrue c x)"
    unfolding accrue_def
  proof (rule paper_choice, goal_cases)
    case 1
    show ?case unfolding if_False by (intro paper.sequenced paper_intros)
  next
    case 2
    show ?case unfolding if_True by (intro arming.base arming.polls)
  qed
  have "ru_submitter (note_mid now tok row s) = ru_submitter s \<and> ru_engine (note_mid now tok row s) = ru_engine s"
    "ru_submitter (note_share tok row s) = ru_submitter s \<and> ru_engine (note_share tok row s) = ru_engine s" for now tok row s
    by (simp_all add: note_mid_def note_share_def split: option.split)
  moreover have "ru_submitter (note_exit c cond row s) = ru_submitter s \<and> ru_engine (note_exit c cond row s) = ru_engine s" for cond row s
    by (simp add: note_exit_def cool_down_def forget_pool_def split: option.split json.split)
  ultimately have n: "ru_submitter (note_row c now row s) = ru_submitter s \<and> ru_engine (note_row c now row s) = ru_engine s" for now row s
    by (simp add: note_row_def Let_def)
  have "ru_submitter (foldl (\<lambda>s row. note_row c now row s) s rows) = ru_submitter s \<and>
      ru_engine (foldl (\<lambda>s row. note_row c now row s) s rows) = ru_engine s" for now s rows
    by (induction rows arbitrary: s) (simp_all add: n)
  then show "obeys paper_silent (poll_once c x)"
    unfolding poll_once_def by (intro paper_intros paper.sequenced a paper_modify paper_refs)
qed

lemma paper_checks: "obeys paper_silent (kill_check c x)"
proof -
  have "obeys (sends P) (on_client m)" for P m by (rule db_sends)
  note client = paper_engine[OF this]
  have o: "obeys paper_silent (sweep_orphan x tracked p)" for tracked p
    unfolding sweep_orphan_def by (intro paper_intros paper.sequenced)
  have ch: "obeys paper_silent (refresh_chain c x)"
    unfolding refresh_chain_def by (intro paper_intros client paper.sequenced o paper_modify; simp)
  have "obeys paper_silent (sample_equity c x start)" for start
    unfolding sample_equity_def by (intro paper_intros paper.sequenced ch paper_modify; simp add: count_drawdown_def)
  then have e: "obeys paper_silent (equity_drawdown c x)"
    unfolding equity_drawdown_def by (intro paper_intros paper.sequenced)
  have "obeys paper_silent (ledger_drop c)" "obeys paper_silent (wallet_low c x)"
    unfolding ledger_drop_def wallet_low_def by (intro paper_intros paper.sequenced paper_modify; simp)+
  then show ?thesis unfolding kill_check_def by (intro paper_intros paper.sequenced e)
qed

lemma paper_pulls: "obeys paper_silent (on_ws_price x token mid)" "obeys paper_silent (compute_and_store_signals c x token)"
proof -
  have p: "obeys paper_silent (reflex_pull x token)"
    unfolding reflex_pull_def catch_any_def
    by (intro paper_intros paper.sequenced paper_refs paper_transact paper_modify; simp add: claim_pull_def)
  show "obeys paper_silent (on_ws_price x token mid)" unfolding on_ws_price_def by (intro paper_intros paper.sequenced p)
  have "obeys paper_silent (fade c x token)"
    unfolding fade_def by (intro paper_intros paper.sequenced p paper_transact; simp add: claim_fade_def)
  then show "obeys paper_silent (compute_and_store_signals c x token)"
    unfolding compute_and_store_signals_def by (intro paper_intros paper.sequenced paper_refs)
qed

lemma paper_ends: "obeys paper_silent (shutdown c x)"
proof -
  have co: "obeys paper_silent (cancel_order_at x oid)" for oid
    unfolding cancel_order_at_def by (intro paper_intros paper.sequenced paper_modify; simp)
  have "obeys paper_silent (sweep_order c x own o1)" "obeys paper_silent (flatten_one x r)" for own o1 r
    unfolding sweep_order_def flatten_one_def by (intro paper_intros paper.sequenced co)+
  note parts = this
  then have "obeys paper_silent (sweep_book c x)" unfolding sweep_book_def by (intro paper_intros paper.sequenced)
  moreover have "obeys paper_silent (flatten_rounds x k rs)" for k rs
    by (induction k arbitrary: rs) (auto intro!: paper.pure paper.sequenced paper.repeated parts)
  ultimately show ?thesis
    unfolding shutdown_def by (intro paper_intros paper.sequenced parts paper_polls paper_exits)
qed

lemma paper_rounds: "obeys paper_silent (first_selection c x)" "obeys paper_silent (main_round c x sig)"
proof -
  show "obeys paper_silent (first_selection c x)"
    unfolding first_selection_def by (intro paper_intros paper.sequenced paper_checks paper_kill paper_selects paper_modify; simp)
  have "obeys paper_silent (reselection_due c now)" for now
    unfolding reselection_due_def by (intro paper_intros paper.sequenced paper_modify; simp)
  then show "obeys paper_silent (main_round c x sig)"
    unfolding main_round_def
    by (intro paper_intros paper.sequenced paper_checks paper_kill paper_exits paper_judges paper_selects paper_polls paper_modify; simp)
qed

lemma paper_thread: "thread_call c x s s' \<Longrightarrow> paper_silent s s'"
proof (induction rule: thread_call.induct)
  case (1 s clk raw)
  have "obeys paper_silent (market_frame x clk raw)"
    unfolding market_frame_def by (intro paper_intros paper.sequenced paper_pulls paper_modify; simp)
  then show ?case by (simp add: obeys_def)
next
  case (2 s clk tok)
  have "obeys paper_silent (resync_once c x clk tok)"
    unfolding resync_once_def by (intro paper_intros paper.sequenced paper_pulls paper_modify; simp)
  then show ?case by (simp add: obeys_def)
next
  case 3
  then show ?case using paper_selects by (simp add: obeys_def)
qed (simp_all add: paper_silent_def apply_curator_def sent_def)

lemma paper_step: "runner_step c x (ph, s) (ph', s') \<Longrightarrow> paper_silent s s'"
proof (induction "(ph, s)" "(ph', s')" rule: runner_step.induct)
  case (not_selected r s1)
  then show ?case using obeysD[OF paper_rounds(1) not_selected(1)] obeysD[OF paper_ends, of c x s1 _ s']
    by (metis paper.follows prod.collapse)
next
  case (round_ends sig r s1)
  then show ?case using obeysD[OF paper_rounds(2) round_ends(1)] obeysD[OF paper_ends, of c x s1 _ s']
    by (metis paper.follows prod.collapse)
qed (auto dest: obeysD[OF paper_rounds(1)] obeysD[OF paper_rounds(2)] paper_thread)

lemma paper_run: "(runner_step c x)\<^sup>*\<^sup>* p p' \<Longrightarrow> paper_silent (snd p) (snd p')"
proof (induction rule: rtranclp_induct)
  case base
  show ?case by (rule paper.stays)
next
  case (step q r)
  then have "paper_silent (snd q) (snd r)" using paper_step by (cases q; cases r) auto
  then show ?case using step.IH by (rule paper.follows[rotated])
qed

lemma paper_start:
  assumes "\<not> cf_live c" "\<not> cf_dry_live c" shows "obeys paper_silent (start_up c x)"
proof -
  have "obeys (sends P) (on_client m)" for P m by (rule db_sends)
  note client = paper_engine[OF this]
  have e: "obeys paper_silent (ensure_engine c x)"
    unfolding ensure_engine_def ignoring_def init_account_def sync_capital_def record_equity_def edb_now_def
      committed_maker_capital_def catch_any_def Let_def
    by (intro paper_engine sends_intros money_sends)
  have cfg: "obeys (sends P) (modify (configure_engine c))" for P
    by (rule sending.modified)
      (simp add: sends_def configure_engine_def set_jump_vol_weight_def set_reward_calib_def set_micro_center_def)
  have arm: "arm c x = ret ()" using assms by (simp add: arm_def)
  have ws: "obeys paper_silent (start_ws c x)"
    unfolding start_ws_def by (intro paper_intros paper_modify; simp)
  have ad: "ru_submitter (adopt now q s) = ru_submitter s \<and> ru_engine (adopt now q s) = ru_engine s" for now q s
    by (simp add: adopt_def Let_def)
  have "ru_submitter (foldl (\<lambda>s q. adopt now q s) s rows) = ru_submitter s \<and>
      ru_engine (foldl (\<lambda>s q. adopt now q s) s rows) = ru_engine s" for now s rows
    by (induction rows arbitrary: s) (simp_all add: ad)
  then have re: "obeys paper_silent (rehydrate x)"
    unfolding rehydrate_def by (intro paper_intros paper.sequenced paper_modify)
  have co: "obeys paper_silent (cancel_order_at x oid)" for oid
    unfolding cancel_order_at_def by (intro paper_intros paper.sequenced paper_modify; simp)
  have bo: "obeys paper_silent (reconcile_broker_orders c x)"
    unfolding reconcile_broker_orders_def reconcile_order_def by (intro paper_intros paper.sequenced co)
  have ch: "obeys paper_silent (reconcile_start c x)"
    unfolding reconcile_start_def by (intro paper_intros client paper.sequenced)
  have seen: "obeys paper_silent (modify (ru_seen_update g))" for g by (rule paper_modify) simp
  have pf: "obeys paper_silent (prime_fills c x)"
    unfolding prime_fills_def prime_fill_def by (intro paper_intros paper.sequenced seen)
  show ?thesis
    unfolding start_up_def arm by (intro paper_intros paper.sequenced e cfg ws re bo ch pf)
qed

text \<open>
  C10: a run on paper, neither live nor rehearsing the live path and with no submitter given to it,
  hands nothing to a submitter: not at the start, not in the selections and rounds, not in the
  callbacks of the threads and not in the shutdown.
\<close>

theorem paper_never_sends:
  assumes "\<not> cf_live c" "\<not> cf_dry_live c" "\<not> ru_submitter s0" "start_up c x s0 = (r, s)"
    and "(runner_step c x)\<^sup>*\<^sup>* (Selecting, s) (ph, s')"
  shows "sent s' = sent s0 \<and> \<not> ru_submitter s'"
proof -
  have "paper_silent s0 s" by (rule obeysD[OF paper_start[OF assms(1,2)] assms(4)])
  moreover have "paper_silent s s'" using paper_run[OF assms(5)] by simp
  ultimately show ?thesis using assms(3) by (auto simp: paper_silent_def)
qed

end
