(* ===== verification/RunnerProofs.thy ===== *)
theory RunnerProofs
  imports RunnerPaper
begin

text \<open>
  The money of a run: fills are counted once, the kill on the real equity needs three samples, and
  what a position service that does not answer does to the inventories.
\<close>

section \<open>Fills, samples and the chain\<close>

definition counted_as :: "json \<Rightarrow> string \<times> RealFill" where
  "counted_as f = (text_of f ''token_id'', \<lparr>rf_side = text_of f ''side'', rf_size = num_of f ''size'', rf_price = num_of f ''price''\<rparr>)"

lemma field_Inr: "text_field j k s = (Inr v, s') \<Longrightarrow> v = text_of j k \<and> s' = s"
  "num_field j k s = (Inr d, s') \<Longrightarrow> d = num_of j k \<and> s' = s"
  by (auto simp: text_field_def num_field_def text_of_def num_of_def ret_def throw_def split: option.splits)

lemma fill_id_text: "text_field f ''id'' s = (Inr v, s') \<Longrightarrow> fill_id f = v"
  by (auto simp: text_field_def fill_id_def jget_def jvalue_str_def ret_def throw_def split: option.splits json.splits)

lemma churn_seen: "obeys (same ru_seen) (note_churn c x tok)"
  unfolding note_churn_def trip_kill_def mono_time_def
  by (intro same.pure same.sequenced same.branches modify_same; simp add: obeys_def same_def asked_def tripped_def)

lemma new_fill_Inr:
  assumes "new_fill c x f s = (Inr out, s')" shows "out = [counted_as f] \<and> ru_seen s' = ru_seen s"
proof -
  have n: "obeys (same ru_seen) (if tok \<noteq> [] then note_churn c x tok else ret ())" for tok
    by (intro same.branches same.pure churn_seen)
  show ?thesis using assms
    by (auto simp: new_fill_def bindc_Inr ret_def counted_as_def dest!: field_Inr obeysD[OF n] simp: same_def)
qed

lemma count_fill_Inr:
  assumes "count_fill c x f s = (Inr out, s')" "memory_ok h (ru_seen s)"
  shows "out = [] \<and> ru_seen s' = ru_seen s \<or> out = [counted_as f] \<and> memory_ok (h @ named_ids [f]) (ru_seen s')"
proof -
  obtain tid where tid: "text_field f ''id'' s = (Inr tid, s)" "fill_id f = tid"
    and r: "(if tid \<noteq> [] \<and> tid \<in> fst (ru_seen s) then ret []
       else bindc (modify (ru_seen_update (if tid \<noteq> [] then remember tid else id))) (\<lambda>_. new_fill c x f)) s = (Inr out, s')"
    using assms(1) field_Inr(1)[of f "''id''" s] fill_id_text[of f s] unfolding count_fill_def bindc_Inr
    by (auto simp: reading_def)
  show ?thesis
  proof (cases "tid \<noteq> [] \<and> tid \<in> fst (ru_seen s)")
    case True
    then show ?thesis using r by (simp add: ret_def)
  next
    case False
    then have "new_fill c x f (ru_seen_update (if tid \<noteq> [] then remember tid else id) s) = (Inr out, s')"
      using r unfolding if_not_P[OF False] by (simp add: comp_simps)
    then have o: "out = [counted_as f]" "ru_seen s' = (if tid \<noteq> [] then remember tid else id) (ru_seen s)"
      using new_fill_Inr by fastforce+
    have "memory_ok (h @ named_ids [f]) (ru_seen s')"
    proof (cases "tid = []")
      case True
      then show ?thesis using o(2) assms(2) tid(2) by (simp add: named_ids_def)
    next
      case nonempty: False
      then show ?thesis using o(2) False tid(2) remember_ok[OF assms(2), of tid] by (simp add: named_ids_def)
    qed
    then show ?thesis using o(1) by simp
  qed
qed

lemma count_fills_Inr:
  assumes "for_each (count_fill c x) fs s = (Inr out, s')" "memory_ok h (ru_seen s)"
  shows "\<exists>taken. subseq taken fs \<and> out = map counted_as taken \<and> memory_ok (h @ named_ids taken) (ru_seen s')"
  using assms
proof (induction fs arbitrary: s h out)
  case Nil
  then show ?case by (auto simp: ret_def named_ids_def)
next
  case (Cons f fs)
  obtain o1 s1 o2 where 1: "count_fill c x f s = (Inr o1, s1)" and 2: "for_each (count_fill c x) fs s1 = (Inr o2, s')" "out = o1 @ o2"
    using Cons.prems(1) unfolding for_each_Cons_Inr by blast
  from count_fill_Inr[OF 1 Cons.prems(2)] show ?case
  proof (elim disjE conjE)
    assume a: "o1 = []" "ru_seen s1 = ru_seen s"
    then obtain taken where "subseq taken fs" "o2 = map counted_as taken" "memory_ok (h @ named_ids taken) (ru_seen s')"
      using Cons.IH[OF 2(1)] Cons.prems(2) by auto
    then show ?thesis using 2(2) a by (intro exI[of _ taken]) auto
  next
    assume a: "o1 = [counted_as f]" "memory_ok (h @ named_ids [f]) (ru_seen s1)"
    obtain taken where "subseq taken fs" "o2 = map counted_as taken" "memory_ok ((h @ named_ids [f]) @ named_ids taken) (ru_seen s')"
      using Cons.IH[OF 2(1) a(2)] by blast
    then show ?thesis using 2(2) a(1) by (intro exI[of _ "f # taken"]) (auto simp: named_ids_def)
  qed
qed

text \<open>
  C13: whatever the steps before it, a poll that succeeds counts a part of the fills it fetched from
  the two sources, in their order, and no trade twice: with the ids counted before, two equal ids
  are more than \<open>seen_limit\<close> counted fills apart.
\<close>

theorem fills_counted_once:
  assumes "(runner_step c x)\<^sup>*\<^sup>* (ph0, s0) (ph, s)" "memory_ok h0 (ru_seen s0)"
    and "attempt (fetch_fills x) s = (Inr (Some fetched), s1)" "poll_fills c x s = (Inr out, s')"
  shows "\<exists>h taken. subseq taken fetched \<and> out = by_token (map counted_as taken) \<and>
    memory_ok (h0 @ h @ named_ids taken) (ru_seen s') \<and> once_each (h0 @ h @ named_ids taken)"
proof -
  obtain h where "memory_ok (h0 @ h) (ru_seen s)"
    using remembering.run_law[OF assms(1)] assms(2) by (auto simp: memory_grows_def)
  moreover have "obeys (same ru_seen) (attempt (fetch_fills x))"
    unfolding fetch_fills_def
    by (intro attempt_same same.pure same.sequenced same.branches modify_same; simp add: obeys_def same_def asked_def)
  then have "ru_seen s1 = ru_seen s" using assms(3) by (auto dest: obeysD simp: same_def)
  ultimately have m: "memory_ok (h0 @ h) (ru_seen s1)" by simp
  obtain counted where c: "for_each (count_fill c x) fetched s1 = (Inr counted, s')" "out = by_token counted"
    using assms(3,4) by (auto simp: poll_fills_def bindc_Inr ret_def)
  show ?thesis using count_fills_Inr[OF c(1) m] c(2) by (auto simp: memory_ok_def)
qed

lemma chain_same: "obeys (same (\<lambda>s. (ru_equity_dd_count s, ru_last_usdc_check s, ru_usdc_start s, ru_last_usdc s))) (refresh_chain c x)"
proof -
  let ?p = "\<lambda>s. (ru_equity_dd_count s, ru_last_usdc_check s, ru_usdc_start s, ru_last_usdc s)"
  have l: "obeys (same ?p) (locked_submit x a)" for a by (simp add: obeys_def same_def submit_run)
  have e: "obeys (same ?p) (on_engine m)" for m by (rule engine_same) simp
  have o: "obeys (same ?p) (sweep_orphan x tracked p)" for tracked p
    unfolding sweep_orphan_def by (intro same.pure same.sequenced same.branches attempt_same l)
  show ?thesis
    unfolding refresh_chain_def ignoring_def by (intro same.pure same.sequenced same.branches same.repeated e o modify_same; simp)
qed

lemma sample_Inr:
  assumes "sample_equity c x start s = (Inr (), s')"
  shows "ru_equity_dd_count s' = ru_equity_dd_count s \<and> ru_last_usdc_check s' = ru_last_usdc_check s \<or>
    lit 15 \<le> ru_last_usdc_check s' - ru_last_usdc_check s \<and>
    ru_equity_dd_count s' = (if below_floor c start s' then ru_equity_dd_count s + 1 else 0)"
proof (cases "lit 15 \<le> rx_mono x (ru_calls s) - ru_last_usdc_check s")
  case False
  then show ?thesis using assms by (auto simp: sample_equity_def comp_simps mono_time_def asked_def)
next
  case True
  let ?now = "rx_mono x (ru_calls s)"
  obtain t u where u: "refresh_chain c x t = (Inr (), u)" "s' = count_drawdown c start u"
    and t: "ru_equity_dd_count t = ru_equity_dd_count s" "ru_last_usdc_check t = ?now"
    using assms True by (force simp: sample_equity_def comp_simps mono_time_def asked_def bindc_Inr continue_Inr)
  have "ru_equity_dd_count u = ru_equity_dd_count s" "ru_last_usdc_check u = ?now"
    using obeysD[OF chain_same u(1)] t by (simp_all add: same_def)
  moreover have "below_floor c start s' \<longleftrightarrow> below_floor c start u"
    by (simp add: u(2) count_drawdown_def below_floor_def equity_def)
  ultimately show ?thesis using True u(2) by (simp add: count_drawdown_def)
qed

text \<open>
  C14: the kill on the real equity needs three samples below the floor: a check that ends with this
  reason is on a live, armed run and has counted at least three; and one check changes the count only
  with a sample taken at least 15 seconds after the last, by one if the equity found is more than
  \<open>max_loss\<close> below the baseline, and to zero if it is not.
\<close>

theorem equity_kill_counts:
  assumes run: "kill_check c x s = (Inr res, s')"
  shows "(res = Some ''real-equity-drawdown'' \<longrightarrow> cf_live c \<and> ru_usdc_start s \<noteq> None \<and> 3 \<le> ru_equity_dd_count s') \<and>
    (ru_equity_dd_count s' = ru_equity_dd_count s \<or>
     lit 15 \<le> ru_last_usdc_check s' - ru_last_usdc_check s \<and>
     (\<exists>start. ru_usdc_start s = Some start \<and>
        ru_equity_dd_count s' = (if below_floor c start s' then ru_equity_dd_count s + 1 else 0)))"
proof -
  let ?p = "\<lambda>s. (ru_equity_dd_count s, ru_last_usdc_check s, ru_usdc_start s, ru_last_usdc s, ru_last_pos_value s)"
  have e: "obeys (same ?p) (on_engine m)" for m by (rule engine_same) simp
  have d: "obeys (same ?p) (ledger_drop c)"
    unfolding ledger_drop_def Let_def by (intro same.pure same.sequenced attempt_same e modify_same; simp)
  have w: "obeys (same ?p) (wallet_low c x)"
    unfolding wallet_low_def by (intro same.pure same.sequenced same.branches; simp add: obeys_def same_def asked_def)
  have bf: "below_floor c start t = below_floor c start u" if "?p t = ?p u" for start t u
    using that by (simp add: below_floor_def equity_def)
  show ?thesis
  proof (cases "rx_kill_file x (ru_calls s)")
    case True
    then show ?thesis using run by (auto simp: kill_check_def comp_simps asked_def)
  next
    case False
    obtain dr s1 where 1: "ledger_drop c (s\<lparr>ru_calls := ru_calls s + 1\<rparr>) = (Inr dr, s1)"
      and r: "(if dr then ret (Some ''max-loss'') else bindc (equity_drawdown c x) (\<lambda>down.
         if down then ret (Some ''real-equity-drawdown'')
         else bindc (wallet_low c x) (\<lambda>low. ret (if low then Some ''wallet-floor'' else None)))) s1 = (Inr res, s')"
      using run False by (auto simp: kill_check_def asked_def bindc_Inr)
    have p1: "?p s1 = ?p s" using obeysD[OF d 1] by (simp add: same_def)
    show ?thesis
    proof (cases dr)
      case True
      then show ?thesis using r p1 by (auto simp: ret_def)
    next
      case False
      then obtain down s2 where 2: "equity_drawdown c x s1 = (Inr down, s2)"
        and r2: "(if down then ret (Some ''real-equity-drawdown'')
          else bindc (wallet_low c x) (\<lambda>low. ret (if low then Some ''wallet-floor'' else None))) s2 = (Inr res, s')"
        using r by (auto simp: bindc_Inr)
      have p': "?p s' = ?p s2"
      proof (cases down)
        case True
        then show ?thesis using r2 by (simp add: ret_def)
      next
        case False
        then obtain low where "wallet_low c x s2 = (Inr low, s')" using r2 by (auto simp: bindc_Inr ret_def)
        from obeysD[OF w this] show ?thesis by (simp add: same_def)
      qed
      have down: "res = Some ''real-equity-drawdown'' \<longrightarrow> down"
        using r2 by (cases down) (auto simp: bindc_Inr ret_def split: if_splits)
      have "(down \<longrightarrow> cf_live c \<and> ru_usdc_start s1 \<noteq> None \<and> 3 \<le> ru_equity_dd_count s2) \<and>
        (ru_equity_dd_count s2 = ru_equity_dd_count s1 \<or> lit 15 \<le> ru_last_usdc_check s2 - ru_last_usdc_check s1 \<and>
         (\<exists>start. ru_usdc_start s1 = Some start \<and>
            ru_equity_dd_count s2 = (if below_floor c start s2 then ru_equity_dd_count s1 + 1 else 0)))"
        using 2 sample_Inr[of c x _ s1 s2]
        by (auto simp: equity_drawdown_def comp_simps bindc_Inr continue_Inr reading_def ret_def split: option.splits if_splits)
      then show ?thesis using p1 p' down bf[of s' s2] by auto
    qed
  qed
qed

lemma no_answer:
  assumes "\<And>n. hr_status (w_data w n (positions_path u)) = 0"
  shows "chain_positions w u c = (Inr m, c') \<Longrightarrow> m = [] \<and> cl_db c' = cl_db c"
    and "chain_position_value w u c = (Inr v, c') \<Longrightarrow> v = 0 \<and> cl_db c' = cl_db c"
  using assms
  by (auto simp: chain_positions_def chain_position_value_def comp_simps position_rows_def split: if_splits)

lemma on_client_Inr: "on_client m e = (Inr v, e') \<Longrightarrow> \<exists>c'. m (en_client e) = (Inr v, c') \<and> e' = e\<lparr>en_client := c'\<rparr>"
  by (auto simp: on_client_def on_part_def split: prod.splits)

lemma on_engine_Inr: "on_engine m s = (Inr v, s') \<Longrightarrow> m (ru_engine s) = (Inr v, ru_engine s') \<and> s' = s\<lparr>ru_engine := ru_engine s'\<rparr>"
  by (auto simp: on_engine_run split: prod.splits)

lemma on_engine_modify: "on_engine (modify f) s = (Inr u, s') \<longleftrightarrow> s' = s\<lparr>ru_engine := f (ru_engine s)\<rparr>"
  by (auto simp: on_engine_run modify_def)

lemma modify_Inr: "modify f s = (Inr u, s') \<longleftrightarrow> s' = f s"
  by (auto simp: modify_def)

lemma no_answer_engine:
  assumes "\<And>n. hr_status (w_data (rx_world x) n (positions_path u)) = 0"
  shows "on_engine (on_client (chain_positions (rx_world x) u)) s = (Inr m, s') \<Longrightarrow> m = [] \<and> db_of (ru_engine s') = db_of (ru_engine s)"
    and "on_engine (on_client (chain_position_value (rx_world x) u)) s = (Inr v, s') \<Longrightarrow> v = 0 \<and> db_of (ru_engine s') = db_of (ru_engine s)"
  using no_answer[OF assms] by (fastforce dest!: on_engine_Inr on_client_Inr)+

lemma quotes_read: "get_maker_quotes e = (Inr rows, e') \<Longrightarrow> e' = e"
  by (auto simp: get_maker_quotes_def require_account_def get_active_maker_quotes_def get_account_row_def comp_simps
      bindc_Inr continue_Inr ret_def fetch_Inr throw_def edb_def on_client_def on_db_def on_part_def split: prod.splits option.splits)

lemma chain_Nil: "chain_at [] tok = 0" "chain_no [] q = 0"
  by (simp_all add: chain_at_def chain_no_def smap_get_def)

text \<open>
  C15: a position service that does not answer is taken for an empty account: a live check then values
  the positions at nothing, enters no position for either leg of any active quote, and empties the
  guard that keeps pools with open positions from being quoted.
\<close>

theorem failed_chain_read_empties:
  assumes down: "\<And>n. hr_status (w_data (rx_world x) n (positions_path (rx_funder x))) = 0"
    and run: "refresh_chain c x s = (Inr (), s')"
    and rows: "d_maker_quotes (db_of (ru_engine s)) = Some t" "tb_ok q_id t"
  shows "\<exists>t'. d_maker_quotes (db_of (ru_engine s')) = Some t' \<and>
    tb_rows t' = map (\<lambda>q. if q_status q = ''active'' then reconciled [] q else q) (tb_rows t) \<and>
    (\<forall>q \<in> set (active_rows t'). dabs (q_inventory q - 0) < lit (1 / 2) \<and> dabs (q_complement_inventory q - 0) < lit (1 / 2)) \<and>
    ru_last_pos_value s' = 0 \<and> en_chain (ru_engine s') = []"
proof -
  let ?client = "\<lambda>m. on_engine (on_client (m (rx_world x) (rx_funder x)))"
  obtain v chain n rws s1 s2 s3 s4 where 1: "?client chain_position_value s = (Inr v, s1)"
    and 2: "?client chain_positions (s1\<lparr>ru_last_pos_value := v\<rparr>) = (Inr chain, s2)"
    and 3: "on_engine (reconcile_inventory chain) (s2\<lparr>ru_chain := chain\<rparr>) = (Inr n, s3)"
    and 4: "on_engine get_maker_quotes (s3\<lparr>ru_engine := set_chain_positions chain (ru_engine s3)\<rparr>) = (Inr rws, s4)"
    and 5: "(if cf_orphan_sweep c then ignoring (for_each (sweep_orphan x (active_tokens rws)) chain) else ret ()) s4 = (Inr (), s')"
    using run by (auto simp: refresh_chain_def bindc_Inr modify_Inr on_engine_modify)
  have v: "v = 0" "chain = []" and db: "db_of (ru_engine s2) = db_of (ru_engine s)"
    using no_answer_engine(2)[OF down 1] no_answer_engine(1)[OF down 2] by simp_all
  have e4: "s' = s4" using 5 v by (simp add: ignoring_def comp_simps split: if_splits)
  have m: "reconcile_inventory [] (ru_engine s2) = (Inr n, ru_engine s3)" "ru_last_pos_value s3 = 0"
    using 3 1 2 v by (auto simp: on_engine_run split: prod.splits)
  have "ru_engine s4 = set_chain_positions [] (ru_engine s3)" "ru_last_pos_value s4 = 0"
    using 4 m v by (auto simp: on_engine_run dest!: quotes_read split: prod.splits)
  with reconcile_rows[OF m(1)] rows db e4 show ?thesis
    by (auto simp: set_chain_positions_def chain_agrees_def chain_Nil smap_get_def)
qed

end
