(* ===== verification/RunnerRuns.thy ===== *)
theory RunnerRuns
  imports RunnerProofs EngineRuns
begin

text \<open>
  Concrete runs of the loop: a runner over the engine of \<open>EngineRuns\<close>, services that answer with
  tables, and the properties of the loop applied to it.
\<close>

section \<open>The demonstration runner\<close>

definition idle_runner :: "Engine \<Rightarrow> Runner" where
  "idle_runner e = \<lparr>ru_engine = e, ru_calls = 0, ru_submitter = False, ru_report = [], ru_last_scan_ok = None,
     ru_dyn_whitelist = {}, ru_placed = [], ru_placed_at = [], ru_cooldown = [], ru_stop = False, ru_kill_reason = [],
     ru_latch = None, ru_market = None, ru_user = None, ru_mid_hist = [], ru_refresh_at = [], ru_share_ewma = [],
     ru_reflex_refs = [], ru_reflex_complement = [], ru_reflex_cancelled = {}, ru_signal_v = [], ru_fade_last_s = [],
     ru_fade_since_poll = [], ru_fade_streak = [], ru_wake = False, ru_force_reselect = False, ru_seen = ({}, []),
     ru_usdc_start = None, ru_inv_pnl_start = None, ru_last_usdc = 0, ru_last_pos_value = 0, ru_last_usdc_check = 0,
     ru_equity_dd_count = 0, ru_chain = [], ru_fill_times = [], ru_orders_cancelled = [], ru_baseline_file = None,
     ru_last_reeval = 0\<rparr>"

definition demo_fill :: json where
  "demo_fill = JObj [(''id'', JStr ''t1''), (''side'', JStr ''BUY''), (''size'', JInt 1), (''price'', JInt 1), (''token_id'', JStr ''11'')]"

definition demo_services :: "bool \<Rightarrow> RunnerEnv" where
  "demo_services kill = \<lparr>rx_world = demo_world, rx_libm = demo_libm, rx_mono = (\<lambda>_. lit 100), rx_sub = dry_echo,
     rx_fills = (\<lambda>_. Inr [demo_fill, demo_fill]), rx_orders = (\<lambda>_. Inr []), rx_cancel = (\<lambda>_ _. Inr ()),
     rx_balance = (\<lambda>_. Some (lit 10)), rx_creds = JNull, rx_invert = True, rx_kill_file = (\<lambda>_. kill), rx_funder = ''0xf'',
     rx_scanned = (\<lambda>_. (empty_clob, empty_clob)), rx_wall = (\<lambda>_. 0), rx_today = ''d''\<rparr>"

definition live_config :: RunnerConfig where
  "live_config = default_config\<lparr>cf_live := True\<rparr>"

section \<open>The properties on these runs\<close>

lemma kill_is_final_witness:
  "\<exists>s'. (runner_step live_config (demo_services True))\<^sup>*\<^sup>* (Looping, idle_runner quoted_engine) (Down, s') \<and>
     ru_latch s' = Some ''kill-file'' \<and> ru_kill_reason s' = ''kill-file''"
proof -
  let ?c = live_config and ?x = "demo_services True" and ?s = "idle_runner quoted_engine"
  let ?s1 = "tripped ?c ''kill-file'' (?s\<lparr>ru_calls := 1\<rparr>)" and ?s' = "snd (shutdown live_config (demo_services True) (tripped live_config ''kill-file'' ((idle_runner quoted_engine)\<lparr>ru_calls := 1\<rparr>)))"
  have f: "\<not> ru_stop ?s" "ru_latch ?s = None" "ru_calls ?s = 0" "rx_kill_file ?x n" for n
    by (simp_all add: idle_runner_def demo_services_def)
  have "main_round ?c ?x False ?s = (Inr False, ?s1)"
    by (simp add: main_round_def kill_check_def asked_def trip_kill_def comp_simps f)
  then have "runner_step ?c ?x (Looping, ?s) (Down, ?s')" by (rule round_ends) simp
  then have step: "(runner_step ?c ?x)\<^sup>*\<^sup>* (Looping, ?s) (Down, ?s')" by (rule r_into_rtranclp)
  have "ru_stop ?s1 \<and> ru_kill_reason ?s1 = ''kill-file''" by (simp add: tripped_def f)
  moreover have "kill_once ?c ?s1 ?s'" using killing.shuts[of ?c ?x] by (simp add: obeys_def)
  ultimately have "ru_stop ?s' \<and> ru_kill_reason ?s' = ''kill-file''"
    by (auto simp: kill_once_def kill_part_def tripped_def)
  moreover have "latching ?c ''kill-file''" by (simp add: latching_def live_config_def)
  ultimately show ?thesis using kill_is_final[OF step] f step by auto
qed

lemma paper_never_sends_witness:
  "\<exists>r s. start_up (default_config\<lparr>cf_dry_live := False\<rparr>) (demo_services False) (idle_runner quoted_engine) = (r, s) \<and>
     sent (apply_curator ''0xa'' s) = [] \<and> \<not> ru_submitter (apply_curator ''0xa'' s)"
proof -
  let ?c = "default_config\<lparr>cf_dry_live := False\<rparr>" and ?x = "demo_services False" and ?s0 = "idle_runner quoted_engine"
  obtain r s where s: "start_up ?c ?x ?s0 = (r, s)" by fastforce
  have "(runner_step ?c ?x)\<^sup>*\<^sup>* (Selecting, s) (Selecting, apply_curator ''0xa'' s)"
    by (intro r_into_rtranclp threads thread_call.intros) simp
  from paper_never_sends[OF _ _ _ s this] show ?thesis using s
    by (auto simp: default_config_def idle_runner_def sent_def quoted_fields(7))
qed

lemma exit_held_order_witness:
  "\<exists>r s' n. exit_held live_config (demo_services False) ''0x1'' (JObj [(''id'', JInt 1), (''token_id'', JStr ''11''),
       (''complement_token_id'', JStr ''12''), (''inventory'', JInt 5)]) ''empty_band'' ((idle_runner quoted_engine)\<lparr>ru_submitter := True\<rparr>) = (r, s') \<and>
     sent s' = take n [cancel_all_action ''11'', cancel_all_action ''12'', flatten_action ''11'' (of_i 5)]"
proof -
  let ?c = live_config and ?s = "(idle_runner quoted_engine)\<lparr>ru_submitter := True\<rparr>"
  let ?q = "JObj [(''id'', JInt 1), (''token_id'', JStr ''11''), (''complement_token_id'', JStr ''12''), (''inventory'', JInt 5)]"
  obtain r s' where run: "exit_held ?c (demo_services False) ''0x1'' ?q ''empty_band'' ?s = (r, s')" by fastforce
  have l: "use_live_path ?c ?s" by (simp add: use_live_path_def live_config_def)
  have "lit (1 / 10 ^ 9) \<le> dabs (of_i 5)" by code_simp
  then have p: "pull_actions ?c ?q = [cancel_all_action ''11'', cancel_all_action ''12'', flatten_action ''11'' (of_i 5)]"
    by (simp add: pull_actions_def live_config_def text_of_def num_of_def jvalue_str_def jvalue_num_def jget_def is_number_def)
  have "sent ?s = []" by (simp add: sent_def idle_runner_def quoted_fields(7))
  then show ?thesis using exit_held_order[OF run] run l p by (auto simp: reward_or_jump_exits_def)
qed

lemma fills_counted_once_witness:
  "\<exists>out s' h taken. poll_fills live_config (demo_services False) ((idle_runner quoted_engine)\<lparr>ru_submitter := True\<rparr>) = (Inr out, s') \<and>
     subseq taken [demo_fill, demo_fill] \<and> out = by_token (map counted_as taken) \<and> once_each (h @ named_ids taken)"
proof -
  let ?c = live_config and ?x = "demo_services False" and ?s = "(idle_runner quoted_engine)\<lparr>ru_submitter := True\<rparr>"
  have f: "attempt (fetch_fills ?x) ?s = (Inr (Some [demo_fill, demo_fill]), ?s\<lparr>ru_calls := 1\<rparr>)"
    by (simp add: attempt_run fetch_fills_def comp_simps asked_def idle_runner_def demo_services_def)
  have m: "memory_ok [] (ru_seen ?s)" by (simp add: memory_ok_def idle_runner_def last_ids_def once_each_def)
  have "\<exists>out s'. poll_fills ?c ?x ?s = (Inr out, s')"
    by (simp only: poll_fills_def bindc_def[of "attempt _"] f continue_with.simps option.case)
       (simp add: comp_simps count_fill_def new_fill_def text_field_def num_field_def demo_fill_def is_number_def
        jvalue_str_def jvalue_num_def jget_def note_churn_def mono_time_def asked_def idle_runner_def remember_def
        seen_limit_def churn_window_def smap_at_def smap_get_def)
  then obtain out s' where p: "poll_fills ?c ?x ?s = (Inr out, s')" by blast
  from fills_counted_once[OF rtranclp.rtrancl_refl[of "runner_step ?c ?x" "(Looping, ?s)"] m f p] p show ?thesis by auto
qed

lemma reselect_sound_witness:
  "\<exists>s'. reselect live_config (demo_services False) ((idle_runner quoted_engine)\<lparr>ru_last_scan_ok := Some 0,
       ru_placed := [(''0xdead'', JObj [])]\<rparr>) = (Inr (), s') \<and> ru_placed s' = []"
proof -
  let ?c = live_config and ?x = "demo_services False"
  let ?s = "(idle_runner quoted_engine)\<lparr>ru_last_scan_ok := Some 0, ru_placed := [(''0xdead'', JObj [])]\<rparr>"
  have n: "\<not> Fin 2 * lit 600 < Fin 100 - 0" by code_simp
  have st: "report_stale ?c ?x ?s = (Inr False, ?s\<lparr>ru_calls := 1\<rparr>)"
    by (simp add: report_stale_def comp_simps mono_time_def asked_def idle_runner_def demo_services_def live_config_def default_config_def n)
  have sel: "select_pools [] p = Some []" for p
    using select_pools_ok[of "[]" p] by auto
  have g: "get_maker_quotes quoted_engine = (Inr [maker_quote_to_dict (quote_row 0 demo_quote 1)], quoted_engine)"
    by (simp add: get_maker_quotes_def require_account_def get_account_row_def get_active_maker_quotes_def comp_simps
        quoted_fields(1,2,5) active_rows_def)
  have q: "smap_get (quotes_by_cond [maker_quote_to_dict (quote_row 0 demo_quote 1)]) ''0xdead'' = None"
    by (simp add: quotes_by_cond_def keyed_def smap_get_def text_of_def maker_quote_to_dict_def jobj_def jvalue_str_def jget_def
        quote_row_def demo_quote_def)
  have sm: "smap_get [] k = None" "smap_get [(k', v)] k' = Some v" for k k' :: string and v :: json by (simp_all add: smap_get_def)
  have "\<exists>s'. reselect ?c ?x ?s = (Inr (), s')"
    by (simp only: reselect_def bindc_def[of "report_stale _ _"] st continue_with.simps)
       (simp add: comp_simps chosen_pools_def sel on_engine_run g idle_runner_def wanted_def drop_pool_def q sm
         sync_ws_subscriptions_def refresh_reflex_refs_def attempt_run forget_pool_def smap_erase_def placed_capital_def Let_def)
  then obtain s' where r: "reselect ?c ?x ?s = (Inr (), s')" by blast
  have "\<forall>cond \<in> fst ` set (ru_placed s'). False"
    using reselect_sound[OF r] st by (auto simp: idle_runner_def)
  then show ?thesis using r by auto
qed

definition held_row :: MakerQuote where
  "held_row = (quote_row 0 demo_quote 1)\<lparr>q_inventory := Fin 5\<rparr>"

definition holding_engine :: Engine where
  "holding_engine = engine_on (fresh_db\<lparr>d_account := Some (Some demo_account),
     d_maker_quotes := Some \<lparr>tb_rows = [held_row], tb_seq = 1\<rparr>\<rparr>) []"

lemma holding_fields: "d_account (db_of holding_engine) = Some (Some demo_account)"
  "d_maker_quotes (db_of holding_engine) = Some \<lparr>tb_rows = [held_row], tb_seq = 1\<rparr>"
  "tb_ok q_id \<lparr>tb_rows = [held_row], tb_seq = 1\<rparr>" "active_rows \<lparr>tb_rows = [held_row], tb_seq = 1\<rparr> = [held_row]"
  "tb_select q_id 1 \<lparr>tb_rows = [held_row], tb_seq = 1\<rparr> = Some held_row" "q_id held_row = 1" "d_has_comp_inv (db_of holding_engine)"
  by (simp_all add: holding_engine_def engine_on_def tb_ok_def tb_select_def active_rows_def held_row_def quoted_row_fields fresh_db_eq)

lemma held_reconciles:
  assumes "db_of e = db_of holding_engine"
  shows "\<exists>e'. reconcile_inventory [] e = (Inr 1, e') \<and> d_account (db_of e') = Some (Some demo_account) \<and>
    (\<exists>t'. d_maker_quotes (db_of e') = Some t')"
proof -
  have f: "d_maker_quotes (db_of e) = Some \<lparr>tb_rows = [held_row], tb_seq = 1\<rparr>" "d_has_comp_inv (db_of e)"
    "d_account (db_of e) = Some (Some demo_account)" using assms holding_fields by simp_all
  have n: "\<not> dabs (Fin 5 - 0) < lit (1 / 2)" by code_simp
  have "accrual_reals (reconcile_update [] held_row)"
    by (simp add: accrual_reals_def reconcile_update_def held_row_def quote_row_def demo_quote_def chain_Nil zero_double_def)
  then have u: "update_maker_quote_accrual 1 (reconcile_update [] held_row) (db_of e) =
      (Inr (accrual (reconcile_update [] held_row) held_row), (db_of e)\<lparr>d_maker_quotes :=
         Some (tb_update (\<lambda>r. q_id r = 1) (accrual (reconcile_update [] held_row)) \<lparr>tb_rows = [held_row], tb_seq = 1\<rparr>)\<rparr>)"
    using update_accrual_Inr[OF f(1) holding_fields(3,5)] f(2) by blast
  have "\<not> chain_agrees [] held_row" using n by (simp add: chain_agrees_def chain_Nil held_row_def)
  then show ?thesis
    by (simp add: reconcile_inventory_def get_active_maker_quotes_def comp_simps f holding_fields(4,6) reconcile_quote_def u)
qed

lemma demo_refresh:
  assumes "db_of (ru_engine s) = db_of holding_engine"
  shows "\<exists>s'. refresh_chain c (demo_services False) s = (Inr (), s') \<and> ru_last_pos_value s' = 0"
proof -
  let ?x = "demo_services False"
  have p: "chain_positions demo_world u cl = (Inr [], if u = [] then cl else cl_requests_update Suc cl)"
    "chain_position_value demo_world u cl = (Inr 0, if u = [] then cl else cl_requests_update Suc cl)" for u cl
    by (simp_all add: chain_positions_def chain_position_value_def comp_simps position_rows_def demo_world_def)
  obtain e2 where e2: "reconcile_inventory [] ((ru_engine s)\<lparr>en_client := cl_requests_update Suc (cl_requests_update Suc (en_client (ru_engine s)))\<rparr>) = (Inr 1, e2)"
    "d_account (db_of e2) = Some (Some demo_account)" "\<exists>t'. d_maker_quotes (db_of e2) = Some t'"
    using held_reconciles[of "(ru_engine s)\<lparr>en_client := cl_requests_update Suc (cl_requests_update Suc (en_client (ru_engine s)))\<rparr>"] assms by auto
  then show ?thesis
    by (auto simp: refresh_chain_def comp_simps on_engine_run demo_services_def on_client_run p set_chain_positions_def ignoring_def
      get_maker_quotes_def require_account_def get_account_row_def get_active_maker_quotes_def)
qed

lemma failed_chain_read_empties_witness:
  "\<exists>s' t'. refresh_chain live_config (demo_services False) (idle_runner holding_engine) = (Inr (), s') \<and>
     d_maker_quotes (db_of (ru_engine s')) = Some t' \<and> length (tb_rows t') = 1 \<and>
     (\<forall>q \<in> set (active_rows t'). dabs (q_inventory q - 0) < lit (1 / 2))"
proof -
  let ?x = "demo_services False"
  have d: "\<And>n. hr_status (w_data (rx_world ?x) n (positions_path (rx_funder ?x))) = 0"
    by (simp add: demo_services_def demo_world_def)
  have e: "ru_engine (idle_runner holding_engine) = holding_engine" by (simp add: idle_runner_def)
  obtain s' where s': "refresh_chain live_config ?x (idle_runner holding_engine) = (Inr (), s')"
    using demo_refresh e by metis
  from failed_chain_read_empties[OF d s', unfolded e, OF holding_fields(2,3)] s' show ?thesis by auto
qed

lemma equity_kill_counts_witness:
  "\<exists>s'. kill_check live_config (demo_services False) ((idle_runner holding_engine)\<lparr>ru_submitter := True,
       ru_usdc_start := Some (lit 100), ru_equity_dd_count := 2\<rparr>) = (Inr (Some ''real-equity-drawdown''), s') \<and> 3 \<le> ru_equity_dd_count s'"
proof -
  let ?c = live_config and ?x = "demo_services False"
  let ?s = "(idle_runner holding_engine)\<lparr>ru_submitter := True, ru_usdc_start := Some (lit 100), ru_equity_dd_count := 2\<rparr>"
  have zero: "(0::double) + 0 = 0" and small: "\<not> (0::double) - 0 \<le> - lit 20" by code_simp+
  have sum: "\<exists>j. get_maker_summary holding_engine = (Inr j, holding_engine) \<and> num_of j ''inventory_pnl'' = 0"
    by (simp add: get_maker_summary_def require_account_def get_account_row_def get_all_maker_quotes_def comp_simps holding_fields(1,2)
        add_summary_def held_row_def quoted_row_fields(2) jobj_def num_of_def jvalue_num_def jget_def is_number_def)
       (simp add: quote_row_def zero)
  then have "\<exists>s1. ledger_drop ?c (?s\<lparr>ru_calls := 1\<rparr>) = (Inr False, s1) \<and> s1 = ?s\<lparr>ru_calls := 1, ru_inv_pnl_start := Some 0\<rparr>"
    using small by (auto simp: ledger_drop_def comp_simps attempt_run on_engine_run idle_runner_def live_config_def default_config_def)
  then have l: "ledger_drop ?c (?s\<lparr>ru_calls := 1\<rparr>) = (Inr False, ?s\<lparr>ru_calls := 1, ru_inv_pnl_start := Some 0\<rparr>)" by simp
  let ?t = "?s\<lparr>ru_inv_pnl_start := Some 0, ru_calls := 3, ru_last_usdc_check := lit 100, ru_last_usdc := lit 10\<rparr>"
  obtain u where u: "refresh_chain ?c ?x ?t = (Inr (), u)" "ru_last_pos_value u = 0"
    using demo_refresh[of ?t ?c] by (auto simp: idle_runner_def)
  have fields: "ru_last_usdc u = lit 10" "ru_equity_dd_count u = 2" "ru_last_usdc_check u = lit 100"
    using obeysD[OF chain_same u(1)] by (simp_all add: same_def)
  have n: "0 < lit 10" "lit 10 + 0 < Fin 100 - lit 20" "lit 15 \<le> Fin 100 - 0" "(0::double) \<le> lit 10" by code_simp+
  let ?k = "?s\<lparr>ru_calls := 1, ru_inv_pnl_start := Some 0\<rparr>"
  have "sample_equity ?c ?x (lit 100) ?k = (Inr (), u\<lparr>ru_equity_dd_count := 3\<rparr>)"
  proof -
    have m: "mono_time ?x ?k = (Inr (lit 100), ?k\<lparr>ru_calls := 2\<rparr>)"
      by (simp add: mono_time_def comp_simps asked_def demo_services_def)
    have f: "ru_last_usdc_check (idle_runner holding_engine) = 0" "rx_balance ?x i = Some (lit 10)" for i
      by (simp_all add: idle_runner_def demo_services_def)
    have cd: "count_drawdown ?c (Fin 100) u = u\<lparr>ru_equity_dd_count := 3\<rparr>"
      using fields n u(2) by (simp add: count_drawdown_def below_floor_def equity_def live_config_def default_config_def)
    show ?thesis
      using n(3,4) u(1)
      by (simp only: sample_equity_def bindc_def[of "mono_time _"] m continue_with.simps) (simp add: comp_simps asked_def f cd)
  qed
  then have e: "equity_drawdown ?c ?x ?k = (Inr True, u\<lparr>ru_equity_dd_count := 3\<rparr>)"
    by (simp add: equity_drawdown_def comp_simps live_config_def)
  have "kill_check ?c ?x ?s = (Inr (Some ''real-equity-drawdown''), u\<lparr>ru_equity_dd_count := 3\<rparr>)"
  proof -
    have "asked ?s = (Inr 0, ?s\<lparr>ru_calls := 1\<rparr>)" "\<not> rx_kill_file ?x 0"
      by (simp_all add: asked_def idle_runner_def demo_services_def)
    then show ?thesis by (simp only: kill_check_def bindc_def continue_with.simps if_False l e if_True ret_def)
  qed
  then show ?thesis using equity_kill_counts by fastforce
qed

end
