(* ===== verification/ClobAmounts.thy ===== *)
theory ClobAmounts
  imports Models
begin

text \<open>
  Order amounts (the pure functions at the head of \<open>clob_submitter.cpp\<close>): rounding a price to its
  tick and a size to its step, and the two integer amounts, in millionths, that an order signs.
  The price of an order is never sent; the exchange reads it off the quotient of the amounts, so the
  theorem at the end is that the rounding chain makes that quotient exact.
\<close>

record RoundConfig =
  rcf_price :: nat
  rcf_size :: nat
  rcf_amount :: nat

record OrderAmounts =
  oa_maker_amount :: u64
  oa_taker_amount :: u64
  oa_side :: int

definition round_config :: "string \<Rightarrow> RoundConfig" where
  "round_config tick_size =
     (if tick_size = ''0.1'' then \<lparr>rcf_price = 1, rcf_size = 2, rcf_amount = 3\<rparr>
      else if tick_size = ''0.01'' then \<lparr>rcf_price = 2, rcf_size = 2, rcf_amount = 4\<rparr>
      else if tick_size = ''0.001'' then \<lparr>rcf_price = 3, rcf_size = 2, rcf_amount = 5\<rparr>
      else if tick_size = ''0.0001'' then \<lparr>rcf_price = 4, rcf_size = 2, rcf_amount = 6\<rparr>
      else \<lparr>rcf_price = 2, rcf_size = 2, rcf_amount = 4\<rparr>)"

definition dceil :: "double \<Rightarrow> double" where
  "dceil = on_fin (\<lambda>a. of_int \<lceil>a\<rceil>)"

definition round_normal :: "double \<Rightarrow> nat \<Rightarrow> double" where
  "round_normal x n = nearbyint (x * pow10 n) / pow10 n"

definition round_down :: "double \<Rightarrow> nat \<Rightarrow> double" where
  "round_down x n = dfloor (x * pow10 n + lit (1 / 10 ^ 6)) / pow10 n"

definition round_up :: "double \<Rightarrow> nat \<Rightarrow> double" where
  "round_up x n = dceil (x * pow10 n - lit (1 / 10 ^ 6)) / pow10 n"

text \<open>
  \<open>static_cast<std::int64_t>\<close>: a value outside of the type, for which the language leaves the result
  undefined, is the one the x86-64 conversion gives.
\<close>

fun to_i64 :: "double \<Rightarrow> int" where
  "to_i64 (Fin q) = (let n = (if 0 \<le> q then \<lfloor>q\<rfloor> else \<lceil>q\<rceil>) in
     if - (2 ^ 63) \<le> n \<and> n < 2 ^ 63 then n else - (2 ^ 63))"
| "to_i64 _ = - (2 ^ 63)"

definition to_token_decimals :: "double \<Rightarrow> int" where
  "to_token_decimals x = to_i64 (nearbyint (lit 1000000 * x))"

definition get_order_amounts :: "bool \<Rightarrow> double \<Rightarrow> double \<Rightarrow> RoundConfig \<Rightarrow> OrderAmounts" where
  "get_order_amounts is_buy sz price rc =
     (let raw_price = round_normal price (rcf_price rc);
          shares = round_down sz (rcf_size rc);
          usdc = round_down (round_up (shares * raw_price) (rcf_amount rc + 4)) (rcf_amount rc)
      in if is_buy
         then \<lparr>oa_maker_amount = of_int (to_token_decimals usdc),
               oa_taker_amount = of_int (to_token_decimals shares), oa_side = 0\<rparr>
         else \<lparr>oa_maker_amount = of_int (to_token_decimals shares),
               oa_taker_amount = of_int (to_token_decimals usdc), oa_side = 1\<rparr>)"

definition get_market_order_amounts :: "bool \<Rightarrow> double \<Rightarrow> double \<Rightarrow> RoundConfig \<Rightarrow> OrderAmounts" where
  "get_market_order_amounts is_buy amount price rc =
     (let raw_price = round_normal price (rcf_price rc);
          raw_maker = round_down amount (rcf_size rc);
          other = (if is_buy then (if 0 < raw_price then raw_maker / raw_price else 0) else raw_maker * raw_price);
          raw_taker = round_down (round_up other (rcf_amount rc + 4)) (rcf_amount rc)
      in \<lparr>oa_maker_amount = of_int (to_token_decimals raw_maker),
          oa_taker_amount = of_int (to_token_decimals raw_taker), oa_side = (if is_buy then 0 else 1)\<rparr>)"

section \<open>Exact amounts\<close>

lemma pow10_exact: "n \<le> 15 \<Longrightarrow> pow10 n = Fin (10 ^ n)"
proof (induction n)
  case (Suc n)
  have "(10::int) ^ Suc n \<le> 10 ^ 15" using Suc.prems by (intro power_increasing) auto
  then have "rnd (of_int (10 ^ Suc n)) = of_int (10 ^ Suc n)" by (intro rnd_of_int) (simp del: power_Suc)
  then have "rnd (10 ^ Suc n) = 10 ^ Suc n" by (simp only: of_int_power of_int_numeral)
  moreover have "lit 10 = Fin 10" by code_simp
  moreover have "\<bar>(10::rat) ^ Suc n\<bar> \<le> 2 ^ 53"
  proof -
    have "(10::rat) ^ Suc n \<le> 10 ^ 15" using Suc.prems by (intro power_increasing) auto
    then show ?thesis by (simp del: power_Suc)
  qed
  ultimately show ?case using Suc by (simp add: times_double_def fl_small mult.commute)
qed (simp add: one_double_def)

definition approx :: "rat \<Rightarrow> rat \<Rightarrow> double \<Rightarrow> bool" where
  "approx c v d \<longleftrightarrow> (\<exists>q. d = Fin q \<and> \<bar>q - v\<bar> \<le> c * v / 2 ^ 52)"

definition tame :: "rat \<Rightarrow> bool" where
  "tame v \<longleftrightarrow> v = 0 \<or> 1 / 2 ^ 200 \<le> v \<and> v \<le> 2 ^ 52"

lemma approx_fl:
  assumes "\<bar>y - v\<bar> \<le> c * v / 2 ^ 52" "0 \<le> c" "c \<le> 8" "tame v"
  shows "approx (c + 3 / 4) v (fl y)"
proof (cases "v = 0")
  case True
  then have "y = 0" using assms(1) by simp
  then show ?thesis using True by (simp add: approx_def fl_small)
next
  case False
  then have v: "1 / 2 ^ 200 \<le> v" "v \<le> 2 ^ 52" using assms(4) by (auto simp: tame_def)
  then have p: "0 < v" by (meson less_le_trans zero_less_divide_1_iff zero_less_power zero_less_numeral)
  have cv: "0 \<le> c * v" "c * v \<le> 8 * v" using p assms(2,3) by (auto intro: mult_right_mono)
  then have y: "\<bar>y - v\<bar> \<le> v / 2 ^ 40" using assms(1) p by (simp add: field_simps) (use cv(2) p in linarith)
  have q: "v / 2 ^ 40 \<le> v / 4" using p by simp
  have n: "2 powi (- 1022) \<le> \<bar>y\<bar>"
  proof -
    have "(2::rat) powi (- 1022) \<le> 2 powi (- 201)" by (intro power_int_increasing) auto
    also have "\<dots> = 1 / 2 ^ 200 / 2" by (simp add: power_int_minus field_simps)
    also have "\<dots> \<le> v / 2" using v(1) by simp
    also have "\<dots> \<le> \<bar>y\<bar>" using y q by linarith
    finally show ?thesis .
  qed
  have r: "\<bar>rnd y - y\<bar> \<le> \<bar>y\<bar> / 2 ^ 53" by (rule rnd_error[OF n])
  have "\<bar>y\<bar> \<le> 5 / 4 * v" using y q p by linarith
  then have "\<bar>rnd y - y\<bar> \<le> 3 / 4 * v / 2 ^ 52" using r p by simp
  then have "\<bar>rnd y - v\<bar> \<le> c * v / 2 ^ 52 + 3 / 4 * v / 2 ^ 52" using assms(1) by linarith
  moreover have "\<bar>y\<bar> \<le> 2 ^ 53" using \<open>\<bar>y\<bar> \<le> 5 / 4 * v\<close> v(2) by simp
  ultimately show ?thesis by (simp add: approx_def fl_small algebra_simps add_divide_distrib)
qed

lemma approx_exact: "tame v \<Longrightarrow> approx (3 / 4) v (fl v)"
  using approx_fl[of v v 0] by simp

lemma approx_times:
  assumes "approx a v x" "approx b w y" "0 \<le> a" "a \<le> 3" "0 \<le> b" "b \<le> 3" "0 \<le> v" "0 \<le> w" "tame (v * w)"
  shows "approx (a + b + 1) (v * w) (x * y)"
proof -
  obtain q r where x: "x = Fin q" "\<bar>q - v\<bar> \<le> a * v / 2 ^ 52" and y: "y = Fin r" "\<bar>r - w\<bar> \<le> b * w / 2 ^ 52"
    using assms(1,2) by (auto simp: approx_def)
  have "\<bar>(q - v) * (r - w)\<bar> \<le> (a * v / 2 ^ 52) * (b * w / 2 ^ 52)"
    unfolding abs_mult using x(2) y(2) assms by (intro mult_mono) auto
  also have "\<dots> = (a * b) * (v * w) / 2 ^ 104" by simp
  also have "\<dots> \<le> 9 * (v * w) / 2 ^ 104"
    using mult_mono[of a 3 b 3] assms by (intro divide_right_mono mult_right_mono) auto
  finally have 1: "\<bar>(q - v) * (r - w)\<bar> \<le> 9 * (v * w) / 2 ^ 104" .
  have 2: "\<bar>(q - v) * w\<bar> \<le> a * (v * w) / 2 ^ 52"
    using mult_right_mono[OF x(2) assms(8)] assms(8) by (simp add: abs_mult mult.assoc)
  have 3: "\<bar>v * (r - w)\<bar> \<le> b * (v * w) / 2 ^ 52"
    using mult_left_mono[OF y(2) assms(7)] assms(7) by (simp add: abs_mult mult.left_commute)
  have p: "0 \<le> v * w" using assms(7,8) by simp
  have "q * r - v * w = (q - v) * (r - w) + (q - v) * w + v * (r - w)" by (simp add: algebra_simps)
  then have "\<bar>q * r - v * w\<bar> \<le> a * (v * w) / 2 ^ 52 + b * (v * w) / 2 ^ 52 + 9 * (v * w) / 2 ^ 104" using 1 2 3 by linarith
  also have "\<dots> \<le> (a + b + 1 / 4) * (v * w) / 2 ^ 52"
    using p by (simp add: algebra_simps add_divide_distrib)
  finally have "approx (a + b + 1 / 4 + 3 / 4) (v * w) (fl (q * r))"
    using assms by (intro approx_fl) auto
  moreover have "a + b + 1 / 4 + 3 / 4 = a + b + 1" by simp
  ultimately show ?thesis by (simp only: x y times_double_def double.case)
qed

lemma approx_scale:
  assumes "approx a v x" "0 \<le> a" "a \<le> 8" "0 < c" "tame (v * c)"
  shows "approx (a + 3 / 4) (v * c) (x * Fin c)"
proof -
  obtain q where x: "x = Fin q" "\<bar>q - v\<bar> \<le> a * v / 2 ^ 52" using assms(1) by (auto simp: approx_def)
  have "\<bar>q * c - v * c\<bar> = \<bar>q - v\<bar> * c" using assms(4) by (simp add: abs_mult flip: left_diff_distrib)
  also have "\<dots> \<le> a * v / 2 ^ 52 * c" using x(2) assms(4) by (intro mult_right_mono) auto
  finally have "approx (a + 3 / 4) (v * c) (fl (q * c))" using assms by (intro approx_fl) auto
  then show ?thesis using x by (simp add: times_double_def)
qed

lemma approx_abs:
  assumes "approx c v d" "0 \<le> v" "0 \<le> c" "c * v \<le> e * 2 ^ 52"
  obtains q where "d = Fin q" "\<bar>q - v\<bar> \<le> e"
proof -
  obtain q where "d = Fin q" "\<bar>q - v\<bar> \<le> c * v / 2 ^ 52" using assms(1) by (auto simp: approx_def)
  moreover have "c * v / 2 ^ 52 \<le> e" using assms(4) by (simp add: field_simps)
  ultimately show ?thesis using that by fastforce
qed

lemma approx_weaken: "approx a v d \<Longrightarrow> 0 \<le> v \<Longrightarrow> a \<le> b \<Longrightarrow> approx b v d"
proof -
  assume "0 \<le> v" "a \<le> b"
  then have "a * v / 2 ^ 52 \<le> b * v / 2 ^ 52" by (intro divide_right_mono mult_right_mono) auto
  then show "approx a v d \<Longrightarrow> approx b v d" unfolding approx_def by (auto intro: order_trans)
qed

lemma rnd_abs: 
  assumes "\<bar>x\<bar> \<le> 2 ^ k" shows "\<bar>rnd x - x\<bar> \<le> 2 ^ k / 2 ^ 53"
proof (cases "2 powi (- 1022) \<le> \<bar>x\<bar>")
  case True
  have "\<bar>x\<bar> / 2 ^ 53 \<le> 2 ^ k / 2 ^ 53" using assms by (rule divide_right_mono) simp
  then show ?thesis using rnd_error[OF True] by linarith
next
  case False
  have e: "rnd (2 powi (- 1022)) = 2 powi (- 1022)" using rnd_exact[of 1 "- 1022"] by simp
  have "rnd x \<le> 2 powi (- 1022)" "- rnd x \<le> 2 powi (- 1022)"
    using rnd_mono[of x "2 powi (- 1022)"] rnd_mono[of "- x" "2 powi (- 1022)"] False unfolding e by auto
  then have "\<bar>rnd x - x\<bar> \<le> 2 powi (- 1022) + 2 powi (- 1022)" using False by linarith
  also have "\<dots> = 2 powi (- 1021)" by (simp add: power_int_minus field_simps)
  also have "\<dots> \<le> 2 powi (- 53)" by (intro power_int_increasing) auto
  also have "\<dots> \<le> 2 ^ k / 2 ^ 53" by (simp add: power_int_minus field_simps)
  finally show ?thesis .
qed

lemma tame_frac: 
  assumes "0 \<le> k" "k \<le> 2 ^ 50" "1 \<le> c" "c \<le> 10 ^ 12" shows "tame (of_int k / c)"
proof (cases "k = 0")
  case False
  have "(of_int 1 :: rat) \<le> of_int k" "of_int k \<le> (of_int (2 ^ 50) :: rat)"
    unfolding of_int_le_iff using assms(1,2) False by auto
  then have "(1::rat) \<le> of_int k" "of_int k \<le> (2 ^ 50 :: rat)" by (simp_all only: of_int_1 of_int_power of_int_numeral)
  moreover have "c \<le> 2 ^ 200" using assms(4) by (rule order_trans) simp
  ultimately have "1 / 2 ^ 200 \<le> of_int k / c" "of_int k / c \<le> 2 ^ 50 / 1"
    using assms(3) by (rule_tac frac_le; linarith)+
  then show ?thesis by (simp add: tame_def)
qed (simp add: tame_def)

lemma ceil_near:
  assumes "\<bar>q - of_int n\<bar> \<le> (1 / 4 :: rat)" obtains e where "\<lceil>q\<rceil> = n + e" "0 \<le> e" "e \<le> (1::int)"
proof -
  have "of_int (n - 1) < q" "q \<le> of_int (n + 1)" using assms unfolding abs_le_iff of_int_diff of_int_add of_int_1 by linarith+
  then have "n \<le> \<lceil>q\<rceil>" "\<lceil>q\<rceil> \<le> n + 1" by (simp_all add: le_ceiling_iff ceiling_le_iff del: of_int_diff of_int_add)
  then show ?thesis using that[of "\<lceil>q\<rceil> - n"] by auto
qed

lemma near_floor:
  assumes "\<bar>q - (of_int n + f)\<bar> \<le> e" "e \<le> f" "f + e < (1 :: rat)" shows "\<lfloor>q\<rfloor> = n"
  using assms unfolding abs_le_iff by (intro floor_unique) linarith+

lemma shifted:
  assumes "\<bar>q - v\<bar> \<le> e" "\<bar>c\<bar> \<le> 1" "0 \<le> v" "v + e + 1 \<le> 2 ^ k" "k \<le> 53" "0 \<le> e"
  shows "\<exists>r. Fin q + Fin c = Fin r \<and> \<bar>r - (v + c)\<bar> \<le> e + 2 ^ k / 2 ^ 53"
proof -
  have b: "\<bar>q + c\<bar> \<le> 2 ^ k" using assms unfolding abs_le_iff by linarith
  also have "(2::rat) ^ k \<le> 2 ^ 53" using assms(5) by (intro power_increasing) auto
  finally have "fl (q + c) = Fin (rnd (q + c))" by (intro fl_small)
  moreover have "\<bar>rnd (q + c) - (v + c)\<bar> \<le> e + 2 ^ k / 2 ^ 53"
    using rnd_abs[OF b] assms(1) unfolding abs_le_iff by linarith
  ultimately show ?thesis by (simp add: plus_double_def)
qed

text \<open>Micro-units: \<open>k / c\<close> in millionths, when \<open>c\<close> divides a million\<close>

lemma micro_exact:
  assumes "0 \<le> k" "k * m \<le> 2 ^ 44" "0 < c" "c * m = 10 ^ 6"
  shows "to_token_decimals (fl (of_int k / of_int c)) = k * m"
proof -
  have m: "0 < m" using assms(3,4) by (metis zero_less_mult_pos zero_less_numeral zero_less_power)
  have cm: "rat_of_int c * of_int m = 10 ^ 6" using assms(4) by (simp only: of_int_power of_int_numeral flip: of_int_mult)
  have v: "of_int k / of_int c * 10 ^ 6 = rat_of_int (k * m)"
    using assms(3) cm by (simp add: field_simps)
  have "k * 1 \<le> k * m" using assms(1) m by (intro mult_left_mono) auto
  then have "k \<le> 2 ^ 50" using assms(2) by simp
  moreover have "c * 1 \<le> c * m" using assms(3) m by (intro mult_left_mono) auto
  then have "c \<le> 10 ^ 6" using assms(4) by simp
  then have "rat_of_int 1 \<le> of_int c" "rat_of_int c \<le> of_int (10 ^ 6)" unfolding of_int_le_iff using assms(3) by auto
  ultimately have "tame (of_int k / of_int c)" using assms(1) by (intro tame_frac) auto
  moreover have "tame (of_int (k * m) / 1)" using assms m by (intro tame_frac) auto
  ultimately have "approx (3 / 4 + 3 / 4) (of_int k / of_int c * 10 ^ 6) (fl (of_int k / of_int c) * Fin (10 ^ 6))"
    unfolding v by (intro approx_scale[OF approx_exact, of "of_int k / of_int c" "10 ^ 6", unfolded v]) auto
  then have w: "approx (3 / 4 + 3 / 4) (of_int (k * m)) (fl (of_int k / of_int c) * Fin (10 ^ 6))" unfolding v .
  have "rat_of_int 0 \<le> of_int (k * m)" "rat_of_int (k * m) \<le> of_int (2 ^ 44)"
    unfolding of_int_le_iff using assms(1,2) m by auto
  then have "0 \<le> rat_of_int (k * m)" "(3 / 4 + 3 / 4) * rat_of_int (k * m) \<le> 1 / 64 * 2 ^ 52" by simp_all
  from approx_abs[OF w this(1) _ this(2)]
  obtain q where q: "fl (of_int k / of_int c) * Fin (10 ^ 6) = Fin q" "\<bar>q - of_int (k * m)\<bar> \<le> 1 / 64" by auto
  have "rne q = k * m" using q(2) by (intro rne_unique) linarith
  moreover have "lit 1000000 * fl (of_int k / of_int c) = Fin q"
  proof -
    have "lit 1000000 = Fin (10 ^ 6)" by code_simp
    moreover have "x * y = y * (x :: double)" for x y by (cases x; cases y) (auto simp: times_double_def mult.commute)
    ultimately show ?thesis using q(1) by metis
  qed
  moreover have "k * m < 2 ^ 63" using assms(2) by simp
  moreover have "0 \<le> k * m" using assms(1) m by simp
  ultimately show ?thesis by (simp add: to_token_decimals_def nearbyint_def Let_def del: of_int_mult)
qed

text \<open>
  Rounding an amount up at four digits more than it is to keep and down again at those it keeps
  gives back an amount that is \<open>k\<close> steps, for every value that close to it.
\<close>

lemma up_then_down:
  assumes "approx 3 (of_int k / 10 ^ a) p" "0 \<le> k" "k \<le> 2 ^ 30" "a \<le> 6"
  shows "round_down (round_up p (a + 4)) a = fl (of_int k / 10 ^ a)"
proof -
  have L: "lit (1 / 10 ^ 6) = Fin (rnd (1 / 10 ^ 6))" by code_simp
  define e6 where "e6 = rnd (1 / 10 ^ 6)"
  have e6: "\<bar>e6 - 1 / 10 ^ 6\<bar> \<le> 1 / 10 ^ 9" unfolding e6_def by code_simp
  have K: "0 \<le> rat_of_int k" "rat_of_int k \<le> 2 ^ 30"
    using assms(2,3) of_int_le_iff[of k "2 ^ 30", where ?'a = rat] by auto
  have P: "pow10 (a + 4) = Fin (10 ^ (a + 4))" "pow10 a = Fin (10 ^ a)" using assms(4) by (auto intro!: pow10_exact)
  have c: "(1::rat) \<le> 10 ^ a" "(10::rat) ^ a \<le> 10 ^ 6" using power_increasing[OF assms(4), of "10::rat"] by (auto intro!: one_le_power)
  define N where "N = k * 10 ^ 4"
  have N: "0 \<le> N" "N \<le> 2 ^ 44" "rat_of_int N = of_int k * 10 ^ 4" using assms(2,3) by (auto simp: N_def)
  have "of_int k / 10 ^ a * 10 ^ (a + 4) = rat_of_int N" by (simp add: N power_add)
  moreover have "tame (of_int N / 1)" using N by (intro tame_frac) auto
  ultimately have "approx (3 + 3 / 4) (of_int N) (p * Fin (10 ^ (a + 4)))"
    using approx_scale[OF assms(1), of "10 ^ (a + 4)"] by simp
  from approx_abs[OF this, of "1 / 32"] obtain q where q: "p * Fin (10 ^ (a + 4)) = Fin q" "\<bar>q - of_int N\<bar> \<le> 1 / 32"
    using K N(3) by auto
  have e6b: "999 / 10 ^ 9 \<le> e6" "e6 \<le> 1001 / 10 ^ 9" unfolding e6_def by code_simp+
  have e6': "\<bar>e6\<bar> \<le> 1" using e6 unfolding abs_le_iff by (simp add: field_simps)
  obtain r where r: "Fin q + Fin (- e6) = Fin r" "\<bar>r - (of_int N + - e6)\<bar> \<le> 1 / 32 + 2 ^ 45 / 2 ^ 53"
    using shifted[OF q(2), of "- e6" 45] e6' K N(3) by auto
  have "\<bar>r - of_int N\<bar> \<le> 1 / 4" using r(2) e6 unfolding abs_le_iff by (simp add: field_simps)
  then obtain e where e: "\<lceil>r\<rceil> = N + e" "0 \<le> e" "e \<le> 1" by (rule ceil_near)
  define u where "u = round_up p (a + 4)"
  have u: "u = fl (of_int (N + e) / 10 ^ (a + 4))"
    unfolding u_def round_up_def P q(1) minus_double_def L e6_def[symmetric] uminus_double.simps r(1)
    by (simp add: dceil_def e(1) divide_double_def)
  have "tame (of_int (N + e) / 10 ^ (a + 4))"
  proof (rule tame_frac)
    have "(10::rat) ^ (a + 4) \<le> 10 ^ 10" "(1::rat) \<le> 10 ^ (a + 4)"
      using power_increasing[of "a + 4" 10 "10::rat"] assms(4) by (auto intro!: one_le_power)
    then show "(1::rat) \<le> 10 ^ (a + 4)" "(10::rat) ^ (a + 4) \<le> 10 ^ 12" by auto
  qed (use N e in auto)
  then have u1: "approx (3 / 4) (of_int (N + e) / 10 ^ (a + 4)) u" unfolding u by (rule approx_exact)
  have s: "of_int (N + e) / 10 ^ (a + 4) * 10 ^ a = rat_of_int (N + e) / 10 ^ 4" by (simp add: power_add)
  have "tame (rat_of_int (N + e) / 10 ^ 4)" using N e by (intro tame_frac) auto
  then have "approx (3 / 4 + 3 / 4) (rat_of_int (N + e) / 10 ^ 4) (u * Fin (10 ^ a))"
    using approx_scale[OF u1, of "10 ^ a", unfolded s] by simp
  moreover have "rat_of_int (N + e) / 10 ^ 4 = of_int k + of_int e / 10 ^ 4" by (simp add: N(3) add_divide_distrib)
  ultimately have u2: "approx (3 / 4 + 3 / 4) (of_int k + of_int e / 10 ^ 4) (u * Fin (10 ^ a))" by (simp only:)
  have E: "0 \<le> rat_of_int e" "rat_of_int e \<le> 1" using e(2,3) by simp_all
  from approx_abs[OF u2, of "4 / 10 ^ 7"] obtain x where x: "u * Fin (10 ^ a) = Fin x"
    "\<bar>x - (of_int k + of_int e / 10 ^ 4)\<bar> \<le> 4 / 10 ^ 7" using K E by auto
  obtain y where y: "Fin x + Fin e6 = Fin y" "\<bar>y - (of_int k + of_int e / 10 ^ 4 + e6)\<bar> \<le> 4 / 10 ^ 7 + 2 ^ 31 / 2 ^ 53"
    using shifted[OF x(2), of e6 31] e6' K E by auto
  have "\<lfloor>y\<rfloor> = k"
    by (rule near_floor[where f = "of_int e / 10 ^ 4 + e6", OF y(2)[unfolded add.assoc]]) (use e6b E in \<open>simp_all add: field_simps\<close>)
  then show ?thesis unfolding round_down_def P u_def[symmetric] x(1) L e6_def[symmetric] y(1)
    by (simp add: dfloor_def divide_double_def)
qed

lemma unat_of_int: "0 \<le> i \<Longrightarrow> i < 2 ^ 64 \<Longrightarrow> unat (of_int i :: u64) = nat i"
  by (simp add: unsigned_of_int take_bit_int_eq_self)

lemma round_config_shape:
  "round_config tick = \<lparr>rcf_price = n, rcf_size = m, rcf_amount = a\<rparr> \<Longrightarrow> n \<in> {1, 2, 3, 4} \<and> m = 2 \<and> a = n + 2"
  by (auto simp: round_config_def split: if_splits)

lemma order_amounts:
  assumes "n \<in> {1, 2, 3, 4}" and k: "nearbyint (price * pow10 n) = Fin (of_int k)" "0 \<le> k"
    and j: "dfloor (sz * pow10 2 + lit (1 / 10 ^ 6)) = Fin (of_int j)" "0 \<le> j" and b: "j * k \<le> 2 ^ 30" "j \<le> 2 ^ 30" "k \<le> 2 ^ 30"
  shows "get_order_amounts is_buy sz price \<lparr>rcf_price = n, rcf_size = 2, rcf_amount = n + 2\<rparr> =
    (if is_buy then \<lparr>oa_maker_amount = of_int (j * k * 10 ^ (4 - n)), oa_taker_amount = of_int (j * 10 ^ 4), oa_side = 0\<rparr>
     else \<lparr>oa_maker_amount = of_int (j * 10 ^ 4), oa_taker_amount = of_int (j * k * 10 ^ (4 - n)), oa_side = 1\<rparr>)"
proof -
  have n: "1 \<le> n" "n \<le> 4" using assms(1) by auto
  have P: "pow10 n = Fin (10 ^ n)" "pow10 2 = Fin (10 ^ 2)" by (rule pow10_exact, use n in simp)+
  have c: "(1::rat) \<le> 10 ^ n" "(10::rat) ^ n \<le> 10 ^ 4"
    using power_increasing[OF n(2), of "10::rat"] by (auto intro!: one_le_power)
  have raw: "round_normal price n = fl (of_int k / 10 ^ n)" "round_down sz 2 = fl (of_int j / 10 ^ 2)"
    unfolding round_normal_def round_down_def k(1) j(1) unfolding P by (simp_all add: divide_double_def)
  have t: "tame (of_int k / 10 ^ n)" "tame (of_int j / 10 ^ 2)"
    using k j b c by (auto intro!: tame_frac)
  have d: "of_int j / 10 ^ 2 * (of_int k / 10 ^ n) = rat_of_int (j * k) / 10 ^ (n + 2)" by (simp add: power_add)
  have "tame (of_int (j * k) / 10 ^ (n + 2))"
  proof (rule tame_frac)
    show "(1::rat) \<le> 10 ^ (n + 2)" by (rule one_le_power) simp
    show "(10::rat) ^ (n + 2) \<le> 10 ^ 12" by (rule power_increasing) (use n in auto)
  qed (use k j b in auto)
  then have "approx (3 / 4 + 3 / 4 + 1) (of_int (j * k) / 10 ^ (n + 2)) (round_down sz 2 * round_normal price n)"
    using approx_times[OF approx_exact[OF t(2)] approx_exact[OF t(1)], unfolded d] k j raw by simp
  then have "approx 3 (of_int (j * k) / 10 ^ (n + 2)) (round_down sz 2 * round_normal price n)"
    by (rule approx_weaken) (use k j in auto)
  then have u: "round_down (round_up (round_down sz 2 * round_normal price n) (n + 2 + 4)) (n + 2) = fl (of_int (j * k) / 10 ^ (n + 2))"
    by (rule up_then_down) (use k j b n in auto)
  have "to_token_decimals (fl (rat_of_int (j * k) / of_int (10 ^ (n + 2)))) = j * k * 10 ^ (4 - n)"
  proof (rule micro_exact)
    have "(10::int) ^ (4 - n) \<le> 10 ^ 3" using n by (intro power_increasing) auto
    then have "j * k * 10 ^ (4 - n) \<le> 2 ^ 30 * 10 ^ 3" using k j b by (intro mult_mono) auto
    then show "j * k * 10 ^ (4 - n) \<le> 2 ^ 44" by simp
    show "(10::int) ^ (n + 2) * 10 ^ (4 - n) = 10 ^ 6" using n by (simp flip: power_add)
  qed (use k j in auto)
  moreover have "to_token_decimals (fl (rat_of_int j / of_int (10 ^ 2))) = j * 10 ^ 4"
    by (rule micro_exact) (use j b in auto)
  ultimately have "to_token_decimals (fl (rat_of_int (j * k) / 10 ^ (n + 2))) = j * k * 10 ^ (4 - n)"
    "to_token_decimals (fl (rat_of_int j / 10 ^ 2)) = j * 10 ^ 4" by (simp_all only: of_int_power of_int_numeral)
  then show ?thesis using u by (simp add: get_order_amounts_def Let_def raw)
qed

text \<open>
  C17: the price of a posted limit order is exact.  For every tick size, when \<open>k\<close> ticks is the price
  asked for and \<open>j\<close> hundredths the size, the two signed amounts are exactly \<open>j k\<close> and \<open>j\<close> in their
  units, so their quotient is \<open>k\<close> ticks with no remainder, however the doubles in between rounded; the
  bound \<open>j k \<le> 2 ^ 30\<close> allows orders of 100000 dollars at one cent a tick.
\<close>

theorem order_amounts_exact:
  assumes "round_config tick = rc" "n = rcf_price rc"
    and "nearbyint (price * pow10 n) = Fin (of_int k)" "0 \<le> k" "k \<le> 2 ^ 30"
    and "dfloor (sz * pow10 (rcf_size rc) + lit (1 / 10 ^ 6)) = Fin (of_int j)" "0 \<le> j" "j \<le> 2 ^ 30" "j * k \<le> 2 ^ 30"
    and "get_order_amounts is_buy sz price rc = amt"
    and "shares = (if is_buy then oa_taker_amount amt else oa_maker_amount amt)"
    and "usdc = (if is_buy then oa_maker_amount amt else oa_taker_amount amt)"
  shows "unat shares = nat j * 10 ^ 4 \<and> unat usdc * 10 ^ n = nat k * unat shares \<and> oa_side amt = (if is_buy then 0 else 1)"
proof -
  obtain m a where rc: "rc = \<lparr>rcf_price = n, rcf_size = m, rcf_amount = a\<rparr>" using assms(2) by (cases rc) auto
  then have n: "n \<in> {1, 2, 3, 4}" "m = 2" "a = n + 2" using round_config_shape[of tick n m a] assms(1) by auto
  have amt: "amt = (if is_buy then \<lparr>oa_maker_amount = of_int (j * k * 10 ^ (4 - n)), oa_taker_amount = of_int (j * 10 ^ 4), oa_side = 0\<rparr>
     else \<lparr>oa_maker_amount = of_int (j * 10 ^ 4), oa_taker_amount = of_int (j * k * 10 ^ (4 - n)), oa_side = 1\<rparr>)"
    using order_amounts[OF n(1) assms(3,4) _ assms(7,9,8,5), of sz is_buy] assms(6,10) rc n by simp
  have p: "(10::int) ^ (4 - n) \<le> 10 ^ 3" "0 \<le> j * k" using n assms(4,7) by auto
  then have "j * k * 10 ^ (4 - n) \<le> 2 ^ 30 * 10 ^ 3" using assms(9) by (intro mult_mono) auto
  then have u: "unat (of_int (j * k * 10 ^ (4 - n)) :: u64) = nat (j * k * 10 ^ (4 - n))"
    "unat (of_int (j * 10 ^ 4) :: u64) = nat (j * 10 ^ 4)"
    using p assms(7,8) by (intro unat_of_int; simp)+
  have "j * k * 10 ^ (4 - n) * 10 ^ n = k * (j * 10 ^ 4)" using n(1) by auto
  then have "int (nat (j * k * 10 ^ (4 - n)) * 10 ^ n) = int (nat k * nat (j * 10 ^ 4))"
    using p assms(4,7) by simp
  then have "nat (j * k * 10 ^ (4 - n)) * 10 ^ n = nat k * nat (j * 10 ^ 4)" by (simp only: of_nat_eq_iff)
  then show ?thesis using assms(7) amt u unfolding assms(11,12) by (simp add: nat_mult_distrib)
qed

theorem order_amounts_exact_witness:
  "unat (oa_maker_amount (get_order_amounts True (lit (102 / 10)) (lit (511 / 1000)) (round_config ''0.001''))) * 10 ^ 3 =
   511 * unat (oa_taker_amount (get_order_amounts True (lit (102 / 10)) (lit (511 / 1000)) (round_config ''0.001'')))"
proof -
  define rc where "rc = round_config ''0.001''"
  have rc: "rc = \<lparr>rcf_price = 3, rcf_size = 2, rcf_amount = 5\<rparr>" by (simp add: rc_def round_config_def)
  have 1: "nearbyint (lit (511 / 1000) * pow10 3) = Fin (of_int 511)" by code_simp
  have "dfloor (lit (102 / 10) * pow10 2 + lit (1 / 10 ^ 6)) = Fin (of_int 1020)" by code_simp
  then have 2: "dfloor (lit (102 / 10) * pow10 (rcf_size rc) + lit (1 / 10 ^ 6)) = Fin (of_int 1020)"
    unfolding rc RoundConfig.simps .
  have 3: "3 = rcf_price rc" by (simp add: rc)
  have b: "(0::int) \<le> 511" "(511::int) \<le> 2 ^ 30" "(0::int) \<le> 1020" "(1020::int) \<le> 2 ^ 30" "(1020::int) * 511 \<le> 2 ^ 30"
    by simp_all
  show ?thesis using order_amounts_exact[OF rc_def[symmetric] 3 1 b(1,2) 2 b(3-5) refl refl refl, of True]
    unfolding rc_def[symmetric] if_True nat_numeral by (rule conjunct1[OF conjunct2])
qed
end
