(* ===== verification/Clob.thy ===== *)
theory Clob
  imports Engine Eip1559 ClobWire ClobAmounts
begin

text \<open>
  The submitter on the real exchange (\<open>clob_submitter.cpp\<close>): the object's construction with the
  derivation of its API credentials, the caches, placing, cancelling and flattening, and the reads
  of trades, orders, rewards and the balance.  The state is the object with the list of the
  requests it has handed to libcurl; the exchange is the parameter \<open>ce_http\<close>, which answers a
  request after the requests made before it (a connection that fails is an answer of status 0).
  The clocks and \<open>/dev/urandom\<close> are asked with the number of readings so far.  The waits of the rate
  limiter (\<open>RateLimit\<close>), of the retries, and the pings of the keep-warm thread (\<open>Warmer\<close>) are left out.
\<close>

section \<open>State\<close>

record LiveCredentials =
  lc_private_key :: bytes
  lc_maker :: string
  lc_signer_lc :: string
  lc_signature_type :: int
  lc_api_key :: string
  lc_api_secret :: string
  lc_api_passphrase :: string

record Request =
  rq_method :: string
  rq_url :: string
  rq_headers :: "string list"
  rq_body :: string

record ClobSubmitter =
  cs_endpoint :: string
  cs_creds :: LiveCredentials
  cs_expiry_s :: double
  cs_invert_side :: bool
  cs_ready :: bool
  cs_last_trade_id :: "string option"
  cs_own_taker_ids :: "string set"
  cs_own_taker_fifo :: "string list"
  cs_tick_cache :: "(string, string \<times> double) smap"
  cs_neg_risk_cache :: "(string, bool) smap"
  cs_warming :: bool
  cs_sent :: "Request list"
  cs_reads :: nat

record ClobEnv =
  ce_jl :: jlib
  ce_secp :: secp256k1
  ce_hmac :: "bytes \<Rightarrow> bytes \<Rightarrow> bytes"
  ce_http :: "Request list \<Rightarrow> Request \<Rightarrow> HttpResponse"
  ce_unix :: "nat \<Rightarrow> int"
  ce_mono :: "nat \<Rightarrow> double"
  ce_urandom :: "nat \<Rightarrow> u64 option"
  ce_environ :: environ

type_synonym 'a clobc = "(ClobSubmitter, 'a) comp"

definition reading_no :: "(nat \<Rightarrow> 'a) \<Rightarrow> 'a clobc" where
  "reading_no f s = (Inr (f (cs_reads s)), s\<lparr>cs_reads := cs_reads s + 1\<rparr>)"

definition now_unix :: "ClobEnv \<Rightarrow> int clobc" where
  "now_unix x = reading_no (ce_unix x)"

definition mono_now :: "ClobEnv \<Rightarrow> double clobc" where
  "mono_now x = reading_no (ce_mono x)"

text \<open>A failed or short read leaves zero.\<close>

definition random_salt :: "ClobEnv \<Rightarrow> u64 clobc" where
  "random_salt x = bindc (reading_no (ce_urandom x)) (\<lambda>r. ret (drop_bit 1 (case r of None \<Rightarrow> 0 | Some w \<Rightarrow> w)))"

section \<open>Helpers\<close>

text \<open>The bytes are written one by one; a digit that is none stops the loop with the rest as it was.\<close>

fun hex_into :: "string \<Rightarrow> bytes \<Rightarrow> bool \<times> bytes" where
  "hex_into (c # d # s) (b # bs) =
     (let hi = HexVal c; lo = HexVal d in
      if hi < 0 \<or> lo < 0 then (False, b # bs)
      else case hex_into s bs of (ok, r) \<Rightarrow> (ok, (push_bit 4 (of_int hi) OR of_int lo) # r))"
| "hex_into _ bs = (True, bs)"

definition hex_to_bytes :: "string \<Rightarrow> bytes \<Rightarrow> bool \<times> bytes" where
  "hex_to_bytes hex out =
     (let p = c_str (StripZx hex) in if length p \<noteq> length out * 2 then (False, out) else hex_into p out)"

text \<open>Only a matched (or delayed) answer counts; the amounts of a refused order are what was asked.\<close>

definition order_filled_shares :: "jlib \<Rightarrow> json \<Rightarrow> bool \<Rightarrow> double" where
  "order_filled_shares jl j is_buy =
     (let st = to_lower (find_str jl j ''status'') in
      if st \<noteq> ''matched'' \<and> st \<noteq> ''delayed'' then 0
      else find_double j (if is_buy then ''takingAmount'' else ''makingAmount'') 0)"

text \<open>\<open>if (v = find(j, a)) ... else if (v = find(j, b)) ...\<close>\<close>

definition either_str :: "jlib \<Rightarrow> json \<Rightarrow> string \<Rightarrow> string \<Rightarrow> string" where
  "either_str jl j a b = (if jfind j a \<noteq> None then find_str jl j a else find_str jl j b)"

definition ok2xx :: "HttpResponse \<Rightarrow> bool" where
  "ok2xx r \<longleftrightarrow> 200 \<le> hr_status r \<and> hr_status r < 300"

text \<open>The request as libcurl is set up for it: a GET carries no body.\<close>

definition http :: "ClobEnv \<Rightarrow> string \<Rightarrow> string \<Rightarrow> string list \<Rightarrow> string \<Rightarrow> HttpResponse clobc" where
  "http x meth path headers body s =
     (let rq = \<lparr>rq_method = meth, rq_url = c_str (cs_endpoint s @ path), rq_headers = map c_str headers,
                rq_body = (if meth = ''GET'' then [] else body)\<rparr>
      in (Inr (ce_http x (cs_sent s) rq), s\<lparr>cs_sent := cs_sent s @ [rq]\<rparr>))"

definition json_header :: "string list" where
  "json_header = [''Content-Type: application/json'']"

definition l2_headers :: "ClobEnv \<Rightarrow> LiveCredentials \<Rightarrow> string \<Rightarrow> string \<Rightarrow> string \<Rightarrow> string \<Rightarrow> string list" where
  "l2_headers x c meth path body ts =
     [''Content-Type: application/json'', ''POLY_ADDRESS: '' @ lc_signer_lc c,
      ''POLY_SIGNATURE: '' @ ComputeL2Signature (ce_hmac x) (lc_api_secret c) ts meth path body,
      ''POLY_TIMESTAMP: '' @ ts, ''POLY_API_KEY: '' @ lc_api_key c, ''POLY_PASSPHRASE: '' @ lc_api_passphrase c]"

text \<open>A signed read: the query is in the URL, the path alone is signed.\<close>

definition l2_get :: "ClobEnv \<Rightarrow> string \<Rightarrow> string \<Rightarrow> HttpResponse clobc" where
  "l2_get x path query =
     bindc (now_unix x) (\<lambda>t.
     bindc (reading cs_creds) (\<lambda>c. http x ''GET'' query (l2_headers x c ''GET'' path [] (int_str t)) []))"

section \<open>Credentials\<close>

definition auth_fields :: "jlib \<Rightarrow> json \<Rightarrow> LiveCredentials \<Rightarrow> LiveCredentials" where
  "auth_fields jl j c =
     (let set_key = (case jfind j ''apiKey'' of None \<Rightarrow> id | Some v \<Rightarrow> lc_api_key_update (\<lambda>_. to_str (jl_dump jl) v));
          set_secret = (case jfind j ''secret'' of None \<Rightarrow> id | Some v \<Rightarrow> lc_api_secret_update (\<lambda>_. to_str (jl_dump jl) v));
          set_pass = (case jfind j ''passphrase'' of None \<Rightarrow> id | Some v \<Rightarrow> lc_api_passphrase_update (\<lambda>_. to_str (jl_dump jl) v))
      in set_pass (set_secret (set_key c)))"

text \<open>\<open>Some\<close> is the error text of a failure.\<close>

definition derive_api_creds :: "ClobEnv \<Rightarrow> string option clobc" where
  "derive_api_creds x =
     bindc (now_unix x) (\<lambda>t.
     bindc (reading cs_creds) (\<lambda>c.
     case SignDigest (ce_secp x) (ComputeClobAuthDigest (lc_signer_lc c) (int_str t) 0) (lc_private_key c) of
       None \<Rightarrow> ret (Some ''L1 sign failed'')
     | Some sig \<Rightarrow>
         let l1 = [''Content-Type: application/json'', ''POLY_ADDRESS: '' @ lc_signer_lc c,
                   ''POLY_SIGNATURE: '' @ to_hex sig, ''POLY_TIMESTAMP: '' @ int_str t, ''POLY_NONCE: 0''] in
         bindc (http x ''POST'' ''/auth/api-key'' l1 []) (\<lambda>r1.
         bindc (if ok2xx r1 then ret r1 else http x ''GET'' ''/auth/derive-api-key'' l1 []) (\<lambda>r.
         if \<not> ok2xx r then ret (Some (''auth '' @ int_str (hr_status r) @ '' '' @ take 160 (hr_body r)))
         else case jl_parse (ce_jl x) (hr_body r) of
           None \<Rightarrow> ret (Some ''auth response parse failed'')
         | Some j \<Rightarrow>
             bindc (modify (cs_creds_update (auth_fields (ce_jl x) j))) (\<lambda>_.
             bindc (reading cs_creds) (\<lambda>c'.
             ret (if lc_api_key c' = [] \<or> lc_api_secret c' = [] then Some ''auth response missing apiKey/secret'' else None)))))))"

definition warm_ping :: "ClobEnv \<Rightarrow> unit clobc" where
  "warm_ping x = bindc (http x ''GET'' ''/time'' json_header []) (\<lambda>_. ret ())"

section \<open>Cached market data\<close>

definition tick_of :: "jlib \<Rightarrow> HttpResponse \<Rightarrow> string" where
  "tick_of jl r = (case jl_parse jl (hr_body r) of None \<Rightarrow> ''0.01''
     | Some j \<Rightarrow> (case jfind j ''minimum_tick_size'' of None \<Rightarrow> ''0.01'' | Some v \<Rightarrow> to_str (jl_dump jl) v))"

definition ask_tick_size :: "ClobEnv \<Rightarrow> string \<Rightarrow> string clobc" where
  "ask_tick_size x token =
     bindc (http x ''GET'' (''/tick-size?token_id='' @ token) json_header []) (\<lambda>r.
     let tick = tick_of (ce_jl x) r in
     bindc (mono_now x) (\<lambda>now.
     bindc (modify (cs_tick_cache_update (smap_put token (tick, now + lit 300)))) (\<lambda>_. ret tick)))"

definition fetch_tick_size :: "ClobEnv \<Rightarrow> string \<Rightarrow> string clobc" where
  "fetch_tick_size x token =
     bindc (reading (\<lambda>s. smap_get (cs_tick_cache s) token)) (\<lambda>hit. case hit of
       None \<Rightarrow> ask_tick_size x token
     | Some (tick, expiry) \<Rightarrow> bindc (mono_now x) (\<lambda>now. if now < expiry then ret tick else ask_tick_size x token))"

definition neg_risk_of :: "jlib \<Rightarrow> HttpResponse \<Rightarrow> bool" where
  "neg_risk_of jl r = (case jl_parse jl (hr_body r) of None \<Rightarrow> False | Some j \<Rightarrow> found_truthy j ''neg_risk'')"

definition fetch_neg_risk :: "ClobEnv \<Rightarrow> string \<Rightarrow> bool clobc" where
  "fetch_neg_risk x token =
     bindc (reading (\<lambda>s. smap_get (cs_neg_risk_cache s) token)) (\<lambda>hit. case hit of
       Some neg \<Rightarrow> ret neg
     | None \<Rightarrow>
         bindc (http x ''GET'' (''/neg-risk?token_id='' @ token) json_header []) (\<lambda>r.
         let neg = neg_risk_of (ce_jl x) r in
         bindc (modify (cs_neg_risk_cache_update (smap_put token neg))) (\<lambda>_. ret neg)))"

definition marketable_of :: "jlib \<Rightarrow> HttpResponse \<Rightarrow> double option" where
  "marketable_of jl r = (case jl_parse jl (hr_body r) of None \<Rightarrow> None
     | Some j \<Rightarrow> (case jfind j ''price'' of None \<Rightarrow> None
         | Some v \<Rightarrow> if 0 < to_double v then Some (to_double v) else None))"

definition fetch_marketable_price :: "ClobEnv \<Rightarrow> string \<Rightarrow> string \<Rightarrow> double option clobc" where
  "fetch_marketable_price x token side =
     bindc (http x ''GET'' (''/price?token_id='' @ token @ ''&side='' @ side) json_header []) (\<lambda>r.
     ret (marketable_of (ce_jl x) r))"

definition warm_token :: "ClobEnv \<Rightarrow> string \<Rightarrow> unit clobc" where
  "warm_token x token = bindc (fetch_tick_size x token) (\<lambda>_. bindc (fetch_neg_risk x token) (\<lambda>_. ret ()))"

section \<open>An order\<close>

definition order_error :: "string \<Rightarrow> json" where
  "order_error why = jobj [(''status'', JStr ''ERROR''), (''error'', JStr why)]"

text \<open>The order to be signed and the second it is stamped with, or the field that is not well formed\<close>

definition fresh_order :: "ClobEnv \<Rightarrow> string \<Rightarrow> OrderAmounts \<Rightarrow> (string + OrderV2 \<times> u64) clobc" where
  "fresh_order x token amt =
     bindc (random_salt x) (\<lambda>salt.
     bindc (reading cs_creds) (\<lambda>c.
     case AddressFromHex (lc_maker c) of None \<Rightarrow> ret (Inl ''maker addr'') | Some mk \<Rightarrow>
     (case AddressFromHex (lc_signer_lc c) of None \<Rightarrow> ret (Inl ''signer addr'') | Some sg \<Rightarrow>
     (case U256FromDecimal token of None \<Rightarrow> ret (Inl ''token_id'') | Some tok \<Rightarrow>
     bindc (now_unix x) (\<lambda>t.
     let now_s = of_int t in
     ret (Inr (\<lparr>ov_salt = U256FromU64 salt, ov_maker = mk, ov_signer = sg, ov_token_id = tok,
       ov_maker_amount = oa_maker_amount amt, ov_taker_amount = oa_taker_amount amt,
       ov_side = of_int (oa_side amt), ov_signature_type = of_int (lc_signature_type c),
       ov_timestamp_ms = now_s * 1000, ov_metadata = replicate 32 0, ov_builder = replicate 32 0\<rparr>, now_s)))))))"

definition zero_hex :: string where
  "zero_hex = ''0x'' @ replicate 64 (CHR ''0'')"

definition order_wire :: "LiveCredentials \<Rightarrow> OrderV2 \<Rightarrow> string \<Rightarrow> OrderAmounts \<Rightarrow> bool \<Rightarrow> bytes \<Rightarrow> string \<Rightarrow> OrderV2Wire" where
  "order_wire c ord token amt is_buy sig order_type =
     \<lparr>ow_salt = word_of (drop 24 (ov_salt ord)), ow_maker = lc_maker c, ow_signer = lc_signer_lc c,
      ow_token_id = token, ow_maker_amount = oa_maker_amount amt, ow_taker_amount = oa_taker_amount amt,
      ow_is_buy = is_buy, ow_signature_type = of_int (lc_signature_type c), ow_timestamp_ms = ov_timestamp_ms ord,
      ow_metadata_hex = zero_hex, ow_builder_hex = zero_hex,
      ow_signature = to_hex sig, ow_owner = lc_api_key c, ow_order_type = order_type\<rparr>"

definition post_order :: "ClobEnv \<Rightarrow> OrderV2Wire \<Rightarrow> u64 \<Rightarrow> HttpResponse clobc" where
  "post_order x w now_s =
     (let body = BuildOrderV2Body w in
      bindc (reading cs_creds) (\<lambda>c.
      http x ''POST'' ''/order'' (l2_headers x c ''POST'' ''/order'' body (nat_str (unat now_s))) body))"

text \<open>
  Signing and posting, the lines \<open>place\<close> and \<open>flatten\<close> have in common; only \<open>place\<close> recovers the
  signer from the signature (\<open>self_check\<close>).  \<open>Inl\<close> is the text of the early return.
\<close>

definition submit_order :: "ClobEnv \<Rightarrow> string \<Rightarrow> bool \<Rightarrow> bool \<Rightarrow> OrderAmounts \<Rightarrow> string \<Rightarrow> bool \<Rightarrow> (string + HttpResponse) clobc" where
  "submit_order x token is_buy neg_risk amt order_type self_check =
     bindc (fresh_order x token amt) (\<lambda>o1. case o1 of
       Inl why \<Rightarrow> ret (Inl why)
     | Inr (ord, now_s) \<Rightarrow>
         bindc (reading cs_creds) (\<lambda>c.
         let digest = ComputeOrderV2Digest ord (CtfExchangeV2Domain neg_risk) in
         case SignDigest (ce_secp x) digest (lc_private_key c) of
           None \<Rightarrow> ret (Inl ''sign failed'')
         | Some sig \<Rightarrow>
             if self_check \<and> RecoverAddress (ce_secp x) digest sig \<noteq> Some (ov_signer ord)
             then ret (Inl ''recover self-check failed'')
             else bindc (post_order x (order_wire c ord token amt is_buy sig order_type) now_s) (\<lambda>r. ret (Inr r))))"

text \<open>What \<open>place\<close> makes of the exchange's answer\<close>

definition order_id_of :: "jlib \<Rightarrow> json \<Rightarrow> string" where
  "order_id_of jl j = either_str jl j ''orderID'' ''order_id''"

definition order_accepted :: "jlib \<Rightarrow> HttpResponse \<Rightarrow> bool" where
  "order_accepted jl r \<longleftrightarrow> ok2xx r \<and> (case jl_parse jl (hr_body r) of None \<Rightarrow> False
     | Some j \<Rightarrow> (found_truthy j ''success'' \<or> order_id_of jl j \<noteq> []) \<and> to_lower (find_str jl j ''status'') \<noteq> ''unmatched'')"

definition place_reply :: "jlib \<Rightarrow> string \<Rightarrow> string \<Rightarrow> double \<Rightarrow> double \<Rightarrow> bool \<Rightarrow> HttpResponse \<Rightarrow> json" where
  "place_reply jl token side price sz is_buy r =
     (let order_id = (case jl_parse jl (hr_body r) of None \<Rightarrow> [] | Some j \<Rightarrow> order_id_of jl j);
          filled = (case jl_parse jl (hr_body r) of None \<Rightarrow> 0 | Some j \<Rightarrow> order_filled_shares jl j is_buy)
      in jobj [(''status'', JStr (if order_accepted jl r then ''PLACED'' else ''REJECTED'')),
        (''order_id'', JStr order_id), (''token_id'', JStr token), (''side'', JStr side),
        (''price'', JFloat price), (''size'', JFloat sz), (''filled'', JFloat filled),
        (''http'', JInt (hr_status r)), (''resp'', JStr (hr_body r))])"

text \<open>Only FAK and FOK are passed on; anything else rests.\<close>

definition wire_order_type :: "string \<Rightarrow> string" where
  "wire_order_type ot = (if ot = ''FAK'' \<or> ot = ''FOK'' then ot else ''GTC'')"

definition place_order :: "ClobEnv \<Rightarrow> string \<Rightarrow> string \<Rightarrow> double \<Rightarrow> double \<Rightarrow> string \<Rightarrow> json clobc" where
  "place_order x token side price sz ot =
     bindc (fetch_tick_size x token) (\<lambda>tick.
     bindc (fetch_neg_risk x token) (\<lambda>neg_risk.
     let is_buy = (to_upper side = ''BUY''); amt = get_order_amounts is_buy sz price (round_config tick) in
     bindc (submit_order x token is_buy neg_risk amt (wire_order_type ot) True) (\<lambda>res. ret (case res of
       Inl why \<Rightarrow> order_error why
     | Inr r \<Rightarrow> place_reply (ce_jl x) token side price sz is_buy r))))"

section \<open>Cancelling\<close>

definition cancel_reply :: "string \<Rightarrow> HttpResponse \<Rightarrow> json" where
  "cancel_reply token r =
     (if \<not> ok2xx r
      then jobj [(''status'', JStr ''ERROR''), (''error'', JStr ''cancel_failed''), (''token_id'', JStr token),
                 (''http'', JInt (hr_status r)), (''resp'', JStr (hr_body r))]
      else jobj [(''status'', JStr ''CANCELLED''), (''token_id'', JStr token),
                 (''http'', JInt (hr_status r)), (''resp'', JStr (hr_body r))])"

text \<open>A signed DELETE; the second is read before the signature.\<close>

definition l2_delete :: "ClobEnv \<Rightarrow> string \<Rightarrow> json \<Rightarrow> HttpResponse clobc" where
  "l2_delete x path doc =
     (let body = jl_dump (ce_jl x) doc in
      bindc (now_unix x) (\<lambda>t.
      bindc (reading cs_creds) (\<lambda>c. http x ''DELETE'' path (l2_headers x c ''DELETE'' path body (int_str t)) body)))"

definition cancel_all :: "ClobEnv \<Rightarrow> string \<Rightarrow> json clobc" where
  "cancel_all x token =
     bindc (l2_delete x ''/cancel-market-orders'' (jobj [(''market'', JStr []), (''asset_id'', JStr token)])) (\<lambda>r.
     ret (cancel_reply token r))"

definition clob_cancel_order :: "ClobEnv \<Rightarrow> string \<Rightarrow> unit clobc" where
  "clob_cancel_order x order_id =
     bindc (l2_delete x ''/order'' (jobj [(''orderID'', JStr order_id)])) (\<lambda>_. ret ())"

section \<open>Flattening\<close>

record FlattenRun =
  fr_remaining :: double
  fr_filled :: double
  fr_order_id :: string
  fr_resp :: string
  fr_http :: int

text \<open>Two ticks through the market, then four, six and eight\<close>

definition sweep_price :: "bool \<Rightarrow> double \<Rightarrow> nat \<Rightarrow> double \<Rightarrow> double" where
  "sweep_price is_buy tick_d attempt_no mkt =
     (let sweep = cmin (lit 8) (lit 2 * of_i (int attempt_no)) * tick_d
      in if is_buy then cmin (1 - tick_d) (mkt + sweep) else cmax tick_d (mkt - sweep))"

definition sweep_amounts :: "bool \<Rightarrow> double \<Rightarrow> double \<Rightarrow> RoundConfig \<Rightarrow> OrderAmounts" where
  "sweep_amounts is_buy remaining px rc =
     (if is_buy then get_market_order_amounts True (remaining * px) px rc
      else get_market_order_amounts False remaining px rc)"

text \<open>An order of our own that took liquidity is remembered, the oldest of 500 forgotten.\<close>

definition remember_taker :: "string \<Rightarrow> ClobSubmitter \<Rightarrow> ClobSubmitter" where
  "remember_taker oid s =
     (let ids = insert oid (cs_own_taker_ids s); fifo = cs_own_taker_fifo s @ [oid]
      in if 500 < length fifo
         then s\<lparr>cs_own_taker_ids := ids - {hd fifo}, cs_own_taker_fifo := tl fifo\<rparr>
         else s\<lparr>cs_own_taker_ids := ids, cs_own_taker_fifo := fifo\<rparr>)"

text \<open>The shares an answer reports as traded, and the run after it\<close>

definition made_of :: "jlib \<Rightarrow> bool \<Rightarrow> HttpResponse \<Rightarrow> double" where
  "made_of jl is_buy r = (case jl_parse jl (hr_body r) of None \<Rightarrow> 0 | Some j \<Rightarrow> order_filled_shares jl j is_buy)"

definition answered :: "jlib \<Rightarrow> bool \<Rightarrow> HttpResponse \<Rightarrow> FlattenRun \<Rightarrow> FlattenRun" where
  "answered jl is_buy r fr =
     (let oid = (case jl_parse jl (hr_body r) of None \<Rightarrow> fr_order_id fr
            | Some j \<Rightarrow> (case jfind j ''orderID'' of None \<Rightarrow> fr_order_id fr | Some v \<Rightarrow> to_str (jl_dump jl) v));
          made = made_of jl is_buy r;
          fr1 = fr\<lparr>fr_order_id := oid, fr_resp := hr_body r, fr_http := hr_status r\<rparr>
      in if 0 < made then fr1\<lparr>fr_filled := fr_filled fr + made, fr_remaining := fr_remaining fr - made\<rparr> else fr1)"

text \<open>One attempt; \<open>Inl\<close> is the early return with an error. The signature is not checked by recovery here.\<close>

definition flatten_try ::
  "ClobEnv \<Rightarrow> string \<Rightarrow> bool \<Rightarrow> bool \<Rightarrow> RoundConfig \<Rightarrow> double \<Rightarrow> nat \<Rightarrow> FlattenRun \<Rightarrow> (json + FlattenRun) clobc" where
  "flatten_try x token is_buy neg_risk rc tick_d attempt_no fr =
     bindc (fetch_marketable_price x token (if is_buy then ''BUY'' else ''SELL'')) (\<lambda>mkt. case mkt of
       None \<Rightarrow> ret (Inr fr)
     | Some m \<Rightarrow>
         let px = sweep_price is_buy tick_d attempt_no m; amt = sweep_amounts is_buy (fr_remaining fr) px rc in
         bindc (submit_order x token is_buy neg_risk amt ''FAK'' False) (\<lambda>res. case res of
           Inl why \<Rightarrow> ret (Inl (order_error why))
         | Inr r \<Rightarrow>
             let fr' = answered (ce_jl x) is_buy r fr in
             bindc (modify (if 0 < made_of (ce_jl x) is_buy r \<and> fr_order_id fr' \<noteq> []
                            then remember_taker (fr_order_id fr') else id)) (\<lambda>_.
             ret (Inr fr'))))"

text \<open>Six attempts at most, while a whole share remains; \<open>left\<close> counts those still allowed.\<close>

definition kMaxAttempts :: nat where "kMaxAttempts = 6"

fun flatten_loop ::
  "ClobEnv \<Rightarrow> string \<Rightarrow> bool \<Rightarrow> bool \<Rightarrow> RoundConfig \<Rightarrow> double \<Rightarrow> nat \<Rightarrow> FlattenRun \<Rightarrow> (json + FlattenRun) clobc" where
  "flatten_loop x token is_buy neg_risk rc tick_d 0 fr = ret (Inr fr)"
| "flatten_loop x token is_buy neg_risk rc tick_d (Suc left) fr =
     (if \<not> 1 \<le> fr_remaining fr then ret (Inr fr)
      else bindc (flatten_try x token is_buy neg_risk rc tick_d (kMaxAttempts - left) fr) (\<lambda>t. case t of
        Inl j \<Rightarrow> ret (Inl j)
      | Inr fr' \<Rightarrow> if fr_remaining fr' < 1 then ret (Inr fr')
                    else flatten_loop x token is_buy neg_risk rc tick_d left fr'))"

definition flatten_reply :: "string \<Rightarrow> string \<Rightarrow> double \<Rightarrow> FlattenRun \<Rightarrow> json" where
  "flatten_reply token side sz fr =
     (if fr_remaining fr < 1
      then jobj [(''status'', JStr ''FLATTENED''), (''token_id'', JStr token), (''side'', JStr side), (''size'', JFloat sz),
                 (''filled'', JFloat (fr_filled fr)), (''order_id'', JStr (fr_order_id fr)), (''http'', JInt (fr_http fr))]
      else jobj [(''status'', JStr ''ERROR''), (''error'', JStr ''flatten_partial''), (''token_id'', JStr token),
                 (''side'', JStr side), (''size'', JFloat sz), (''filled'', JFloat (fr_filled fr)),
                 (''remaining'', JFloat (fr_remaining fr)), (''http'', JInt (fr_http fr)), (''resp'', JStr (fr_resp fr))])"

definition flatten_position :: "ClobEnv \<Rightarrow> string \<Rightarrow> string \<Rightarrow> double \<Rightarrow> json clobc" where
  "flatten_position x token side sz =
     bindc (fetch_tick_size x token) (\<lambda>tick.
     bindc (fetch_neg_risk x token) (\<lambda>neg_risk.
     let tick_d = (case stod tick of None \<Rightarrow> lit (1 / 100) | Some (d, _) \<Rightarrow> d) in
     bindc (flatten_loop x token (to_upper side = ''BUY'') neg_risk (round_config tick) tick_d kMaxAttempts
         \<lparr>fr_remaining = sz, fr_filled = 0, fr_order_id = [], fr_resp = [], fr_http = 0\<rparr>) (\<lambda>res.
     ret (case res of Inl j \<Rightarrow> j | Inr fr \<Rightarrow> flatten_reply token side sz fr))))"

section \<open>The submitter interface\<close>

text \<open>
  \<open>operator()\<close>.  A missing side, price or size is a null pointer dereferenced, which no catch clause
  sees; the parameters of the model do not throw, so nothing reaches the two catch clauses.
\<close>

definition submit_action :: "ClobEnv \<Rightarrow> json \<Rightarrow> json clobc" where
  "submit_action x action =
     (let jl = ce_jl x; kind = find_str jl action ''action''; token = find_str jl action ''token_id'';
          text = to_str (jl_dump jl) in
      if kind = ''PLACE'' then
        let ot = (case jfind action ''order_type'' of None \<Rightarrow> ''GTC'' | Some v \<Rightarrow> text v) in
        bindc (deref (jfind action ''side'')) (\<lambda>side.
        bindc (deref (jfind action ''price'')) (\<lambda>price.
        bindc (deref (jfind action ''size'')) (\<lambda>sz.
        place_order x token (text side) (to_double price) (to_double sz) ot)))
      else if kind = ''CANCEL_ALL'' then cancel_all x token
      else if kind = ''FLATTEN'' then
        bindc (deref (jfind action ''side'')) (\<lambda>side.
        bindc (deref (jfind action ''size'')) (\<lambda>sz.
        flatten_position x token (text side) (to_double sz)))
      else of_sum (jset ''status'' (JStr ''IGNORED'') action))"

section \<open>Trades\<close>

definition maker_lc :: "LiveCredentials \<Rightarrow> string" where
  "maker_lc c = to_lower (lc_maker c)"

definition trades_of :: "jlib \<Rightarrow> HttpResponse \<Rightarrow> json" where
  "trades_of jl r = (case jl_parse jl (hr_body r) of None \<Rightarrow> JNull
     | Some j \<Rightarrow> if is_array j then j else (case jfind j ''data'' of None \<Rightarrow> JNull | Some d \<Rightarrow> d))"

definition fetch_trades_raw :: "ClobEnv \<Rightarrow> json clobc" where
  "fetch_trades_raw x =
     bindc (reading (\<lambda>s. ''/data/trades?maker_address='' @ maker_lc (cs_creds s))) (\<lambda>query.
     bindc (l2_get x ''/data/trades'' query) (\<lambda>r. ret (trades_of (ce_jl x) r)))"

definition trade_id :: "jlib \<Rightarrow> json \<Rightarrow> string" where
  "trade_id jl t = either_str jl t ''id'' ''trade_id''"

definition own_taker_trade :: "jlib \<Rightarrow> string set \<Rightarrow> json \<Rightarrow> bool" where
  "own_taker_trade jl own_taker t \<longleftrightarrow>
     list_ex (\<lambda>k. case jfind t k of None \<Rightarrow> False | Some v \<Rightarrow> to_str (jl_dump jl) v \<in> own_taker)
       [''taker_order_id'', ''takerOrderId'', ''order_id'', ''orderID'']"

text \<open>Our leg of a trade, in the terms of the maker\<close>

definition maker_leg :: "jlib \<Rightarrow> string \<Rightarrow> json \<Rightarrow> json" where
  "maker_leg jl tid mo = jobj
     ([(''id'', JStr tid)] @
      (case jfind mo ''order_id'' of None \<Rightarrow> [] | Some v \<Rightarrow> [(''order_id'', JStr (to_str (jl_dump jl) v))]) @
      [(''token_id'', JStr (find_str jl mo ''asset_id'')), (''side'', JStr (to_upper (find_str jl mo ''side''))),
       (''size'', JFloat (find_double mo ''matched_amount'' 0)), (''price'', JFloat (find_double mo ''price'' 0))])"

definition our_legs :: "jlib \<Rightarrow> string \<Rightarrow> json list \<Rightarrow> json list" where
  "our_legs jl maker mos = filter (\<lambda>mo. to_lower (find_str jl mo ''maker_address'') = maker) mos"

text \<open>The top level of a trade, for accounts without an address or rows without maker orders\<close>

definition top_fill :: "jlib \<Rightarrow> bool \<Rightarrow> string \<Rightarrow> json \<Rightarrow> json" where
  "top_fill jl invert_side tid t =
     (let side0 = to_upper (find_str jl t ''side'');
          side = (if invert_side then (if side0 = ''BUY'' then ''SELL'' else ''BUY'') else side0)
      in jobj [(''id'', JStr tid), (''token_id'', JStr (either_str jl t ''asset_id'' ''token_id'')), (''side'', JStr side),
               (''size'', JFloat (find_double t ''size'' 0)), (''price'', JFloat (find_double t ''price'' 0))])"

definition fills_of_trade :: "jlib \<Rightarrow> string set \<Rightarrow> bool \<Rightarrow> string \<Rightarrow> json \<Rightarrow> json list" where
  "fills_of_trade jl own_taker invert_side maker t =
     (let tid = trade_id jl t in
      if own_taker_trade jl own_taker t then []
      else case (if maker = [] then None else jfind t ''maker_orders'') of
        Some (JArr mos) \<Rightarrow> map (maker_leg jl tid) (our_legs jl maker mos)
      | _ \<Rightarrow> [top_fill jl invert_side tid t])"

text \<open>
  Newest first, up to the trade the cursor stood at when the call began (\<open>prev\<close>); the cursor moves to
  the first trade that has an id.
\<close>

fun scan_trades :: "jlib \<Rightarrow> string option \<Rightarrow> string set \<Rightarrow> bool \<Rightarrow> string \<Rightarrow> json list \<Rightarrow> bool \<Rightarrow> string option
    \<Rightarrow> json list \<times> string option" where
  "scan_trades jl prev own_taker invert_side maker [] seen_new last_id = ([], last_id)"
| "scan_trades jl prev own_taker invert_side maker (t # ts) seen_new last_id =
     (let tid = trade_id jl t in
      if tid \<noteq> [] \<and> prev = Some tid then ([], last_id)
      else let first = (\<not> seen_new \<and> tid \<noteq> []) in
        case scan_trades jl prev own_taker invert_side maker ts (seen_new \<or> first)
               (if first then Some tid else last_id) of
          (out, l) \<Rightarrow> (fills_of_trade jl own_taker invert_side maker t @ out, l))"

definition extract_new_fills :: "jlib \<Rightarrow> json \<Rightarrow> string option \<Rightarrow> string set \<Rightarrow> bool \<Rightarrow> string \<Rightarrow> json list \<times> string option" where
  "extract_new_fills jl data last_id own_taker invert_side maker =
     (case data of JArr ts \<Rightarrow> scan_trades jl last_id own_taker invert_side maker ts False last_id | _ \<Rightarrow> ([], last_id))"

definition clob_poll_fills :: "ClobEnv \<Rightarrow> json list clobc" where
  "clob_poll_fills x =
     bindc (fetch_trades_raw x) (\<lambda>data.
     bindc (reading (\<lambda>s. extract_new_fills (ce_jl x) data (cs_last_trade_id s) (cs_own_taker_ids s)
         (cs_invert_side s) (maker_lc (cs_creds s)))) (\<lambda>(out, l).
     bindc (modify (cs_last_trade_id_update (\<lambda>_. l))) (\<lambda>_. ret out)))"

definition fills_since :: "ClobEnv \<Rightarrow> string \<Rightarrow> json list clobc" where
  "fills_since x from_id =
     (if from_id = [] then ret []
      else bindc (fetch_trades_raw x) (\<lambda>data.
        reading (\<lambda>s. fst (extract_new_fills (ce_jl x) data (Some from_id) (cs_own_taker_ids s)
          (cs_invert_side s) (maker_lc (cs_creds s))))))"

definition recent_trades_raw :: "ClobEnv \<Rightarrow> nat \<Rightarrow> json clobc" where
  "recent_trades_raw x n = bindc (fetch_trades_raw x) (\<lambda>data. ret (JArr (take n (elements data))))"

definition trade_count :: "jlib \<Rightarrow> HttpResponse \<Rightarrow> nat" where
  "trade_count jl r = (case jl_parse jl (hr_body r) of None \<Rightarrow> 0
     | Some j \<Rightarrow> if is_array j then length (elements j) else length (find_elements j ''data''))"

definition debug_variants :: "LiveCredentials \<Rightarrow> (string \<times> string) list" where
  "debug_variants c =
     [(''maker=funder_asis'', ''/data/trades?maker_address='' @ lc_maker c),
      (''maker=funder_lc'', ''/data/trades?maker_address='' @ maker_lc c),
      (''maker=signer'', ''/data/trades?maker_address='' @ lc_signer_lc c),
      (''taker=funder_lc'', ''/data/trades?taker_address='' @ maker_lc c),
      (''nofilter'', ''/data/trades'')]"

definition debug_trades :: "ClobEnv \<Rightarrow> json clobc" where
  "debug_trades x =
     bindc (now_unix x) (\<lambda>t.
     bindc (reading cs_creds) (\<lambda>c.
     bindc (for_each (\<lambda>(label, query).
         bindc (http x ''GET'' query (l2_headers x c ''GET'' ''/data/trades'' [] (int_str t)) []) (\<lambda>r.
         ret [jobj [(''variant'', JStr label), (''http'', JInt (hr_status r)),
                    (''count'', JInt (int (trade_count (ce_jl x) r))), (''body'', JStr (take 200 (hr_body r)))]]))
       (debug_variants c)) (\<lambda>rows. ret (JArr rows))))"

section \<open>Rewards, balance and orders\<close>

definition round4 :: "double \<Rightarrow> double" where
  "round4 d = nearbyint (d * lit 10000) / lit 10000"

definition user_query :: "LiveCredentials \<Rightarrow> string \<Rightarrow> string" where
  "user_query c path = path @ ''?maker_address='' @ maker_lc c @ ''&signature_type='' @ int_str (lc_signature_type c)"

definition dated :: "string \<Rightarrow> string \<Rightarrow> string" where
  "dated date query = (if date = [] then query else query @ ''&date='' @ date)"

definition parsed :: "jlib \<Rightarrow> HttpResponse \<Rightarrow> json" where
  "parsed jl r = (case jl_parse jl (hr_body r) of None \<Rightarrow> JNull | Some j \<Rightarrow> j)"

definition market_earnings :: "json \<Rightarrow> double" where
  "market_earnings m = foldl (\<lambda>e y. case jfind y ''earnings'' of None \<Rightarrow> e | Some v \<Rightarrow> e + to_double v) 0
     (find_elements m ''earnings'')"

text \<open>The markets with an earning, and it\<close>

definition earners :: "json \<Rightarrow> (json \<times> double) list" where
  "earners j = filter (\<lambda>(m, e). lit (1 / 10 ^ 9) < e) (map (\<lambda>m. (m, market_earnings m)) (find_elements j ''data''))"

definition market_row :: "jlib \<Rightarrow> json \<times> double \<Rightarrow> json" where
  "market_row jl = (\<lambda>(m, e). jobj [(''cond'', JStr (find_str jl m ''condition_id'')), (''earn'', JFloat (round4 e)),
     (''pct'', JFloat (find_double m ''earning_percentage'' 0))])"

definition top_row :: "jlib \<Rightarrow> json \<times> double \<Rightarrow> json" where
  "top_row jl = (\<lambda>(m, e). jobj [(''earn'', JFloat (round4 e)), (''pct'', JFloat (find_double m ''earning_percentage'' 0)),
     (''q'', JStr (take 40 (find_str jl m ''question'')))])"

definition markets_part :: "jlib \<Rightarrow> HttpResponse \<Rightarrow> (string \<times> json) list" where
  "markets_part jl r =
     (let es = earners (parsed jl r) in
      [(''markets_http'', JInt (hr_status r)), (''accrued_total'', JFloat (round4 (foldl (+) 0 (map snd es)))),
       (''earning_markets'', JInt (int (length es))), (''top_earners'', JArr (map (top_row jl) (take 8 es))),
       (''by_market'', JArr (map (market_row jl) (take 300 es)))])"

definition percentages_part :: "jlib \<Rightarrow> HttpResponse \<Rightarrow> (string \<times> json) list" where
  "percentages_part jl r =
     (let pcts = (case parsed jl r of JObj kvs \<Rightarrow> map (\<lambda>(k, v). (k, to_double v)) (filter (\<lambda>(k, v). is_number v) kvs) | _ \<Rightarrow> [])
      in [(''percentages_http'', JInt (hr_status r)),
          (''live_pct_markets'', JInt (int (length (filter (\<lambda>(k, p). 0 < p) pcts)))),
          (''pct_by_condition'', jobj (map (\<lambda>(k, p). (k, JFloat p)) pcts))])"

definition official_total :: "json \<Rightarrow> double" where
  "official_total j = foldl (\<lambda>t y. let rate = find_double y ''asset_rate'' 1 in
       t + find_double y ''earnings'' 0 * (if 0 < rate then rate else 1)) 0
     (if is_array j then elements j else find_elements j ''data'')"

definition total_part :: "jlib \<Rightarrow> HttpResponse \<Rightarrow> (string \<times> json) list" where
  "total_part jl r = [(''total_http'', JInt (hr_status r)), (''official_total'', JFloat (round4 (official_total (parsed jl r))))]"

definition query_rewards :: "ClobEnv \<Rightarrow> string \<Rightarrow> json clobc" where
  "query_rewards x date =
     bindc (reading cs_creds) (\<lambda>c.
     bindc (l2_get x ''/rewards/user/markets''
         (dated date (user_query c ''/rewards/user/markets'' @ ''&order_by=earnings&position=DESC&page_size=500''))) (\<lambda>r1.
     bindc (l2_get x ''/rewards/user/percentages'' (user_query c ''/rewards/user/percentages'')) (\<lambda>r2.
     bindc (l2_get x ''/rewards/user/total'' (dated date (user_query c ''/rewards/user/total''))) (\<lambda>r3.
     ret (jobj (markets_part (ce_jl x) r1 @ percentages_part (ce_jl x) r2 @ total_part (ce_jl x) r3))))))"

definition usdc_balance :: "ClobEnv \<Rightarrow> double option clobc" where
  "usdc_balance x =
     bindc (reading cs_creds) (\<lambda>c.
     bindc (l2_get x ''/balance-allowance''
         (''/balance-allowance?asset_type=COLLATERAL&signature_type='' @ int_str (lc_signature_type c))) (\<lambda>r.
     ret (map_option (\<lambda>v. to_double v / lit 1000000) (jfind (parsed (ce_jl x) r) ''balance''))))"

definition api_creds :: "ClobSubmitter \<Rightarrow> json" where
  "api_creds s = (let c = cs_creds s in jobj [(''apiKey'', JStr (lc_api_key c)), (''secret'', JStr (lc_api_secret c)),
     (''passphrase'', JStr (lc_api_passphrase c))])"

definition list_open_orders :: "ClobEnv \<Rightarrow> json list clobc" where
  "list_open_orders x =
     bindc (l2_get x ''/data/orders'' ''/data/orders'') (\<lambda>r.
     let j = parsed (ce_jl x) r in ret (if is_array j then elements j else find_elements j ''data''))"

section \<open>Construction\<close>

definition no_creds :: LiveCredentials where
  "no_creds = \<lparr>lc_private_key = replicate 32 0, lc_maker = [], lc_signer_lc = [], lc_signature_type = 0,
     lc_api_key = [], lc_api_secret = [], lc_api_passphrase = []\<rparr>"

definition blank_submitter :: "environ \<Rightarrow> string \<Rightarrow> ClobSubmitter" where
  "blank_submitter ev endpoint =
     \<lparr>cs_endpoint = rev (dropWhile (\<lambda>c. c = CHR ''/'') (rev endpoint)), cs_creds = no_creds,
      cs_expiry_s = cmax 0 (env_f ev ''LM_ORDER_EXPIRY_S'' 0),
      cs_invert_side = flag_eq ev ''POLYMARKET_FILL_SIDE_INVERT'' ''1'' ''0'', cs_ready = False,
      cs_last_trade_id = None, cs_own_taker_ids = {}, cs_own_taker_fifo = [], cs_tick_cache = [],
      cs_neg_risk_cache = [], cs_warming = False, cs_sent = [], cs_reads = 0\<rparr>"

text \<open>The constructor; it returns early, not ready, on each of the four conditions.\<close>

definition construct :: "ClobEnv \<Rightarrow> unit clobc" where
  "construct x =
     (let ev = ce_environ x; pk = env_str ev ''POLYMARKET_PRIVATE_KEY'' [] in
      if \<not> flag_eq ev ''PM_TRADER_LIVE'' ''1'' ''0'' then ret ()
      else case (if pk = [] then (False, lc_private_key no_creds) else hex_to_bytes pk (lc_private_key no_creds)) of (key_ok, key) \<Rightarrow>
        bindc (modify (cs_creds_update (lc_private_key_update (\<lambda>_. key)))) (\<lambda>_.
        if \<not> key_ok then ret ()
        else case DeriveAddress (ce_secp x) key of None \<Rightarrow> ret ()
        | Some eoa \<Rightarrow>
            let signer = to_hex eoa; funder = env_str ev ''POLYMARKET_FUNDER'' [] in
            bindc (modify (cs_creds_update (\<lambda>c. c\<lparr>lc_signer_lc := signer, lc_maker := (if funder = [] then signer else funder),
                lc_signature_type := env_i ev ''POLYMARKET_SIGNATURE_TYPE'' 0\<rparr>))) (\<lambda>_.
            bindc (derive_api_creds x) (\<lambda>err.
            if err \<noteq> None then ret ()
            else bindc (clob_poll_fills x) (\<lambda>_.
                 modify (\<lambda>s. s\<lparr>cs_warming := True, cs_ready := True\<rparr>))))))"

definition new_submitter :: "ClobEnv \<Rightarrow> string \<Rightarrow> ClobSubmitter" where
  "new_submitter x endpoint = snd (construct x (blank_submitter (ce_environ x) endpoint))"

definition close_submitter :: "unit clobc" where
  "close_submitter = modify (cs_warming_update (\<lambda>_. False))"

section \<open>Runs\<close>

text \<open>One call on the object, from whichever thread; the lock on the handle keeps requests apart.\<close>

inductive clob_step :: "ClobEnv \<Rightarrow> ClobSubmitter \<Rightarrow> ClobSubmitter \<Rightarrow> bool" for x where
  "clob_step x s (snd (submit_action x action s))"
| "clob_step x s (snd (clob_poll_fills x s))"
| "clob_step x s (snd (fills_since x from_id s))"
| "clob_step x s (snd (recent_trades_raw x n s))"
| "clob_step x s (snd (debug_trades x s))"
| "clob_step x s (snd (query_rewards x date s))"
| "clob_step x s (snd (usdc_balance x s))"
| "clob_step x s (snd (list_open_orders x s))"
| "clob_step x s (snd (clob_cancel_order x order_id s))"
| "clob_step x s (snd (warm_token x token s))"
| "clob_step x s (snd (warm_ping x s))"
| "clob_step x s (snd (close_submitter s))"

text \<open>The object as the submitter of the engine: its answer after the actions handed to it before\<close>

definition after_actions :: "ClobEnv \<Rightarrow> ClobSubmitter \<Rightarrow> json list \<Rightarrow> ClobSubmitter" where
  "after_actions x s hist = foldl (\<lambda>s a. snd (submit_action x a s)) s hist"

definition clob_submitter :: "ClobEnv \<Rightarrow> ClobSubmitter \<Rightarrow> submitter" where
  "clob_submitter x s hist action = fst (submit_action x action (after_actions x s hist))"

end
