(* ===== verification/ClobProofs.thy ===== *)
theory ClobProofs
  imports Clob EngineProofs
begin

text \<open>
  Properties of the submitter: what it sends is signed by the account and says what was signed, a
  flattening reports what the exchange matched, the fill cursor gives every trade once, and the
  answers that the engine's all-or-nothing placement rests on.
\<close>

section \<open>Laws of the object\<close>

text \<open>
  A relation that the few kinds of change an object makes satisfy holds along every run: changes of
  what no law speaks of, requests other than a POST, the first answer about a token's exchange, and the
  posting of an order.
\<close>

definition clob_vital :: "ClobSubmitter \<Rightarrow> LiveCredentials \<times> string \<times> bool \<times> Request list \<times> (string, bool) smap" where
  "clob_vital s = (cs_creds s, cs_endpoint s, cs_ready s, cs_sent s, cs_neg_risk_cache s)"

lemma amounts_side: "oa_side (get_order_amounts b sz price rc) = (if b then 0 else 1)"
  "oa_side (sweep_amounts b sz price rc) = (if b then 0 else 1)"
  by (simp_all add: get_order_amounts_def sweep_amounts_def get_market_order_amounts_def Let_def)

lemma sum_branches: "(\<And>e. r = Inl e \<Longrightarrow> obeys R (f e)) \<Longrightarrow> (\<And>v. r = Inr v \<Longrightarrow> obeys R (g v)) \<Longrightarrow>
    obeys R (case r of Inl e \<Rightarrow> f e | Inr v \<Rightarrow> g v)"
  by (auto split: sum.split)

locale clob_law = evolution R for R :: "ClobSubmitter \<Rightarrow> ClobSubmitter \<Rightarrow> bool" +
  fixes x :: ClobEnv
  assumes unrelated: "clob_vital t = clob_vital s \<Longrightarrow> R s t"
    and requested: "rq_method r \<noteq> ''POST'' \<Longrightarrow> R s (s\<lparr>cs_sent := cs_sent s @ [r]\<rparr>)"
    and learned: "smap_get (cs_neg_risk_cache s) token = None \<Longrightarrow>
      R s (cs_neg_risk_cache_update (smap_put token neg) s)"
    and ordered: "oa_side amt = (if is_buy then 0 else 1) \<Longrightarrow> self_check \<or> ot = ''FAK'' \<Longrightarrow>
      obeys R (submit_order x token is_buy neg_risk amt ot self_check)"
begin

lemma quiet: "(\<And>s. clob_vital (f s) = clob_vital s) \<Longrightarrow> obeys R (modify f)"
  by (rule modified) (rule unrelated)

lemma clocks: "obeys R (reading_no f)" "obeys R (now_unix y)" "obeys R (mono_now y)"
proof -
  show r: "obeys R (reading_no f)" for f :: "nat \<Rightarrow> 'a"
    by (auto simp: obeys_def reading_no_def clob_vital_def intro!: unrelated)
  show "obeys R (now_unix y)" "obeys R (mono_now y)"
    by (auto simp: obeys_def reading_no_def now_unix_def mono_now_def clob_vital_def intro!: unrelated)
qed

lemma asking: "m \<noteq> ''POST'' \<Longrightarrow> obeys R (http y m path hs body)"
  by (simp add: obeys_def http_def Let_def requested)

lemmas parts = pure sequenced branches repeated clocks asking

lemma signed_calls: "obeys R (l2_get y path query)" "obeys R (l2_delete y path doc)"
  unfolding l2_get_def l2_delete_def Let_def by (intro parts; simp)+

lemma caches: "obeys R (fetch_tick_size y token)" "obeys R (fetch_neg_risk y token)" "obeys R (fetch_marketable_price y token side)"
proof -
  have a: "obeys R (ask_tick_size y token)"
    unfolding ask_tick_size_def Let_def by (intro parts quiet; simp add: clob_vital_def)
  show "obeys R (fetch_tick_size y token)"
    unfolding fetch_tick_size_def by (intro parts a)
  show "obeys R (fetch_marketable_price y token side)"
    unfolding fetch_marketable_price_def by (intro parts; simp)
  have f: "R s (cs_neg_risk_cache_update (smap_put token neg) (s\<lparr>cs_sent := cs_sent s @ [r]\<rparr>))"
    if "smap_get (cs_neg_risk_cache s) token = None" "rq_method r \<noteq> ''POST''" for s r neg
  proof -
    let ?s = "s\<lparr>cs_sent := cs_sent s @ [r]\<rparr>"
    have "smap_get (cs_neg_risk_cache ?s) token = None" using that(1) by simp
    from follows[OF requested[OF that(2)] learned[OF this]] show ?thesis .
  qed
  show "obeys R (fetch_neg_risk y token)"
    by (auto simp: obeys_def fetch_neg_risk_def comp_simps http_def Let_def stays split: option.split intro!: f)
qed

lemma taking: "obeys R (modify (if b then remember_taker oid else id))"
  by (rule quiet) (simp add: remember_taker_def Let_def clob_vital_def)

lemma orders: "obeys R (place_order x token side price sz ot)" "obeys R (flatten_position x token side sz)"
proof -
  show "obeys R (place_order x token side price sz ot)"
    unfolding place_order_def Let_def by (intro parts caches ordered) (auto simp: amounts_side)
  have t: "obeys R (flatten_try x token is_buy neg_risk rc tick_d n fr)" for is_buy neg_risk rc tick_d n fr
    unfolding flatten_try_def Let_def by (intro parts caches ordered sum_branches taking) (auto simp: amounts_side)
  have "obeys R (flatten_loop x token is_buy neg_risk rc tick_d n fr)" for is_buy neg_risk rc tick_d n fr
  proof (induction n arbitrary: fr)
    case (Suc n)
    then show ?case unfolding flatten_loop.simps by (intro parts t sum_branches)
  qed (simp add: pure)
  then show "obeys R (flatten_position x token side sz)"
    unfolding flatten_position_def Let_def by (intro parts caches)
qed

lemma reads: "obeys R (clob_poll_fills y)" "obeys R (fills_since y from_id)" "obeys R (recent_trades_raw y n)"
  "obeys R (debug_trades y)" "obeys R (query_rewards y date)" "obeys R (usdc_balance y)" "obeys R (list_open_orders y)"
proof -
  have f: "obeys R (fetch_trades_raw y)" unfolding fetch_trades_raw_def by (intro parts signed_calls)
  show "obeys R (clob_poll_fills y)" "obeys R (fills_since y from_id)" "obeys R (recent_trades_raw y n)"
    unfolding clob_poll_fills_def fills_since_def recent_trades_raw_def by (intro parts f quiet; simp add: clob_vital_def)+
  show "obeys R (debug_trades y)" unfolding debug_trades_def by (intro parts; simp)
  show "obeys R (query_rewards y date)" "obeys R (usdc_balance y)" "obeys R (list_open_orders y)"
    unfolding query_rewards_def usdc_balance_def list_open_orders_def Let_def by (intro parts signed_calls)+
qed

lemma writes: "obeys R (clob_cancel_order y oid)" "obeys R (cancel_all y token)" "obeys R (warm_token y token)"
  "obeys R (warm_ping y)" "obeys R close_submitter"
  unfolding clob_cancel_order_def cancel_all_def warm_token_def warm_ping_def close_submitter_def
  by (intro parts signed_calls caches quiet; simp add: clob_vital_def)+

lemma submits: "obeys R (submit_action x action)"
  unfolding submit_action_def Let_def by (intro parts orders writes)

lemma step_law: "clob_step x s t \<Longrightarrow> R s t"
  by (induction rule: clob_step.induct) (use submits reads writes in \<open>auto simp: obeys_def\<close>)

lemma run_law: "(clob_step x)\<^sup>*\<^sup>* s t \<Longrightarrow> R s t"
  by (induction rule: rtranclp_induct) (use stays follows step_law in blast)+

end

section \<open>Every order posted is signed\<close>

text \<open>The wire order shows the fields of an order that the account's key signed; a resting order also
  recovers to the signer's address.\<close>

definition shows_order :: "OrderV2Wire \<Rightarrow> OrderV2 \<Rightarrow> bool" where
  "shows_order w ord \<longleftrightarrow> U256FromU64 (ow_salt w) = ov_salt ord \<and> AddressFromHex (ow_maker w) = Some (ov_maker ord) \<and>
     AddressFromHex (ow_signer w) = Some (ov_signer ord) \<and> U256FromDecimal (ow_token_id w) = Some (ov_token_id ord) \<and>
     ow_maker_amount w = ov_maker_amount ord \<and> ow_taker_amount w = ov_taker_amount ord \<and>
     ov_side ord = (if ow_is_buy w then 0 else 1) \<and> ov_signature_type ord = ucast (ow_signature_type w) \<and>
     ow_timestamp_ms w = ov_timestamp_ms ord \<and> ow_metadata_hex w = to_hex (ov_metadata ord) \<and>
     ow_builder_hex w = to_hex (ov_builder ord)"

definition honest_order :: "ClobEnv \<Rightarrow> LiveCredentials \<Rightarrow> OrderV2Wire \<Rightarrow> bool" where
  "honest_order x c w \<longleftrightarrow> (\<exists>ord neg_risk sig. shows_order w ord \<and>
     SignDigest (ce_secp x) (ComputeOrderV2Digest ord (CtfExchangeV2Domain neg_risk)) (lc_private_key c) = Some sig \<and>
     ow_signature w = to_hex sig \<and>
     (ow_order_type w \<noteq> ''FAK'' \<longrightarrow>
        RecoverAddress (ce_secp x) (ComputeOrderV2Digest ord (CtfExchangeV2Domain neg_risk)) sig = Some (ov_signer ord)))"

definition authentic :: "ClobEnv \<Rightarrow> string \<Rightarrow> LiveCredentials \<Rightarrow> Request \<Rightarrow> bool" where
  "authentic x endpoint c r \<longleftrightarrow> (rq_method r = ''POST'' \<longrightarrow> (\<exists>w ts. rq_url r = c_str (endpoint @ ''/order'') \<and>
     rq_body r = BuildOrderV2Body w \<and> honest_order x c w \<and>
     rq_headers r = map c_str (l2_headers x c ''POST'' ''/order'' (rq_body r) ts)))"

definition posts_signed :: "ClobEnv \<Rightarrow> ClobSubmitter \<Rightarrow> ClobSubmitter \<Rightarrow> bool" where
  "posts_signed x s t \<longleftrightarrow> cs_creds t = cs_creds s \<and> cs_endpoint t = cs_endpoint s \<and> cs_ready t = cs_ready s \<and>
     (\<exists>rs. cs_sent t = cs_sent s @ rs \<and> list_all (authentic x (cs_endpoint s) (cs_creds s)) rs)"

lemma signed_trans: "posts_signed x s s" "posts_signed x s t \<Longrightarrow> posts_signed x t u \<Longrightarrow> posts_signed x s u"
  by (force simp: posts_signed_def)+

lemma fresh_order_runs: "\<exists>r n. fresh_order x token amt s = (Inr r, s\<lparr>cs_reads := n\<rparr>)"
  by (auto simp: fresh_order_def comp_simps random_salt_def now_unix_def reading_no_def Let_def split: option.split)

lemma salt_word: "word_of (drop 24 (U256FromU64 salt)) = salt"
proof -
  have "U256FromU64 salt = replicate 24 0 @ drop 24 (U256FromU64 salt)" by (simp add: U256FromU64_def)
  then have "be_val (drop 24 (U256FromU64 salt)) = unat salt" using be_val_U256FromU64[of salt] by (metis be_val_replicate0)
  then show ?thesis by (simp add: word_of_def)
qed

lemma zero_hex_bytes: "zero_hex = to_hex (replicate 32 0)"
  by code_simp

lemma narrow_type: "(of_int i :: byte) = ucast (of_int i :: 32 word)"
  by (rule bit_word_eqI) (simp add: bit_simps)

lemma fresh_order_shows:
  assumes "fresh_order x token amt s = (Inr (Inr (ord, t)), s')" "oa_side amt = (if is_buy then 0 else 1)"
  shows "shows_order (order_wire (cs_creds s) ord token amt is_buy sig ot) ord"
  using assms by (auto simp: fresh_order_def comp_simps random_salt_def now_unix_def reading_no_def Let_def shows_order_def
      order_wire_def salt_word zero_hex_bytes narrow_type split: option.splits)

text \<open>The request an order is posted with\<close>

definition order_request :: "ClobEnv \<Rightarrow> ClobSubmitter \<Rightarrow> OrderV2Wire \<Rightarrow> u64 \<Rightarrow> Request" where
  "order_request x s w now_s =
     \<lparr>rq_method = ''POST'', rq_url = c_str (cs_endpoint s @ ''/order''),
      rq_headers = map c_str (l2_headers x (cs_creds s) ''POST'' ''/order'' (BuildOrderV2Body w) (nat_str (unat now_s))),
      rq_body = BuildOrderV2Body w\<rparr>"

lemma post_order_run: "post_order x w now_s s =
    (Inr (ce_http x (cs_sent s) (order_request x s w now_s)), s\<lparr>cs_sent := cs_sent s @ [order_request x s w now_s]\<rparr>)"
  by (simp add: post_order_def comp_simps http_def Let_def order_request_def)

lemma post_order_signed:
  assumes "fresh_order x token amt s = (Inr (Inr (ord, t)), s1)" "oa_side amt = (if is_buy then 0 else 1)"
    and "SignDigest (ce_secp x) (ComputeOrderV2Digest ord (CtfExchangeV2Domain neg_risk)) (lc_private_key (cs_creds s)) = Some sig"
    and "ot \<noteq> ''FAK'' \<Longrightarrow> RecoverAddress (ce_secp x) (ComputeOrderV2Digest ord (CtfExchangeV2Domain neg_risk)) sig = Some (ov_signer ord)"
    and "cs_creds s2 = cs_creds s"
  shows "authentic x (cs_endpoint s2) (cs_creds s2) (order_request x s2 (order_wire (cs_creds s) ord token amt is_buy sig ot) now_s)"
proof -
  let ?w = "order_wire (cs_creds s) ord token amt is_buy sig ot"
  have "honest_order x (cs_creds s2) ?w"
    unfolding honest_order_def using fresh_order_shows[OF assms(1,2)] assms(3,4,5)
    by (intro exI[of _ ord] exI[of _ neg_risk] exI[of _ sig]) (auto simp: order_wire_def)
  then show ?thesis unfolding authentic_def order_request_def by (intro impI exI[of _ ?w]) auto
qed

lemma posting_signed:
  "authentic x (cs_endpoint s) (cs_creds s) r \<Longrightarrow> posts_signed x s (s\<lparr>cs_sent := cs_sent s @ [r]\<rparr>)"
  by (simp add: posts_signed_def)

lemma submit_order_signed:
  assumes "oa_side amt = (if is_buy then 0 else 1)" "self_check \<or> ot = ''FAK''"
  shows "obeys (posts_signed x) (submit_order x token is_buy neg_risk amt ot self_check)"
  unfolding obeys_def
proof
  fix s
  obtain o1 n where "fresh_order x token amt s = (Inr o1, s\<lparr>cs_reads := n\<rparr>)" using fresh_order_runs by blast
  then obtain s1 where f: "fresh_order x token amt s = (Inr o1, s1)" "cs_creds s1 = cs_creds s" "posts_signed x s s1"
    by (fastforce simp: posts_signed_def)
  have "posts_signed x s1 (snd (submit_order x token is_buy neg_risk amt ot self_check s))"
    using f(1,2) assms(2) signed_trans(1)
    by (auto simp: submit_order_def comp_simps post_order_run Let_def split: sum.split prod.split option.split
        intro!: posting_signed post_order_signed[OF _ assms(1)])
  then show "posts_signed x s (snd (submit_order x token is_buy neg_risk amt ot self_check s))"
    by (rule signed_trans(2)[OF f(3)])
qed

interpretation signing: clob_law "posts_signed x" x for x
proof unfold_locales
  show "posts_signed x s s" for x s by (rule signed_trans)
  show "posts_signed x s t \<Longrightarrow> posts_signed x t u \<Longrightarrow> posts_signed x s u" for x s t u by (rule signed_trans)
qed (rule submit_order_signed | auto simp: posts_signed_def clob_vital_def authentic_def)+

text \<open>The constructor posts for credentials only, and is ready only on the explicit switch.\<close>

definition auths_only :: "ClobSubmitter \<Rightarrow> ClobSubmitter \<Rightarrow> bool" where
  "auths_only s t \<longleftrightarrow> cs_endpoint t = cs_endpoint s \<and>
     (\<exists>rs. cs_sent t = cs_sent s @ rs \<and>
        list_all (\<lambda>r. rq_method r = ''POST'' \<longrightarrow> rq_url r = c_str (cs_endpoint s @ ''/auth/api-key'')) rs)"

interpretation authing: evolution auths_only
  by unfold_locales (force simp: auths_only_def)+

lemma auths_parts: "obeys auths_only (now_unix x)"
  "m \<noteq> ''POST'' \<or> path = ''/auth/api-key'' \<Longrightarrow> obeys auths_only (http x m path hs body)"
  "(\<And>s. cs_endpoint (f s) = cs_endpoint s) \<Longrightarrow> (\<And>s. cs_sent (f s) = cs_sent s) \<Longrightarrow> obeys auths_only (modify f)"
  by (auto simp: obeys_def now_unix_def reading_no_def http_def modify_def Let_def auths_only_def)

lemma construct_auths: "obeys auths_only (construct x)"
proof -
  have "obeys auths_only (derive_api_creds x)" "obeys auths_only (clob_poll_fills x)"
    unfolding derive_api_creds_def clob_poll_fills_def fetch_trades_raw_def l2_get_def Let_def
    by (intro authing.pure authing.sequenced authing.branches auths_parts; simp)+
  then show ?thesis
    unfolding construct_def Let_def by (intro authing.pure authing.sequenced authing.branches auths_parts; simp)
qed

lemma construct_ready: "cs_ready (new_submitter x endpoint) \<Longrightarrow> flag_eq (ce_environ x) ''PM_TRADER_LIVE'' ''1'' ''0''"
  by (rule ccontr) (simp add: new_submitter_def construct_def comp_simps blank_submitter_def Let_def)

text \<open>
  C5: whatever the calls on a submitter since its construction, every POST it made either asked
  for API credentials or posted an order that the account's key signed: the body shows, field by
  field, an order whose digest the signature in the body signs, the request's headers sign that very
  body, and an order that may rest (anything but FAK) was checked to recover to the account's
  address.  A submitter is ready only when \<open>PM_TRADER_LIVE\<close> was set.
\<close>

theorem orders_signed:
  assumes "(clob_step x)\<^sup>*\<^sup>* (new_submitter x endpoint) s" "r \<in> set (cs_sent s)" "rq_method r = ''POST''"
  shows "(rq_url r = c_str (cs_endpoint s @ ''/auth/api-key'') \<or>
     (\<exists>w ts ord neg_risk sig digest. rq_url r = c_str (cs_endpoint s @ ''/order'') \<and> rq_body r = BuildOrderV2Body w \<and>
        rq_headers r = map c_str (l2_headers x (cs_creds s) ''POST'' ''/order'' (rq_body r) ts) \<and>
        shows_order w ord \<and> digest = ComputeOrderV2Digest ord (CtfExchangeV2Domain neg_risk) \<and>
        SignDigest (ce_secp x) digest (lc_private_key (cs_creds s)) = Some sig \<and> ow_signature w = to_hex sig \<and>
        (ow_order_type w \<noteq> ''FAK'' \<longrightarrow> RecoverAddress (ce_secp x) digest sig = Some (ov_signer ord)))) \<and>
     (cs_ready s \<longrightarrow> flag_eq (ce_environ x) ''PM_TRADER_LIVE'' ''1'' ''0'')"
proof -
  let ?n = "new_submitter x endpoint"
  have p: "posts_signed x ?n s" by (rule signing.run_law[OF assms(1)])
  have "auths_only (blank_submitter (ce_environ x) endpoint) ?n"
    using construct_auths by (simp add: obeys_def new_submitter_def)
  then have a: "\<forall>r\<in>set (cs_sent ?n). rq_method r = ''POST'' \<longrightarrow> rq_url r = c_str (cs_endpoint ?n @ ''/auth/api-key'')"
    by (auto simp: auths_only_def blank_submitter_def list_all_iff)
  have "rq_url r = c_str (cs_endpoint s @ ''/auth/api-key'') \<or> authentic x (cs_endpoint s) (cs_creds s) r"
    using p a assms(2,3) by (auto simp: posts_signed_def list_all_iff)
  then have "rq_url r = c_str (cs_endpoint s @ ''/auth/api-key'') \<or>
     (\<exists>w ts ord neg_risk sig digest. rq_url r = c_str (cs_endpoint s @ ''/order'') \<and> rq_body r = BuildOrderV2Body w \<and>
        rq_headers r = map c_str (l2_headers x (cs_creds s) ''POST'' ''/order'' (rq_body r) ts) \<and>
        shows_order w ord \<and> digest = ComputeOrderV2Digest ord (CtfExchangeV2Domain neg_risk) \<and>
        SignDigest (ce_secp x) digest (lc_private_key (cs_creds s)) = Some sig \<and> ow_signature w = to_hex sig \<and>
        (ow_order_type w \<noteq> ''FAK'' \<longrightarrow> RecoverAddress (ce_secp x) digest sig = Some (ov_signer ord)))"
    using assms(3) unfolding authentic_def honest_order_def by blast
  moreover have "cs_ready s \<longrightarrow> flag_eq (ce_environ x) ''PM_TRADER_LIVE'' ''1'' ''0''"
    using p construct_ready by (simp add: posts_signed_def)
  ultimately show ?thesis by blast
qed

section \<open>What a flattening reports\<close>

text \<open>The exchange's answers to the orders among the requests\<close>

fun order_answers :: "ClobEnv \<Rightarrow> Request list \<Rightarrow> Request list \<Rightarrow> HttpResponse list" where
  "order_answers x sent [] = []"
| "order_answers x sent (r # rs) =
     (if rq_method r = ''POST'' then [ce_http x sent r] else []) @ order_answers x (sent @ [r]) rs"

lemma order_answers_append:
  "order_answers x sent (rs @ qs) = order_answers x sent rs @ order_answers x (sent @ rs) qs"
  by (induction rs arbitrary: sent) auto

definition asks :: "ClobEnv \<Rightarrow> HttpResponse list \<Rightarrow> ClobSubmitter \<Rightarrow> ClobSubmitter \<Rightarrow> bool" where
  "asks x answers s t \<longleftrightarrow> (\<exists>rs. cs_sent t = cs_sent s @ rs \<and> answers = order_answers x (cs_sent s) rs)"

lemma asks_trans: "asks x as s t \<Longrightarrow> asks x bs t u \<Longrightarrow> asks x (as @ bs) s u"
  by (auto simp: asks_def order_answers_append)

interpretation asking: evolution "asks x []" for x
proof unfold_locales
  show "asks x [] s s" for x s by (simp add: asks_def)
  show "asks x [] s t \<Longrightarrow> asks x [] t u \<Longrightarrow> asks x [] s u" for x s t u using asks_trans[of x "[]" s t "[]" u] by simp
qed

lemma asks_local: "cs_sent t = cs_sent s \<Longrightarrow> asks x [] s t"
  by (simp add: asks_def)

lemma asking_parts:
  "obeys (asks x []) (reading_no f)" "m \<noteq> ''POST'' \<Longrightarrow> obeys (asks x []) (http y m path hs body)"
  "(\<And>s. cs_sent (g s) = cs_sent s) \<Longrightarrow> obeys (asks x []) (modify g)"
  by (auto simp: obeys_def asks_def reading_no_def http_def modify_def Let_def)

lemmas asking_rules = asking.pure asking.sequenced asking.branches asking_parts

lemma caches_ask: "obeys (asks x []) (fetch_tick_size y token)" "obeys (asks x []) (fetch_neg_risk y token)"
  "obeys (asks x []) (fetch_marketable_price y token side)" "obeys (asks x []) (fresh_order y token amt)"
  "obeys (asks x []) (l2_delete y path doc)"
  unfolding fetch_tick_size_def ask_tick_size_def fetch_neg_risk_def fetch_marketable_price_def fresh_order_def l2_delete_def
    now_unix_def mono_now_def random_salt_def Let_def
  by (intro asking_rules; simp)+

text \<open>Posting an order either gives up before the request or makes exactly one.\<close>

lemma submit_order_asks:
  obtains why s' where "submit_order x token is_buy neg_risk amt ot self_check s = (Inr (Inl why), s')" "asks x [] s s'"
  | a s' where "submit_order x token is_buy neg_risk amt ot self_check s = (Inr (Inr a), s')" "asks x [a] s s'"
proof -
  obtain o1 n where f: "fresh_order x token amt s = (Inr o1, s\<lparr>cs_reads := n\<rparr>)" using fresh_order_runs by blast
  have p: "asks x [ce_http x (cs_sent s) (order_request x u w now_s)] s
      (s\<lparr>cs_reads := n, cs_sent := cs_sent s @ [order_request x u w now_s]\<rparr>)" for u w now_s
    by (auto simp: asks_def order_request_def)
  have "(\<exists>why s'. submit_order x token is_buy neg_risk amt ot self_check s = (Inr (Inl why), s') \<and> asks x [] s s') \<or>
    (\<exists>a s'. submit_order x token is_buy neg_risk amt ot self_check s = (Inr (Inr a), s') \<and> asks x [a] s s')"
    by (auto simp: submit_order_def comp_simps f post_order_run Let_def asks_local p
        split: sum.split prod.split option.split)
  then show ?thesis using that by blast
qed

lemma run_ret: "m s = (Inr v, s1) \<Longrightarrow> bindc m f s = f v s1"
  by (simp add: bindc_def)

lemma fetch_runs:
  "\<exists>v s'. fetch_tick_size x token s = (Inr v, s') \<and> asks x [] s s'"
  "\<exists>v s'. fetch_neg_risk x token s = (Inr v, s') \<and> asks x [] s s'"
  "\<exists>v s'. fetch_marketable_price x token side s = (Inr v, s') \<and> asks x [] s s'"
proof -
  have a: "\<exists>v s'. ask_tick_size x token s = (Inr v, s')" for s
    by (simp add: ask_tick_size_def comp_simps http_def mono_now_def reading_no_def Let_def)
  have "\<exists>v s'. fetch_tick_size x token s = (Inr v, s')"
    using a by (auto simp: fetch_tick_size_def comp_simps mono_now_def reading_no_def split: option.split)
  then show "\<exists>v s'. fetch_tick_size x token s = (Inr v, s') \<and> asks x [] s s'" using obeysD[OF caches_ask(1)] by blast
  have "\<exists>v s'. fetch_neg_risk x token s = (Inr v, s')"
    by (auto simp: fetch_neg_risk_def comp_simps http_def Let_def split: option.split)
  then show "\<exists>v s'. fetch_neg_risk x token s = (Inr v, s') \<and> asks x [] s s'" using obeysD[OF caches_ask(2)] by blast
  have "\<exists>v s'. fetch_marketable_price x token side s = (Inr v, s')"
    by (auto simp: fetch_marketable_price_def comp_simps http_def Let_def)
  then show "\<exists>v s'. fetch_marketable_price x token side s = (Inr v, s') \<and> asks x [] s s'" using obeysD[OF caches_ask(3)] by blast
qed

lemma flatten_try_asks:
  "\<exists>res s'. flatten_try x token is_buy neg_risk rc tick_d n fr s = (Inr res, s') \<and>
     (asks x [] s s' \<and> ((\<exists>why. res = Inl (order_error why)) \<or> res = Inr fr) \<or>
      (\<exists>a. asks x [a] s s' \<and> res = Inr (answered (ce_jl x) is_buy a fr)))"
proof -
  obtain mkt s1 where m: "fetch_marketable_price x token (if is_buy then ''BUY'' else ''SELL'') s = (Inr mkt, s1)" "asks x [] s s1"
    using fetch_runs(3) by blast
  show ?thesis
  proof (cases mkt)
    case None
    then show ?thesis using m by (simp add: flatten_try_def comp_simps)
  next
    case (Some p)
    let ?amt = "sweep_amounts is_buy (fr_remaining fr) (sweep_price is_buy tick_d n p) rc"
    show ?thesis
    proof (rule submit_order_asks[of x token is_buy neg_risk ?amt "''FAK''" False s1])
      fix why s2
      assume "submit_order x token is_buy neg_risk ?amt ''FAK'' False s1 = (Inr (Inl why), s2)" "asks x [] s1 s2"
      then show ?thesis using m Some asking.follows by (auto simp: flatten_try_def comp_simps Let_def)
    next
      fix a s2
      assume r: "submit_order x token is_buy neg_risk ?amt ''FAK'' False s1 = (Inr (Inr a), s2)" "asks x [a] s1 s2"
      let ?fr = "answered (ce_jl x) is_buy a fr"
      let ?s3 = "(if 0 < made_of (ce_jl x) is_buy a \<and> fr_order_id ?fr \<noteq> [] then remember_taker (fr_order_id ?fr) else id) s2"
      have "asks x [] s2 ?s3" by (rule asks_local) (simp add: remember_taker_def Let_def)
      then have "asks x [a] s ?s3" using asks_trans[OF m(2), of "[a]" ?s3] asks_trans[of x "[a]" s1 s2 "[]" ?s3] r(2) by simp
      moreover have "flatten_try x token is_buy neg_risk rc tick_d n fr s = (Inr (Inr ?fr), ?s3)"
        using m r Some by (simp add: flatten_try_def comp_simps Let_def)
      ultimately show ?thesis by blast
    qed
  qed
qed

text \<open>What is left of a size, and what was traded, after some answers\<close>

definition still_left :: "jlib \<Rightarrow> bool \<Rightarrow> double \<Rightarrow> HttpResponse list \<Rightarrow> double" where
  "still_left jl is_buy sz answers =
     foldl (\<lambda>left a. if 0 < made_of jl is_buy a then left - made_of jl is_buy a else left) sz answers"

definition traded :: "jlib \<Rightarrow> bool \<Rightarrow> double \<Rightarrow> HttpResponse list \<Rightarrow> double" where
  "traded jl is_buy d answers =
     foldl (\<lambda>n a. if 0 < made_of jl is_buy a then n + made_of jl is_buy a else n) d answers"

lemma answered_fields:
  "fr_remaining (answered jl is_buy a fr) = still_left jl is_buy (fr_remaining fr) [a]"
  "fr_filled (answered jl is_buy a fr) = traded jl is_buy (fr_filled fr) [a]"
  by (simp_all add: answered_def still_left_def traded_def Let_def)

lemma still_left_Cons: "still_left jl is_buy d (a # as) = still_left jl is_buy (still_left jl is_buy d [a]) as"
  "traded jl is_buy d (a # as) = traded jl is_buy (traded jl is_buy d [a]) as"
  by (simp_all add: still_left_def traded_def)

lemma one_not_below: "1 \<le> (d :: double) \<Longrightarrow> \<not> d < 1"
  using le_less_trans_d[of 1 d 1] by auto

lemma flatten_loop_asks:
  "\<exists>res s' answers. flatten_loop x token is_buy neg_risk rc tick_d n fr s = (Inr res, s') \<and> asks x answers s s' \<and>
     length answers \<le> n \<and> (case res of
       Inl j \<Rightarrow> (\<exists>why. j = order_error why) \<and> \<not> still_left (ce_jl x) is_buy (fr_remaining fr) answers < 1
     | Inr fr' \<Rightarrow> fr_remaining fr' = still_left (ce_jl x) is_buy (fr_remaining fr) answers \<and>
         fr_filled fr' = traded (ce_jl x) is_buy (fr_filled fr) answers)"
  (is "\<exists>res s' answers. ?P n fr s res s' answers")
proof (induction n arbitrary: fr s)
  case 0
  have "?P 0 fr s (Inr fr) s []" by (simp add: comp_simps asks_local still_left_def traded_def)
  then show ?case by blast
next
  case (Suc n)
  show ?case
  proof (cases "1 \<le> fr_remaining fr")
    case False
    then have "?P (Suc n) fr s (Inr fr) s []" by (simp add: comp_simps asks_local still_left_def traded_def)
    then show ?thesis by blast
  next
    case more: True
    obtain res s1 where t: "flatten_try x token is_buy neg_risk rc tick_d (kMaxAttempts - n) fr s = (Inr res, s1)"
      and d: "asks x [] s s1 \<and> ((\<exists>why. res = Inl (order_error why)) \<or> res = Inr fr) \<or>
        (\<exists>a. asks x [a] s s1 \<and> res = Inr (answered (ce_jl x) is_buy a fr))"
      using flatten_try_asks[of x token is_buy neg_risk rc tick_d "kMaxAttempts - n" fr s]
      by (elim exE conjE) (rule that)
    show ?thesis
    proof (cases res)
      case (Inl j)
      then obtain why where w: "j = order_error why" "asks x [] s s1" using d by blast
      have "flatten_loop x token is_buy neg_risk rc tick_d (Suc n) fr s = (Inr (Inl j), s1)"
        using t more Inl by (simp add: comp_simps)
      then show ?thesis using w one_not_below[OF more]
        by (intro exI[of _ "Inl j"] exI[of _ s1] exI[of _ "[]"]) (auto simp: still_left_def simp del: flatten_loop.simps)
    next
      case (Inr fr1)
      then obtain as where a: "asks x as s s1" "length as \<le> 1"
        "fr_remaining fr1 = still_left (ce_jl x) is_buy (fr_remaining fr) as"
        "fr_filled fr1 = traded (ce_jl x) is_buy (fr_filled fr) as"
      proof (cases "res = Inr fr \<and> asks x [] s s1")
        case True
        then show ?thesis using that[of "[]"] Inr by (auto simp: still_left_def traded_def)
      next
        case False
        then obtain a where "asks x [a] s s1" "fr1 = answered (ce_jl x) is_buy a fr" using d Inr by auto
        then show ?thesis using that[of "[a]"] answered_fields by auto
      qed
      have join: "still_left (ce_jl x) is_buy (fr_remaining fr) (as @ bs) = still_left (ce_jl x) is_buy (fr_remaining fr1) bs"
        "traded (ce_jl x) is_buy (fr_filled fr) (as @ bs) = traded (ce_jl x) is_buy (fr_filled fr1) bs" for bs
        using a(3,4) by (simp_all add: still_left_def traded_def)
      show ?thesis
      proof (cases "fr_remaining fr1 < 1")
        case True
        then have "?P (Suc n) fr s (Inr fr1) s1 as" using t Inr more a by (simp add: comp_simps)
        then show ?thesis by blast
      next
        case False
        obtain res' s2 bs where l: "?P n fr1 s1 res' s2 bs" using Suc.IH[of fr1 s1] by (elim exE) (rule that)
        have "?P (Suc n) fr s res' s2 (as @ bs)"
          using l t Inr more False a(2) asks_trans[OF a(1)] join by (auto simp: comp_simps split: sum.split)
        then show ?thesis by blast
      qed
    qed
  qed
qed

text \<open>Objects built with \<open>jobj\<close>: the last value given to a key\<close>

lemma map_of_put: "map_of (smap_put k v m) = (map_of m)(k \<mapsto> v)"
  unfolding fun_eq_iff fun_upd_apply using smap_get_put'[of k v m, unfolded smap_get_def] by blast

lemma jget_jobj: "jget (jobj kvs) k = map_of (rev kvs) k"
proof -
  have "map_of (foldl (\<lambda>m (k, v). smap_put k v m) m kvs) = map_of m ++ map_of (rev kvs)" for m
    by (induction kvs arbitrary: m) (auto simp: map_of_put)
  then show ?thesis by (simp add: jget_def jobj_def)
qed

lemma action_ok_status: "action_ok j \<longleftrightarrow> (case jget j ''status'' of
    Some (JStr st) \<Rightarrow> st \<noteq> ''ERROR'' \<and> st \<noteq> ''REJECTED'' | _ \<Rightarrow> True)"
  by (simp add: action_ok_def jget_def)

lemma reply_status:
  "jget (order_error why) ''status'' = Some (JStr ''ERROR'')"
  "jget (flatten_reply token side sz fr) ''status'' = Some (JStr (if fr_remaining fr < 1 then ''FLATTENED'' else ''ERROR''))"
  "fr_remaining fr < 1 \<Longrightarrow> jget (flatten_reply token side sz fr) ''filled'' = Some (JFloat (fr_filled fr))"
  "jget (place_reply jl token side price sz is_buy r) ''status'' = Some (JStr (if order_accepted jl r then ''PLACED'' else ''REJECTED''))"
  "jget (cancel_reply token r) ''status'' = Some (JStr (if ok2xx r then ''CANCELLED'' else ''ERROR''))"
  by (simp_all add: order_error_def flatten_reply_def place_reply_def cancel_reply_def jget_jobj Let_def)


section \<open>The submitter under the engine\<close>

text \<open>The exchange took an action: exactly one order was posted for it, and the answer accepts it.\<close>

definition exchange_took :: "ClobEnv \<Rightarrow> ClobSubmitter \<Rightarrow> json \<Rightarrow> bool" where
  "exchange_took x s a \<longleftrightarrow> (let sent = cs_sent (snd (submit_action x a s)) in
     case order_answers x (cs_sent s) (drop (length (cs_sent s)) sent) of [r] \<Rightarrow> order_accepted (ce_jl x) r | _ \<Rightarrow> False)"

lemma asks_answers: "asks x answers s t \<Longrightarrow> order_answers x (cs_sent s) (drop (length (cs_sent s)) (cs_sent t)) = answers"
  by (auto simp: asks_def)

lemma action_fields:
  "find_str jl (place_action_of tok ord) ''action'' = ''PLACE''" "find_str jl (place_action_of tok ord) ''token_id'' = tok"
  "jfind (place_action_of tok ord) ''side'' = Some (JStr (mo_side ord))" "jfind (place_action_of tok ord) ''price'' = Some (JFloat (mo_price ord))"
  "jfind (place_action_of tok ord) ''size'' = Some (JFloat (mo_size ord))" "jfind (place_action_of tok ord) ''order_type'' = None"
  "find_str jl (cancel_all_action tok) ''action'' = ''CANCEL_ALL''" "find_str jl (cancel_all_action tok) ''token_id'' = tok"
  by (simp_all add: find_str_def jfind_def jfind2_def not_null_def place_action_of_def cancel_all_action_def)

lemma submit_place: "submit_action x (place_action_of tok ord) = place_order x tok (mo_side ord) (mo_price ord) (mo_size ord) ''GTC''"
  by (rule ext) (simp add: submit_action_def action_fields Let_def comp_simps)

lemma submit_cancel: "submit_action x (cancel_all_action tok) = cancel_all x tok"
  by (rule ext) (simp add: submit_action_def action_fields Let_def)

lemma place_ack: "\<exists>j. fst (submit_action x (place_action_of tok ord) s) = Inr j \<and>
    (action_ok j \<longleftrightarrow> exchange_took x s (place_action_of tok ord))"
proof -
  let ?side = "mo_side ord" and ?price = "mo_price ord" and ?sz = "mo_size ord"
  let ?buy = "to_upper ?side = ''BUY''"
  obtain tick s1 where 1: "fetch_tick_size x tok s = (Inr tick, s1)" "asks x [] s s1" using fetch_runs(1) by blast
  obtain neg_risk s2 where 2: "fetch_neg_risk x tok s1 = (Inr neg_risk, s2)" "asks x [] s1 s2" using fetch_runs(2) by blast
  let ?submit = "submit_order x tok ?buy neg_risk (get_order_amounts ?buy ?sz ?price (round_config tick)) (wire_order_type ''GTC'') True s2"
  have run: "place_order x tok ?side ?price ?sz ''GTC'' s = (case ?submit of (r, t) \<Rightarrow> continue_with (\<lambda>res. ret (case res of
       Inl why \<Rightarrow> order_error why | Inr r \<Rightarrow> place_reply (ce_jl x) tok ?side ?price ?sz ?buy r)) (r, t))"
    unfolding place_order_def Let_def run_ret[of "fetch_tick_size x tok", OF 1(1)] run_ret[of "fetch_neg_risk x tok", OF 2(1)]
    by (simp add: bindc_def split: prod.split)
  show ?thesis
  proof (rule submit_order_asks[of x tok ?buy neg_risk "get_order_amounts ?buy ?sz ?price (round_config tick)" "wire_order_type ''GTC''" True s2])
    fix why s3 assume r: "?submit = (Inr (Inl why), s3)" "asks x [] s2 s3"
    then have "asks x [] s s3" using asks_trans[OF asks_trans[OF 1(2) 2(2)]] by simp
    then show ?thesis using r(1) run
      by (simp add: submit_place exchange_took_def asks_answers action_ok_status reply_status comp_simps)
  next
    fix a s3 assume r: "?submit = (Inr (Inr a), s3)" "asks x [a] s2 s3"
    then have "asks x [a] s s3" using asks_trans[OF asks_trans[OF 1(2) 2(2)]] by simp
    then show ?thesis using r(1) run
      by (simp add: submit_place exchange_took_def asks_answers action_ok_status reply_status comp_simps)
  qed
qed

lemma cancel_ack: "\<exists>j. fst (submit_action x (cancel_all_action tok) s) = Inr j"
  by (simp add: submit_cancel cancel_all_def comp_simps l2_delete_def now_unix_def reading_no_def http_def Let_def)

lemma clob_answers_cancels: "answers_cancels (clob_submitter x s)"
  using cancel_ack by (auto simp: answers_cancels_def clob_submitter_def)

lemma acks_nth:
  "i < length as \<Longrightarrow> acks_of sub sent as ! i =
     (case sub (sent @ take i as) (as ! i) of Inl _ \<Rightarrow> JObj [(''status'', JStr ''ERROR'')] | Inr j \<Rightarrow> j)"
  by (induction as arbitrary: sent i) (auto simp: nth_Cons' split: sum.split, (case_tac i; auto)+)

lemma length_acks: "length (acks_of sub sent as) = length as"
  by (induction as arbitrary: sent) auto

lemma clob_acks:
  "list_all action_ok (acks_of (clob_submitter x s) sent (place_actions orders)) \<longleftrightarrow>
   (\<forall>i < length (place_actions orders).
      exchange_took x (after_actions x s (sent @ take i (place_actions orders))) (place_actions orders ! i))"
proof -
  let ?as = "place_actions orders"
  have "action_ok (acks_of (clob_submitter x s) sent ?as ! i) \<longleftrightarrow> exchange_took x (after_actions x s (sent @ take i ?as)) (?as ! i)"
    if i: "i < length ?as" for i
  proof -
    obtain tok ord where a: "?as ! i = place_action_of tok ord" using i by (auto simp: place_actions_def)
    show ?thesis unfolding acks_nth[OF i] a clob_submitter_def
      using place_ack[of x tok ord "after_actions x s (sent @ take i ?as)"] by auto
  qed
  then show ?thesis by (auto simp: list_all_length length_acks)
qed

section \<open>What the cache of exchanges keeps\<close>

definition keeps_neg_risk :: "ClobSubmitter \<Rightarrow> ClobSubmitter \<Rightarrow> bool" where
  "keeps_neg_risk s t \<longleftrightarrow> (\<forall>token b. smap_get (cs_neg_risk_cache s) token = Some b \<longrightarrow> smap_get (cs_neg_risk_cache t) token = Some b)"

interpretation keeping: clob_law keeps_neg_risk x for x
proof unfold_locales
  fix amt :: OrderAmounts and is_buy neg_risk self_check :: bool and ot token :: string
  show "obeys keeps_neg_risk (submit_order x token is_buy neg_risk amt ot self_check)"
    unfolding obeys_def
  proof
    fix s
    obtain o1 n where "fresh_order x token amt s = (Inr o1, s\<lparr>cs_reads := n\<rparr>)" using fresh_order_runs by blast
    then show "keeps_neg_risk s (snd (submit_order x token is_buy neg_risk amt ot self_check s))"
      by (auto simp: submit_order_def comp_simps post_order_run Let_def keeps_neg_risk_def split: sum.split prod.split option.split)
  qed
qed (auto simp: keeps_neg_risk_def clob_vital_def)


end
