(* ===== verification/ClobFills.thy ===== *)
theory ClobFills
  imports ClobProofs RunnerProofs
begin

text \<open>
  The fills the submitter reads and the loop counts: the cursor gives every trade of a growing
  history once, and what becomes of a trade with two legs of ours.
\<close>

section \<open>The cursor\<close>

text \<open>A history is newest first; every trade has an id of its own.\<close>

definition history_ok :: "jlib \<Rightarrow> json list \<Rightarrow> bool" where
  "history_ok jl h \<longleftrightarrow> distinct (map (trade_id jl) h) \<and> list_all (\<lambda>t. trade_id jl t \<noteq> []) h"

definition newest :: "jlib \<Rightarrow> json list \<Rightarrow> string option" where
  "newest jl h = (case h of [] \<Rightarrow> None | t # ts \<Rightarrow> Some (trade_id jl t))"

text \<open>Polling pages one after the other, with the cursor each left\<close>

fun poll_pages :: "jlib \<Rightarrow> string set \<Rightarrow> bool \<Rightarrow> string \<Rightarrow> json list list \<Rightarrow> string option \<Rightarrow> json list list" where
  "poll_pages jl own inv_side maker [] cur = []"
| "poll_pages jl own inv_side maker (pg # pgs) cur =
     (case extract_new_fills jl (JArr pg) cur own inv_side maker of
        (out, cur') \<Rightarrow> out # poll_pages jl own inv_side maker pgs cur')"

text \<open>The pages of a history that grows by batches: each shows the newest trades, up to its length.\<close>

fun pages_of :: "json list \<Rightarrow> (json list \<times> nat) list \<Rightarrow> json list list" where
  "pages_of h [] = []"
| "pages_of h ((batch, n) # bs) = take n (batch @ h) # pages_of (batch @ h) bs"

fun grown :: "json list \<Rightarrow> (json list \<times> nat) list \<Rightarrow> json list" where
  "grown h [] = h"
| "grown h ((batch, n) # bs) = grown (batch @ h) bs"

lemma history_drop: "history_ok jl (grown h bs) \<Longrightarrow> history_ok jl h"
proof (induction bs arbitrary: h)
  case (Cons b bs)
  obtain batch n where b: "b = (batch, n)" by (cases b)
  then have "history_ok jl (batch @ h)" using Cons by simp
  then show ?case by (simp add: history_ok_def)
qed simp

lemma scan_before:
  assumes "list_all (\<lambda>t. trade_id jl t \<noteq> [] \<and> prev \<noteq> Some (trade_id jl t)) ts"
  shows "scan_trades jl prev own inv_side maker (ts @ rest) seen last_id =
    (let cur = (if seen \<or> ts = [] then last_id else newest jl ts);
         (out, l) = scan_trades jl prev own inv_side maker rest (seen \<or> ts \<noteq> []) cur
     in (concat (map (fills_of_trade jl own inv_side maker) ts) @ out, l))"
  using assms
proof (induction ts arbitrary: seen last_id)
  case (Cons t ts)
  then have t: "trade_id jl t \<noteq> []" "prev \<noteq> Some (trade_id jl t)" by auto
  have tail: "\<And>seen last_id. scan_trades jl prev own inv_side maker (ts @ rest) seen last_id =
    (let cur = (if seen \<or> ts = [] then last_id else newest jl ts);
         (out, l) = scan_trades jl prev own inv_side maker rest (seen \<or> ts \<noteq> []) cur
     in (concat (map (fills_of_trade jl own inv_side maker) ts) @ out, l))"
    using Cons by simp
  show ?case using t by (cases seen) (simp_all add: tail Let_def newest_def split: prod.split)
qed (simp add: Let_def split: prod.split)

lemma page_once:
  assumes "history_ok jl (batch @ h)" "h \<noteq> []" "length batch < n"
  shows "extract_new_fills jl (JArr (take n (batch @ h))) (newest jl h) own inv_side maker =
    (concat (map (fills_of_trade jl own inv_side maker) batch), newest jl (batch @ h))"
proof -
  obtain t h' where h: "h = t # h'" using assms(2) by (cases h) auto
  obtain k where k: "n - length batch = Suc k" using assms(3) by (cases "n - length batch") auto
  have pg: "take n (batch @ h) = batch @ t # take k h'" using assms(3) k h by simp
  have t: "trade_id jl t \<noteq> []" using assms(1) h by (simp add: history_ok_def)
  have "list_all (\<lambda>u. trade_id jl u \<noteq> [] \<and> newest jl h \<noteq> Some (trade_id jl u)) batch"
    using assms(1) by (auto simp: history_ok_def h newest_def list_all_iff)
  note scan = scan_before[OF this, of own inv_side maker "t # take k h'" False "newest jl h"]
  have "scan_trades jl (newest jl h) own inv_side maker (batch @ t # take k h') False (newest jl h) =
      (concat (map (fills_of_trade jl own inv_side maker) batch), newest jl (batch @ h))"
    unfolding scan using t by (cases batch) (simp_all add: newest_def h Let_def)
  then show ?thesis unfolding extract_new_fills_def json.case pg .
qed

text \<open>
  C7: polling loses and repeats no trade.  Let the account's history grow by batches of trades, and let
  each page show the newest trades, more of them than the batch that is new; then the polls give,
  batch by batch, the fills of every new trade exactly once, whatever the number of polls and
  also when a batch is empty.
\<close>

theorem polls_exactly_once:
  assumes "history_ok jl (grown h bs)" "h \<noteq> []" "list_all (\<lambda>(batch, n). length batch < n) bs"
  shows "poll_pages jl own inv_side maker (pages_of h bs) (newest jl h) =
    map (\<lambda>(batch, n). concat (map (fills_of_trade jl own inv_side maker) batch)) bs"
  using assms
proof (induction bs arbitrary: h)
  case (Cons b bs)
  obtain batch n where b: "b = (batch, n)" by (cases b)
  then have ok: "history_ok jl (batch @ h)" "length batch < n" using Cons.prems history_drop[of jl "batch @ h" bs] by auto
  show ?case using Cons b page_once[OF ok(1) Cons.prems(2) ok(2)] by simp
qed simp

section \<open>A trade with two legs of ours\<close>

lemma legs_share_id:
  assumes "\<not> own_taker_trade jl own t" "maker \<noteq> []" "jfind t ''maker_orders'' = Some (JArr mos)"
  shows "fills_of_trade jl own inv_side maker t = map (maker_leg jl (trade_id jl t)) (our_legs jl maker mos)"
  using assms by (simp add: fills_of_trade_def Let_def)

lemma leg_id: "text_field (maker_leg jl tid mo) ''id'' s = (Inr tid, s)"
proof -
  have "jget (maker_leg jl tid mo) ''id'' = Some (JStr tid)"
    unfolding maker_leg_def jget_jobj by (simp add: map_add_def split: option.split)
  then show ?thesis
    by (auto simp: text_field_def jvalue_str_def jget_def ret_def split: json.splits)
qed

lemma leg_fields:
  "text_field (maker_leg jl tid mo) ''side'' s = (Inr (text_of (maker_leg jl tid mo) ''side''), s)"
  "text_field (maker_leg jl tid mo) ''token_id'' s = (Inr (text_of (maker_leg jl tid mo) ''token_id''), s)"
  "num_field (maker_leg jl tid mo) ''size'' s = (Inr (num_of (maker_leg jl tid mo) ''size''), s)"
  "num_field (maker_leg jl tid mo) ''price'' s = (Inr (num_of (maker_leg jl tid mo) ''price''), s)"
proof -
  let ?f = "maker_leg jl tid mo"
  obtain kvs where o: "?f = JObj kvs" by (simp add: maker_leg_def jobj_def)
  have "\<exists>v. jget ?f ''side'' = Some (JStr v)" "\<exists>v. jget ?f ''token_id'' = Some (JStr v)"
    "\<exists>d. jget ?f ''size'' = Some (JFloat d)" "\<exists>d. jget ?f ''price'' = Some (JFloat d)"
    unfolding maker_leg_def jget_jobj by (auto split: option.split)
  then show "text_field ?f ''side'' s = (Inr (text_of ?f ''side''), s)" "text_field ?f ''token_id'' s = (Inr (text_of ?f ''token_id''), s)"
    "num_field ?f ''size'' s = (Inr (num_of ?f ''size''), s)" "num_field ?f ''price'' s = (Inr (num_of ?f ''price''), s)"
    unfolding o by (auto simp: text_field_def num_field_def text_of_def num_of_def jvalue_str_def jvalue_num_def jget_def is_number_def ret_def)
qed

lemma leg_counted: "\<exists>out s'. new_fill c y (maker_leg jl tid mo) s = (Inr out, s')"
proof -
  let ?tok = "text_of (maker_leg jl tid mo) ''token_id''"
  have "\<exists>u s'. (if ?tok \<noteq> [] then note_churn c y ?tok else ret ()) s = (Inr u, s')"
    by (auto simp: note_churn_def comp_simps mono_time_def asked_def trip_kill_def)
  then obtain u s' where "(if ?tok \<noteq> [] then note_churn c y ?tok else ret ()) s = (Inr u, s')" by blast
  then show ?thesis by (simp add: new_fill_def bindc_def leg_fields ret_def)
qed

lemma count_seen:
  assumes "tid \<noteq> []" "tid \<in> fst (ru_seen s)" shows "count_fill c y (maker_leg jl tid mo) s = (Inr [], s)"
  using assms by (simp add: count_fill_def bindc_def leg_id reading_def ret_def)

lemma rest_seen:
  assumes "tid \<noteq> []" "tid \<in> fst (ru_seen s)"
  shows "for_each (count_fill c y) (map (maker_leg jl tid) legs) s = (Inr [], s)"
  using assms by (induction legs) (simp_all add: count_seen comp_simps)

text \<open>
  C18: a second leg of one trade is lost.  When a trade matches several resting orders of the
  account, the submitter gives one fill per order, all with the id of the trade; the loop counts the
  first of them and takes the others for repetitions, so their shares never reach the inventory.
\<close>

theorem second_leg_lost:
  assumes "\<not> own_taker_trade jl own t" "maker \<noteq> []" "jfind t ''maker_orders'' = Some (JArr mos)"
    and "our_legs jl maker mos = leg # rest" "trade_id jl t \<noteq> []"
    and "memory_ok h (ru_seen s)" "trade_id jl t \<notin> fst (ru_seen s)"
  shows "length (fills_of_trade jl own inv_side maker t) = 1 + length rest \<and>
    (\<exists>s'. for_each (count_fill c y) (fills_of_trade jl own inv_side maker t) s =
       (Inr [counted_as (maker_leg jl (trade_id jl t) leg)], s'))"
proof -
  let ?leg = "maker_leg jl (trade_id jl t)" and ?s0 = "ru_seen_update (remember (trade_id jl t)) s"
  have f: "fills_of_trade jl own inv_side maker t = map ?leg (leg # rest)"
    using legs_share_id[OF assms(1-3)] assms(4) by simp
  obtain out s1 where n: "new_fill c y (?leg leg) ?s0 = (Inr out, s1)" using leg_counted by blast
  then have o: "out = [counted_as (?leg leg)]" "ru_seen s1 = remember (trade_id jl t) (ru_seen s)" using new_fill_Inr[OF n] by auto
  have 1: "count_fill c y (?leg leg) s = (Inr out, s1)"
    using n assms(5,7) by (simp add: count_fill_def bindc_def leg_id reading_def modify_def)
  have "memory_ok (h @ [trade_id jl t]) (ru_seen s1)" using remember_ok[OF assms(6,7)] o(2) by simp
  then have "trade_id jl t \<in> fst (ru_seen s1)" by (simp add: memory_ok_def last_ids_def seen_limit_def)
  then have "for_each (count_fill c y) (map ?leg rest) s1 = (Inr [], s1)" by (rule rest_seen[OF assms(5)])
  then have "for_each (count_fill c y) (fills_of_trade jl own inv_side maker t) s = (Inr [counted_as (?leg leg)], s1)"
    unfolding f list.map using for_each_step[of "count_fill c y", OF 1] o(1) by simp
  then show ?thesis using f by simp
qed

end
