(* ===== verification/ClobRuns.thy ===== *)
theory ClobRuns
  imports ClobFills RunnerRuns
begin

text \<open>
  Concrete runs of the submitter: an exchange that accepts and matches, an account whose key signs and
  recovers, and the properties of the submitter applied to them.
\<close>

section \<open>The demonstration exchange\<close>

definition accepting_doc :: json where
  "accepting_doc = JObj [(''apiKey'', JStr ''k''), (''orderID'', JStr ''1''), (''secret'', JStr ''s''),
     (''status'', JStr ''matched''), (''success'', JBool True), (''takingAmount'', JInt 4)]"

definition reading_doc :: json where
  "reading_doc = JObj [(''data'', JArr []), (''minimum_tick_size'', JStr ''0.01''), (''neg_risk'', JBool False),
     (''price'', JStr ''0.5'')]"

definition demo_pub :: bytes where
  "demo_pub = replicate 65 4"

definition demo_secp :: secp256k1 where
  "demo_secp = \<lparr>sign_recoverable = (\<lambda>_ _. Some (replicate 64 1, 0)), ec_recover = (\<lambda>_ _ _. Some demo_pub),
     ec_pubkey_create = (\<lambda>_. Some demo_pub)\<rparr>"

definition demo_environ :: environ where
  "demo_environ = [''PM_TRADER_LIVE'' \<mapsto> ''1'', ''POLYMARKET_PRIVATE_KEY'' \<mapsto> replicate 64 (CHR ''0'')]"

definition demo_clob :: ClobEnv where
  "demo_clob = \<lparr>ce_jl = \<lparr>jl_parse = (\<lambda>t. Some (if t = ''o'' then accepting_doc else reading_doc)), jl_dump = (\<lambda>_. ''d'')\<rparr>,
     ce_secp = demo_secp, ce_hmac = (\<lambda>k m. m),
     ce_http = (\<lambda>_ r. \<lparr>hr_status = 200, hr_body = if rq_method r = ''POST'' then ''o'' else ''r''\<rparr>),
     ce_unix = (\<lambda>_. 1780000000), ce_mono = (\<lambda>n. of_i (int n)), ce_urandom = (\<lambda>_. Some 8), ce_environ = demo_environ\<rparr>"

definition demo_address :: Address where
  "demo_address = PubkeyToAddress demo_pub"

lemma demo_address_hex: "AddressFromHex (to_hex demo_address) = Some demo_address"
  using hex_roundtrip[of demo_address] by (simp add: AddressFromHex_def demo_address_def PubkeyToAddress_def)

lemma account_signs: "SignDigest demo_secp d k = Some (replicate 64 1 @ [27])"
  "RecoverAddress demo_secp d (replicate 64 1 @ [27]) = Some demo_address" "DeriveAddress demo_secp k = Some demo_address"
  by (simp_all add: SignDigest_def RecoverAddress_def DeriveAddress_def demo_secp_def demo_address_def nth_append Let_def)

lemma demo_parts: "ce_secp demo_clob = demo_secp" "ce_environ demo_clob = demo_environ" "ce_urandom demo_clob n = Some 8"
  "ce_unix demo_clob n = 1780000000" "ce_mono demo_clob n = of_i (int n)"
  "ce_http demo_clob h r = \<lparr>hr_status = 200, hr_body = if rq_method r = ''POST'' then ''o'' else ''r''\<rparr>"
  "jl_parse (ce_jl demo_clob) ''o'' = Some accepting_doc" "jl_parse (ce_jl demo_clob) ''r'' = Some reading_doc"
  by (simp_all add: demo_clob_def)

text \<open>Answers that a document gives\<close>

lemma demo_docs:
  "find_str jl accepting_doc ''status'' = ''matched''" "find_str jl accepting_doc ''orderID'' = ''1''"
  "found_truthy accepting_doc ''success''" "jfind accepting_doc ''orderID'' = Some (JStr ''1'')"
  "jfind accepting_doc ''apiKey'' = Some (JStr ''k'')" "jfind accepting_doc ''secret'' = Some (JStr ''s'')"
  "jfind accepting_doc ''passphrase'' = None" "is_array reading_doc = False" "jfind reading_doc ''data'' = Some (JArr [])"
  by (simp_all add: find_str_def found_truthy_def truthy_def jfind_def jfind2_def not_null_def accepting_doc_def
      reading_doc_def is_array_def)

text \<open>The object is ready, with the account's address, after one POST for credentials and one read.\<close>

lemma demo_ready: "cs_ready (new_submitter demo_clob ''h'')" "lc_maker (cs_creds (new_submitter demo_clob ''h'')) = to_hex demo_address"
  "lc_signer_lc (cs_creds (new_submitter demo_clob ''h'')) = to_hex demo_address" "length (cs_sent (new_submitter demo_clob ''h'')) = 2"
proof -
  have l: "flag_eq demo_environ ''PM_TRADER_LIVE'' ''1'' ''0''" by (simp add: flag_eq_def env_str_def demo_environ_def strip_def isspace_def char_code_def)
  have k: "env_str demo_environ ''POLYMARKET_PRIVATE_KEY'' [] = replicate 64 (CHR ''0'')"
    "env_str demo_environ ''POLYMARKET_FUNDER'' [] = []"
    by (simp_all add: env_str_def demo_environ_def)
  have h: "hex_to_bytes (replicate 64 (CHR ''0'')) (lc_private_key no_creds) = (True, replicate 32 0)" by code_simp
  have "cs_ready s \<and> lc_maker (cs_creds s) = to_hex demo_address \<and> lc_signer_lc (cs_creds s) = to_hex demo_address \<and> length (cs_sent s) = 2"
    if s: "s = snd (construct demo_clob (blank_submitter demo_environ ''h''))" for s
    using l k h unfolding s
    by (simp add: construct_def comp_simps demo_parts account_signs Let_def derive_api_creds_def now_unix_def reading_no_def http_def
        ok2xx_def auth_fields_def demo_docs clob_poll_fills_def fetch_trades_raw_def l2_get_def trades_of_def extract_new_fills_def
        blank_submitter_def)
  from this[OF refl] show "cs_ready (new_submitter demo_clob ''h'')" "lc_maker (cs_creds (new_submitter demo_clob ''h'')) = to_hex demo_address"
  "lc_signer_lc (cs_creds (new_submitter demo_clob ''h'')) = to_hex demo_address" "length (cs_sent (new_submitter demo_clob ''h'')) = 2"
    by (simp_all add: new_submitter_def demo_parts)
qed

text \<open>In every state of that account a placement is taken.\<close>

definition demo_buy :: json where
  "demo_buy = place_action_of ''11'' \<lparr>mo_side = ''BUY'', mo_price = Fin (1 / 2), mo_size = Fin 64, mo_token_id = ''11''\<rparr>"

lemma demo_submits:
  assumes "lc_maker (cs_creds s) = to_hex demo_address" "lc_signer_lc (cs_creds s) = to_hex demo_address" "U256FromDecimal tok \<noteq> None"
  shows "\<exists>w t s'. submit_order demo_clob tok buying neg_risk amt ot chk s =
    (Inr (Inr \<lparr>hr_status = 200, hr_body = ''o''\<rparr>), s'\<lparr>cs_sent := cs_sent s' @ [order_request demo_clob s' w t]\<rparr>)"
proof -
  obtain b where b: "U256FromDecimal tok = Some b" using assms(3) by blast
  obtain ord t where f: "fresh_order demo_clob tok amt s = (Inr (Inr (ord, t)), s\<lparr>cs_reads := cs_reads s + 2\<rparr>)" "ov_signer ord = demo_address"
    by (simp add: fresh_order_def comp_simps random_salt_def now_unix_def reading_no_def demo_parts assms demo_address_hex b Let_def)
  have post: "rq_method (order_request demo_clob u w t) = ''POST''" for u w by (simp add: order_request_def)
  have "submit_order demo_clob tok buying neg_risk amt ot chk s = (let u = s\<lparr>cs_reads := cs_reads s + 2\<rparr>;
      w = order_wire (cs_creds u) ord tok amt buying (replicate 64 1 @ [27]) ot in
    (Inr (Inr \<lparr>hr_status = 200, hr_body = ''o''\<rparr>), u\<lparr>cs_sent := cs_sent u @ [order_request demo_clob u w t]\<rparr>))"
    using f by (simp add: submit_order_def comp_simps Let_def demo_parts account_signs post_order_run post)
  then show ?thesis unfolding Let_def by blast
qed

lemma demo_token: "U256FromDecimal ''11'' \<noteq> None"
  by code_simp

lemma demo_accepted: "order_accepted (ce_jl demo_clob) \<lparr>hr_status = 200, hr_body = ''o''\<rparr>"
proof -
  have "to_lower ''matched'' \<noteq> ''unmatched''" by code_simp
  then show ?thesis by (simp add: order_accepted_def ok2xx_def demo_parts demo_docs)
qed

lemma demo_bought:
  "\<exists>w t u. snd (submit_action demo_clob demo_buy (new_submitter demo_clob ''h'')) = u\<lparr>cs_sent := cs_sent u @ [order_request demo_clob u w t]\<rparr>"
proof -
  let ?s = "new_submitter demo_clob ''h''"
  obtain tick s1 where 1: "fetch_tick_size demo_clob ''11'' ?s = (Inr tick, s1)" using fetch_runs(1) by blast
  obtain neg_risk s2 where 2: "fetch_neg_risk demo_clob ''11'' s1 = (Inr neg_risk, s2)" using fetch_runs(2) by blast
  have "posts_signed demo_clob ?s s1" "posts_signed demo_clob s1 s2"
    using obeysD[OF signing.caches(1) 1] obeysD[OF signing.caches(2) 2] by blast+
  then have c: "cs_creds s2 = cs_creds ?s" by (simp add: posts_signed_def)
  have run: "\<exists>w t u r. submit_order demo_clob ''11'' buying neg_risk amt ot chk s2 =
      (r, u\<lparr>cs_sent := cs_sent u @ [order_request demo_clob u w t]\<rparr>) \<and> (\<exists>v. r = Inr v)" for buying amt ot chk
  proof -
    have "lc_maker (cs_creds s2) = to_hex demo_address" "lc_signer_lc (cs_creds s2) = to_hex demo_address"
      unfolding c by (rule demo_ready)+
    from demo_submits[OF this demo_token] show ?thesis by blast
  qed
  obtain w t u v where "submit_order demo_clob ''11'' (to_upper ''BUY'' = ''BUY'') neg_risk
      (get_order_amounts (to_upper ''BUY'' = ''BUY'') (Fin 64) (Fin (1 / 2)) (round_config tick)) (wire_order_type ''GTC'') True s2 =
      (Inr v, u\<lparr>cs_sent := cs_sent u @ [order_request demo_clob u w t]\<rparr>)"
    using run by blast
  then have "snd (place_order demo_clob ''11'' ''BUY'' (Fin (1 / 2)) (Fin 64) ''GTC'' ?s) = u\<lparr>cs_sent := cs_sent u @ [order_request demo_clob u w t]\<rparr>"
    unfolding place_order_def Let_def run_ret[of "fetch_tick_size demo_clob ''11''", OF 1] run_ret[of "fetch_neg_risk demo_clob ''11''", OF 2]
    by (simp add: bindc_def ret_def)
  then show ?thesis unfolding demo_buy_def submit_place by auto
qed

section \<open>The properties on these runs\<close>

lemma orders_signed_witness:
  "\<exists>s r w ord. clob_step demo_clob (new_submitter demo_clob ''h'') s \<and> r \<in> set (cs_sent s) \<and>
     rq_url r = c_str (cs_endpoint s @ ''/order'') \<and> rq_body r = BuildOrderV2Body w \<and> shows_order w ord"
proof -
  let ?n = "new_submitter demo_clob ''h''"
  obtain w t u where u: "snd (submit_action demo_clob demo_buy ?n) = u\<lparr>cs_sent := cs_sent u @ [order_request demo_clob u w t]\<rparr>"
    using demo_bought by blast
  let ?s = "u\<lparr>cs_sent := cs_sent u @ [order_request demo_clob u w t]\<rparr>" and ?r = "order_request demo_clob u w t"
  have step: "clob_step demo_clob ?n ?s" using clob_step.intros(1)[of demo_clob ?n demo_buy] u by simp
  have r: "?r \<in> set (cs_sent ?s)" "rq_method ?r = ''POST''" "rq_url ?r = c_str (cs_endpoint ?s @ ''/order'')"
    by (simp_all add: order_request_def)
  have "posts_signed demo_clob ?n ?s" using signing.step_law[OF step] .
  moreover have "auths_only (blank_submitter (ce_environ demo_clob) ''h'') ?n"
    using construct_auths by (simp add: obeys_def new_submitter_def)
  moreover have "cs_endpoint (blank_submitter (ce_environ demo_clob) ''h'') = ''h''" by (simp add: blank_submitter_def)
  ultimately have e: "cs_endpoint ?s = ''h''" by (simp add: posts_signed_def auths_only_def)
  have "c_str (''h'' @ ''/order'') \<noteq> c_str (''h'' @ ''/auth/api-key'')" by (simp add: c_str_def)
  then have "rq_url ?r \<noteq> c_str (cs_endpoint ?s @ ''/auth/api-key'')" unfolding r(3) e .
  then obtain w' ord where "rq_body ?r = BuildOrderV2Body w'" "shows_order w' ord"
    using orders_signed[OF r_into_rtranclp[of "clob_step demo_clob", OF step] r(1,2)] by blast
  then show ?thesis using step r(1,3) by blast
qed


definition numbered_trade :: "string \<Rightarrow> json" where
  "numbered_trade i = JObj [(''id'', JStr i)]"

lemma numbered_ids: "trade_id jl (numbered_trade i) = i"
  by (simp add: trade_id_def either_str_def find_str_def jfind_def jfind2_def not_null_def numbered_trade_def)

lemma polls_exactly_once_witness:
  "poll_pages (ce_jl demo_clob) {} False ''0xa'' [[numbered_trade ''3'', numbered_trade ''2'', numbered_trade ''1''],
     [numbered_trade ''3'', numbered_trade ''2'']] (Some ''1'') =
   [concat (map (fills_of_trade (ce_jl demo_clob) {} False ''0xa'') [numbered_trade ''3'', numbered_trade ''2'']), []]"
proof -
  let ?bs = "[([numbered_trade ''3'', numbered_trade ''2''], 5), ([], 2)] :: (json list \<times> nat) list"
  have "history_ok (ce_jl demo_clob) (grown [numbered_trade ''1''] ?bs)" by (simp add: history_ok_def numbered_ids)
  from polls_exactly_once[OF this, of "{}" False "''0xa''"] show ?thesis by (simp add: newest_def numbered_ids)
qed

definition two_legged :: json where
  "two_legged = JObj [(''id'', JStr ''t1''), (''maker_orders'', JArr
     [JObj [(''maker_address'', JStr ''0xA''), (''asset_id'', JStr ''11''), (''side'', JStr ''BUY''), (''matched_amount'', JInt 5), (''price'', JInt 1)],
      JObj [(''maker_address'', JStr ''0xa''), (''asset_id'', JStr ''11''), (''side'', JStr ''BUY''), (''matched_amount'', JInt 7), (''price'', JInt 1)]])]"

lemma second_leg_lost_witness:
  "\<exists>counted s'. for_each (count_fill live_config (demo_services False)) (fills_of_trade (ce_jl demo_clob) {} False ''0xa'' two_legged)
     (idle_runner quoted_engine) = (Inr [counted], s') \<and> length (fills_of_trade (ce_jl demo_clob) {} False ''0xa'' two_legged) = 2"
proof -
  let ?jl = "ce_jl demo_clob" and ?s = "idle_runner quoted_engine"
  have own: "\<not> own_taker_trade ?jl {} two_legged" by (simp add: own_taker_trade_def split: option.split)
  have mos: "jfind two_legged ''maker_orders'' = Some (JArr (case jget two_legged ''maker_orders'' of Some (JArr ms) \<Rightarrow> ms | _ \<Rightarrow> []))"
    by (simp add: jfind_def jfind2_def not_null_def two_legged_def jget_def)
  have lc: "to_lower ''0xA'' = ''0xa''" "to_lower ''0xa'' = ''0xa''" by code_simp+
  obtain a b where legs: "our_legs ?jl ''0xa'' (case jget two_legged ''maker_orders'' of Some (JArr ms) \<Rightarrow> ms | _ \<Rightarrow> []) = [a, b]"
    by (simp add: our_legs_def find_str_def jfind_def jfind2_def not_null_def two_legged_def jget_def lc)
  have id: "trade_id ?jl two_legged = ''t1''"
    by (simp add: trade_id_def either_str_def find_str_def jfind_def jfind2_def not_null_def two_legged_def)
  have m: "memory_ok [] (ru_seen ?s)" "trade_id ?jl two_legged \<notin> fst (ru_seen ?s)"
    by (simp_all add: memory_ok_def idle_runner_def last_ids_def once_each_def)
  have "''0xa'' \<noteq> []" "trade_id ?jl two_legged \<noteq> []" by (simp_all add: id)
  note lost = second_leg_lost[OF own this(1) mos legs this(2) m, of False live_config "demo_services False"]
  then have "length (fills_of_trade ?jl {} False ''0xa'' two_legged) = 2" by simp
  then show ?thesis using lost by blast
qed


text \<open>The exchange is down: no answer is JSON.\<close>

definition silent_clob :: ClobEnv where
  "silent_clob = demo_clob\<lparr>ce_jl := \<lparr>jl_parse = (\<lambda>_. None), jl_dump = (\<lambda>_. ''d'')\<rparr>\<rparr>"


end
