(* ===== verification/VendorLoop.thy ===== *)
theory VendorLoop
  imports Clob TailVendor
begin

text \<open>
  The seller of tails as a process (\<open>apps/tail_vendor_main.cpp\<close>): its settings with the compiled-in
  ceilings, the ledger of held tokens with its file, the scan of the candidates and of the
  whitelist, the execution of a plan, the halting rules, the start, and the sheet mode.  The state holds
  the client, the submitter (\<open>None\<close> in a dry run) and the actions handed to it.  The clock, the stop
  file, the whitelist file, the success of writing the ledger and the signals are asked with the
  number of readings so far; a signal is noticed at the next look at \<open>g_run\<close>.  The log, the printed
  texts and the waiting are left out; a wait is the looks at the flag and the stop file it makes.
\<close>

section \<open>State\<close>

record HeldState =
  hs_total :: double
  hs_coin :: "(string, double) smap"
  hs_token_held :: "(string, double) smap"
  hs_token_coin :: "(string, string) smap"
  hs_token_note :: "(string, string) smap"
  hs_token_touch :: "(string, bool) smap"
  hs_last_trade_id :: string

definition no_held :: HeldState where
  "no_held = \<lparr>hs_total = 0, hs_coin = [], hs_token_held = [], hs_token_coin = [], hs_token_note = [],
     hs_token_touch = [], hs_last_trade_id = []\<rparr>"

record VendorEnv =
  ve_world :: World
  ve_clob :: ClobEnv
  ve_read :: "string \<Rightarrow> json option"
  ve_environ :: environ
  ve_dotenv :: "string list option"
  ve_db :: Db
  ve_time :: "nat \<Rightarrow> int"
  ve_signal :: "nat \<Rightarrow> bool"
  ve_stopfile :: "nat \<Rightarrow> bool"
  ve_whitelist :: "nat \<Rightarrow> string option"
  ve_saved :: "nat \<Rightarrow> bool"

record VendorSettings =
  vs_cfg :: TailVendor.Config
  vs_scan_s :: int
  vs_armed :: bool
  vs_funder :: string

record Vendor =
  vd_run :: bool
  vd_over :: bool
  vd_held :: HeldState
  vd_file :: "string option"
  vd_client :: Client
  vd_sub :: "ClobSubmitter option"
  vd_sent :: "json list"
  vd_rejects :: int
  vd_neterr :: int
  vd_ticks :: int
  vd_looks :: nat

type_synonym 'a vdc = "(Vendor, 'a) comp"

definition look :: "(nat \<Rightarrow> 'a) \<Rightarrow> 'a vdc" where
  "look f s = (Inr (f (vd_looks s)), s\<lparr>vd_looks := vd_looks s + 1\<rparr>)"

definition each :: "('a \<Rightarrow> ('s, unit) comp) \<Rightarrow> 'a list \<Rightarrow> ('s, unit) comp" where
  "each f xs = bindc (for_each (\<lambda>x. bindc (f x) (\<lambda>_. ret [])) xs) (\<lambda>(_ :: unit list). ret ())"

definition running :: "VendorEnv \<Rightarrow> bool vdc" where
  "running y =
     bindc (look (ve_signal y)) (\<lambda>hit.
     bindc (modify (if hit then vd_run_update (\<lambda>_. False) else id)) (\<lambda>_. reading vd_run))"

definition stop_file :: "VendorEnv \<Rightarrow> bool vdc" where
  "stop_file y = look (ve_stopfile y)"

definition with_client :: "'a clc \<Rightarrow> 'a vdc" where
  "with_client m = on_part vd_client (\<lambda>c. vd_client_update (\<lambda>_. c)) m"

definition with_sub :: "'a clobc \<Rightarrow> 'a vdc" where
  "with_sub m s = (case vd_sub s of None \<Rightarrow> (Inl (StdError ''no submitter''), s)
     | Some c \<Rightarrow> (case m c of (r, c') \<Rightarrow> (r, s\<lparr>vd_sub := Some c'\<rparr>)))"

definition hand_out :: "VendorEnv \<Rightarrow> json \<Rightarrow> json vdc" where
  "hand_out y action =
     bindc (modify (\<lambda>s. s\<lparr>vd_sent := vd_sent s @ [action]\<rparr>)) (\<lambda>_. with_sub (submit_action (ve_clob y) action))"

definition vendor_jl :: "VendorEnv \<Rightarrow> jlib" where
  "vendor_jl y = w_jl (ve_world y)"

text \<open>\<open>j.value(key, default)\<close> and \<open>v.get<T>()\<close> with the library's type error\<close>

definition or_type_error :: "'a option \<Rightarrow> sim_error + 'a" where
  "or_type_error v = (case v of None \<Rightarrow> Inl type_error | Some x \<Rightarrow> Inr x)"

definition value_str :: "json \<Rightarrow> string \<Rightarrow> string \<Rightarrow> sim_error + string" where
  "value_str j key dflt = or_type_error (jvalue_str j key dflt)"

definition value_num :: "json \<Rightarrow> string \<Rightarrow> sim_error + double" where
  "value_num j key = or_type_error (jvalue_num j key)"

definition value_json :: "json \<Rightarrow> string \<Rightarrow> json \<Rightarrow> sim_error + json" where
  "value_json j key dflt = (case j of JObj kvs \<Rightarrow> Inr (case map_of kvs key of None \<Rightarrow> dflt | Some v \<Rightarrow> v) | _ \<Rightarrow> Inl type_error)"

definition value_int :: "json \<Rightarrow> string \<Rightarrow> sim_error + int" where
  "value_int j key = (case j of JObj kvs \<Rightarrow>
       (case map_of kvs key of None \<Rightarrow> Inr 0
        | Some (JInt i) \<Rightarrow> Inr ((i - int_min) mod 2 ^ 32 + int_min)
        | Some (JFloat d) \<Rightarrow> Inr (trunc_int d)
        | Some (JBool b) \<Rightarrow> Inr (if b then 1 else 0)
        | Some _ \<Rightarrow> Inl type_error)
     | _ \<Rightarrow> Inl type_error)"

definition get_num :: "json \<Rightarrow> sim_error + double" where
  "get_num v = (if is_number v then Inr (to_double v) else Inl type_error)"

definition get_text :: "json \<Rightarrow> sim_error + string" where
  "get_text v = (case v of JStr s \<Rightarrow> Inr s | _ \<Rightarrow> Inl type_error)"

text \<open>The pairs of \<open>items()\<close>: an array's with their index, a scalar's with an empty key\<close>

definition json_items :: "json \<Rightarrow> (string \<times> json) list" where
  "json_items j = (case j of JObj kvs \<Rightarrow> kvs | JArr xs \<Rightarrow> zip (map nat_str [0..<length xs]) xs | JNull \<Rightarrow> [] | v \<Rightarrow> [([], v)])"

section \<open>Settings\<close>

definition env_low :: "environ \<Rightarrow> string \<Rightarrow> double \<Rightarrow> double \<Rightarrow> double" where
  "env_low ev name dflt ceil = (case ev name of Some s \<Rightarrow> cmin (atof s) ceil | None \<Rightarrow> cmin dflt ceil)"

definition kCeilTotalUsd :: double where "kCeilTotalUsd = lit 650"
definition kCeilPerCoinUsd :: double where "kCeilPerCoinUsd = lit 250"
definition kCeilPerOrderUsd :: double where "kCeilPerOrderUsd = lit 25"
definition kCeilPerMarketUsd :: double where "kCeilPerMarketUsd = lit 50"
definition kCeilOrders :: double where "kCeilOrders = lit 60"
definition kCeilTouchTotalUsd :: double where "kCeilTouchTotalUsd = lit 120"
definition kCeilTouchPerCoinUsd :: double where "kCeilTouchPerCoinUsd = lit 60"
definition kCeilTouchOrderUsd :: double where "kCeilTouchOrderUsd = lit 25"
definition kCeilYesMax :: double where "kCeilYesMax = lit (12 / 100)"
definition kCeilYesExit :: double where "kCeilYesExit = lit (20 / 100)"
definition kCeilMinEdge :: double where "kCeilMinEdge = lit (5 / 100)"

definition vendor_config :: "environ \<Rightarrow> TailVendor.Config" where
  "vendor_config ev = default_config\<lparr>
     cf_total_usd := env_low ev ''TV_TOTAL_USD'' (lit 60) kCeilTotalUsd,
     cf_per_coin_usd := env_low ev ''TV_PER_COIN_USD'' (lit 60) kCeilPerCoinUsd,
     cf_per_coin_alt_usd := env_low ev ''TV_PER_COIN_ALT_USD'' 0 kCeilPerCoinUsd,
     cf_per_order_usd := env_low ev ''TV_PER_ORDER_USD'' (lit 20) kCeilPerOrderUsd,
     cf_per_market_usd := env_low ev ''TV_PER_MARKET_USD'' (lit 15) kCeilPerMarketUsd,
     cf_max_orders := trunc_int (env_low ev ''TV_MAX_ORDERS'' (lit 8) kCeilOrders),
     cf_touch_total_usd := env_low ev ''TV_TOUCH_TOTAL_USD'' 0 kCeilTouchTotalUsd,
     cf_touch_per_coin_usd := env_low ev ''TV_TOUCH_PER_COIN_USD'' 0 kCeilTouchPerCoinUsd,
     cf_touch_per_order_usd := env_low ev ''TV_TOUCH_PER_ORDER_USD'' (lit 24) kCeilTouchOrderUsd,
     cf_touch_per_market_usd := env_low ev ''TV_TOUCH_PER_ORDER_USD'' (lit 24) kCeilTouchOrderUsd,
     cf_yes_max := env_low ev ''TV_YES_MAX'' (lit (7 / 100)) kCeilYesMax,
     cf_yes_exit := env_low ev ''TV_YES_EXIT'' (lit (1 / 10)) kCeilYesExit,
     cf_min_edge := env_low ev ''TV_MIN_EDGE'' (lit (8 / 1000)) kCeilMinEdge\<rparr>"

definition vendor_armed :: "environ \<Rightarrow> bool" where
  "vendor_armed ev \<longleftrightarrow> ev ''PM_TRADER_LIVE'' = Some ''1'' \<and> ev ''TV_ARM'' = Some ''1''"

section \<open>The ledger of held tokens\<close>

definition num_map :: "(string, double) smap \<Rightarrow> json" where
  "num_map m = JObj (map (\<lambda>(k, v). (k, JFloat v)) m)"

definition text_map :: "(string, string) smap \<Rightarrow> json" where
  "text_map m = JObj (map (\<lambda>(k, v). (k, JStr v)) m)"

definition flag_map :: "(string, bool) smap \<Rightarrow> json" where
  "flag_map m = JObj (map (\<lambda>(k, v). (k, JBool v)) m)"

definition held_doc :: "HeldState \<Rightarrow> json" where
  "held_doc st = jobj [(''held_total'', JFloat (hs_total st)), (''held_coin'', num_map (hs_coin st)),
     (''token_coin'', text_map (hs_token_coin st)), (''token_note'', text_map (hs_token_note st)),
     (''token_touch'', flag_map (hs_token_touch st)), (''token_held'', num_map (hs_token_held st)),
     (''last_trade_id'', JStr (hs_last_trade_id st))]"

definition save_held :: "VendorEnv \<Rightarrow> unit vdc" where
  "save_held y =
     bindc (reading (\<lambda>s. jl_dump (vendor_jl y) (held_doc (vd_held s)))) (\<lambda>content.
     bindc (look (ve_saved y)) (\<lambda>ok. modify (if ok then vd_file_update (\<lambda>_. Some content) else id)))"

text \<open>The fields in the order they are read; a type error keeps what was read before it.\<close>

definition load_map :: "json \<Rightarrow> string \<Rightarrow> (string \<Rightarrow> json \<Rightarrow> (HeldState, unit) comp) \<Rightarrow> (HeldState, unit) comp" where
  "load_map j key put = bindc (of_sum (value_json j key (JObj []))) (\<lambda>m. each (\<lambda>(k, v). put k v) (json_items m))"

definition load_fields :: "json \<Rightarrow> (HeldState, unit) comp" where
  "load_fields j =
     bindc (of_sum (value_num j ''held_total'')) (\<lambda>v.
     bindc (modify (hs_total_update (\<lambda>_. v))) (\<lambda>_.
     bindc (load_map j ''held_coin'' (\<lambda>k v. bindc (of_sum (get_num v)) (\<lambda>d. modify (hs_coin_update (smap_put k d))))) (\<lambda>_.
     bindc (load_map j ''token_held'' (\<lambda>k v. bindc (of_sum (get_num v)) (\<lambda>d. modify (hs_token_held_update (smap_put k d))))) (\<lambda>_.
     bindc (load_map j ''token_coin'' (\<lambda>k v. bindc (of_sum (get_text v)) (\<lambda>d. modify (hs_token_coin_update (smap_put k d))))) (\<lambda>_.
     bindc (load_map j ''token_note'' (\<lambda>k v. bindc (of_sum (get_text v)) (\<lambda>d. modify (hs_token_note_update (smap_put k d))))) (\<lambda>_.
     bindc (load_map j ''token_touch'' (\<lambda>k v. case v of JBool b \<Rightarrow> modify (hs_token_touch_update (smap_put k b)) | _ \<Rightarrow> ret ())) (\<lambda>_.
     bindc (of_sum (value_str j ''last_trade_id'' [])) (\<lambda>t. modify (hs_last_trade_id_update (\<lambda>_. t))))))))))"

definition load_held :: "(string \<Rightarrow> json option) \<Rightarrow> string option \<Rightarrow> HeldState" where
  "load_held read content = (case content of None \<Rightarrow> no_held
     | Some txt \<Rightarrow> (case read txt of None \<Rightarrow> no_held | Some j \<Rightarrow> snd (load_fields j no_held)))"

text \<open>
  The correction by the chain: of the tokens in the ledger those the account still holds, at the size
  it holds.  Fewer than three positions in the answer are taken for a broken answer.
\<close>

definition still_held :: "(string, double) smap \<Rightarrow> (string, double) smap \<Rightarrow> (string, double) smap" where
  "still_held cp held = filter (\<lambda>(tok, real). \<not> real < lit (1 / 2)) (map (\<lambda>(tok, sz). (tok, dabs (smap_at 0 cp tok))) held)"

definition by_coin :: "(string, string) smap \<Rightarrow> (string, double) smap \<Rightarrow> (string, double) smap" where
  "by_coin token_coin held = foldl (\<lambda>m (tok, amt). case smap_get token_coin tok of None \<Rightarrow> m | Some k \<Rightarrow> smap_add k amt m) [] held"

definition sum_held :: "(string, double) smap \<Rightarrow> double" where
  "sum_held held = foldl (\<lambda>t (tok, amt). t + amt) 0 held"

definition chain_held :: "(string, double) smap \<Rightarrow> HeldState \<Rightarrow> HeldState" where
  "chain_held cp st =
     (let kept = still_held cp (hs_token_held st)
      in st\<lparr>hs_token_held := kept, hs_coin := by_coin (hs_token_coin st) kept, hs_total := sum_held kept\<rparr>)"

definition reconcile_held :: "VendorEnv \<Rightarrow> VendorSettings \<Rightarrow> unit vdc" where
  "reconcile_held y c =
     bindc (reading vd_held) (\<lambda>st.
     if vs_funder c = [] \<or> hs_token_held st = [] then ret ()
     else bindc (with_client (chain_positions (ve_world y) (vs_funder c))) (\<lambda>cp.
       if length cp < 3 then ret ()
       else if dabs (hs_total st - hs_total (chain_held cp st)) < lit (1 / 2) then ret ()
       else bindc (modify (vd_held_update (\<lambda>_. chain_held cp st))) (\<lambda>_. save_held y)))"

text \<open>One fill; only tokens this strategy has placed orders on count.\<close>

definition book_fill :: "string \<Rightarrow> string \<Rightarrow> double \<Rightarrow> HeldState \<Rightarrow> HeldState" where
  "book_fill coin token sz st =
     st\<lparr>hs_total := hs_total st + sz, hs_coin := smap_add coin sz (hs_coin st),
        hs_token_held := smap_add token sz (hs_token_held st)\<rparr>"

definition ingest_fill :: "VendorEnv \<Rightarrow> json \<Rightarrow> unit vdc" where
  "ingest_fill y f =
     bindc (of_sum (value_str f ''id'' [])) (\<lambda>tid.
     bindc (modify (if tid \<noteq> [] then vd_held_update (hs_last_trade_id_update (\<lambda>_. tid)) else id)) (\<lambda>_.
     bindc (of_sum (value_str f ''token_id'' [])) (\<lambda>token.
     bindc (reading (\<lambda>s. smap_get (hs_token_coin (vd_held s)) token)) (\<lambda>known. case known of
       None \<Rightarrow> save_held y
     | Some coin \<Rightarrow>
         bindc (of_sum (value_str f ''side'' [])) (\<lambda>side.
         bindc (if side = ''BUY'' then bindc (of_sum (value_num f ''size'')) (\<lambda>sz. modify (vd_held_update (book_fill coin token sz)))
                else ret ()) (\<lambda>_. save_held y))))))"

text \<open>The submitter gives the newest fill first; the ledger takes the oldest first.\<close>

definition ingest_all :: "VendorEnv \<Rightarrow> json list \<Rightarrow> unit vdc" where
  "ingest_all y fills = each (ingest_fill y) (rev fills)"

section \<open>The candidates of a scan\<close>

type_synonym candidates = "(string, Candidate) smap"

definition kSeries :: "string list" where
  "kSeries = [''45'', ''42'', ''10022'', ''10023'', ''10024'', ''10147'', ''10149'', ''10041'', ''10065'', ''10107'', ''10247'',
     ''10151'', ''10152'', ''10170'', ''10239'']"

definition series_params :: "string \<Rightarrow> Params" where
  "series_params sid = [(''series_id'', sid), (''closed'', ''false''), (''limit'', ''100'')]"

definition market_rows :: "json \<Rightarrow> json list" where
  "market_rows ev = (case jget ev ''markets'' of Some (JArr rs) \<Rightarrow> rs | _ \<Rightarrow> [])"

definition candidate_of :: "VendorEnv \<Rightarrow> double \<Rightarrow> json \<Rightarrow> Candidate list vdc" where
  "candidate_of y now r =
     (case parse_candidate (jl_parse (vendor_jl y)) r now of
        Inl e \<Rightarrow> throw type_error | Inr None \<Rightarrow> ret [] | Inr (Some c) \<Rightarrow> ret [c])"

definition scan_series :: "VendorEnv \<Rightarrow> double \<Rightarrow> string \<Rightarrow> Candidate list vdc" where
  "scan_series y now sid =
     bindc (with_client (gamma_events_raw (ve_world y) (series_params sid))) (\<lambda>evs.
     for_each (\<lambda>ev. for_each (candidate_of y now) (market_rows ev)) (elements evs))"

definition scan_candidates :: "VendorEnv \<Rightarrow> double \<Rightarrow> candidates vdc" where
  "scan_candidates y now =
     bindc (for_each (scan_series y now) kSeries) (\<lambda>cs. ret (foldl (\<lambda>m c. smap_put (c_no_token c) c m) [] cs))"

section \<open>The whitelist\<close>

record Whitelist =
  wl_allow :: "string set"
  wl_clamp :: "string set"
  wl_fairs :: "(string, double) smap"
  wl_touch :: "(string, double) smap"

definition text_items :: "json \<Rightarrow> string \<Rightarrow> sim_error + string list" where
  "text_items wj key = (case value_json wj key (JArr []) of Inl e \<Rightarrow> Inl e | Inr v \<Rightarrow> try_map get_text (items v))"

text \<open>A malformed row is skipped.\<close>

definition number_or :: "double \<Rightarrow> json option \<Rightarrow> double" where
  "number_or dflt v = (case v of None \<Rightarrow> dflt | Some j \<Rightarrow> if is_number j then to_double j else dflt)"

definition detail_row :: "(string, double) smap \<times> (string, double) smap \<Rightarrow> json \<Rightarrow> (string, double) smap \<times> (string, double) smap" where
  "detail_row = (\<lambda>(fairs, touch) d.
     (case jget d ''slug'' of
        Some (JStr slug) \<Rightarrow>
          (case jget d ''fair_hi'' of Some v \<Rightarrow> if is_number v then smap_put slug (to_double v) fairs else fairs | None \<Rightarrow> fairs,
           if jget d ''anchor'' = Some (JStr ''touch-model'') then smap_put slug (number_or 0 (jget d ''collateral'')) touch else touch)
      | _ \<Rightarrow> (fairs, touch)))"

definition whitelist_of :: "json \<Rightarrow> sim_error + Whitelist" where
  "whitelist_of wj =
     (case text_items wj ''slugs'' of Inl e \<Rightarrow> Inl e | Inr slugs \<Rightarrow>
     (case text_items wj ''clamp'' of Inl e \<Rightarrow> Inl e | Inr clamp \<Rightarrow>
     (case foldl detail_row ([], []) (case jget wj ''detail'' of Some (JArr ds) \<Rightarrow> ds | _ \<Rightarrow> []) of (fairs, touch) \<Rightarrow>
      Inr \<lparr>wl_allow = set slugs, wl_clamp = set clamp, wl_fairs = fairs, wl_touch = touch\<rparr>)))"

definition curated :: "Whitelist \<Rightarrow> Candidate \<Rightarrow> Candidate" where
  "curated wl c =
     (let c1 = c\<lparr>c_band_clamp := c_slug c \<in> wl_clamp wl\<rparr>;
          c2 = (case smap_get (wl_fairs wl) (c_slug c) of None \<Rightarrow> c1 | Some d \<Rightarrow> c1\<lparr>c_wl_fair := d\<rparr>)
      in case smap_get (wl_touch wl) (c_slug c) of None \<Rightarrow> c2 | Some d \<Rightarrow> c2\<lparr>c_is_touch := True, c_wl_collateral := d\<rparr>)"

text \<open>The list that authorises a round; \<open>None\<close> when the file is missing, broken or names nothing.\<close>

definition authority :: "(string \<Rightarrow> json option) \<Rightarrow> string option \<Rightarrow> Whitelist option" where
  "authority read content =
     (case content of None \<Rightarrow> None | Some txt \<Rightarrow>
     (case read txt of None \<Rightarrow> None | Some wj \<Rightarrow>
     (case whitelist_of wj of Inl e \<Rightarrow> None | Inr wl \<Rightarrow> if wl_allow wl = {} then None else Some wl)))"

definition authorised :: "Whitelist option \<Rightarrow> candidates \<Rightarrow> candidates \<times> nat" where
  "authorised auth cands =
     (case auth of None \<Rightarrow> ([], 0)
      | Some wl \<Rightarrow> (map (\<lambda>(tok, c). (tok, curated wl c)) (filter (\<lambda>(tok, c). c_slug c \<in> wl_allow wl) cands), card (wl_allow wl)))"

section \<open>Orders at rest and live prices\<close>

definition open_order :: "HeldState \<Rightarrow> candidates \<Rightarrow> json \<Rightarrow> OpenOrder list vdc" where
  "open_order st cands oo =
     bindc (of_sum (value_str oo ''asset_id'' [])) (\<lambda>tok.
     bindc (of_sum (value_str oo ''price'' ''0'')) (\<lambda>price.
     bindc (of_sum (value_str oo ''original_size'' ''0'')) (\<lambda>orig.
     bindc (of_sum (value_str oo ''size_matched'' ''0'')) (\<lambda>matched.
     ret [\<lparr>oo_no_token = tok, oo_no_price = atof (c_str price), oo_size = atof (c_str orig) - atof (c_str matched),
           oo_coin = (case smap_get (hs_token_coin st) tok of Some k \<Rightarrow> k
              | None \<Rightarrow> (case smap_get cands tok of Some c \<Rightarrow> c_coin c | None \<Rightarrow> [])),
           oo_note = (case smap_get (hs_token_note st) tok of Some n \<Rightarrow> n | None \<Rightarrow> [])\<rparr>]))))"

definition best_ask :: "OrderBook \<Rightarrow> double" where
  "best_ask book = foldl (\<lambda>a l. cmin a (lv_price l)) 1 (ob_asks book)"

text \<open>The best bid once the own order is taken out\<close>

definition best_bid_beside :: "OpenOrder option \<Rightarrow> OrderBook \<Rightarrow> double" where
  "best_bid_beside mine book = foldl (\<lambda>b l.
     let sz = (case mine of None \<Rightarrow> lv_size l
                | Some o1 \<Rightarrow> if dabs (lv_price l - oo_no_price o1) < lit (5 / 10000) then lv_size l - oo_size o1 else lv_size l)
     in if lit (1 / 10 ^ 6) < sz \<and> b < lv_price l then lv_price l else b) 0 (ob_bids book)"

definition live_priced :: "OpenOrder option \<Rightarrow> OrderBook \<Rightarrow> Candidate \<Rightarrow> Candidate" where
  "live_priced mine book c =
     (if ob_bids book = [] \<and> ob_asks book = [] then c
      else let bid = best_bid_beside mine book; ask = best_ask book;
          c1 = (if 0 < bid then c\<lparr>c_yes_ask := 1 - bid\<rparr>
                else case mine of Some o1 \<Rightarrow> c\<lparr>c_yes_ask := 1 - oo_no_price o1\<rparr> | None \<Rightarrow> c)
        in if ask < 1 then c1\<lparr>c_yes_bid := 1 - ask\<rparr> else c1)"

definition live_prices :: "VendorEnv \<Rightarrow> OpenOrder list \<Rightarrow> candidates \<Rightarrow> candidates vdc" where
  "live_prices y opn cands =
     (let ours = foldl (\<lambda>m o1. smap_put (oo_no_token o1) o1 m) [] opn in
      for_each (\<lambda>(tok, c). bindc (with_client (get_order_book (ve_world y) tok)) (\<lambda>book.
        ret [(tok, live_priced (smap_get ours tok) book c)])) cands)"

section \<open>The two budgets\<close>

definition touch_held :: "HeldState \<Rightarrow> (string, double) smap" where
  "touch_held st = filter (\<lambda>(tok, amt). smap_get (hs_token_touch st) tok = Some True) (hs_token_held st)"

definition core_coin :: "HeldState \<Rightarrow> (string, double) smap" where
  "core_coin st = foldl (\<lambda>m (k, amt). smap_put k (cmax 0 (smap_at 0 m k - amt)) m) (hs_coin st)
     (by_coin (hs_token_coin st) (touch_held st))"

definition core_total :: "HeldState \<Rightarrow> double" where
  "core_total st = cmax 0 (hs_total st - sum_held (touch_held st))"

definition round_plan :: "VendorSettings \<Rightarrow> HeldState \<Rightarrow> candidates \<Rightarrow> OpenOrder list \<Rightarrow> Action list" where
  "round_plan c st cands opn =
     plan cands opn (core_coin st) (hs_token_held st) (core_total st) (vs_cfg c)
       (by_coin (hs_token_coin st) (touch_held st)) (sum_held (touch_held st))"

section \<open>Executing the plan\<close>

definition buy_doc :: "string \<Rightarrow> double \<Rightarrow> double \<Rightarrow> json" where
  "buy_doc token price sz = jobj [(''action'', JStr ''PLACE''), (''token_id'', JStr token), (''side'', JStr ''BUY''),
     (''price'', JFloat price), (''size'', JFloat sz)]"

definition would_cross :: "VendorEnv \<Rightarrow> string \<Rightarrow> double \<Rightarrow> bool vdc" where
  "would_cross y token price =
     bindc (with_client (get_order_book (ve_world y) token)) (\<lambda>book. ret (best_ask book \<le> price + eps9))"

definition registered :: "string \<Rightarrow> Candidate \<Rightarrow> HeldState \<Rightarrow> HeldState" where
  "registered token c st =
     st\<lparr>hs_token_coin := smap_put token (c_coin c) (hs_token_coin st),
        hs_token_note := smap_put token (c_slug c) (hs_token_note st),
        hs_token_touch := (if c_is_touch c then smap_put token True (hs_token_touch st) else hs_token_touch st)\<rparr>"

text \<open>What becomes of an answer; the result says whether the round goes on.\<close>

definition place_outcome :: "VendorEnv \<Rightarrow> candidates \<Rightarrow> string \<Rightarrow> string \<Rightarrow> int \<Rightarrow> bool vdc" where
  "place_outcome y cands token status code =
     (if status = ''PLACED'' then
        bindc (modify (\<lambda>s. s\<lparr>vd_rejects := 0, vd_neterr := 0\<rparr>)) (\<lambda>_.
        case smap_get cands token of None \<Rightarrow> ret True
        | Some c \<Rightarrow> bindc (modify (vd_held_update (registered token c))) (\<lambda>_. bindc (save_held y) (\<lambda>_. ret True)))
      else if is_transient_place_error code then
        bindc (modify (vd_neterr_update (\<lambda>n. n + 1))) (\<lambda>_. reading (\<lambda>s. vd_neterr s < 8))
      else
        bindc (modify (\<lambda>s. s\<lparr>vd_neterr := 0, vd_rejects := vd_rejects s + 1\<rparr>)) (\<lambda>_.
        bindc (reading (\<lambda>s. 3 \<le> vd_rejects s)) (\<lambda>halt.
        bindc (modify (if halt then vd_run_update (\<lambda>_. False) else id)) (\<lambda>_. ret (\<not> halt)))))"

definition place_planned :: "VendorEnv \<Rightarrow> candidates \<Rightarrow> Action \<Rightarrow> bool vdc" where
  "place_planned y cands a =
     bindc (would_cross y (act_no_token a) (act_no_price a)) (\<lambda>crossing.
     if crossing then ret True
     else bindc (with_sub (warm_token (ve_clob y) (act_no_token a))) (\<lambda>_.
       bindc (hand_out y (buy_doc (act_no_token a) (act_no_price a) (act_size a))) (\<lambda>r.
       bindc (of_sum (value_str r ''status'' [])) (\<lambda>status.
       bindc (of_sum (value_int r ''http'')) (\<lambda>code. place_outcome y cands (act_no_token a) status code)))))"

definition execute_one :: "VendorEnv \<Rightarrow> VendorSettings \<Rightarrow> candidates \<Rightarrow> Action \<Rightarrow> bool vdc" where
  "execute_one y c cands a =
     (if act_kind a = KCancel then
        (if vs_armed c then bindc (hand_out y (cancel_all_action (act_no_token a))) (\<lambda>_. ret True) else ret True)
      else if \<not> vs_armed c then ret True
      else place_planned y cands a)"

fun execute :: "VendorEnv \<Rightarrow> VendorSettings \<Rightarrow> candidates \<Rightarrow> Action list \<Rightarrow> unit vdc" where
  "execute y c cands [] = ret ()"
| "execute y c cands (a # as) =
     bindc (running y) (\<lambda>go.
     if \<not> go then ret ()
     else bindc (execute_one y c cands a) (\<lambda>on. if on then execute y c cands as else ret ()))"

section \<open>A round\<close>

definition cancel_open :: "VendorEnv \<Rightarrow> unit vdc" where
  "cancel_open y =
     bindc (with_sub (list_open_orders (ve_clob y))) (\<lambda>os.
     each (\<lambda>oo. bindc (of_sum (value_str oo ''asset_id'' [])) (\<lambda>tok.
       bindc (hand_out y (cancel_all_action tok)) (\<lambda>_. ret ()))) os)"

definition account_news :: "VendorEnv \<Rightarrow> VendorSettings \<Rightarrow> candidates \<Rightarrow> OpenOrder list vdc" where
  "account_news y c cands =
     (if \<not> vs_armed c then ret []
      else bindc (with_sub (clob_poll_fills (ve_clob y))) (\<lambda>fills.
        bindc (ingest_all y fills) (\<lambda>_.
        bindc (with_sub (list_open_orders (ve_clob y))) (\<lambda>os.
        bindc (reading vd_held) (\<lambda>st. for_each (open_order st cands) os)))))"

definition heartbeat :: "VendorEnv \<Rightarrow> VendorSettings \<Rightarrow> unit vdc" where
  "heartbeat y c =
     bindc (reading vd_ticks) (\<lambda>n.
     if n mod 12 = 0 \<and> vs_armed c then bindc (with_sub (usdc_balance (ve_clob y))) (\<lambda>_. ret ()) else ret ())"

text \<open>What follows the reading of the whitelist\<close>

definition round_rest :: "VendorEnv \<Rightarrow> VendorSettings \<Rightarrow> candidates \<Rightarrow> string option \<Rightarrow> bool vdc" where
  "round_rest y c found content =
     (case authorised (authority (ve_read y) content) found of (listed, wl_size) \<Rightarrow>
       bindc (account_news y c listed) (\<lambda>opn.
       bindc (if wl_size \<noteq> 0 then live_prices y opn listed else ret listed) (\<lambda>cands.
       bindc (reading (\<lambda>s. round_plan c (vd_held s) cands opn)) (\<lambda>actions.
       bindc (execute y c cands actions) (\<lambda>_.
       bindc (heartbeat y c) (\<lambda>_. ret False))))))"

text \<open>The body of the loop up to the end of its \<open>try\<close> block; \<open>True\<close> leaves the loop.\<close>

definition scan_round :: "VendorEnv \<Rightarrow> VendorSettings \<Rightarrow> bool vdc" where
  "scan_round y c =
     bindc (look (ve_time y)) (\<lambda>now.
     bindc (stop_file y) (\<lambda>stop.
     if stop then bindc (if vs_armed c then cancel_open y else ret ()) (\<lambda>_. ret True)
     else bindc (if vs_armed c then reconcile_held y c else ret ()) (\<lambda>_.
       bindc (scan_candidates y (of_i now)) (\<lambda>found.
       bindc (look (ve_whitelist y)) (round_rest y c found)))))"

fun wait_secs :: "VendorEnv \<Rightarrow> nat \<Rightarrow> unit vdc" where
  "wait_secs y 0 = ret ()"
| "wait_secs y (Suc n) =
     bindc (running y) (\<lambda>go. if \<not> go then ret ()
     else bindc (stop_file y) (\<lambda>stop. if stop then ret () else wait_secs y n))"

text \<open>One turn of the loop; an exception ends the round, not the loop.\<close>

definition scan_turn :: "VendorEnv \<Rightarrow> VendorSettings \<Rightarrow> unit vdc" where
  "scan_turn y c =
     bindc (running y) (\<lambda>go.
     if \<not> go then modify (vd_over_update (\<lambda>_. True))
     else bindc (catch (scan_round y c) (\<lambda>_. ret False)) (\<lambda>left.
       if left then modify (vd_over_update (\<lambda>_. True))
       else bindc (modify (vd_ticks_update (\<lambda>n. n + 1))) (\<lambda>_. wait_secs y (nat (vs_scan_s c)))))"

inductive vendor_step :: "VendorEnv \<Rightarrow> VendorSettings \<Rightarrow> Vendor \<Rightarrow> Vendor \<Rightarrow> bool" for y c where
  turn: "\<not> vd_over s \<Longrightarrow> vendor_step y c s (snd (scan_turn y c s))"

section \<open>Start\<close>

definition vendor_settings :: "VendorEnv \<Rightarrow> VendorSettings" where
  "vendor_settings y =
     (let ev = ve_environ y; armed = vendor_armed ev; ev' = fst (LoadDotEnv (ve_dotenv y) armed ev)
      in \<lparr>vs_cfg = vendor_config ev, vs_scan_s = trunc_int (env_low ev ''TV_SCAN_S'' (lit 300) (lit 3600)),
          vs_armed = armed, vs_funder = (case ev' ''TV_FUNDER'' of None \<Rightarrow> [] | Some s \<Rightarrow> s)\<rparr>)"

definition vendor_submitter :: "VendorEnv \<Rightarrow> ClobSubmitter option" where
  "vendor_submitter y =
     (let armed = vendor_armed (ve_environ y); ev' = fst (LoadDotEnv (ve_dotenv y) armed (ve_environ y))
      in if armed then Some (new_submitter ((ve_clob y)\<lparr>ce_environ := ev'\<rparr>) ''https://clob.polymarket.com'') else None)"

definition blank_vendor :: "VendorEnv \<Rightarrow> string option \<Rightarrow> Vendor" where
  "blank_vendor y content =
     \<lparr>vd_run = True, vd_over = False, vd_held = load_held (ve_read y) content, vd_file = content,
      vd_client = \<lparr>cl_db = ve_db y, cl_requests = 0\<rparr>, vd_sub = vendor_submitter y, vd_sent = [],
      vd_rejects = 0, vd_neterr = 0, vd_ticks = 0, vd_looks = 0\<rparr>"

text \<open>The fills of the time the process was down\<close>

definition catch_up :: "VendorEnv \<Rightarrow> VendorSettings \<Rightarrow> unit vdc" where
  "catch_up y c =
     bindc (reading (\<lambda>s. hs_last_trade_id (vd_held s))) (\<lambda>tid.
     if vs_armed c \<and> tid \<noteq> [] then bindc (with_sub (fills_since (ve_clob y) tid)) (ingest_all y) else ret ())"

text \<open>
  \<open>Inl\<close> is the exit code; otherwise the state the loop begins with.  Nothing before the loop throws: a
  failed read of the positions is an empty answer, and every fill the submitter gives has its fields
  (\<open>missed_good\<close> of \<open>VendorFills\<close>).
\<close>

definition start_vendor :: "VendorEnv \<Rightarrow> string option \<Rightarrow> int + Vendor" where
  "start_vendor y content =
     (let c = vendor_settings y; s = blank_vendor y content in
      case vd_sub s of
        Some sub \<Rightarrow> if cs_ready sub then Inr (snd (bindc (reconcile_held y c) (\<lambda>_. catch_up y c) s)) else Inl 1
      | None \<Rightarrow> Inr (snd (bindc (reconcile_held y c) (\<lambda>_. catch_up y c) s)))"

section \<open>Sheet mode\<close>

fun sheet_places :: "VendorEnv \<Rightarrow> SheetEntry list \<Rightarrow> nat \<Rightarrow> bool vdc" where
  "sheet_places y [] rejects = ret True"
| "sheet_places y (en # es) rejects =
     bindc (would_cross y (se_no_token en) (se_no_price en)) (\<lambda>crossing.
     if crossing then sheet_places y es rejects
     else bindc (with_sub (warm_token (ve_clob y) (se_no_token en))) (\<lambda>_.
       bindc (hand_out y (buy_doc (se_no_token en) (se_no_price en) (se_size en))) (\<lambda>r.
       bindc (of_sum (value_str r ''status'' [])) (\<lambda>status.
       let n = (if status \<noteq> ''PLACED'' then rejects + 1 else rejects)
       in if status \<noteq> ''PLACED'' \<and> 3 \<le> n then ret False else sheet_places y es n))))"

definition sheet_notional :: "SheetEntry list \<Rightarrow> double" where
  "sheet_notional sheet = foldl (\<lambda>t en. t + se_no_price en * se_size en) 0 sheet"

text \<open>\<open>Inl\<close> is the exit code, \<open>Inr\<close> the sheet that is then watched.\<close>

definition run_sheet :: "VendorEnv \<Rightarrow> VendorSettings \<Rightarrow> string option \<Rightarrow> (int + SheetEntry list) vdc" where
  "run_sheet y c content =
     (case content of None \<Rightarrow> ret (Inl 2) | Some txt \<Rightarrow>
     (case ve_read y txt of None \<Rightarrow> ret (Inl 2) | Some j \<Rightarrow>
     (case parse_sheet j of Inl e \<Rightarrow> throw type_error | Inr None \<Rightarrow> ret (Inl 2) | Inr (Some sheet) \<Rightarrow>
      if validate_sheet sheet (vs_cfg c) \<noteq> None then ret (Inl 3)
      else if \<not> vs_armed c then ret (Inl 0)
      else bindc (with_sub (usdc_balance (ve_clob y))) (\<lambda>bal.
        if (case bal of None \<Rightarrow> False | Some b \<Rightarrow> b < sheet_notional sheet) then ret (Inl 1)
        else bindc (sheet_places y sheet 0) (\<lambda>ok. ret (if ok then Inr sheet else Inl 1))))))"

definition sheet_turn :: "VendorEnv \<Rightarrow> SheetEntry list \<Rightarrow> unit vdc" where
  "sheet_turn y sheet =
     bindc (running y) (\<lambda>go.
     if \<not> go then modify (vd_over_update (\<lambda>_. True))
     else bindc (wait_secs y 60) (\<lambda>_.
       bindc (stop_file y) (\<lambda>stop.
       if stop then bindc (each (\<lambda>en. bindc (hand_out y (cancel_all_action (se_no_token en))) (\<lambda>_. ret ())) sheet)
                      (\<lambda>_. modify (vd_over_update (\<lambda>_. True)))
       else bindc (with_sub (clob_poll_fills (ve_clob y))) (\<lambda>_.
         bindc (modify (vd_ticks_update (\<lambda>n. n + 1))) (\<lambda>_.
         bindc (reading (\<lambda>s. vd_ticks s mod 60 = 0)) (\<lambda>due.
         if due then bindc (with_sub (usdc_balance (ve_clob y))) (\<lambda>_.
             bindc (with_sub (list_open_orders (ve_clob y))) (\<lambda>_. ret ()))
         else ret ()))))))"

end
