(* ===== verification/VendorProofs.thy ===== *)
theory VendorProofs
  imports VendorLoop ClobFills "HOL-Library.Sublist"
begin

text \<open>
  Properties of the seller of tails as a process: a round hands out a part of the plan made from the
  whitelisted candidates and nothing else, the rules that stop the loop, what the ledger makes of
  fills and of restarts, and the ceilings of the settings.
\<close>

section \<open>What is handed to the submitter\<close>

definition quiet :: "Vendor \<Rightarrow> Vendor \<Rightarrow> bool" where
  "quiet s t \<longleftrightarrow> vd_sent t = vd_sent s \<and> vd_looks s \<le> vd_looks t"

interpretation silence: evolution quiet
  by unfold_locales (auto simp: quiet_def)

lemma quiet_parts: "obeys quiet (look f)" "obeys quiet (with_client m)" "obeys quiet (with_sub m')"
  by (auto simp: obeys_def look_def with_client_def on_part_def with_sub_def quiet_def split: prod.split option.split)

lemma quiet_modify:
  "(\<And>s. vd_sent (f s) = vd_sent s \<and> vd_looks (f s) = vd_looks s) \<Longrightarrow> obeys quiet (modify f)"
  by (rule silence.modified) (simp add: quiet_def)

lemmas silent = silence.pure silence.sequenced silence.branches silence.repeated sum_branches quiet_parts

lemma quiet_each: "(\<And>x. obeys quiet (f x)) \<Longrightarrow> obeys quiet (each f xs)"
  unfolding each_def by (intro silent)

lemma quiet_runs: "obeys quiet (running y)" "obeys quiet (stop_file y)" "obeys quiet (save_held y)"
  "obeys quiet (reconcile_held y c)" "obeys quiet (heartbeat y c)" "obeys quiet (would_cross y tok p)"
  unfolding running_def stop_file_def save_held_def reconcile_held_def heartbeat_def would_cross_def
  by (intro silent quiet_modify; simp)+

lemma quiet_fills: "obeys quiet (ingest_all y fills)"
  unfolding ingest_all_def ingest_fill_def by (intro silent quiet_each quiet_modify quiet_runs; simp)

lemma quiet_scans: "obeys quiet (scan_candidates y now)" "obeys quiet (account_news y c cands)" "obeys quiet (live_prices y opn cands)"
  unfolding scan_candidates_def scan_series_def candidate_of_def account_news_def open_order_def live_prices_def Let_def
  by (intro silent quiet_fills)+

lemma quiet_wait: "obeys quiet (wait_secs y n)"
  by (induction n) (simp_all, (intro silent quiet_runs | assumption)+)

lemma quiet_outcome: "obeys quiet (place_outcome y cands token status code)"
  unfolding place_outcome_def by (intro silent quiet_modify quiet_runs; simp)

text \<open>A computation that hands out one of the lists of \<open>L\<close>\<close>

definition vends :: "json list set \<Rightarrow> 'a vdc \<Rightarrow> bool" where
  "vends L m \<longleftrightarrow> (\<forall>s. vd_looks s \<le> vd_looks (snd (m s)) \<and> (\<exists>acts \<in> L. vd_sent (snd (m s)) = vd_sent s @ acts))"

lemma vendsD: "vends L m \<Longrightarrow> m s = (r, t) \<Longrightarrow> vd_looks s \<le> vd_looks t \<and> (\<exists>acts \<in> L. vd_sent t = vd_sent s @ acts)"
  by (metis vends_def snd_conv)

lemma vends_quiet: "obeys quiet m \<Longrightarrow> [] \<in> L \<Longrightarrow> vends L m"
  by (force simp: vends_def obeys_def quiet_def)

lemma vends_bind:
  assumes "vends L m" "\<And>x s t. m s = (Inr x, t) \<Longrightarrow> vends M (f x)" "L \<subseteq> N" "\<And>a b. a \<in> L \<Longrightarrow> b \<in> M \<Longrightarrow> a @ b \<in> N"
  shows "vends N (bindc m f)"
  unfolding vends_def
proof
  fix s
  obtain r t where m: "m s = (r, t)" by (cases "m s")
  note 1 = vendsD[OF assms(1) m]
  show "vd_looks s \<le> vd_looks (snd (bindc m f s)) \<and> (\<exists>acts \<in> N. vd_sent (snd (bindc m f s)) = vd_sent s @ acts)"
  proof (cases r)
    case (Inl e)
    then show ?thesis using 1 m assms(3) by (auto simp: bindc_def)
  next
    case (Inr x)
    have v: "vends M (f x)" using assms(2) m Inr by simp
    obtain r' u where u: "f x t = (r', u)" by (cases "f x t")
    obtain as where as: "as \<in> L" "vd_sent t = vd_sent s @ as" using 1 by blast
    obtain bs where bs: "bs \<in> M" "vd_sent u = vd_sent t @ bs" using vendsD[OF v u] by blast
    have "vd_sent u = vd_sent s @ (as @ bs)" "as @ bs \<in> N" using as bs assms(4) by auto
    then show ?thesis using 1 vendsD[OF v u] m Inr u by (auto simp: bindc_def)
  qed
qed

lemma vends_after: "obeys quiet m \<Longrightarrow> (\<And>x s t. m s = (Inr x, t) \<Longrightarrow> vends L (f x)) \<Longrightarrow> [] \<in> L \<Longrightarrow> vends L (bindc m f)"
  by (rule vends_bind[OF vends_quiet[where L = "{[]}"]]) auto

lemma vends_then: "vends L m \<Longrightarrow> (\<And>x. obeys quiet (f x)) \<Longrightarrow> vends L (bindc m f)"
  by (rule vends_bind[where M = "{[]}"]) (auto intro: vends_quiet)

lemma submit_vends: "vends {[a]} (hand_out y a)"
proof -
  have "vends {[a]} (modify (\<lambda>s. s\<lparr>vd_sent := vd_sent s @ [a]\<rparr>))" by (simp add: vends_def modify_def)
  then show ?thesis unfolding hand_out_def by (rule vends_then) (rule quiet_parts)
qed

lemma vends_if: "vends L m \<Longrightarrow> vends L n \<Longrightarrow> vends L (if b then m else n)"
  by simp

text \<open>What an action of the plan looks like when it is handed out\<close>

definition action_doc :: "Action \<Rightarrow> json" where
  "action_doc a = (if act_kind a = KCancel then cancel_all_action (act_no_token a)
     else buy_doc (act_no_token a) (act_no_price a) (act_size a))"

definition is_cancel :: "json \<Rightarrow> bool" where
  "is_cancel a \<longleftrightarrow> (\<exists>tok. a = cancel_all_action tok)"

lemma execute_one_vends: "vends (if vs_armed c then {[], [action_doc a]} else {[]}) (execute_one y c cands a)"
proof (cases "vs_armed c")
  case True
  have p: "vends {[], [buy_doc tok p sz]} (bindc (hand_out y (buy_doc tok p sz)) f)" if "\<And>x. obeys quiet (f x)"
    for tok p sz and f :: "json \<Rightarrow> bool vdc"
    using vends_then[OF submit_vends that] by (auto simp: vends_def)
  have "vends {[], [buy_doc (act_no_token a) (act_no_price a) (act_size a)]} (place_planned y cands a)"
    unfolding place_planned_def
    by (intro vends_after quiet_runs vends_if silent vends_quiet p quiet_outcome; simp)
  moreover have "vends {[], [cancel_all_action tok]} (bindc (hand_out y (cancel_all_action tok)) (\<lambda>_. ret True))" for tok
    using vends_then[OF submit_vends[of "cancel_all_action tok" y], of "\<lambda>_. ret True"] by (auto simp: vends_def silent)
  ultimately show ?thesis using True by (auto simp: execute_one_def action_doc_def)
next
  case False
  then show ?thesis unfolding execute_one_def by (simp add: vends_quiet silent)
qed

lemma execute_vends:
  "vends {acts. subseq acts (map action_doc as) \<and> (acts = [] \<or> vs_armed c)} (execute y c cands as)"
proof (induction as)
  case (Cons a as)
  show ?case unfolding execute.simps
  proof (rule vends_after[OF quiet_runs(1)], rule vends_if)
    show "vends {acts. subseq acts (map action_doc (a # as)) \<and> (acts = [] \<or> vs_armed c)}
        (bindc (execute_one y c cands a) (\<lambda>on. if on then execute y c cands as else ret ()))"
    proof (rule vends_bind[OF execute_one_vends])
      fix on s t
      show "vends {acts. subseq acts (map action_doc as) \<and> (acts = [] \<or> vs_armed c)} (if on then execute y c cands as else ret ())"
        by (cases on) (simp_all add: Cons.IH vends_quiet silent)
    qed (auto split: if_splits)
  qed (auto intro: vends_quiet silent)
qed (auto intro: vends_quiet silent)

section \<open>A round follows its plan\<close>

definition whitelisted :: "Whitelist option \<Rightarrow> candidates \<Rightarrow> bool" where
  "whitelisted auth cands \<longleftrightarrow> (case auth of None \<Rightarrow> cands = []
     | Some wl \<Rightarrow> list_all (\<lambda>(tok, c). c_slug c \<in> wl_allow wl) cands)"

lemma curated_slug: "c_slug (curated wl c) = c_slug c"
  by (simp add: curated_def Let_def split: option.split)

lemma authorised_listed: "authorised auth found = (listed, n) \<Longrightarrow> whitelisted auth listed"
  by (cases auth) (auto simp: authorised_def whitelisted_def list_all_iff curated_slug)

lemma live_priced_slug: "c_slug (live_priced mine book c) = c_slug c"
  by (simp add: live_priced_def Let_def split: option.split)

lemma live_prices_slugs:
  "live_prices y opn listed s = (Inr cands, t) \<Longrightarrow> map (\<lambda>(tok, c). (tok, c_slug c)) cands = map (\<lambda>(tok, c). (tok, c_slug c)) listed"
  unfolding live_prices_def Let_def
proof (induction listed arbitrary: s cands)
  case (Cons x xs)
  obtain tok c where x: "x = (tok, c)" by (cases x)
  from Cons.prems obtain book s1 rest where "for_each (\<lambda>(tok, c). bindc (with_client (get_order_book (ve_world y) tok)) (\<lambda>book.
        ret [(tok, live_priced (smap_get (foldl (\<lambda>m o1. smap_put (oo_no_token o1) o1 m) [] opn) tok) book c)])) xs s1 = (Inr rest, t)"
      "cands = (tok, live_priced (smap_get (foldl (\<lambda>m o1. smap_put (oo_no_token o1) o1 m) [] opn) tok) book c) # rest"
    unfolding x for_each.simps prod.case by (auto simp: bindc_Inr ret_def)
  then show ?case using Cons.IH by (simp add: x live_priced_slug)
qed (simp add: ret_def)

lemma whitelisted_slugs:
  assumes "map (\<lambda>(tok, c). (tok, c_slug c)) cands = map (\<lambda>(tok, c). (tok, c_slug c)) listed" "whitelisted auth listed"
  shows "whitelisted auth cands"
proof -
  have w: "whitelisted auth xs \<longleftrightarrow> (case auth of None \<Rightarrow> map (\<lambda>(tok, c). (tok, c_slug c)) xs = []
      | Some wl \<Rightarrow> list_all (\<lambda>(tok, slug). slug \<in> wl_allow wl) (map (\<lambda>(tok, c). (tok, c_slug c)) xs))" for xs
    by (auto simp: whitelisted_def list_all_iff split: option.split)
  show ?thesis using assms(2) unfolding w[of cands] w[of listed] assms(1) .
qed

text \<open>The part of the ledger the plan reads its budgets from; executing a plan leaves it.\<close>

definition budgets :: "Vendor \<Rightarrow> double \<times> (string, double) smap \<times> (string, double) smap" where
  "budgets s = (let st = vd_held s in (hs_total st, hs_coin st, hs_token_held st))"

definition settled :: "Vendor \<Rightarrow> Vendor \<Rightarrow> bool" where
  "settled s t \<longleftrightarrow> budgets t = budgets s"

interpretation settling: evolution settled
  by unfold_locales (auto simp: settled_def)

lemma settled_parts: "obeys settled (look f)" "obeys settled (with_client m)" "obeys settled (with_sub m')"
  by (auto simp: obeys_def look_def with_client_def on_part_def with_sub_def settled_def budgets_def split: prod.split option.split)

lemma settled_modify: "(\<And>s. budgets (f s) = budgets s) \<Longrightarrow> obeys settled (modify f)"
  by (rule settling.modified) (simp add: settled_def)

lemmas settle = settling.pure settling.sequenced settling.branches settled_parts settled_modify

lemma settled_runs: "obeys settled (running y)" "obeys settled (stop_file y)" "obeys settled (save_held y)"
  "obeys settled (would_cross y tok p)" "obeys settled (hand_out y a)" "obeys settled (heartbeat y c)"
  unfolding running_def stop_file_def save_held_def would_cross_def hand_out_def heartbeat_def
  by (intro settle; simp add: budgets_def)+

lemma settled_wait: "obeys settled (wait_secs y n)"
  by (induction n) (simp_all, (intro settle settled_runs | assumption)+)

lemma settled_execute: "obeys settled (execute y c cands as)"
proof (induction as)
  case (Cons a as)
  have "obeys settled (execute_one y c cands a)"
    unfolding execute_one_def place_planned_def place_outcome_def
    by (intro settle settled_runs; simp add: budgets_def registered_def Let_def)
  then show ?case unfolding execute.simps by (intro settle settled_runs Cons.IH)
qed (simp add: settle)

text \<open>A round that follows the plan made under the whitelist of reading \<open>n\<close>, or only cancels\<close>

definition follows_plan :: "VendorEnv \<Rightarrow> VendorSettings \<Rightarrow> nat \<Rightarrow> Vendor \<Rightarrow> json list \<Rightarrow> bool" where
  "follows_plan y c n t acts \<longleftrightarrow> (\<exists>cands opn st. whitelisted (authority (ve_read y) (ve_whitelist y n)) cands \<and>
     (hs_total st, hs_coin st, hs_token_held st) = budgets t \<and> subseq acts (map action_doc (round_plan c st cands opn)))"

definition round_law :: "VendorEnv \<Rightarrow> VendorSettings \<Rightarrow> Vendor \<Rightarrow> Vendor \<Rightarrow> bool" where
  "round_law y c s t \<longleftrightarrow> vd_looks s \<le> vd_looks t \<and> (\<exists>acts. vd_sent t = vd_sent s @ acts \<and>
     (acts = [] \<or> vs_armed c \<and> (list_all is_cancel acts \<or>
        (\<exists>n. vd_looks s \<le> n \<and> n < vd_looks t \<and> follows_plan y c n t acts))))"

definition plan_law :: "VendorEnv \<Rightarrow> VendorSettings \<Rightarrow> nat \<Rightarrow> Vendor \<Rightarrow> Vendor \<Rightarrow> bool" where
  "plan_law y c n s t \<longleftrightarrow> vd_looks s \<le> vd_looks t \<and> (\<exists>acts. vd_sent t = vd_sent s @ acts \<and>
     (acts = [] \<or> vs_armed c \<and> follows_plan y c n t acts))"

lemma law_of_quiet: "quiet s t \<Longrightarrow> round_law y c s t" "quiet s t \<Longrightarrow> plan_law y c n s t"
  by (simp_all add: quiet_def round_law_def plan_law_def)

lemma quiet_law: "quiet s t \<Longrightarrow> round_law y c t u \<Longrightarrow> round_law y c s u" "quiet s t \<Longrightarrow> plan_law y c n t u \<Longrightarrow> plan_law y c n s u"
  unfolding quiet_def round_law_def plan_law_def by fastforce+

lemma follows_settled: "settled t u \<Longrightarrow> follows_plan y c n t acts \<Longrightarrow> follows_plan y c n u acts"
  by (simp add: follows_plan_def settled_def)

lemma law_quiet: assumes "quiet t u" "settled t u"
  shows "round_law y c s t \<Longrightarrow> round_law y c s u" "plan_law y c n s t \<Longrightarrow> plan_law y c n s u"
  using assms follows_settled[OF assms(2)] unfolding quiet_def round_law_def plan_law_def by fastforce+

lemma obeys_comp:
  assumes "obeys P m" "\<And>x s t. m s = (Inr x, t) \<Longrightarrow> obeys Q (f x)"
    "\<And>s t. P s t \<Longrightarrow> R s t" "\<And>s t u. P s t \<Longrightarrow> Q t u \<Longrightarrow> R s u"
  shows "obeys R (bindc m f)"
  unfolding obeys_def
proof
  fix s
  obtain r t where m: "m s = (r, t)" by (cases "m s")
  have q: "P s t" by (rule obeysD[OF assms(1) m])
  show "R s (snd (bindc m f s))"
  proof (cases r)
    case (Inr x)
    then have "Q t (snd (f x t))" using assms(2) m by (simp add: obeys_def)
    then show ?thesis using assms(4)[OF q] m Inr by (simp add: bindc_def)
  qed (use assms(3)[OF q] m in \<open>simp add: bindc_def\<close>)
qed

lemmas round_after = obeys_comp[where P = quiet, OF _ _ law_of_quiet(1) quiet_law(1)]
lemmas plan_after = obeys_comp[where P = quiet, OF _ _ law_of_quiet(2) quiet_law(2)]

lemma obeys_both: "obeys P m \<Longrightarrow> obeys Q m \<Longrightarrow> obeys (\<lambda>s t. P s t \<and> Q s t) m"
  by (simp add: obeys_def)

lemma law_then:
  assumes "\<And>x. obeys quiet (f x)" "\<And>x. obeys settled (f x)"
  shows "obeys (round_law y c) m \<Longrightarrow> obeys (round_law y c) (bindc m f)"
    "obeys (plan_law y c n) m \<Longrightarrow> obeys (plan_law y c n) (bindc m f)"
  by (rule obeys_comp[OF _ obeys_both[OF assms]]; use law_quiet in blast)+

lemma law_pure: "obeys quiet m \<Longrightarrow> obeys (round_law y c) m" "obeys quiet m \<Longrightarrow> obeys (plan_law y c n) m"
  by (auto simp: obeys_def law_of_quiet)

lemma plan_executed:
  assumes "whitelisted (authority (ve_read y) (ve_whitelist y n)) cands"
  shows "obeys (plan_law y c n) (bindc (reading (\<lambda>s. round_plan c (vd_held s) cands opn)) (execute y c cands))"
  unfolding obeys_def
proof
  fix s :: Vendor
  let ?as = "round_plan c (vd_held s) cands opn" let ?t = "snd (execute y c cands ?as s)"
  have "vd_looks s \<le> vd_looks ?t" "\<exists>acts. subseq acts (map action_doc ?as) \<and> (acts = [] \<or> vs_armed c) \<and> vd_sent ?t = vd_sent s @ acts"
    using vendsD[OF execute_vends, of y c cands ?as s] by (auto simp: prod_eq_iff)
  moreover have "(hs_total (vd_held s), hs_coin (vd_held s), hs_token_held (vd_held s)) = budgets ?t"
    using settled_execute[of y c cands ?as] by (simp add: obeys_def settled_def budgets_def Let_def)
  ultimately have "plan_law y c n s ?t" unfolding plan_law_def follows_plan_def using assms by metis
  then show "plan_law y c n s (snd (bindc (reading (\<lambda>s. round_plan c (vd_held s) cands opn)) (execute y c cands) s))"
    by (simp add: bindc_def reading_def)
qed

lemma rest_plans: "obeys (plan_law y c n) (round_rest y c found (ve_whitelist y n))"
proof -
  obtain listed k where a: "authorised (authority (ve_read y) (ve_whitelist y n)) found = (listed, k)" by fastforce
  note l = authorised_listed[OF a]
  have e: "obeys (plan_law y c n) (bindc (bindc (reading (\<lambda>s. round_plan c (vd_held s) cands opn)) (execute y c cands))
      (\<lambda>_. bindc (heartbeat y c) (\<lambda>_. ret False)))"
    if "whitelisted (authority (ve_read y) (ve_whitelist y n)) cands" for cands opn
    by (rule law_then(2)[OF _ _ plan_executed[OF that]]) (intro silent quiet_runs settle settled_runs)+
  show ?thesis
    unfolding round_rest_def a prod.case
  proof (rule plan_after[OF quiet_scans(2)], rule plan_after)
    fix opn :: "OpenOrder list"
    show "obeys quiet (if k \<noteq> 0 then live_prices y opn listed else ret listed)" by (intro silent quiet_scans)
    fix cands s t assume "(if k \<noteq> 0 then live_prices y opn listed else ret listed) s = (Inr cands, t)"
    then have "whitelisted (authority (ve_read y) (ve_whitelist y n)) cands"
      using l whitelisted_slugs[OF live_prices_slugs l] by (auto simp: ret_def split: if_splits)
    from e[OF this] show "obeys (plan_law y c n) (bindc (reading (\<lambda>s. round_plan c (vd_held s) cands opn)) (\<lambda>actions.
       bindc (execute y c cands actions) (\<lambda>_. bindc (heartbeat y c) (\<lambda>_. ret False))))"
      by (simp add: bindc_assoc)
  qed
qed

lemma look_plans: "obeys (round_law y c) (bindc (look (ve_whitelist y)) (round_rest y c found))"
  unfolding obeys_def
proof
  fix s :: Vendor
  let ?n = "vd_looks s" let ?s = "s\<lparr>vd_looks := ?n + 1\<rparr>"
  have "plan_law y c ?n ?s (snd (round_rest y c found (ve_whitelist y ?n) ?s))"
    using rest_plans by (simp add: obeys_def)
  then have "round_law y c s (snd (round_rest y c found (ve_whitelist y ?n) ?s))"
    unfolding plan_law_def round_law_def by fastforce
  then show "round_law y c s (snd (bindc (look (ve_whitelist y)) (round_rest y c found) s))"
    by (simp add: bindc_def look_def)
qed

lemma cancels_law: "vs_armed c \<Longrightarrow> obeys (round_law y c) (cancel_open y)"
proof -
  assume a: "vs_armed c"
  have "vends {acts. list_all is_cancel acts} (for_each (\<lambda>oo. bindc (bindc (of_sum (value_str oo ''asset_id'' [])) (\<lambda>tok.
       bindc (hand_out y (cancel_all_action tok)) (\<lambda>_. ret ()))) (\<lambda>_. ret ([] :: unit list))) os)" for os
  proof (induction os)
    case (Cons oo os)
    have "vends {acts. list_all is_cancel acts} (bindc (bindc (of_sum (value_str oo ''asset_id'' [])) (\<lambda>tok.
       bindc (hand_out y (cancel_all_action tok)) (\<lambda>_. ret ()))) (\<lambda>_. ret ([] :: unit list)))"
    proof (rule vends_then[OF vends_after])
      fix tok
      have "vends {[cancel_all_action tok]} (bindc (hand_out y (cancel_all_action tok)) (\<lambda>_. ret ()))"
        by (rule vends_then[OF submit_vends]) (rule silent)
      then show "vends {acts. list_all is_cancel acts} (bindc (hand_out y (cancel_all_action tok)) (\<lambda>_. ret ()))"
        by (auto simp: vends_def is_cancel_def)
    qed (auto intro: silent)
    then show ?case unfolding for_each.simps
      by (rule vends_bind[where M = "{acts. list_all is_cancel acts}"]) (auto intro: vends_then Cons.IH silent)
  qed (simp add: vends_quiet silent)
  then have "vends {acts. list_all is_cancel acts} (cancel_open y)"
    unfolding cancel_open_def each_def
    by (intro vends_after vends_then) (auto intro: silent)
  then show ?thesis using a by (auto simp: vends_def obeys_def round_law_def)
qed

lemma unlisted_cancels:
  assumes "subseq acts (map action_doc (round_plan c st [] opn))" shows "list_all is_cancel acts"
proof -
  have "round_plan c st [] opn = cancels [] (vs_cfg c) opn"
    by (simp add: round_plan_def plan_def plan_run_def Let_def)
  then have c: "\<forall>a \<in> set (map action_doc (round_plan c st [] opn)). is_cancel a"
    by (auto simp: cancels_def action_doc_def cancel_action_def is_cancel_def)
  show ?thesis unfolding list_all_iff
  proof
    fix a assume "a \<in> set acts"
    from list_emb_set[OF assms this] c show "is_cancel a" by blast
  qed
qed

lemma turn_law: "obeys (round_law y c) (scan_turn y c)"
proof -
  have w: "obeys (round_law y c) (bindc (scan_candidates y now) (\<lambda>found. bindc (look (ve_whitelist y)) (round_rest y c found)))" for now
    by (rule round_after[OF quiet_scans(1) look_plans])
  have r: "obeys (round_law y c) (scan_round y c)"
    unfolding scan_round_def
  proof (rule round_after[OF quiet_parts(1)], rule round_after[OF quiet_runs(2)])
    fix now stop
    have stop: "obeys (round_law y c) (bindc (if vs_armed c then cancel_open y else ret ()) (\<lambda>_. ret True))"
      by (rule law_then(1)) (auto intro: cancels_law law_pure silent settle)
    have go: "obeys (round_law y c) (bindc (if vs_armed c then reconcile_held y c else ret ()) (\<lambda>_.
        bindc (scan_candidates y (of_i now)) (\<lambda>found. bindc (look (ve_whitelist y)) (round_rest y c found))))"
      by (rule round_after[OF _ w]) (auto intro: silent quiet_runs)
    from stop go show "obeys (round_law y c) (if stop then bindc (if vs_armed c then cancel_open y else ret ()) (\<lambda>_. ret True)
     else bindc (if vs_armed c then reconcile_held y c else ret ()) (\<lambda>_.
       bindc (scan_candidates y (of_i now)) (\<lambda>found. bindc (look (ve_whitelist y)) (round_rest y c found))))" by simp
  qed
  have r': "obeys (round_law y c) (catch (scan_round y c) (\<lambda>_. ret False))"
    unfolding obeys_def
  proof
    fix s
    have "snd (catch (scan_round y c) (\<lambda>_. ret False) s) = snd (scan_round y c s)"
      by (cases "scan_round y c s"; cases "fst (scan_round y c s)") (auto simp: catch_def ret_def)
    then show "round_law y c s (snd (catch (scan_round y c) (\<lambda>_. ret False) s))" using r by (simp add: obeys_def)
  qed
  let ?finish = "\<lambda>gone. if gone then modify (vd_over_update (\<lambda>_. True))
       else bindc (modify (vd_ticks_update (\<lambda>n. n + 1))) (\<lambda>_. wait_secs y (nat (vs_scan_s c)))"
  have q: "obeys quiet (?finish gone)" "obeys settled (?finish gone)" for gone
    by (intro silent quiet_modify quiet_wait settle settled_wait; simp add: budgets_def)+
  show ?thesis unfolding scan_turn_def
  proof (rule round_after[OF quiet_runs(1)])
    fix go
    show "obeys (round_law y c) (if \<not> go then modify (vd_over_update (\<lambda>_. True)) else bindc (catch (scan_round y c) (\<lambda>_. ret False)) ?finish)"
      by (cases go) (auto intro!: law_then(1)[OF q r'] law_pure quiet_modify)
  qed
qed


section \<open>What stops the loop\<close>

definition alive :: "Vendor \<Rightarrow> Vendor \<Rightarrow> bool" where
  "alive s t \<longleftrightarrow> vd_run t = vd_run s \<and> vd_rejects t = vd_rejects s \<and> vd_looks s \<le> vd_looks t"

interpretation living: evolution alive
  by unfold_locales (auto simp: alive_def)

lemma alive_parts: "obeys alive (look f)" "obeys alive (with_client m)" "obeys alive (with_sub m')"
  by (auto simp: obeys_def look_def with_client_def on_part_def with_sub_def alive_def split: prod.split option.split)

lemma alive_modify: "(\<And>s. vd_run (f s) = vd_run s \<and> vd_rejects (f s) = vd_rejects s \<and> vd_looks (f s) = vd_looks s) \<Longrightarrow> obeys alive (modify f)"
  by (rule living.modified) (simp add: alive_def)

lemmas live = living.pure living.sequenced living.branches living.repeated sum_branches alive_parts

lemma alive_each: "(\<And>x. obeys alive (f x)) \<Longrightarrow> obeys alive (each f xs)"
  unfolding each_def by (intro live)

lemma alive_runs: "obeys alive (stop_file y)" "obeys alive (save_held y)" "obeys alive (reconcile_held y c)"
  "obeys alive (heartbeat y c)" "obeys alive (would_cross y tok p)" "obeys alive (hand_out y a)"
  unfolding stop_file_def save_held_def reconcile_held_def heartbeat_def would_cross_def hand_out_def
  by (intro live alive_modify; simp)+

lemma alive_fills: "obeys alive (ingest_all y fills)"
  unfolding ingest_all_def ingest_fill_def by (intro live alive_each alive_modify alive_runs; simp)

lemma alive_scans: "obeys alive (scan_candidates y now)" "obeys alive (account_news y c cands)"
  "obeys alive (live_prices y opn cands)" "obeys alive (cancel_open y)"
  unfolding scan_candidates_def scan_series_def candidate_of_def account_news_def open_order_def live_prices_def
    cancel_open_def Let_def
  by (intro live alive_fills alive_each alive_runs)+

definition signalled :: "VendorEnv \<Rightarrow> nat \<Rightarrow> nat \<Rightarrow> bool" where
  "signalled y lo hi \<longleftrightarrow> (\<exists>n. lo \<le> n \<and> n < hi \<and> ve_signal y n)"

lemma signalled_mono: "signalled y lo hi \<Longrightarrow> lo' \<le> lo \<Longrightarrow> hi \<le> hi' \<Longrightarrow> signalled y lo' hi'"
  unfolding signalled_def by (meson le_trans less_le_trans)

definition halt_law :: "VendorEnv \<Rightarrow> Vendor \<Rightarrow> Vendor \<Rightarrow> bool" where
  "halt_law y s t \<longleftrightarrow> vd_looks s \<le> vd_looks t \<and>
     (vd_run s \<and> vd_rejects s < 3 \<longrightarrow> vd_rejects t \<le> 3 \<and> (vd_run t \<longrightarrow> vd_rejects t < 3) \<and>
        (\<not> vd_run t \<longrightarrow> vd_rejects t = 3 \<or> signalled y (vd_looks s) (vd_looks t))) \<and>
     (\<not> vd_run s \<longrightarrow> \<not> vd_run t \<and> vd_rejects t = vd_rejects s)"

interpretation halting: evolution "halt_law y" for y
proof
  show "halt_law y s u" if "halt_law y s t" "halt_law y t u" for s t u
    using that signalled_mono[of y "vd_looks s" "vd_looks t" "vd_looks s" "vd_looks u"]
      signalled_mono[of y "vd_looks t" "vd_looks u" "vd_looks s" "vd_looks u"]
    unfolding halt_law_def by (cases "vd_run s"; cases "vd_run t") (simp_all, blast+)
qed (auto simp: halt_law_def)

lemma alive_halt: "alive s t \<Longrightarrow> halt_law y s t"
  by (auto simp: alive_def halt_law_def)

lemma halt_alive: "obeys alive m \<Longrightarrow> obeys (halt_law y) m"
  by (auto simp: obeys_def intro: alive_halt)

lemma save_held_run: "save_held y s = (Inr (), s\<lparr>vd_looks := vd_looks s + 1,
    vd_file := (if ve_saved y (vd_looks s) then Some (jl_dump (vendor_jl y) (held_doc (vd_held s))) else vd_file s)\<rparr>)"
  by (simp add: save_held_def look_def bindc_def modify_def reading_def)

lemma running_run: "running y s = (Inr (vd_run s \<and> \<not> ve_signal y (vd_looks s)),
    s\<lparr>vd_looks := vd_looks s + 1, vd_run := vd_run s \<and> \<not> ve_signal y (vd_looks s)\<rparr>)"
  by (simp add: running_def look_def bindc_def modify_def reading_def)

lemma running_halt: "obeys (halt_law y) (running y)"
  by (auto simp: obeys_def running_run halt_law_def signalled_def)

definition judged :: "VendorEnv \<Rightarrow> Vendor \<Rightarrow> Vendor \<Rightarrow> bool" where
  "judged y s t \<longleftrightarrow> (vd_run s \<longrightarrow> halt_law y s t)"

lemma outcome_judged: "obeys (judged y) (place_outcome y cands token status code)"
  unfolding obeys_def
  by (auto simp: place_outcome_def judged_def halt_law_def comp_simps save_held_run split: option.split)

lemma judged_after:
  assumes "obeys alive m" "\<And>x. obeys (judged y) (f x)" shows "obeys (judged y) (bindc m f)"
proof (rule obeys_comp[OF assms])
  fix s t u assume "alive s t"
  then show "judged y s t" by (simp add: judged_def alive_halt)
  assume "judged y t u"
  with \<open>alive s t\<close> show "judged y s u"
    using halting.follows[OF alive_halt] by (auto simp: judged_def alive_def)
qed

lemma judged_alive: "obeys alive m \<Longrightarrow> obeys (judged y) m"
  by (auto simp: obeys_def judged_def alive_halt)

lemma execute_one_judged: "obeys (judged y) (execute_one y c cands a)"
proof -
  have rest: "obeys (judged y) (bindc (with_sub (warm_token (ve_clob y) (act_no_token a))) (\<lambda>_.
       bindc (hand_out y (buy_doc (act_no_token a) (act_no_price a) (act_size a))) (\<lambda>r.
       bindc (of_sum (value_str r ''status'' [])) (\<lambda>status.
       bindc (of_sum (value_int r ''http'')) (\<lambda>code. place_outcome y cands (act_no_token a) status code)))))"
    by (intro judged_after alive_parts alive_runs living.pure outcome_judged)
  have p: "obeys (judged y) (place_planned y cands a)"
    unfolding place_planned_def
  proof (rule judged_after[OF alive_runs(5)])
    fix crossing
    from rest show "obeys (judged y) (if crossing then ret True else bindc (with_sub (warm_token (ve_clob y) (act_no_token a))) (\<lambda>_.
       bindc (hand_out y (buy_doc (act_no_token a) (act_no_price a) (act_size a))) (\<lambda>r.
       bindc (of_sum (value_str r ''status'' [])) (\<lambda>status.
       bindc (of_sum (value_int r ''http'')) (\<lambda>code. place_outcome y cands (act_no_token a) status code)))))"
      by (cases crossing) (auto intro: judged_alive living.pure)
  qed
  have "obeys (judged y) (bindc (hand_out y (cancel_all_action (act_no_token a))) (\<lambda>_. ret True))"
    by (intro judged_alive live alive_runs)
  with p show ?thesis unfolding execute_one_def by (simp add: judged_alive living.pure)
qed

lemma execute_halt: "obeys (halt_law y) (execute y c cands as)"
proof (induction as)
  case (Cons a as)
  show ?case unfolding obeys_def
  proof
    fix s :: Vendor
    obtain go s1 where r: "running y s = (Inr go, s1)" "go \<longleftrightarrow> vd_run s1" by (rule that[OF running_run]) simp
    have 1: "halt_law y s s1" using running_halt[of y] r by (auto simp: obeys_def dest: spec[of _ s])
    show "halt_law y s (snd (execute y c cands (a # as) s))"
    proof (cases go)
      case True
      obtain on s2 where e: "execute_one y c cands a s1 = (on, s2)" by fastforce
      have "judged y s1 s2" by (rule obeysD[OF execute_one_judged e])
      then have 2: "halt_law y s s2" using True r(2) halting.follows[OF 1] by (simp add: judged_def)
      have 3: "halt_law y s2 (snd (execute y c cands as s2))" using Cons.IH by (simp add: obeys_def)
      show ?thesis using r True e 2 halting.follows[OF 2 3] by (cases on) (simp_all add: comp_simps)
    qed (use r 1 in \<open>simp add: comp_simps\<close>)
  qed
qed (simp add: halting.pure)

lemmas halts = halting.pure halting.sequenced halting.branches running_halt

lemma wait_halt: "obeys (halt_law y) (wait_secs y n)"
  by (induction n) (simp_all, (intro halts halt_alive[OF alive_runs(1)] | assumption)+)

lemma round_halt: "obeys (halt_law y) (scan_round y c)"
proof -
  have r: "obeys (halt_law y) (round_rest y c found content)" for found content
    unfolding round_rest_def by (intro halts execute_halt halt_alive[OF alive_scans(2)] halt_alive[OF alive_scans(3)] halt_alive[OF alive_runs(4)])
  show ?thesis unfolding scan_round_def
    by (intro halts r halt_alive[OF alive_parts(1)] halt_alive[OF alive_runs(1)] halt_alive[OF alive_runs(3)]
        halt_alive[OF alive_scans(1)] halt_alive[OF alive_scans(4)])
qed

lemma turn_halt: "obeys (halt_law y) (scan_turn y c)"
  unfolding scan_turn_def
  by (intro halts halting.caught round_halt wait_halt halt_alive alive_modify; simp)

lemma stopped_turn: "\<not> vd_run s \<Longrightarrow> vd_sent (snd (scan_turn y c s)) = vd_sent s \<and> vd_over (snd (scan_turn y c s))"
  by (simp add: scan_turn_def running_run comp_simps)

lemma started: "start_vendor y content = Inr s \<Longrightarrow> vd_run s \<and> vd_rejects s = 0"
proof -
  have "obeys alive (bindc (reconcile_held y c) (\<lambda>_. catch_up y c))" for c
    unfolding catch_up_def by (intro live alive_runs alive_fills)
  then have "alive (blank_vendor y content) (snd (bindc (reconcile_held y (vendor_settings y)) (\<lambda>_. catch_up y (vendor_settings y)) (blank_vendor y content)))"
    by (simp add: obeys_def)
  then show "start_vendor y content = Inr s \<Longrightarrow> vd_run s \<and> vd_rejects s = 0"
    by (auto simp: start_vendor_def Let_def alive_def blank_vendor_def split: option.splits if_splits)
qed


end
