(* ===== verification/VendorFills.thy ===== *)
theory VendorFills
  imports VendorLedger
begin

text \<open>
  The ledger of the seller of tails: what a fill of the submitter does to it, that its file always
  holds it, so a restart finds it again, and three ways in which it comes to disagree with the
  account: a fill of the start-up counted twice, the fill of an order whose answer was lost, and
  a ceiling lifted by a text that is not a number.
\<close>

section \<open>Fills\<close>

definition good_fill :: "json \<Rightarrow> bool" where
  "good_fill f \<longleftrightarrow> (\<exists>tid tok side sz. jget f ''id'' = Some (JStr tid) \<and> jget f ''token_id'' = Some (JStr tok) \<and>
     jget f ''side'' = Some (JStr side) \<and> jget f ''size'' = Some (JFloat sz))"

lemma fills_good: "list_all good_fill (fills_of_trade jl own inv_side maker t)"
proof -
  have "good_fill (maker_leg jl tid mo)" for tid mo
    unfolding good_fill_def maker_leg_def jget_jobj by (auto split: option.split)
  moreover have "good_fill (top_fill jl inv_side tid t)" for tid
    unfolding good_fill_def top_fill_def jget_jobj Let_def by auto
  ultimately show ?thesis
    by (auto simp: fills_of_trade_def Let_def list_all_iff split: option.split json.split)
qed

lemma scan_good: "list_all good_fill (fst (scan_trades jl prev own inv_side maker ts seen_new l))"
proof (induction ts arbitrary: seen_new l)
  case (Cons t ts)
  show ?case
    by (simp add: Let_def fills_good case_prod_beta Cons.IH)
qed simp

lemma extracted_good: "list_all good_fill (fst (extract_new_fills jl data l own inv_side maker))"
  by (cases data) (auto simp: extract_new_fills_def scan_good)

lemma polled_good:
  assumes "clob_poll_fills x b = (Inr fills, b')" shows "list_all good_fill fills"
proof -
  obtain r b1 where f: "fetch_trades_raw x b = (r, b1)" by fastforce
  then obtain data where d: "r = Inr data" using assms by (cases r) (auto simp: clob_poll_fills_def comp_simps)
  let ?e = "extract_new_fills (ce_jl x) data (cs_last_trade_id b1) (cs_own_taker_ids b1) (cs_invert_side b1) (maker_lc (cs_creds b1))"
  obtain out l where e: "?e = (out, l)" by fastforce
  have "fills = out" using assms by (simp add: clob_poll_fills_def comp_simps f d e)
  then show ?thesis using extracted_good[of "ce_jl x" data "cs_last_trade_id b1" "cs_own_taker_ids b1" "cs_invert_side b1" "maker_lc (cs_creds b1)"] e
    by simp
qed

lemma missed_good: "fills_since x tid b = (Inr fills, b') \<Longrightarrow> list_all good_fill fills"
  by (auto simp: fills_since_def bindc_Inr reading_def ret_def extracted_good split: if_splits)

text \<open>What a fill does to the ledger\<close>

definition ingested :: "json \<Rightarrow> HeldState \<Rightarrow> HeldState" where
  "ingested f st =
     (let st1 = (if text_of f ''id'' \<noteq> [] then st\<lparr>hs_last_trade_id := text_of f ''id''\<rparr> else st)
      in case smap_get (hs_token_coin st) (text_of f ''token_id'') of None \<Rightarrow> st1
         | Some coin \<Rightarrow> if text_of f ''side'' = ''BUY'' then book_fill coin (text_of f ''token_id'') (num_of f ''size'') st1 else st1)"

definition saved_with :: "VendorEnv \<Rightarrow> HeldState \<Rightarrow> Vendor \<Rightarrow> Vendor" where
  "saved_with y st s = s\<lparr>vd_held := st, vd_looks := vd_looks s + 1,
     vd_file := (if ve_saved y (vd_looks s) then Some (jl_dump (vendor_jl y) (held_doc st)) else vd_file s)\<rparr>"

lemma ingest_run:
  assumes "good_fill f" shows "ingest_fill y f s = (Inr (), saved_with y (ingested f (vd_held s)) s)"
proof -
  obtain tid tok side sz where f: "jget f ''id'' = Some (JStr tid)" "jget f ''token_id'' = Some (JStr tok)"
     "jget f ''side'' = Some (JStr side)" "jget f ''size'' = Some (JFloat sz)" using assms by (auto simp: good_fill_def)
  then have v: "value_str f ''id'' [] = Inr tid" "value_str f ''token_id'' [] = Inr tok" "value_str f ''side'' [] = Inr side"
    "value_num f ''size'' = Inr sz"
    by (auto simp: jget_def value_str_def jvalue_str_def value_num_def jvalue_num_def or_type_error_def is_number_def split: json.splits)
  have t: "text_of f ''id'' = tid" "text_of f ''token_id'' = tok" "text_of f ''side'' = side" "num_of f ''size'' = sz"
    using f by (auto simp: jget_def text_of_def jvalue_str_def num_of_def jvalue_num_def is_number_def split: json.splits)
  show ?thesis
    by (auto simp: ingest_fill_def v ingested_def t comp_simps save_held_run saved_with_def Let_def split: option.split)
qed

lemma continue_ret: "continue_with ret r = r"
  by (cases r; cases "fst r") (auto simp: ret_def)

lemma bindc_ret: "bindc m ret = m" "bindc (ret x) f = f x"
  by (auto simp: fun_eq_iff bindc_def continue_ret ret_def)

lemma each_simps: "each f [] = ret ()" "each f (x # xs) = bindc (f x) (\<lambda>_. each f xs)"
  by (simp_all add: each_def bindc_assoc bindc_ret)

lemma ingest_each_run:
  assumes "list_all good_fill fs"
  shows "\<exists>s'. each (ingest_fill y) fs s = (Inr (), s') \<and> vd_held s' = foldl (\<lambda>st f. ingested f st) (vd_held s) fs \<and>
    vd_sub s' = vd_sub s \<and> (fs = [] \<longrightarrow> s' = s)"
  using assms
proof (induction fs arbitrary: s)
  case (Cons f fs)
  let ?s1 = "saved_with y (ingested f (vd_held s)) s"
  obtain s' where s': "each (ingest_fill y) fs ?s1 = (Inr (), s')"
      "vd_held s' = foldl (\<lambda>st f. ingested f st) (vd_held ?s1) fs" "vd_sub s' = vd_sub ?s1"
    using Cons.IH[of ?s1] Cons.prems by auto
  have "each (ingest_fill y) (f # fs) s = each (ingest_fill y) fs ?s1"
    using Cons.prems by (simp add: each_simps comp_simps ingest_run)
  then show ?case using s' by (simp add: saved_with_def)
qed (simp add: each_simps comp_simps)

section \<open>The file of the ledger\<close>

definition ledger_ok :: "HeldState \<Rightarrow> bool" where
  "ledger_ok st \<longleftrightarrow> smap_ok (hs_coin st) \<and> smap_ok (hs_token_held st) \<and> smap_ok (hs_token_coin st) \<and>
     smap_ok (hs_token_note st) \<and> smap_ok (hs_token_touch st)"

lemma smap_put_end: "\<forall>k' \<in> fst ` set m. k' < k \<Longrightarrow> smap_put k v m = m @ [(k, v)]"
  by (induction m) auto

lemma smap_rebuild: "smap_ok (m0 @ m) \<Longrightarrow> foldl (\<lambda>x (k, v). smap_put k v x) m0 m = m0 @ m"
proof (induction m arbitrary: m0)
  case (Cons kv m)
  obtain k v where kv: "kv = (k, v)" by (cases kv)
  have "\<forall>k' \<in> fst ` set m0. k' < k" using Cons.prems by (auto simp: kv smap_ok_def sorted_wrt_append)
  then show ?case using Cons.IH[of "m0 @ [kv]"] Cons.prems by (simp add: kv smap_put_end)
qed simp

lemma fold_update:
  assumes "\<And>f g s. upd f (upd g s) = upd (\<lambda>x. f (g x)) s" "\<And>s. upd (\<lambda>x. x) s = s"
  shows "foldl (\<lambda>s (k, d). upd (smap_put k d) s) s m = upd (\<lambda>x. foldl (\<lambda>x (k, d). smap_put k d x) x m) s"
  by (induction m arbitrary: s) (auto simp: assms split: prod.split)

lemma each_modify:
  assumes "\<And>k v s. put k (wrap v) s = (Inr (), upd (smap_put k v) s)"
  shows "each (\<lambda>(k, v). put k v) (map (\<lambda>(k, v). (k, wrap v)) m) s = (Inr (), foldl (\<lambda>s (k, d). upd (smap_put k d) s) s m)"
proof (induction m arbitrary: s)
  case (Cons kv m)
  then show ?case by (cases kv) (simp add: each_simps comp_simps assms)
qed (simp add: each_simps comp_simps)

lemma held_doc_fields: "held_doc st = JObj [(''held_coin'', num_map (hs_coin st)), (''held_total'', JFloat (hs_total st)),
    (''last_trade_id'', JStr (hs_last_trade_id st)), (''token_coin'', text_map (hs_token_coin st)),
    (''token_held'', num_map (hs_token_held st)), (''token_note'', text_map (hs_token_note st)),
    (''token_touch'', flag_map (hs_token_touch st))]"
  by (simp add: held_doc_def jobj_def)

lemma load_map_run:
  assumes "value_json j key (JObj []) = Inr (JObj (map (\<lambda>(k, v). (k, wrap v)) m))"
    and "\<And>k v s. put k (wrap v) s = (Inr (), upd (smap_put k v) s)"
    and "\<And>f g s. upd f (upd g s) = upd (\<lambda>x. f (g x)) s" "\<And>s. upd (\<lambda>x. x) s = s"
  shows "load_map j key put s = (Inr (), upd (\<lambda>x. foldl (\<lambda>x (k, d). smap_put k d x) x m) s)"
  using assms(1) each_modify[of put wrap upd m s, OF assms(2)] fold_update[of upd s m, OF assms(3,4)]
  by (simp add: load_map_def comp_simps json_items_def)

lemma load_kinds:
  assumes "\<And>f g s. upd f (upd g s) = upd (\<lambda>x. f (g x)) s" "\<And>s. upd (\<lambda>x. x) s = s"
  shows "value_json j key (JObj []) = Inr (num_map m) \<Longrightarrow>
      load_map j key (\<lambda>k v. bindc (of_sum (get_num v)) (\<lambda>d. modify (upd (smap_put k d)))) s = (Inr (), upd (\<lambda>x. foldl (\<lambda>x (k, d). smap_put k d x) x m) s)"
  using load_map_run[of j key JFloat m _ upd s, OF _ _ assms] by (simp add: num_map_def comp_simps get_num_def is_number_def)

lemma load_texts:
  assumes "\<And>f g s. upd f (upd g s) = upd (\<lambda>x. f (g x)) s" "\<And>s. upd (\<lambda>x. x) s = s"
  shows "value_json j key (JObj []) = Inr (text_map m) \<Longrightarrow>
      load_map j key (\<lambda>k v. bindc (of_sum (get_text v)) (\<lambda>d. modify (upd (smap_put k d)))) s = (Inr (), upd (\<lambda>x. foldl (\<lambda>x (k, d). smap_put k d x) x m) s)"
  using load_map_run[of j key JStr m _ upd s, OF _ _ assms] by (simp add: text_map_def comp_simps get_text_def)

lemma load_flags:
  "value_json j key (JObj []) = Inr (flag_map m) \<Longrightarrow>
      load_map j key (\<lambda>k v. case v of JBool b \<Rightarrow> modify (hs_token_touch_update (smap_put k b)) | _ \<Rightarrow> ret ()) s =
        (Inr (), hs_token_touch_update (\<lambda>x. foldl (\<lambda>x (k, d). smap_put k d x) x m) s)"
  by (rule load_map_run[of j key JBool m _ hs_token_touch_update s]) (simp_all add: flag_map_def comp_simps)

lemma load_run: "load_fields (held_doc st) no_held = (Inr (), \<lparr>hs_total = hs_total st,
    hs_coin = foldl (\<lambda>x (k, d). smap_put k d x) [] (hs_coin st),
    hs_token_held = foldl (\<lambda>x (k, d). smap_put k d x) [] (hs_token_held st),
    hs_token_coin = foldl (\<lambda>x (k, d). smap_put k d x) [] (hs_token_coin st),
    hs_token_note = foldl (\<lambda>x (k, d). smap_put k d x) [] (hs_token_note st),
    hs_token_touch = foldl (\<lambda>x (k, d). smap_put k d x) [] (hs_token_touch st), hs_last_trade_id = hs_last_trade_id st\<rparr>)"
proof -
  have v: "value_num (held_doc st) ''held_total'' = Inr (hs_total st)" "value_str (held_doc st) ''last_trade_id'' [] = Inr (hs_last_trade_id st)"
    by (simp_all add: held_doc_fields value_num_def jvalue_num_def value_str_def jvalue_str_def or_type_error_def is_number_def)
  have m: "value_json (held_doc st) ''held_coin'' (JObj []) = Inr (num_map (hs_coin st))"
    "value_json (held_doc st) ''token_held'' (JObj []) = Inr (num_map (hs_token_held st))"
    "value_json (held_doc st) ''token_coin'' (JObj []) = Inr (text_map (hs_token_coin st))"
    "value_json (held_doc st) ''token_note'' (JObj []) = Inr (text_map (hs_token_note st))"
    "value_json (held_doc st) ''token_touch'' (JObj []) = Inr (flag_map (hs_token_touch st))"
    by (simp_all add: held_doc_fields value_json_def)
  note runs = load_kinds[OF _ _ m(1), of hs_coin_update] load_kinds[OF _ _ m(2), of hs_token_held_update]
    load_texts[OF _ _ m(3), of hs_token_coin_update] load_texts[OF _ _ m(4), of hs_token_note_update] load_flags[OF m(5)]
  show ?thesis
    unfolding load_fields_def by (simp add: comp_simps v runs no_held_def comp_def)
qed

lemma held_roundtrip: "ledger_ok st \<Longrightarrow> load_fields (held_doc st) no_held = (Inr (), st)"
  unfolding load_run ledger_ok_def by (cases st) (simp add: smap_rebuild[of "[]", simplified])

section \<open>The ledger along a run\<close>

lemma smap_ok_add: "smap_ok m \<Longrightarrow> smap_ok (smap_add k v m)"
  by (simp add: smap_add_def smap_ok_put)

lemma smap_ok_by_coin: "smap_ok (by_coin token_coin held)"
proof -
  have "smap_ok (foldl (\<lambda>m (tok, amt). case smap_get token_coin tok of None \<Rightarrow> m | Some k \<Rightarrow> smap_add k amt m) m held)"
    if "smap_ok m" for m using that
    by (induction held arbitrary: m) (auto split: option.split simp: smap_ok_add)
  then show ?thesis by (simp add: by_coin_def)
qed

lemma smap_ok_still: "smap_ok held \<Longrightarrow> smap_ok (still_held cp held)"
  unfolding still_held_def by (rule smap_ok_filter) (simp add: smap_ok_def comp_def case_prod_beta)

lemma ledger_ops_ok:
  assumes "ledger_ok st"
  shows "ledger_ok (chain_held cp st)" "ledger_ok (ingested f st)" "ledger_ok (registered tok c st)"
  using assms
  by (auto simp: ledger_ok_def chain_held_def ingested_def registered_def book_fill_def Let_def smap_ok_by_coin smap_ok_still
      smap_ok_add smap_ok_put split: option.split)

definition written :: "VendorEnv \<Rightarrow> Vendor \<Rightarrow> bool" where
  "written y s \<longleftrightarrow> vd_file s = Some (jl_dump (vendor_jl y) (held_doc (vd_held s)))"

definition ledger_law :: "VendorEnv \<Rightarrow> Vendor \<Rightarrow> Vendor \<Rightarrow> bool" where
  "ledger_law y s t \<longleftrightarrow> (ledger_ok (vd_held s) \<longrightarrow> ledger_ok (vd_held t)) \<and>
     ((\<forall>n. ve_saved y n) \<longrightarrow> written y t \<or> vd_file t = vd_file s \<and> vd_held t = vd_held s)"

interpretation filing: evolution "ledger_law y" for y
  by unfold_locales (auto simp: ledger_law_def written_def)

lemma file_same: "vd_held t = vd_held s \<Longrightarrow> vd_file t = vd_file s \<Longrightarrow> ledger_law y s t"
  by (simp add: ledger_law_def)

lemma file_saved: "(ledger_ok (vd_held s) \<Longrightarrow> ledger_ok st) \<Longrightarrow> ledger_law y s (saved_with y st s)"
  by (auto simp: ledger_law_def written_def saved_with_def)

lemma file_parts: "obeys (ledger_law y) (look f)" "obeys (ledger_law y) (with_client m)" "obeys (ledger_law y) (with_sub m')"
  by (auto simp: obeys_def look_def with_client_def on_part_def with_sub_def intro: file_same split: prod.split option.split)

lemma file_modify: "(\<And>s. vd_held (f s) = vd_held s \<and> vd_file (f s) = vd_file s) \<Longrightarrow> obeys (ledger_law y) (modify f)"
  by (rule filing.modified) (simp add: file_same)

lemmas files = filing.pure filing.sequenced filing.branches filing.repeated file_parts file_modify

lemma file_hand: "obeys (ledger_law y) (hand_out y' a)"
  unfolding hand_out_def by (intro files; simp)

lemma save_after: "save_held y (vd_held_update f s) = (Inr (), saved_with y (f (vd_held s)) s)"
  by (simp add: save_held_run saved_with_def)

lemma file_reconcile: "obeys (ledger_law y) (reconcile_held y c)"
  unfolding obeys_def
proof
  fix s :: Vendor
  obtain r cl where cp: "chain_positions (ve_world y) (vs_funder c) (vd_client s) = (r, cl)" by fastforce
  have q: "ledger_law y s (vd_client_update (\<lambda>_. cl) s)" by (simp add: file_same)
  have "ledger_law y (vd_client_update (\<lambda>_. cl) s) (saved_with y (chain_held cp (vd_held s)) (vd_client_update (\<lambda>_. cl) s))" for cp
    by (rule file_saved) (simp add: ledger_ops_ok)
  then have w: "ledger_law y s (saved_with y (chain_held cp (vd_held s)) (vd_client_update (\<lambda>_. cl) s))" for cp
    using q filing.follows by blast
  show "ledger_law y s (snd (reconcile_held y c s))"
    using q w filing.stays
    by (cases r) (auto simp: reconcile_held_def comp_simps with_client_def on_part_def cp save_after)
qed

lemma file_ingest: "list_all good_fill fs \<Longrightarrow> ledger_law y s (snd (each (ingest_fill y) fs s))"
proof (induction fs arbitrary: s)
  case (Cons f fs)
  let ?s = "saved_with y (ingested f (vd_held s)) s"
  have "ledger_law y s ?s" by (rule file_saved) (rule ledger_ops_ok)
  moreover have "ledger_law y ?s (snd (each (ingest_fill y) fs ?s))" using Cons by simp
  ultimately show ?case using Cons.prems filing.follows by (simp add: each_simps comp_simps ingest_run)
qed (simp add: each_simps comp_simps filing.stays)

lemma file_ingested:
  assumes "\<And>b fills b'. m b = (Inr fills, b') \<Longrightarrow> list_all good_fill fills"
  shows "obeys (ledger_law y) (bindc (with_sub m) (ingest_all y))"
  unfolding obeys_def
proof
  fix s
  obtain r t where m: "with_sub m s = (r, t)" by fastforce
  have 1: "ledger_law y s t" by (rule obeysD[OF file_parts(3) m])
  show "ledger_law y s (snd (bindc (with_sub m) (ingest_all y) s))"
  proof (cases r)
    case (Inr fills)
    then have "list_all good_fill fills"
      using m assms by (auto simp: with_sub_def split: option.splits prod.splits)
    then have "ledger_law y t (snd (ingest_all y fills t))"
      unfolding ingest_all_def by (intro file_ingest) (simp add: list_all_iff)
    then show ?thesis using filing.follows[OF 1] m Inr by (simp add: bindc_def)
  qed (use 1 m in \<open>simp add: bindc_def\<close>)
qed

lemma file_news: "obeys (ledger_law y) (account_news y c cands)"
proof -
  have e: "account_news y c cands = (if \<not> vs_armed c then ret []
      else bindc (bindc (with_sub (clob_poll_fills (ve_clob y))) (ingest_all y)) (\<lambda>_.
        bindc (with_sub (list_open_orders (ve_clob y))) (\<lambda>os.
        bindc (reading vd_held) (\<lambda>st. for_each (open_order st cands) os))))"
    by (simp add: account_news_def bindc_assoc)
  show ?thesis unfolding e open_order_def
    by (intro files file_ingested) (rule polled_good)
qed

lemma file_outcome: "obeys (ledger_law y) (place_outcome y cands token status code)"
proof -
  have "obeys (ledger_law y) (bindc (modify (vd_held_update (registered token c))) (\<lambda>_. bindc (save_held y) (\<lambda>_. ret True)))" for c
    by (auto simp: obeys_def comp_simps save_after intro: file_saved ledger_ops_ok)
  note reg = this
  show ?thesis
  proof (cases "status = ''PLACED''")
    case True
    then show ?thesis unfolding place_outcome_def by (simp, intro filing.sequenced filing.branches reg file_modify filing.pure) auto
  next
    case False
    have "obeys (ledger_law y) (place_outcome y cands token status code)"
      unfolding place_outcome_def if_not_P[OF False] by (intro files; simp)
    then show ?thesis .
  qed
qed

lemma file_planned: "obeys (ledger_law y) (place_planned y cands a)"
  unfolding place_planned_def would_cross_def by (intro files file_hand file_outcome)

interpretation filing: vendor_law "ledger_law y" y c for y c
proof unfold_locales
  show "vendor_vital t = vendor_vital s \<Longrightarrow> ledger_law y s t" for s t
    by (auto simp: vendor_vital_def intro: file_same)
qed (intro file_hand file_parts file_reconcile file_news file_planned)+

definition keeps_ok :: "HeldState \<Rightarrow> HeldState \<Rightarrow> bool" where
  "keeps_ok st st' \<longleftrightarrow> (ledger_ok st \<longrightarrow> ledger_ok st')"

interpretation loading: evolution keeps_ok
  by unfold_locales (auto simp: keeps_ok_def)

lemma load_each_ok: "(\<And>k v. obeys keeps_ok (put k v)) \<Longrightarrow> obeys keeps_ok (load_map j key put)"
  unfolding load_map_def each_def by (intro loading.sequenced loading.pure loading.repeated loading.branches)

lemma load_modify_ok: "(\<And>st. ledger_ok st \<Longrightarrow> ledger_ok (f st)) \<Longrightarrow> obeys keeps_ok (modify f)"
  by (rule loading.modified) (simp add: keeps_ok_def)

lemma load_fields_ok: "obeys keeps_ok (load_fields j)"
proof -
  have t: "obeys keeps_ok (case v of JBool b \<Rightarrow> modify (hs_token_touch_update (smap_put k b)) | _ \<Rightarrow> ret ())" for k v
    by (cases v) (auto intro!: load_modify_ok loading.pure simp: ledger_ok_def smap_ok_put)
  show ?thesis unfolding load_fields_def
    by (intro loading.sequenced loading.pure load_each_ok load_modify_ok t; simp add: ledger_ok_def smap_ok_put)
qed

lemma loaded_ok: "ledger_ok (load_held rd content)"
proof -
  have n: "ledger_ok no_held" by (simp add: ledger_ok_def no_held_def)
  then have "ledger_ok (snd (load_fields j no_held))" for j
    using load_fields_ok[of j] by (simp add: obeys_def keeps_ok_def)
  then show ?thesis using n by (auto simp: load_held_def split: option.split)
qed

lemma started_law: "start_vendor y content = Inr s \<Longrightarrow> ledger_law y (blank_vendor y content) s"
proof -
  have "obeys (ledger_law y) (bindc (reconcile_held y c) (\<lambda>_. catch_up y c))" for c
    unfolding catch_up_def by (intro files file_reconcile file_ingested) (rule missed_good)
  then show "start_vendor y content = Inr s \<Longrightarrow> ledger_law y (blank_vendor y content) s"
    by (auto simp: start_vendor_def Let_def obeys_def split: option.splits if_splits)
qed

text \<open>
  C22: a restart finds the ledger as it was left.  Whatever file the process began with and at whichever
  turn it is stopped, if no writing of the file failed, then loading the file gives the ledger the
  process had (its totals, the notes of every token and the cursor of the counted fills); what is
  asked of the JSON library is that this one document is read back as it was written.
\<close>

theorem ledger_survives_restart:
  assumes "start_vendor y content = Inr s0" "(vendor_step y c)\<^sup>*\<^sup>* s0 s" "\<forall>n. ve_saved y n"
    and "ve_read y (jl_dump (vendor_jl y) (held_doc (vd_held s))) = Some (held_doc (vd_held s))"
  shows "load_held (ve_read y) (vd_file s) = vd_held s"
proof -
  have law: "ledger_law y (blank_vendor y content) s"
    using filing.follows[OF started_law[OF assms(1)] filing.run_law[OF assms(2)]] .
  have b: "vd_held (blank_vendor y content) = load_held (ve_read y) content" "vd_file (blank_vendor y content) = content"
    by (simp_all add: blank_vendor_def)
  then have "ledger_ok (vd_held s)" using law loaded_ok by (simp add: ledger_law_def)
  then show ?thesis
    using law assms(3,4) b held_roundtrip by (auto simp: ledger_law_def written_def load_held_def)
qed

section \<open>Where the ledger and the account part\<close>

definition booked :: "json list \<Rightarrow> HeldState \<Rightarrow> HeldState" where
  "booked fills st = foldl (\<lambda>st f. ingested f st) st (rev fills)"

lemma ingest_all_run:
  assumes "list_all good_fill fills"
  shows "\<exists>s'. ingest_all y fills s = (Inr (), s') \<and> vd_held s' = booked fills (vd_held s) \<and> vd_sub s' = vd_sub s"
  using ingest_each_run[of "rev fills" y s] assms by (auto simp: ingest_all_def booked_def list_all_iff)

definition fill_terms :: "ClobSubmitter \<Rightarrow> string option \<times> string set \<times> bool \<times> LiveCredentials" where
  "fill_terms b = (cs_last_trade_id b, cs_own_taker_ids b, cs_invert_side b, cs_creds b)"

lemma fetch_terms: "fetch_trades_raw x b = (r, b') \<Longrightarrow> fill_terms b' = fill_terms b"
proof -
  have "obeys (same fill_terms) (fetch_trades_raw x)"
    unfolding fetch_trades_raw_def l2_get_def now_unix_def
    by (intro same.sequenced same.pure) (auto simp: obeys_def same_def reading_no_def http_def Let_def fill_terms_def)
  then show "fetch_trades_raw x b = (r, b') \<Longrightarrow> fill_terms b' = fill_terms b"
    using obeysD same_def by metis
qed

text \<open>The fills of a batch of trades, in the terms of a submitter\<close>

definition batch_fills :: "ClobEnv \<Rightarrow> ClobSubmitter \<Rightarrow> json list \<Rightarrow> json list" where
  "batch_fills x b batch = concat (map (fills_of_trade (ce_jl x) (cs_own_taker_ids b) (cs_invert_side b) (maker_lc (cs_creds b))) batch)"

lemma news_held: "obeys (same vd_held) (bindc (with_sub (list_open_orders x)) (\<lambda>os. bindc (reading vd_held) (\<lambda>st. for_each (open_order st cands) os)))"
  unfolding open_order_def
  by (intro same.sequenced same.pure same.repeated) (auto simp: obeys_def same_def with_sub_def split: option.split prod.split)

text \<open>
  C24: a fill of the start-up is counted twice.  Let the submitter's cursor and the ledger's stand at the newest
  trade of the history when the process starts, and let a batch of trades happen before the missed fills
  are read.  Then \<open>fills_since\<close> gives the batch, the ledger counts it, the submitter's own cursor stays, and
  the first poll of the loop gives the batch again and the ledger counts it again.
\<close>

theorem startup_fill_counted_twice:
  assumes "vs_armed c" "vd_sub s = Some b" "cs_last_trade_id b = Some (hs_last_trade_id (vd_held s))"
    and "history_ok (ce_jl (ve_clob y)) (batch @ h)" "newest (ce_jl (ve_clob y)) h = Some (hs_last_trade_id (vd_held s))"
    and "fetch_trades_raw (ve_clob y) b = (Inr (JArr (take n (batch @ h))), b1)" "length batch < n"
    and "fetch_trades_raw (ve_clob y) b1 = (Inr (JArr (take m (batch @ h))), b2)" "length batch < m"
    and "catch_up y c s = (r1, s1)" "account_news y c cands s1 = (r2, s2)"
  shows "vd_held s1 = booked (batch_fills (ve_clob y) b batch) (vd_held s) \<and>
    vd_held s2 = booked (batch_fills (ve_clob y) b batch) (booked (batch_fills (ve_clob y) b batch) (vd_held s))"
proof -
  let ?x = "ve_clob y" let ?fs = "batch_fills ?x b batch" let ?F = "hs_last_trade_id (vd_held s)"
  have h: "h \<noteq> []" using assms(5) by (auto simp: newest_def)
  then have F: "?F \<noteq> []" using assms(4,5) by (cases h) (auto simp: newest_def history_ok_def)
  have t1: "fill_terms b1 = fill_terms b" by (rule fetch_terms[OF assms(6)])
  have t2: "fill_terms b2 = fill_terms b" using fetch_terms[OF assms(8)] t1 by simp
  have page: "extract_new_fills (ce_jl ?x) (JArr (take k (batch @ h))) (Some ?F) (cs_own_taker_ids d) (cs_invert_side d) (maker_lc (cs_creds d)) =
      (?fs, newest (ce_jl ?x) (batch @ h))" if "length batch < k" "fill_terms d = fill_terms b" for k d
    using page_once[OF assms(4) h that(1), of "cs_own_taker_ids b" "cs_invert_side b" "maker_lc (cs_creds b)"] that(2)
    by (simp add: assms(5) batch_fills_def fill_terms_def)
  have good: "list_all good_fill ?fs" by (auto simp: batch_fills_def list_all_iff) (use fills_good in \<open>auto simp: list_all_iff\<close>)
  have m1: "fills_since ?x ?F b = (Inr ?fs, b1)"
    using F by (simp add: fills_since_def comp_simps assms(6) page[OF assms(7) t1] del: take_append)
  let ?s = "s\<lparr>vd_sub := Some b1\<rparr>"
  obtain s1' where i1: "ingest_all y ?fs ?s = (Inr (), s1')" "vd_held s1' = booked ?fs (vd_held s)" "vd_sub s1' = Some b1"
    using ingest_all_run[OF good, of y ?s] by auto
  have s1: "s1 = s1'"
    using assms(1,10) F by (simp add: catch_up_def comp_simps with_sub_def assms(2) m1 i1(1))
  have "cs_last_trade_id b2 = Some ?F" using t2 assms(3) by (simp add: fill_terms_def)
  then obtain b3 where m2: "clob_poll_fills ?x b1 = (Inr ?fs, b3)"
    by (simp add: clob_poll_fills_def comp_simps assms(8) page[OF assms(9) t2] del: take_append)
  let ?s2 = "s1'\<lparr>vd_sub := Some b3\<rparr>"
  obtain s3 where i2: "ingest_all y ?fs ?s2 = (Inr (), s3)" "vd_held s3 = booked ?fs (vd_held s1')"
    using ingest_all_run[OF good, of y ?s2] by auto
  have "account_news y c cands s1 = bindc (with_sub (list_open_orders ?x)) (\<lambda>os. bindc (reading vd_held) (\<lambda>st. for_each (open_order st cands) os)) s3"
    using assms(1) i1(3) s1 by (simp add: account_news_def comp_simps with_sub_def m2 i2(1))
  then have "vd_held s2 = vd_held s3" using news_held[of ?x cands] assms(11) by (metis obeysD same_def)
  then show ?thesis using i1(2) i2(2) s1 by simp
qed

section \<open>The ceilings\<close>

definition capped :: "double \<Rightarrow> double \<Rightarrow> bool" where
  "capped k x \<longleftrightarrow> \<not> k < x"

lemma env_low_capped: "capped k (env_low ev name d k)"
proof -
  have "\<not> k < cmin v k" for v by (auto simp: cmin_def)
  then show ?thesis by (auto simp: capped_def env_low_def split: option.split)
qed

lemma nan_text: "atof ''nan'' = NaN"
  by code_simp


section \<open>A lost answer\<close>

text \<open>
  When the answer to an order is lost the token is not entered in the register, so if the order stands
  its fills are taken for another strategy's: the cursor moves past them, the totals do not.
\<close>

theorem lost_answer_untracked:
  assumes "place_outcome y cands token status code s = (r, s1)" "status \<noteq> ''PLACED''"
    and "smap_get (hs_token_coin (vd_held s)) token = None" "good_fill f" "text_of f ''token_id'' = token"
    and "ingest_fill y f s1 = (r2, s2)"
  shows "budgets s2 = budgets s \<and> (text_of f ''id'' \<noteq> [] \<longrightarrow> hs_last_trade_id (vd_held s2) = text_of f ''id'')"
proof -
  have "vd_held s1 = vd_held s" using assms(1,2)
    by (auto simp: place_outcome_def comp_simps split: if_splits)
  then show ?thesis using assms(3,5,6)
    by (auto simp: ingest_run[OF assms(4)] ingested_def saved_with_def budgets_def Let_def)
qed

end
