(* ===== verification/VendorRuns.thy ===== *)
theory VendorRuns
  imports VendorFills ClobRuns
begin

text \<open>
  Concrete runs of the seller of tails, and its properties applied to them: an account whose funder is
  mistyped, a dry run that corrects its ledger by the chain, and a start during which a trade happens.
\<close>

section \<open>An armed account with a mistyped funder\<close>

definition vendor_environ :: environ where
  "vendor_environ = [''PM_TRADER_LIVE'' \<mapsto> ''1'', ''TV_ARM'' \<mapsto> ''1'', ''POLYMARKET_PRIVATE_KEY'' \<mapsto> replicate 64 (CHR ''0''),
     ''POLYMARKET_FUNDER'' \<mapsto> ''x'']"

definition dark_world :: World where
  "dark_world = \<lparr>w_jl = \<lparr>jl_parse = (\<lambda>_. None), jl_dump = (\<lambda>_. ''d'')\<rparr>, w_gamma = (\<lambda>n p. \<lparr>hr_status = 0, hr_body = []\<rparr>),
     w_clob = (\<lambda>n p. \<lparr>hr_status = 0, hr_body = []\<rparr>), w_data = (\<lambda>n p. \<lparr>hr_status = 0, hr_body = []\<rparr>), w_clock = (\<lambda>n. 0)\<rparr>"

definition misfunded :: VendorEnv where
  "misfunded = \<lparr>ve_world = dark_world, ve_clob = demo_clob\<lparr>ce_environ := vendor_environ\<rparr>, ve_read = (\<lambda>_. None),
     ve_environ = vendor_environ, ve_dotenv = None, ve_db = fresh_db, ve_time = (\<lambda>n. 0), ve_signal = (\<lambda>n. n = 3),
     ve_stopfile = (\<lambda>n. False), ve_whitelist = (\<lambda>n. None), ve_saved = (\<lambda>n. True)\<rparr>"

definition polymarket :: string where
  "polymarket = ''https://clob.polymarket.com''"

lemma misfunded_ready: "cs_ready (new_submitter (demo_clob\<lparr>ce_environ := vendor_environ\<rparr>) polymarket)"
  "lc_maker (cs_creds (new_submitter (demo_clob\<lparr>ce_environ := vendor_environ\<rparr>) polymarket)) = ''x''"
proof -
  let ?x = "demo_clob\<lparr>ce_environ := vendor_environ\<rparr>"
  have l: "flag_eq vendor_environ ''PM_TRADER_LIVE'' ''1'' ''0''" by (simp add: flag_eq_def env_str_def vendor_environ_def strip_def isspace_def char_code_def)
  have k: "env_str vendor_environ ''POLYMARKET_PRIVATE_KEY'' [] = replicate 64 (CHR ''0'')" "env_str vendor_environ ''POLYMARKET_FUNDER'' [] = ''x''"
    by (simp_all add: env_str_def vendor_environ_def)
  have h: "hex_to_bytes (replicate 64 (CHR ''0'')) (lc_private_key no_creds) = (True, replicate 32 0)" by code_simp
  have p: "ce_environ ?x = vendor_environ" "ce_secp ?x = demo_secp" "ce_jl ?x = ce_jl demo_clob" "ce_http ?x = ce_http demo_clob" "ce_unix ?x = ce_unix demo_clob"
    by (simp_all add: demo_clob_def)
  have "cs_ready s \<and> lc_maker (cs_creds s) = ''x''" if s: "s = snd (construct ?x (blank_submitter vendor_environ polymarket))" for s
    using l k h unfolding s
    by (simp add: construct_def comp_simps p demo_parts account_signs Let_def derive_api_creds_def now_unix_def reading_no_def http_def
        ok2xx_def auth_fields_def demo_docs clob_poll_fills_def fetch_trades_raw_def l2_get_def trades_of_def extract_new_fills_def
        blank_submitter_def)
  from this[OF refl] show "cs_ready (new_submitter ?x polymarket)" "lc_maker (cs_creds (new_submitter ?x polymarket)) = ''x''"
    by (simp_all add: new_submitter_def p)
qed

lemma misfunded_fields: "vendor_settings misfunded = \<lparr>vs_cfg = vendor_config vendor_environ,
    vs_scan_s = trunc_int (env_low vendor_environ ''TV_SCAN_S'' (lit 300) (lit 3600)), vs_armed = True, vs_funder = []\<rparr>"
  "vendor_submitter misfunded = Some (new_submitter (demo_clob\<lparr>ce_environ := vendor_environ\<rparr>) polymarket)"
  by (simp_all add: vendor_settings_def vendor_submitter_def misfunded_def vendor_armed_def vendor_environ_def LoadDotEnv_def polymarket_def Let_def)

lemma misfunded_starts: "start_vendor misfunded None = Inr (blank_vendor misfunded None)"
proof -
  let ?s = "blank_vendor misfunded None"
  have f: "vd_sub ?s = Some (new_submitter (demo_clob\<lparr>ce_environ := vendor_environ\<rparr>) polymarket)" "hs_last_trade_id (vd_held ?s) = []"
    by (simp_all add: blank_vendor_def misfunded_fields load_held_def no_held_def)
  have "bindc (reconcile_held misfunded (vendor_settings misfunded)) (\<lambda>_. catch_up misfunded (vendor_settings misfunded)) ?s = (Inr (), ?s)"
    by (simp add: reconcile_held_def catch_up_def comp_simps f(2) misfunded_fields(1))
  then show ?thesis by (simp add: start_vendor_def Let_def f(1) misfunded_ready(1))
qed




section \<open>A dry run that corrects its ledger\<close>

definition old_ledger :: HeldState where
  "old_ledger = no_held\<lparr>hs_total := Fin 5, hs_coin := [(''btc'', Fin 5)], hs_token_held := [(''11'', Fin 5)],
     hs_token_coin := [(''11'', ''btc'')], hs_last_trade_id := ''t1''\<rparr>"

definition new_ledger :: HeldState where
  "new_ledger = old_ledger\<lparr>hs_total := Fin 2, hs_coin := [(''btc'', Fin 2)], hs_token_held := [(''11'', Fin 2)]\<rparr>"

definition position_row :: "string \<Rightarrow> json" where
  "position_row tok = JObj [(''asset'', JStr tok), (''size'', JInt 2)]"

definition settled_world :: World where
  "settled_world = dark_world\<lparr>w_jl := \<lparr>jl_parse = (\<lambda>_. Some (JArr [position_row ''11'', position_row ''12'', position_row ''13''])),
     jl_dump = (\<lambda>_. ''d'')\<rparr>, w_data := (\<lambda>n p. \<lparr>hr_status = 200, hr_body = []\<rparr>)\<rparr>"

definition dry_vendor :: VendorEnv where
  "dry_vendor = misfunded\<lparr>ve_world := settled_world, ve_environ := [''TV_FUNDER'' \<mapsto> ''0xf''],
     ve_read := (\<lambda>txt. if txt = ''d'' then Some (held_doc new_ledger) else Some (held_doc old_ledger))\<rparr>"

lemma chain_corrects: "chain_positions settled_world ''0xf'' cl = (Inr [(''11'', Fin 2), (''12'', Fin 2), (''13'', Fin 2)], cl\<lparr>cl_requests := cl_requests cl + 1\<rparr>)"
  "chain_held [(''11'', Fin 2), (''12'', Fin 2), (''13'', Fin 2)] old_ledger = new_ledger"
proof -
  have "chain_rows [position_row ''11'', position_row ''12'', position_row ''13''] [] = [(''11'', Fin 2), (''12'', Fin 2), (''13'', Fin 2)]" by code_simp
  then show "chain_positions settled_world ''0xf'' cl = (Inr [(''11'', Fin 2), (''12'', Fin 2), (''13'', Fin 2)], cl\<lparr>cl_requests := cl_requests cl + 1\<rparr>)"
    by (simp add: chain_positions_def request_run comp_simps settled_world_def dark_world_def position_rows_def elements_def)
  show "chain_held [(''11'', Fin 2), (''12'', Fin 2), (''13'', Fin 2)] old_ledger = new_ledger" by code_simp
qed

lemma old_ok: "ledger_ok old_ledger"
  by code_simp

lemma dry_starts: "\<exists>s. start_vendor dry_vendor (Some ''c'') = Inr s \<and> vd_held s = new_ledger \<and> vd_file s = Some ''d''"
proof -
  let ?s = "blank_vendor dry_vendor (Some ''c'')"
  have old: "load_held (ve_read dry_vendor) (Some ''c'') = old_ledger"
    using held_roundtrip[of old_ledger] old_ok by (simp add: load_held_def dry_vendor_def)
  have c: "vs_funder (vendor_settings dry_vendor) = ''0xf''" "\<not> vs_armed (vendor_settings dry_vendor)" "vd_sub ?s = None"
    by (simp_all add: vendor_settings_def dry_vendor_def misfunded_def vendor_armed_def LoadDotEnv_def Let_def blank_vendor_def vendor_submitter_def)
  have w: "ve_world dry_vendor = settled_world" "ve_saved dry_vendor n" "jl_dump (vendor_jl dry_vendor) doc = ''d''" for n doc
    by (simp_all add: dry_vendor_def misfunded_def vendor_jl_def settled_world_def)
  have h: "vd_held ?s = old_ledger" "hs_token_held old_ledger \<noteq> []" using old by (simp_all add: blank_vendor_def old_ledger_def)
  have d: "\<not> dabs (hs_total old_ledger - hs_total new_ledger) < lit (1 / 2)" by code_simp
  have n: "hs_last_trade_id new_ledger = ''t1''" by (simp add: new_ledger_def old_ledger_def)
  obtain s where "bindc (reconcile_held dry_vendor (vendor_settings dry_vendor)) (\<lambda>_. catch_up dry_vendor (vendor_settings dry_vendor)) ?s = (Inr (), s)"
    "vd_held s = new_ledger" "vd_file s = Some ''d''"
    using d by (simp add: reconcile_held_def catch_up_def comp_simps c w h with_client_def on_part_def chain_corrects save_after saved_with_def)
  then show ?thesis by (simp add: start_vendor_def Let_def c)
qed

lemma ledger_survives_restart_witness:
  "\<exists>s. start_vendor dry_vendor (Some ''c'') = Inr s \<and> vd_held s = new_ledger \<and> load_held (ve_read dry_vendor) (vd_file s) = vd_held s"
proof -
  obtain s where s: "start_vendor dry_vendor (Some ''c'') = Inr s" "vd_held s = new_ledger" using dry_starts by blast
  have "\<forall>n. ve_saved dry_vendor n" by (simp add: dry_vendor_def misfunded_def)
  moreover have "ve_read dry_vendor (jl_dump (vendor_jl dry_vendor) (held_doc (vd_held s))) = Some (held_doc (vd_held s))"
    by (simp add: dry_vendor_def vendor_jl_def settled_world_def s(2))
  ultimately show ?thesis
    using ledger_survives_restart[OF s(1) rtranclp.rtrancl_refl[of "vendor_step dry_vendor (vendor_settings dry_vendor)"]] s by blast
qed

section \<open>A trade between the two readings of a start\<close>

text \<open>One leg of ours, five of the token \<open>11\<close> bought; no address is set, so the top level of the row counts.\<close>

definition bought_five :: json where
  "bought_five = JObj [(''id'', JStr ''2''), (''asset_id'', JStr ''11''), (''side'', JStr ''BUY''), (''size'', JInt 5)]"

definition trades_page :: json where
  "trades_page = JArr [bought_five, numbered_trade ''1'']"

definition trading_clob :: ClobEnv where
  "trading_clob = demo_clob\<lparr>ce_jl := \<lparr>jl_parse = (\<lambda>_. Some trades_page), jl_dump = (\<lambda>_. ''d'')\<rparr>\<rparr>"

definition trading_vendor :: VendorEnv where
  "trading_vendor = misfunded\<lparr>ve_clob := trading_clob\<rparr>"

definition started_submitter :: ClobSubmitter where
  "started_submitter = (blank_submitter vendor_environ polymarket)\<lparr>cs_last_trade_id := Some ''1''\<rparr>"

definition started_vendor :: Vendor where
  "started_vendor = \<lparr>vd_run = True, vd_over = False,
     vd_held = no_held\<lparr>hs_token_coin := [(''11'', ''btc'')], hs_last_trade_id := ''1''\<rparr>, vd_file = None,
     vd_client = fresh_client, vd_sub = Some started_submitter, vd_sent = [], vd_rejects = 0, vd_neterr = 0, vd_ticks = 0,
     vd_looks = 0\<rparr>"

lemma trades_fetched: "\<exists>b'. fetch_trades_raw trading_clob b = (Inr trades_page, b')"
  by (simp add: fetch_trades_raw_def l2_get_def comp_simps now_unix_def reading_no_def http_def Let_def trades_of_def trading_clob_def
      trades_page_def is_array_def)

lemma trade_ids: "trade_id jl bought_five = ''2''"
  by (simp add: trade_id_def either_str_def find_str_def jfind_def jfind2_def not_null_def bought_five_def)

lemma five_counted: "booked (batch_fills trading_clob started_submitter [bought_five]) (vd_held started_vendor) =
    (vd_held started_vendor)\<lparr>hs_total := Fin 5, hs_coin := [(''btc'', Fin 5)], hs_token_held := [(''11'', Fin 5)], hs_last_trade_id := ''2''\<rparr>"
  "booked (batch_fills trading_clob started_submitter [bought_five])
     ((vd_held started_vendor)\<lparr>hs_total := Fin 5, hs_coin := [(''btc'', Fin 5)], hs_token_held := [(''11'', Fin 5)], hs_last_trade_id := ''2''\<rparr>) =
    (vd_held started_vendor)\<lparr>hs_total := Fin 10, hs_coin := [(''btc'', Fin 10)], hs_token_held := [(''11'', Fin 10)], hs_last_trade_id := ''2''\<rparr>"
  by code_simp+

lemma startup_fill_counted_twice_witness:
  "hs_total (vd_held (snd (catch_up trading_vendor (vendor_settings misfunded) started_vendor))) = Fin 5 \<and>
   hs_total (vd_held (snd (account_news trading_vendor (vendor_settings misfunded) []
     (snd (catch_up trading_vendor (vendor_settings misfunded) started_vendor))))) = Fin 10"
proof -
  let ?c = "vendor_settings misfunded"
  obtain r1 s1 where 1: "catch_up trading_vendor ?c started_vendor = (r1, s1)" by fastforce
  obtain r2 s2 where 2: "account_news trading_vendor ?c [] s1 = (r2, s2)" by fastforce
  have y: "ve_clob trading_vendor = trading_clob" by (simp add: trading_vendor_def)
  obtain b1 where b1: "fetch_trades_raw trading_clob started_submitter = (Inr trades_page, b1)" using trades_fetched by blast
  obtain b2 where b2: "fetch_trades_raw trading_clob b1 = (Inr trades_page, b2)" using trades_fetched by blast
  have pg: "trades_page = JArr (take 2 ([bought_five] @ [numbered_trade ''1'']))" by (simp add: trades_page_def)
  have h: "history_ok (ce_jl trading_clob) ([bought_five] @ [numbered_trade ''1''])" by (simp add: history_ok_def trade_ids numbered_ids)
  have n: "newest (ce_jl trading_clob) [numbered_trade ''1''] = Some (hs_last_trade_id (vd_held started_vendor))"
    by (simp add: newest_def numbered_ids started_vendor_def)
  have "vd_held s1 = booked (batch_fills trading_clob started_submitter [bought_five]) (vd_held started_vendor) \<and>
    vd_held s2 = booked (batch_fills trading_clob started_submitter [bought_five])
      (booked (batch_fills trading_clob started_submitter [bought_five]) (vd_held started_vendor))"
    using startup_fill_counted_twice[of ?c started_vendor started_submitter trading_vendor "[bought_five]" "[numbered_trade ''1'']" 2 b1 2 b2
        r1 s1 "[]" r2 s2] 1 2 b1 b2 h n
    by (simp add: y misfunded_fields(1) pg) (simp add: started_vendor_def started_submitter_def)
  then show ?thesis by (simp add: five_counted 1 2)
qed

section \<open>A total that is not a number\<close>

definition any_candidate :: Candidate where
  "any_candidate = \<lparr>c_cond = [], c_slug = [], c_yes_token = [], c_no_token = [], c_coin = ''btc'', c_yes_bid = 0, c_yes_ask = 0,
    c_days_left = 0, c_band_clamp = False, c_is_touch = False, c_wl_collateral = 0, c_wl_fair = 0\<rparr>"


end
