(* ===== verification/Spec2Isabelle.thy ===== *)
theory Spec2Isabelle
  imports MergeFlatten ClobWire TailVendor StoreTypes MakerLive Warmer RateLimit EngineRuns RunnerRuns ClobRuns VendorRuns
begin

text \<open>
  A verification library for the C++ program under \<open>src/cpp\<close>, which earns the liquidity rewards of
  Polymarket: it discovers the markets that pay a daily reward, chooses and funds some of them,
  keeps a two-sided quote resting in each, follows fills and prices, and leaves a market when the
  quote is run over, when the price jumps or when a kill switch falls.

  \<^bold>\<open>The program and how its parts call each other.\<close>  \<open>Runner\<close> (\<open>runner.cpp\<close>) is the loop: it reads its
  settings (\<open>config.cpp\<close>), asks the scanner (\<open>rewards.cpp\<close>) and the portfolio (\<open>portfolio.cpp\<close>) what
  to quote, and calls the engine (\<open>engine.cpp\<close>) to place, accrue and cancel quotes.  The engine keeps
  its books in the SQLite store (\<open>db.cpp\<close>), reads markets and books through the API client
  (\<open>api.cpp\<close>) or the websocket channel (\<open>ws.cpp\<close>), computes prices with \<open>orderbook.cpp\<close> and
  \<open>maker_live.cpp\<close>, and hands its orders as JSON actions to a submitter, which on real money is
  \<open>clob_submitter.cpp\<close>.  The submitter signs orders (\<open>crypto/\<close>), writes the request body
  (\<open>wire/clob_wire.cpp\<close>) and posts it under the limits of \<open>ratelimit.hpp\<close>.  Beside the loop there is
  a seller of tails (\<open>apps/tail_vendor_main.cpp\<close> with \<open>tail_vendor.cpp\<close>) and a merger of complementary tokens (\<open>chain/\<close>).

  \<^bold>\<open>Shared vocabulary.\<close>
  \<^item> \<open>Prelude\<close>: strings, bytes, decimal text and \<open>std::map\<close> (an association list kept sorted by key,
    whose contract is the locale \<open>assoc_store\<close>).
  \<^item> \<open>Double\<close>: \<open>double\<close> as IEEE binary64: a finite value is the rational it denotes and every
    operation rounds.  The laws of rounding are the locale \<open>rounding\<close>.
  \<^item> \<open>Support\<close> (\<open>env.hpp\<close>, \<open>strutil.hpp\<close>, \<open>jsonutil.hpp\<close>, \<open>app/dotenv.hpp\<close>), \<open>Models\<close> (\<open>models.hpp\<close>,
    \<open>round.hpp\<close>), \<open>Sort\<close> (\<open>std::sort\<close> with the locale \<open>comparator\<close>), \<open>Http\<close> (responses, query strings).
  \<^item> \<open>Comp\<close>: computations that change a state and may throw.  A method of a class is a value of
    \<open>('s, 'a) comp\<close>, where \<open>'s\<close> is the record of the class; an exception is an \<open>Inl\<close> and leaves the
    state as it was when it was thrown.  The locale \<open>evolution\<close> proves that a relation between states
    is respected by a computation whose parts respect it.  Frames, invariants and refinements
    are instances of it.

  \<^bold>\<open>Components, and what their lemmas show.\<close>
  \<^item> \<open>Eip712\<close>, \<open>Rlp\<close>, \<open>Eip1559\<close>, \<open>AbiCalldata\<close>, \<open>ClobWire\<close>, \<open>MergeFlatten\<close> (\<open>crypto/\<close>, \<open>chain/\<close>, \<open>wire/\<close>): Keccak-256,
    the order digest, transaction encoding and signing, calldata, order bodies, and the merge
    executor with its trace of node calls.  Encoders are inverted by decoders written as the
    reader of the bytes would (locale \<open>prefix_codec\<close>), so no field can be taken for another; a
    signed transaction decodes to what was asked; a merge is sent only through both gates.
  \<^item> \<open>OrderBook\<close>, \<open>MakerLive\<close>, \<open>Warmer\<close>, \<open>RateLimit\<close> (\<open>orderbook.cpp\<close>, \<open>maker_live.cpp\<close>, \<open>ratelimit.hpp\<close>): fills
    and spread search, the two-sided quotes and the bot's state machine, the keep-warm thread and the
    token buckets.  Quotes stay between one tick and one minus a tick, the inventory within its
    bounds, a halted bot sends nothing but the cancellation, a blocking acquire returns.
  \<^item> \<open>Database\<close>, \<open>StoreTypes\<close> (\<open>db.cpp\<close>): every statement on the tables.  The schema's constraints are
    a type every call preserves; keys are stable, and orders and quotes have one-way life cycles.
    The locale \<open>row_store\<close> is the contract of a table, interpreted on three of them.
  \<^item> \<open>Rewards\<close>, \<open>Api\<close>, \<open>Portfolio\<close>, \<open>Config\<close>: pool parsing and scoring and the order of a scan; the client
    with its cache; the choice of pools and water-filling; defaults and the environment.
  \<^item> \<open>Engine\<close>, \<open>EngineProofs\<close>, \<open>EngineRuns\<close> (\<open>engine.cpp\<close>): placing, cancelling, accruing on paper and
    live, reconciliation with the chain.  The books balance, a failed live placement is rolled
    back, every engine call is a sequence of store calls (a refinement), and what may be
    handed to the submitter is stated branch by branch.
  \<^item> \<open>ClobAmounts\<close>, \<open>Clob\<close>, \<open>ClobProofs\<close>, \<open>ClobFills\<close>, \<open>ClobRuns\<close> (\<open>clob_submitter.cpp\<close>): the submitter on the real
    exchange, from the environment and the derived credentials to the requests it hands to
    libcurl, with the calls of all threads as the step relation \<open>clob_step\<close>.  The locale \<open>clob_law\<close>
    lifts a law of single calls to every run.  The signed amounts have exactly the price asked for,
    every order posted is signed by the account's key, a poll repeats and loses no trade, a
    flattening reports what was matched.  \<open>clob_submitter\<close> is the object in the place of the engine's
    submitter, where a live placement is all or nothing on the exchange.
  \<^item> \<open>Ws\<close> (\<open>ws.cpp\<close>): the market and user channels and their reader threads as a step relation.
  \<^item> \<open>Runner\<close>, \<open>RunnerLaws\<close>, \<open>RunnerSelect\<close>, \<open>RunnerPaper\<close>, \<open>RunnerProofs\<close>, \<open>RunnerRuns\<close> (\<open>runner.cpp\<close>): the loop, its
    callbacks and its threads as the step relation \<open>runner_step\<close>.  The locale \<open>runner_law\<close> lifts a law of
    the few kinds of change the loop makes to every run; a kill is final, a run on paper sends
    nothing, fills are counted once, a selection respects filters, cooldowns and the budget.
  \<^item> \<open>TailVendor\<close> (\<open>tail_vendor.cpp\<close>): candidates, one planning round and its caps.
  \<^item> \<open>VendorLoop\<close>, \<open>VendorProofs\<close>, \<open>VendorLedger\<close>, \<open>VendorFills\<close>, \<open>VendorRuns\<close> (\<open>apps/tail_vendor_main.cpp\<close>): the process
    that sells tails: settings under the compiled-in ceilings, the ledger of held tokens with its file,
    the scan, the whitelist, the execution of a plan through the submitter of \<open>Clob\<close>, and the rules that
    halt it, with its turns as the step relation \<open>vendor_step\<close>.  The locale \<open>vendor_law\<close> lifts a law of the
    few changes a turn makes to every run.  A turn buys only what the whitelist names and the plan
    allows, only signals, the stop file and refusals end the loop, a restart finds the ledger again.
  The theories \<open>EngineRuns\<close>, \<open>RunnerRuns\<close>, \<open>ClobRuns\<close> and \<open>VendorRuns\<close> hold concrete runs, on which the
  properties of the engine, of the loop, of the submitter and of the seller of tails are applied.

  \<^bold>\<open>Bounds and fuel.\<close>  Loops that follow data are structural recursions.  The water-filling loop is
  \<open>while_option\<close> and shown to end (\<open>waterfill_returns\<close>); a blocking \<open>acquire\<close> runs over the list of
  clock readings it gets and is shown to return by the reading that passes its deadline; \<open>absorb\<close>
  and \<open>nat_str\<close> end by a measure.  There is no fuel whose end is a result of the program: the
  scans that page are bounded by the page count the source has, a flattening by its six attempts, the
  waits of the seller of tails by the seconds between two scans.  Machine integers are words
  (\<open>u64\<close>, \<open>8 word\<close>) where they wrap, and \<open>int\<close> where the source's range cannot be left.

  \<^bold>\<open>Parameters.\<close>  Code that is not part of the repository is an argument of what uses it: libsecp256k1
  (\<open>secp256k1\<close>), HMAC, \<open>libm\<close>, the text side of the JSON library (\<open>jlib\<close>), the network (which answers the
  n-th request), clocks and random bytes (which answer the n-th reading), the position service
  and the files the loop looks at.

  \<^bold>\<open>Not modelled.\<close>  Sockets, TLS, the curl handle and connection pools, \<open>background_writer\<close>, file locks:
  operating-system code whose effect appears as a parameter's answer.  Telemetry
  (\<open>dds_publisher.cpp\<close> and the generated types under \<open>telemetry/generated\<close>) and all texts on standard error:
  they are not read back by the program.  The vendored JSON library's parser and printer.  The
  Python backtests.
\<close>

end
